(* ===== verification/Api_Prelude.thy ===== *)
theory Api_Prelude
  imports Complex_Main "HOL-Library.Sublist" "HOL-Library.Code_Target_Nat"
begin

text \<open>
  Shared vocabulary of the development.

  \<^item> Exceptions are values: a fallible operation returns \<open>'e + 'a\<close>, \<open>Inl\<close> being the
    raised exception. \<open>res_bind\<close> sequences such operations (an exception stops the
    computation), \<open>res_map\<close> maps the result.
  \<^item> The named collections \<open>res_simps\<close> (unfolding of the result combinators) and
    \<open>py_text\<close> (facts on the modelled part of Python's \<open>str\<close>) carry the component proofs.
  \<^item> A Python value that is tested for being a finite number (\<open>isinstance\<close>,
    \<open>math.isfinite\<close>) is a \<open>pynum\<close>; a finite float is an exact rational, so float rounding
    is not modelled.
\<close>

named_theorems res_simps \<open>unfolding of the result combinators\<close>
named_theorems py_text \<open>facts about the modelled operations of Python strings\<close>

subsection \<open>Results\<close>

definition res_bind :: "'e + 'a \<Rightarrow> ('a \<Rightarrow> 'e + 'b) \<Rightarrow> 'e + 'b" where
  "res_bind m f = (case m of Inl e \<Rightarrow> Inl e | Inr x \<Rightarrow> f x)"

definition res_map :: "('a \<Rightarrow> 'b) \<Rightarrow> 'e + 'a \<Rightarrow> 'e + 'b" where
  "res_map f m = (case m of Inl e \<Rightarrow> Inl e | Inr x \<Rightarrow> Inr (f x))"

fun is_ok :: "'e + 'a \<Rightarrow> bool" where
  "is_ok (Inr x) = True"
| "is_ok (Inl e) = False"

lemma res_bind_Inl [simp, res_simps]: "res_bind (Inl e) f = Inl e"
  by (simp add: res_bind_def)

lemma res_bind_Inr [simp, res_simps]: "res_bind (Inr x) f = f x"
  by (simp add: res_bind_def)

lemma res_bind_eq_Inr [simp]:
  "res_bind m f = Inr y \<longleftrightarrow> (\<exists>x. m = Inr x \<and> f x = Inr y)"
  by (cases m) simp_all

lemma res_bind_eq_Inl:
  "res_bind m f = Inl e \<longleftrightarrow> m = Inl e \<or> (\<exists>x. m = Inr x \<and> f x = Inl e)"
  by (cases m) auto

lemma res_map_simps [simp, res_simps]:
  "res_map f (Inl e) = Inl e"
  "res_map f (Inr x) = Inr (f x)"
  by (simp_all add: res_map_def)

lemma res_map_eq_Inr [simp]: "res_map f m = Inr y \<longleftrightarrow> (\<exists>x. m = Inr x \<and> f x = y)"
  by (cases m) auto

text \<open>\<open>for x in xs: f(x)\<close> where \<open>f\<close> may raise: the first exception stops the loop.\<close>

fun res_mapM :: "('a \<Rightarrow> 'e + 'b) \<Rightarrow> 'a list \<Rightarrow> 'e + 'b list" where
  "res_mapM f [] = Inr []"
| "res_mapM f (x # xs) = res_bind (f x) (\<lambda>y. res_bind (res_mapM f xs) (\<lambda>ys. Inr (y # ys)))"

lemma res_mapM_length: "res_mapM f xs = Inr ys \<Longrightarrow> length ys = length xs"
  by (induction xs arbitrary: ys) auto

lemma res_mapM_nth:
  "res_mapM f xs = Inr ys \<Longrightarrow> i < length xs \<Longrightarrow> f (xs ! i) = Inr (ys ! i)"
proof (induction xs arbitrary: ys i)
  case (Cons x xs)
  then show ?case by (cases i) auto
qed simp

lemma res_mapM_set:
  "res_mapM f xs = Inr ys \<Longrightarrow> x \<in> set xs \<Longrightarrow> \<exists>y \<in> set ys. f x = Inr y"
  by (induction xs arbitrary: ys) auto

subsection \<open>Numbers as Python values\<close>

datatype pynum = PyBool bool | PyInt int | PyFloat rat | PyNan | PyInf | PyNegInf | PyNotNumber

text \<open>
  \<open>isinstance(v, bool) or not isinstance(v, (int, float)) or not math.isfinite(v)\<close> is
  \<open>finite_number v = None\<close>; otherwise the number is returned.
\<close>

fun finite_number :: "pynum \<Rightarrow> rat option" where
  "finite_number (PyInt i) = Some (of_int i)"
| "finite_number (PyFloat q) = Some q"
| "finite_number (PyBool b) = None"
| "finite_number PyNan = None"
| "finite_number PyInf = None"
| "finite_number PyNegInf = None"
| "finite_number PyNotNumber = None"

subsection \<open>Lists and maps\<close>

lemma find_Some_in: "find P xs = Some x \<Longrightarrow> x \<in> set xs \<and> P x"
  by (induction xs) (auto split: if_splits)

lemma find_None_all: "find P xs = None \<longleftrightarrow> (\<forall>x \<in> set xs. \<not> P x)"
  by (induction xs) auto

lemma dropWhile_rev_append:
  "\<exists>zs. rev (dropWhile P (rev xs)) @ zs = xs \<and> (\<forall>z \<in> set zs. P z)"
proof -
  have "rev xs = takeWhile P (rev xs) @ dropWhile P (rev xs)" by simp
  then have "xs = rev (dropWhile P (rev xs)) @ rev (takeWhile P (rev xs))"
    by (metis rev_append rev_rev_ident)
  then show ?thesis by (metis set_rev set_takeWhileD)
qed

lemma find_distinct_key:
  "x \<in> set xs \<Longrightarrow> distinct (map k xs) \<Longrightarrow> find (\<lambda>y. k y = k x) xs = Some x"
  by (induction xs) force+

lemma find_append: "find P (xs @ ys) = (case find P xs of None \<Rightarrow> find P ys | Some x \<Rightarrow> Some x)"
  by (induction xs) auto

text \<open>A new row with the largest key comes last in \<open>ORDER BY\<close>.\<close>

lemma insort_key_snoc: "f x \<le> f v \<Longrightarrow> insort_key f x (ys @ [v]) = insort_key f x ys @ [v]"
  by (induction ys) auto

lemma sort_key_snoc:
  "\<forall>x \<in> set xs. f x \<le> f v \<Longrightarrow> sort_key f (xs @ [v]) = sort_key f xs @ [v]"
  by (induction xs) (auto simp: insort_key_snoc)

end
