(* ===== verification/PyText.thy ===== *)
theory PyText
  imports Api_Prelude
begin

text \<open>
  The part of Python's \<open>str\<close> that the platform uses. A Python string is modelled by its
  UTF-8 encoding, a \<open>string\<close> of 8-bit characters, so equality, \<open>in\<close>, \<open>startswith\<close>,
  \<open>split\<close> and \<open>replace\<close> on ASCII separators agree with Python. \<open>lower\<close>, \<open>upper\<close>,
  \<open>strip\<close> and \<open>isspace\<close> treat ASCII characters; the case mapping and the white space
  of other scripts are not modelled. \<open>unquote\<close> decodes percent escapes and replaces
  ill-formed UTF-8 by U+FFFD (bytes EF BF BD), as \<open>errors='replace'\<close> does.
\<close>

subsection \<open>Characters\<close>

definition ord :: "char \<Rightarrow> nat" where
  "ord c = of_char c"

definition is_space :: "char \<Rightarrow> bool" where
  "is_space c \<longleftrightarrow> (9 \<le> ord c \<and> ord c \<le> 13) \<or> (28 \<le> ord c \<and> ord c \<le> 32)"

definition is_digit :: "char \<Rightarrow> bool" where
  "is_digit c \<longleftrightarrow> 48 \<le> ord c \<and> ord c \<le> 57"

definition is_upper :: "char \<Rightarrow> bool" where
  "is_upper c \<longleftrightarrow> 65 \<le> ord c \<and> ord c \<le> 90"

definition is_lower :: "char \<Rightarrow> bool" where
  "is_lower c \<longleftrightarrow> 97 \<le> ord c \<and> ord c \<le> 122"

definition is_ascii :: "char \<Rightarrow> bool" where
  "is_ascii c \<longleftrightarrow> ord c < 128"

definition lower_char :: "char \<Rightarrow> char" where
  "lower_char c = (if is_upper c then char_of (ord c + 32) else c)"

definition upper_char :: "char \<Rightarrow> char" where
  "upper_char c = (if is_lower c then char_of (ord c - 32) else c)"

text \<open>The value of a hexadecimal digit, of either case.\<close>

definition hex_value :: "char \<Rightarrow> nat option" where
  "hex_value c =
     (if is_digit c then Some (ord c - 48)
      else if 97 \<le> ord c \<and> ord c \<le> 102 then Some (ord c - 87)
      else if 65 \<le> ord c \<and> ord c \<le> 70 then Some (ord c - 55)
      else None)"

subsection \<open>Strings\<close>

definition py_lstrip :: "string \<Rightarrow> string" where
  "py_lstrip s = dropWhile is_space s"

definition py_strip :: "string \<Rightarrow> string" where
  "py_strip s = rev (dropWhile is_space (rev (dropWhile is_space s)))"

definition py_lower :: "string \<Rightarrow> string" where
  "py_lower s = map lower_char s"

definition py_upper :: "string \<Rightarrow> string" where
  "py_upper s = map upper_char s"

text \<open>\<open>s.rstrip(c)\<close> for one character.\<close>

definition py_rstrip_char :: "char \<Rightarrow> string \<Rightarrow> string" where
  "py_rstrip_char c s = rev (dropWhile ((=) c) (rev s))"

text \<open>\<open>needle in s\<close>.\<close>

fun py_contains :: "string \<Rightarrow> string \<Rightarrow> bool" where
  "py_contains needle [] = (needle = [])"
| "py_contains needle (c # s) = (prefix needle (c # s) \<or> py_contains needle s)"

text \<open>\<open>s.split(c)\<close> for one character: always at least one piece.\<close>

fun py_split :: "char \<Rightarrow> string \<Rightarrow> string list" where
  "py_split c [] = [[]]"
| "py_split c (x # xs) =
     (if x = c then [] # py_split c xs
      else case py_split c xs of [] \<Rightarrow> [[x]] | p # ps \<Rightarrow> (x # p) # ps)"

text \<open>\<open>s.partition(c)\<close>: the text before, whether the separator was found, the text after.\<close>

fun py_partition :: "char \<Rightarrow> string \<Rightarrow> string \<times> bool \<times> string" where
  "py_partition c [] = ([], False, [])"
| "py_partition c (x # xs) =
     (if x = c then ([], True, xs)
      else case py_partition c xs of (a, f, b) \<Rightarrow> (x # a, f, b))"

text \<open>\<open>s.rpartition(c)\<close>: split at the last occurrence.\<close>

definition py_rpartition :: "char \<Rightarrow> string \<Rightarrow> string \<times> bool \<times> string" where
  "py_rpartition c s =
     (case py_partition c (rev s) of
        (a, True, b) \<Rightarrow> (rev b, True, rev a)
      | (a, False, b) \<Rightarrow> ([], False, s))"

definition py_count :: "char \<Rightarrow> string \<Rightarrow> nat" where
  "py_count c s = length (filter ((=) c) s)"

subsection \<open>Numbers in text\<close>

definition digit_char :: "nat \<Rightarrow> char" where
  "digit_char d = char_of (48 + d)"

definition hex_digit_char :: "nat \<Rightarrow> char" where
  "hex_digit_char d = (if d < 10 then char_of (48 + d) else char_of (87 + d))"

fun show_nat :: "nat \<Rightarrow> string" where
  "show_nat n = (if n < 10 then [digit_char n] else show_nat (n div 10) @ [digit_char (n mod 10)])"

definition show_int :: "int \<Rightarrow> string" where
  "show_int i = (if i < 0 then CHR ''-'' # show_nat (nat (- i)) else show_nat (nat i))"

fun show_hex :: "nat \<Rightarrow> string" where
  "show_hex n =
     (if n < 16 then [hex_digit_char n] else show_hex (n div 16) @ [hex_digit_char (n mod 16)])"

declare show_nat.simps [simp del] show_hex.simps [simp del]

text \<open>\<open>int(s)\<close> on a string of ASCII digits; \<open>int(s, 16)\<close> on a string of hexadecimal digits.\<close>

definition read_nat :: "string \<Rightarrow> nat" where
  "read_nat s = foldl (\<lambda>acc c. 10 * acc + (ord c - 48)) 0 s"

definition read_hex :: "string \<Rightarrow> nat" where
  "read_hex s = foldl (\<lambda>acc c. 16 * acc + the (hex_value c)) 0 s"

subsection \<open>Percent decoding\<close>

text \<open>\<open>urllib.parse.unquote_to_bytes\<close>: a valid escape becomes its byte, anything else stays.\<close>

fun unquote_to_bytes :: "string \<Rightarrow> string" where
  "unquote_to_bytes (p # a # b # r) =
     (if p = CHR ''%'' then
        (case (hex_value a, hex_value b) of
           (Some h, Some l) \<Rightarrow> char_of (16 * h + l) # unquote_to_bytes r
         | _ \<Rightarrow> p # unquote_to_bytes (a # b # r))
      else p # unquote_to_bytes (a # b # r))"
| "unquote_to_bytes s = s"

text \<open>
  Well-formed UTF-8 sequences: \<open>utf8_len b\<close> is the length announced by a lead byte (0 for a
  byte that starts no sequence), \<open>utf8_second\<close> the range of the second byte.
\<close>

definition utf8_len :: "nat \<Rightarrow> nat" where
  "utf8_len b =
     (if b < 128 then 1
      else if 194 \<le> b \<and> b \<le> 223 then 2
      else if 224 \<le> b \<and> b \<le> 239 then 3
      else if 240 \<le> b \<and> b \<le> 244 then 4
      else 0)"

definition utf8_second :: "nat \<Rightarrow> nat \<Rightarrow> bool" where
  "utf8_second b x \<longleftrightarrow>
     (if b = 224 then 160 \<le> x \<and> x \<le> 191
      else if b = 237 then 128 \<le> x \<and> x \<le> 159
      else if b = 240 then 144 \<le> x \<and> x \<le> 191
      else if b = 244 then 128 \<le> x \<and> x \<le> 143
      else 128 \<le> x \<and> x \<le> 191)"

definition utf8_cont :: "nat \<Rightarrow> bool" where
  "utf8_cont x \<longleftrightarrow> 128 \<le> x \<and> x \<le> 191"

text \<open>\<open>len(s)\<close>: the number of characters, not of bytes.\<close>

definition py_len :: "string \<Rightarrow> nat" where
  "py_len s = length (filter (\<lambda>c. \<not> utf8_cont (ord c)) s)"

text \<open>The number of bytes of the longest prefix that a well-formed sequence can start with.\<close>

definition utf8_good :: "string \<Rightarrow> nat" where
  "utf8_good s =
     (case s of [] \<Rightarrow> 0
      | b # r \<Rightarrow>
        (case r of [] \<Rightarrow> 1
         | x # r2 \<Rightarrow>
           if \<not> utf8_second (ord b) (ord x) then 1
           else Suc (Suc (min (utf8_len (ord b) - 2)
             (length (takeWhile (\<lambda>c. utf8_cont (ord c)) r2))))))"

text \<open>\<open>bytes.decode('utf-8', 'replace')\<close>, the result again as UTF-8.\<close>

definition replacement_char :: string where
  "replacement_char = [char_of (239::nat), char_of (191::nat), char_of (189::nat)]"

function utf8_replace :: "string \<Rightarrow> string" where
  "utf8_replace [] = []"
| "utf8_replace (b # r) =
     (let n = utf8_len (ord b) in
      if n = 1 then b # utf8_replace r
      else if n = 0 then replacement_char @ utf8_replace r
      else let k = utf8_good (b # r) in
        if k = n then take n (b # r) @ utf8_replace (drop (n - 1) r)
        else replacement_char @ utf8_replace (drop (k - 1) r))"
  by pat_completeness auto
termination
  by (relation "measure length") auto

text \<open>Is the byte string well-formed, so that \<open>decode('utf-8')\<close> does not raise?\<close>

function utf8_valid :: "string \<Rightarrow> bool" where
  "utf8_valid [] = True"
| "utf8_valid (b # r) =
     (let n = utf8_len (ord b) in
      n \<noteq> 0 \<and> utf8_good (b # r) \<ge> n \<and> utf8_valid (drop (n - 1) r))"
  by pat_completeness auto
termination
  by (relation "measure length") auto

text \<open>Maximal runs of ASCII and of non-ASCII characters (\<open>_asciire\<close> of \<open>urllib.parse\<close>).\<close>

fun ascii_runs :: "string \<Rightarrow> string list" where
  "ascii_runs [] = []"
| "ascii_runs (c # s) =
     (case ascii_runs s of
        [] \<Rightarrow> [[c]]
      | r # rs \<Rightarrow> (case r of [] \<Rightarrow> [c] # rs
          | d # _ \<Rightarrow> if is_ascii c = is_ascii d then (c # r) # rs else [c] # r # rs))"

definition unquote :: "string \<Rightarrow> string" where
  "unquote s =
     concat (map (\<lambda>r. if list_all is_ascii r then utf8_replace (unquote_to_bytes r) else r)
       (ascii_runs s))"

subsection \<open>Facts about the string operations\<close>

lemma ord_less_256 [simp]: "ord c < 256"
  by (simp add: ord_def)

lemma ord_char_of [simp]: "n < 256 \<Longrightarrow> ord (char_of n) = n"
  by (simp add: ord_def)

lemma ord_inject [simp]: "ord a = ord b \<longleftrightarrow> a = b"
  by (simp add: ord_def of_char_eq_iff)

lemma py_split_not_Nil [simp, py_text]: "py_split c s \<noteq> []"
  by (induction s) (auto split: list.splits)

lemma py_split_append [py_text]: "py_split c (a @ c # b) = py_split c a @ py_split c b"
proof (induction a)
  case (Cons x a)
  then show ?case by (cases "py_split c a") (auto simp: py_split_not_Nil)
qed simp

lemma length_py_split: "length (py_split c s) = Suc (py_count c s)"
proof (induction s)
  case (Cons x s)
  then show ?case by (cases "py_split c s") (auto simp: py_count_def)
qed (simp add: py_count_def)

lemma set_py_split: "seg \<in> set (py_split c s) \<Longrightarrow> c \<notin> set seg"
proof (induction s arbitrary: seg)
  case (Cons x s)
  then show ?case by (cases "py_split c s") (auto split: if_splits)
qed simp

lemma py_split_no_sep: "c \<notin> set s \<Longrightarrow> py_split c s = [s]"
  by (induction s) auto

lemma py_contains_iff [py_text]: "py_contains needle s \<longleftrightarrow> sublist needle s"
proof (induction s)
  case (Cons c s)
  then show ?case by (simp add: sublist_Cons_right)
qed simp

lemma py_partition_found:
  "py_partition c s = (a, True, b) \<Longrightarrow> s = a @ c # b \<and> c \<notin> set a"
  by (induction s arbitrary: a) (auto split: if_splits prod.splits)

lemma py_partition_missing:
  "py_partition c s = (a, False, b) \<Longrightarrow> a = s \<and> b = [] \<and> c \<notin> set s"
  by (induction s arbitrary: a) (auto split: if_splits prod.splits)

lemma py_partition_flag: "fst (snd (py_partition c s)) \<longleftrightarrow> c \<in> set s"
  by (induction s) (auto split: prod.splits)

lemma set_py_lower_strip: "set (py_strip s) \<subseteq> set s"
  unfolding py_strip_def using set_dropWhileD by (metis set_rev subsetI)

lemma py_strip_no_space [py_text]: "\<forall>c \<in> set s. \<not> is_space c \<Longrightarrow> py_strip s = s"
proof -
  assume a: "\<forall>c \<in> set s. \<not> is_space c"
  then have "dropWhile is_space s = s" by (cases s) auto
  moreover from a have "dropWhile is_space (rev s) = rev s"
    by (metis (full_types) dropWhile_eq_self_iff hd_in_set set_rev)
  ultimately show ?thesis by (simp add: py_strip_def)
qed

subsection \<open>Facts about percent decoding\<close>

lemma utf8_good_le: "utf8_good s \<le> length s"
  unfolding utf8_good_def by (auto split: list.splits intro: order.trans[OF min.cobounded2] length_takeWhile_le)

lemma utf8_cont_not_ascii: "utf8_cont (ord c) \<Longrightarrow> \<not> is_ascii c"
  by (simp add: utf8_cont_def is_ascii_def)

text \<open>The bytes of a multi-byte sequence, complete or cut short, are not ASCII.\<close>

lemma utf8_good_not_ascii:
  assumes "utf8_len (ord b) \<noteq> 1" and "c \<in> set (take (utf8_good (b # r)) (b # r))"
  shows "\<not> is_ascii c"
proof -
  have b: "\<not> is_ascii b" using assms(1) by (auto simp: utf8_len_def is_ascii_def split: if_splits)
  show ?thesis
  proof (cases r)
    case Nil
    then show ?thesis using assms(2) b by (simp add: utf8_good_def)
  next
    case (Cons x r2)
    let ?t = "takeWhile (\<lambda>c. utf8_cont (ord c)) r2"
    let ?m = "min (utf8_len (ord b) - 2) (length ?t)"
    have "take ?m (?t @ dropWhile (\<lambda>c. utf8_cont (ord c)) r2) = take ?m ?t"
      by (simp del: takeWhile_dropWhile_id)
    then have t: "take ?m r2 = take ?m ?t"
      by (simp only: takeWhile_dropWhile_id)
    have "\<forall>c \<in> set (take ?m r2). utf8_cont (ord c)"
      unfolding t by (meson in_set_takeD set_takeWhileD)
    then have "\<forall>c \<in> set (take ?m r2). \<not> is_ascii c"
      by (blast dest: utf8_cont_not_ascii)
    moreover have "utf8_second (ord b) (ord x) \<Longrightarrow> \<not> is_ascii x"
      by (auto simp: utf8_second_def is_ascii_def split: if_splits)
    ultimately show ?thesis using assms(2) b Cons
      by (auto simp: utf8_good_def split: if_splits)
  qed
qed

lemma replacement_not_ascii: "c \<in> set replacement_char \<Longrightarrow> \<not> is_ascii c"
  by (auto simp: replacement_char_def is_ascii_def)

lemma utf8_good_pos: "0 < utf8_good (b # r)"
  by (auto simp: utf8_good_def split: list.splits)

text \<open>
  Decoding bytes as UTF-8, with replacement, neither adds nor removes nor reorders ASCII
  characters.
\<close>

lemma utf8_replace_ascii [py_text]: "filter is_ascii (utf8_replace s) = filter is_ascii s"
proof (induction s rule: utf8_replace.induct)
  case (2 b r)
  let ?n = "utf8_len (ord b)" and ?k = "utf8_good (b # r)"
  have none: "filter is_ascii (take ?k (b # r)) = []" if "?n \<noteq> 1"
    using utf8_good_not_ascii[OF that] by (auto simp: filter_empty_conv)
  have split: "filter is_ascii (b # r) = filter is_ascii (drop (?k - 1) r)" if "?n \<noteq> 1"
  proof -
    have "b # r = take ?k (b # r) @ drop ?k (b # r)" by simp
    then have "filter is_ascii (b # r) = filter is_ascii (drop ?k (b # r))"
      using none[OF that] by (metis append_Nil filter_append)
    then show ?thesis using utf8_good_pos[of b r] by (simp add: drop_Cons')
  qed
  have rep: "filter is_ascii replacement_char = []"
    using replacement_not_ascii by (auto simp: filter_empty_conv)
  consider (one) "?n = 1" | (zero) "?n = 0" | (full) "?n \<noteq> 1" "?n \<noteq> 0" "?k = ?n"
    | (cut) "?n \<noteq> 1" "?n \<noteq> 0" "?k \<noteq> ?n" by blast
  then show ?case
  proof cases
    case one
    then show ?thesis using 2(1) by (auto simp: Let_def)
  next
    case zero
    then have "\<not> is_ascii b" by (auto simp: utf8_len_def is_ascii_def split: if_splits)
    with zero show ?thesis using 2(2)[OF refl] by (simp add: rep)
  next
    case full
    then show ?thesis using 2(3)[OF refl full(1,2) refl full(3)] none split
      by (simp add: Let_def)
  next
    case cut
    then show ?thesis using 2(4)[OF refl cut(1,2) refl cut(3)] split rep
      by (simp add: Let_def)
  qed
qed simp

lemma concat_ascii_runs [py_text]: "concat (ascii_runs s) = s"
  by (induction s) (auto split: list.splits)

lemma ascii_runs_cases:
  "r \<in> set (ascii_runs s) \<Longrightarrow>
     r \<noteq> [] \<and> (list_all is_ascii r \<or> list_all (\<lambda>c. \<not> is_ascii c) r)"
proof (induction s arbitrary: r)
  case (Cons c s)
  show ?case
  proof (cases "ascii_runs s")
    case Nil
    then show ?thesis using Cons.prems by simp
  next
    case run: (Cons r1 rs)
    then have "r1 \<noteq> [] \<and> (list_all is_ascii r1 \<or> list_all (\<lambda>c. \<not> is_ascii c) r1)"
      and "\<forall>x \<in> set rs. x \<noteq> [] \<and> (list_all is_ascii x \<or> list_all (\<lambda>c. \<not> is_ascii c) x)"
      using Cons.IH by simp_all
    with run Cons.prems show ?thesis by (auto split: list.splits if_splits)
  qed
qed simp

lemma hex_value_Some: "hex_value c = Some v \<Longrightarrow> v < 16"
  by (auto simp: hex_value_def is_digit_def split: if_splits)

text \<open>
  The only way a decoded escape can be the character of code \<open>16 * h + l\<close> is the escape
  with these two digits.
\<close>

lemma hex_value_eq_digit:
  assumes "hex_value c = Some v"
  shows "lower_char c = hex_digit_char v"
proof -
  have "ord c < 256" by simp
  consider "is_digit c" | "97 \<le> ord c \<and> ord c \<le> 102" | "65 \<le> ord c \<and> ord c \<le> 70"
    using assms by (auto simp: hex_value_def split: if_splits)
  then show ?thesis
  proof cases
    case 1
    then have "\<not> is_upper c" and "v = ord c - 48"
      using assms by (auto simp: is_digit_def is_upper_def hex_value_def)
    with 1 show ?thesis by (auto simp: lower_char_def hex_digit_char_def is_digit_def ord_def)
  next
    case 2
    then have "\<not> is_upper c" and "v = ord c - 87"
      using assms by (auto simp: is_digit_def is_upper_def hex_value_def)
    with 2 show ?thesis by (auto simp: lower_char_def hex_digit_char_def ord_def)
  next
    case 3
    then have "is_upper c" and "v = ord c - 55"
      using assms by (auto simp: is_digit_def is_upper_def hex_value_def)
    with 3 show ?thesis by (auto simp: lower_char_def hex_digit_char_def ord_def)
  qed
qed

definition escape_of :: "char \<Rightarrow> string" where
  "escape_of c = [CHR ''%'', hex_digit_char (ord c div 16), hex_digit_char (ord c mod 16)]"

lemma lower_char_percent [simp]: "lower_char (CHR ''%'') = CHR ''%''"
  by (simp add: lower_char_def is_upper_def ord_def)

lemma lower_escape_of:
  assumes "hex_value a = Some h" and "hex_value b = Some l"
  shows "py_lower (CHR ''%'' # a # b # []) = escape_of (char_of (16 * h + l))"
proof -
  have "16 * h + l < 256" using hex_value_Some[OF assms(1)] hex_value_Some[OF assms(2)] by simp
  then show ?thesis
    using hex_value_eq_digit[OF assms(1)] hex_value_eq_digit[OF assms(2)] hex_value_Some[OF assms(2)]
    by (simp add: py_lower_def escape_of_def div_add1_eq mod_add_eq[symmetric])
qed

text \<open>A character other than the percent sign whose escape does not occur is not created.\<close>

lemma unquote_to_bytes_keeps:
  assumes "\<not> sublist (escape_of c) (py_lower s)" and "c \<noteq> CHR ''%''"
    and "\<forall>x. hex_value x \<noteq> None \<longrightarrow> x \<noteq> c"
  shows "filter ((=) c) (unquote_to_bytes s) = filter ((=) c) s"
  using assms(1)
proof (induction s rule: unquote_to_bytes.induct)
  case (1 p a b r)
  show ?case
  proof (cases "p = CHR ''%'' \<and> hex_value a \<noteq> None \<and> hex_value b \<noteq> None")
    case True
    then obtain h l where hl: "hex_value a = Some h" "hex_value b = Some l" and p: "p = CHR ''%''"
      by auto
    have low: "py_lower (p # a # b # r) = escape_of (char_of (16 * h + l)) @ py_lower r"
      using lower_escape_of[OF hl] by (simp add: py_lower_def p)
    have nr: "\<not> sublist (escape_of c) (py_lower r)"
      using "1.prems" unfolding low by (meson sublist_append_leftI sublist_order.order.trans)
    have nc: "char_of (16 * h + l) \<noteq> c"
      using "1.prems" unfolding low by auto
    from hl assms(3) have "a \<noteq> c" "b \<noteq> c" by auto
    with nc nr show ?thesis using "1.IH"(3)[OF p refl hl] p hl assms(2) by auto
  next
    case False
    have sub: "\<not> sublist (escape_of c) (py_lower (a # b # r))"
      using "1.prems" by (simp add: py_lower_def sublist_Cons_right)
    have eq: "unquote_to_bytes (p # a # b # r) = p # unquote_to_bytes (a # b # r)"
      using False by (cases "hex_value a"; cases "hex_value b") auto
    have "filter ((=) c) (unquote_to_bytes (a # b # r)) = filter ((=) c) (a # b # r)"
    proof (cases "p = CHR ''%''")
      case True
      then show ?thesis
        using "1.IH"(1)[OF True refl _ sub] "1.IH"(2)[OF True refl _ _ sub] False by blast
    qed (rule "1.IH"(4)[OF _ sub])
    then show ?thesis unfolding eq by (simp only: filter.simps)
  qed
qed auto

lemma filter_ascii_char: "is_ascii c \<Longrightarrow> filter ((=) c) s = filter ((=) c) (filter is_ascii s)"
  by (induction s) auto

text \<open>
  Percent decoding keeps the number of occurrences of an ASCII character, if that character
  is neither the percent sign nor a hexadecimal digit and its escape does not occur.
\<close>

lemma unquote_count [py_text]:
  assumes "\<not> sublist (escape_of c) (py_lower s)" and "is_ascii c" and "c \<noteq> CHR ''%''"
    and "hex_value c = None"
  shows "py_count c (unquote s) = py_count c s"
proof -
  let ?f = "\<lambda>r. if list_all is_ascii r then utf8_replace (unquote_to_bytes r) else r"
  have run: "filter ((=) c) (?f r) = filter ((=) c) r" if r: "r \<in> set (ascii_runs s)" for r
  proof -
    from r obtain xs ys where "ascii_runs s = xs @ r # ys" by (metis split_list)
    then have s: "s = concat xs @ r @ concat ys"
      using concat_ascii_runs[of s] by simp
    have "py_lower s = py_lower (concat xs) @ py_lower r @ py_lower (concat ys)"
      unfolding py_lower_def by (subst s) simp
    then have "sublist (py_lower r) (py_lower s)" by (metis sublist_appendI)
    then have "\<not> sublist (escape_of c) (py_lower r)"
      using assms(1) by (meson sublist_order.order.trans)
    then have "filter ((=) c) (unquote_to_bytes r) = filter ((=) c) r"
      using assms(3,4) by (intro unquote_to_bytes_keeps) auto
    moreover have "filter ((=) c) (utf8_replace t) = filter ((=) c) t" for t
      using filter_ascii_char[OF assms(2)] utf8_replace_ascii by metis
    ultimately show ?thesis by simp
  qed
  have "filter ((=) c) (unquote s) = concat (map (filter ((=) c)) (map ?f (ascii_runs s)))"
    by (simp add: unquote_def filter_concat)
  also have "\<dots> = concat (map (filter ((=) c)) (ascii_runs s))"
    using run by (simp cong: map_cong)
  also have "\<dots> = filter ((=) c) s"
    by (metis concat_ascii_runs filter_concat)
  finally show ?thesis by (simp add: py_count_def)
qed

subsection \<open>Facts about numerals in text\<close>

lemma ord_digit_char [simp]: "d < 10 \<Longrightarrow> ord (digit_char d) = 48 + d"
  by (simp add: digit_char_def)

lemma is_digit_digit_char [simp]: "d < 10 \<Longrightarrow> is_digit (digit_char d)"
  by (simp add: is_digit_def)

lemma show_nat_digits [simp]: "list_all is_digit (show_nat n)"
proof (induction n rule: show_nat.induct)
  case (1 n)
  then show ?case by (subst show_nat.simps) simp
qed

lemma show_nat_not_Nil [simp]: "show_nat n \<noteq> []"
  by (subst show_nat.simps) simp

lemma read_nat_show_nat [simp]: "read_nat (show_nat n) = n"
proof (induction n rule: show_nat.induct)
  case (1 n)
  then show ?case by (subst show_nat.simps) (auto simp: read_nat_def)
qed

lemma show_nat_inject [simp]: "show_nat m = show_nat n \<longleftrightarrow> m = n"
  by (metis read_nat_show_nat)

lemma hd_show_nat: "0 < n \<Longrightarrow> hd (show_nat n) \<noteq> CHR ''0''"
proof (induction n rule: show_nat.induct)
  case (1 n)
  show ?case
  proof (cases "n < 10")
    case True
    then have "ord (digit_char n) \<noteq> ord (CHR ''0'')" using 1(2) by (simp add: ord_def[of "CHR ''0''"])
    then have "digit_char n \<noteq> CHR ''0''" by metis
    with True show ?thesis by (subst show_nat.simps) simp
  next
    case False
    then show ?thesis using 1(1) by (subst show_nat.simps) simp
  qed
qed

lemma length_show_nat: "n < 10 ^ k \<Longrightarrow> 0 < k \<Longrightarrow> length (show_nat n) \<le> k"
proof (induction k arbitrary: n)
  case (Suc k)
  show ?case
  proof (cases "n < 10")
    case True
    then show ?thesis by (subst show_nat.simps) simp
  next
    case False
    then have "0 < k" using Suc.prems(1) by (cases k) auto
    moreover have "n div 10 < 10 ^ k" using Suc.prems(1) by (simp add: less_mult_imp_div_less mult.commute)
    ultimately show ?thesis using Suc.IH False by (subst show_nat.simps) simp
  qed
qed simp

lemma ord_hex_digit_char [simp]:
  "d < 16 \<Longrightarrow> ord (hex_digit_char d) = (if d < 10 then 48 + d else 87 + d)"
  by (simp add: hex_digit_char_def)

lemma hex_value_hex_digit_char [simp]: "d < 16 \<Longrightarrow> hex_value (hex_digit_char d) = Some d"
  by (auto simp: hex_value_def is_digit_def)

lemma show_hex_not_Nil [simp]: "show_hex n \<noteq> []"
  by (subst show_hex.simps) simp

lemma Nil_not_show_hex [simp]: "[] \<noteq> show_hex n"
  by (metis show_hex_not_Nil)

lemma show_hex_digits [simp]: "list_all (\<lambda>c. hex_value c \<noteq> None) (show_hex n)"
proof (induction n rule: show_hex.induct)
  case (1 n)
  then show ?case by (subst show_hex.simps) simp
qed

lemma read_hex_show_hex [simp]: "read_hex (show_hex n) = n"
proof (induction n rule: show_hex.induct)
  case (1 n)
  then show ?case by (subst show_hex.simps) (auto simp: read_hex_def)
qed

lemma length_show_hex: "n < 16 ^ k \<Longrightarrow> 0 < k \<Longrightarrow> length (show_hex n) \<le> k"
proof (induction k arbitrary: n)
  case (Suc k)
  show ?case
  proof (cases "n < 16")
    case True
    then show ?thesis by (subst show_hex.simps) simp
  next
    case False
    then have "0 < k" using Suc.prems(1) by (cases k) auto
    moreover have "n div 16 < 16 ^ k" using Suc.prems(1) by (simp add: less_mult_imp_div_less mult.commute)
    ultimately show ?thesis using Suc.IH False by (subst show_hex.simps) simp
  qed
qed simp

lemma hex_value_separators [simp]:
  "hex_value (CHR '':'') = None" "hex_value (CHR ''.'') = None" "hex_value (CHR ''%'') = None"
  "hex_value (CHR ''/'') = None" "hex_value (CHR ''-'') = None"
  by (simp_all add: hex_value_def is_digit_def ord_def)

lemma is_digit_separators [simp]:
  "\<not> is_digit (CHR '':'')" "\<not> is_digit (CHR ''.'')" "\<not> is_digit (CHR ''%'')"
  "\<not> is_digit (CHR ''/'')" "\<not> is_digit (CHR ''-'')" "\<not> is_digit (CHR '','')"
  by (simp_all add: is_digit_def ord_def)

lemma show_nat_no_sep: "\<not> is_digit c \<Longrightarrow> c \<notin> set (show_nat n)"
  using show_nat_digits[of n] by (auto simp: list_all_iff)

lemma show_hex_no_sep: "hex_value c = None \<Longrightarrow> c \<notin> set (show_hex n)"
  using show_hex_digits[of n] by (auto simp: list_all_iff)

end
