(* ===== verification/PyIp.thy ===== *)
theory PyIp
  imports PyText "HOL-Library.Word"
begin

text \<open>
  Python's \<open>ipaddress\<close> module, as far as the platform uses it: \<open>ip_address\<close> (textual IPv4 and
  IPv6 addresses, IPv6 with an optional scope), \<open>compressed\<close>, \<open>ipv4_mapped\<close>, membership in
  a network, and the predicates \<open>is_loopback\<close>, \<open>is_link_local\<close>, \<open>is_unspecified\<close>,
  \<open>is_multicast\<close>, \<open>is_reserved\<close> and \<open>is_global\<close> with the address blocks of
  Python 3.12. Addresses are words of their width.
\<close>

datatype ip_address = IPv4Address "32 word" | IPv6Address "128 word" "string option"

subsection \<open>Reading addresses\<close>

text \<open>\<open>_parse_octet\<close>: one to three ASCII digits, no leading zero, at most 255.\<close>

definition parse_octet :: "string \<Rightarrow> nat option" where
  "parse_octet s =
     (if s = [] \<or> \<not> list_all is_digit s \<or> length s > 3
         \<or> (s \<noteq> ''0'' \<and> hd s = CHR ''0'') \<or> read_nat s > 255
      then None else Some (read_nat s))"

fun parse_octets :: "string list \<Rightarrow> nat list option" where
  "parse_octets [] = Some []"
| "parse_octets (s # ss) =
     (case parse_octet s of None \<Rightarrow> None
      | Some o1 \<Rightarrow> map_option ((#) o1) (parse_octets ss))"

definition parse_ipv4 :: "string \<Rightarrow> 32 word option" where
  "parse_ipv4 s =
     (let parts = py_split (CHR ''.'') s in
      if length parts \<noteq> 4 then None
      else map_option (\<lambda>os. of_nat (foldl (\<lambda>acc n. 256 * acc + n) 0 os)) (parse_octets parts))"

text \<open>\<open>_parse_hextet\<close>: one to four hexadecimal digits.\<close>

definition parse_hextet :: "string \<Rightarrow> nat option" where
  "parse_hextet s =
     (if s = [] \<or> \<not> list_all (\<lambda>c. hex_value c \<noteq> None) s \<or> length s > 4 then None
      else Some (read_hex s))"

fun parse_hextets :: "string list \<Rightarrow> nat list option" where
  "parse_hextets [] = Some []"
| "parse_hextets (s # ss) =
     (case parse_hextet s of None \<Rightarrow> None
      | Some h \<Rightarrow> map_option ((#) h) (parse_hextets ss))"

text \<open>A trailing dotted quad stands for the last two groups.\<close>

definition expand_dotted :: "string list \<Rightarrow> string list option" where
  "expand_dotted parts =
     (if CHR ''.'' \<in> set (last parts) then
        (case parse_ipv4 (last parts) of
           None \<Rightarrow> None
         | Some a \<Rightarrow> Some (butlast parts
             @ [show_hex (unat a div 65536), show_hex (unat a mod 65536)]))
      else Some parts)"

text \<open>The positions of the empty inner groups; more than one is an error.\<close>

definition inner_empty :: "string list \<Rightarrow> nat list" where
  "inner_empty parts = filter (\<lambda>i. parts ! i = []) [1 ..< length parts - 1]"

definition hextets_of_parts :: "string list \<Rightarrow> nat list option" where
  "hextets_of_parts parts =
     (case inner_empty parts of
        [] \<Rightarrow>
          (if length parts \<noteq> 8 \<or> hd parts = [] \<or> last parts = [] then None
           else parse_hextets parts)
      | [i] \<Rightarrow>
          (let hi = (if hd parts = [] then i - 1 else i);
               lo0 = length parts - i - 1;
               lo = (if last parts = [] then lo0 - 1 else lo0)
           in if (hd parts = [] \<and> hi \<noteq> 0) \<or> (last parts = [] \<and> lo \<noteq> 0) \<or> hi + lo > 7
              then None
              else (case parse_hextets (take hi parts) of None \<Rightarrow> None
                 | Some h \<Rightarrow>
                    (case parse_hextets (drop (length parts - lo) parts) of None \<Rightarrow> None
                     | Some l \<Rightarrow> Some (h @ replicate (8 - (hi + lo)) 0 @ l))))
      | _ \<Rightarrow> None)"

definition parse_ipv6_int :: "string \<Rightarrow> 128 word option" where
  "parse_ipv6_int s =
     (let parts = py_split (CHR '':'') s in
      if s = [] \<or> length parts < 3 then None
      else (case expand_dotted parts of None \<Rightarrow> None
         | Some parts' \<Rightarrow>
            (if length parts' > 9 then None
             else map_option (\<lambda>hs. of_nat (foldl (\<lambda>acc n. 65536 * acc + n) 0 hs))
               (hextets_of_parts parts'))))"

definition parse_ipv6 :: "string \<Rightarrow> ip_address option" where
  "parse_ipv6 s =
     (if CHR ''/'' \<in> set s then None
      else case py_partition (CHR ''%'') s of
        (addr, sep, scope) \<Rightarrow>
          (if sep \<and> (scope = [] \<or> CHR ''%'' \<in> set scope) then None
           else map_option (\<lambda>a. IPv6Address a (if sep then Some scope else None))
             (parse_ipv6_int addr)))"

text \<open>\<open>ipaddress.ip_address(s)\<close>; \<open>None\<close> is the \<open>ValueError\<close>.\<close>

definition ip_address_of :: "string \<Rightarrow> ip_address option" where
  "ip_address_of s =
     (case parse_ipv4 s of
        Some a \<Rightarrow> Some (IPv4Address a)
      | None \<Rightarrow> parse_ipv6 s)"

subsection \<open>Printing addresses\<close>

definition ipv4_octets :: "32 word \<Rightarrow> nat list" where
  "ipv4_octets a = map (\<lambda>i. unat a div 256 ^ i mod 256) [3, 2, 1, 0]"

definition ipv6_hextets :: "128 word \<Rightarrow> nat list" where
  "ipv6_hextets a = map (\<lambda>i. unat a div 65536 ^ i mod 65536) [7, 6, 5, 4, 3, 2, 1, 0]"

fun join_with :: "string \<Rightarrow> string list \<Rightarrow> string" where
  "join_with sep [] = []"
| "join_with sep [x] = x"
| "join_with sep (x # y # ys) = x @ sep @ join_with sep (y # ys)"

text \<open>
  \<open>_compress_hextets\<close>: the loop finds the first longest run of zero groups (start and
  length); a run of two or more is replaced by an empty group.
\<close>

fun best_zero_run ::
  "nat \<Rightarrow> nat list \<Rightarrow> nat \<Rightarrow> nat \<times> nat \<Rightarrow> nat \<times> nat" where
  "best_zero_run index [] len best = best"
| "best_zero_run index (h # hs) len best =
     (if h = 0 then
        (let len' = len + 1 in
         best_zero_run (index + 1) hs len'
           (if len' > snd best then (index + 1 - len', len') else best))
      else best_zero_run (index + 1) hs 0 best)"

definition compress_hextets :: "nat list \<Rightarrow> string list" where
  "compress_hextets hs =
     (let strs = map show_hex hs;
          (start, len) = best_zero_run 0 hs 0 (0, 0)
      in if len > 1 then
           (if start = 0 then [[]] else [])
           @ take start strs @ [[]] @ drop (start + len) strs
           @ (if start + len = length hs then [[]] else [])
         else strs)"

fun compressed :: "ip_address \<Rightarrow> string" where
  "compressed (IPv4Address a) = join_with ''.'' (map show_nat (ipv4_octets a))"
| "compressed (IPv6Address a scope) =
     join_with '':'' (compress_hextets (ipv6_hextets a))
       @ (case scope of None \<Rightarrow> [] | Some s \<Rightarrow> CHR ''%'' # s)"

subsection \<open>Networks and predicates\<close>

text \<open>\<open>address in network\<close>: the leading \<open>n\<close> bits agree.\<close>

definition in_net4 :: "32 word \<Rightarrow> 32 word \<times> nat \<Rightarrow> bool" where
  "in_net4 a net \<longleftrightarrow> drop_bit (32 - snd net) a = drop_bit (32 - snd net) (fst net)"

definition in_net6 :: "128 word \<Rightarrow> 128 word \<times> nat \<Rightarrow> bool" where
  "in_net6 a net \<longleftrightarrow> drop_bit (128 - snd net) a = drop_bit (128 - snd net) (fst net)"

definition quad :: "nat \<Rightarrow> nat \<Rightarrow> nat \<Rightarrow> nat \<Rightarrow> 32 word" where
  "quad a b c d = of_nat (((a * 256 + b) * 256 + c) * 256 + d)"

text \<open>The 128-bit address whose first four 16-bit groups are given, the rest zero.\<close>

definition groups6 :: "nat \<Rightarrow> nat \<Rightarrow> nat \<Rightarrow> nat \<Rightarrow> 128 word" where
  "groups6 a b c d = of_nat ((((a * 65536 + b) * 65536 + c) * 65536 + d) * 2 ^ 64)"

definition ipv4_private_networks :: "(32 word \<times> nat) list" where
  "ipv4_private_networks =
     [(quad 0 0 0 0, 8), (quad 10 0 0 0, 8), (quad 127 0 0 0, 8), (quad 169 254 0 0, 16),
      (quad 172 16 0 0, 12), (quad 192 0 0 0, 24), (quad 192 0 0 170, 31), (quad 192 0 2 0, 24),
      (quad 192 168 0 0, 16), (quad 198 18 0 0, 15), (quad 198 51 100 0, 24),
      (quad 203 0 113 0, 24), (quad 240 0 0 0, 4), (quad 255 255 255 255, 32)]"

definition ipv4_private_exceptions :: "(32 word \<times> nat) list" where
  "ipv4_private_exceptions = [(quad 192 0 0 9, 32), (quad 192 0 0 10, 32)]"

definition ipv6_private_networks :: "(128 word \<times> nat) list" where
  "ipv6_private_networks =
     [(1, 128), (0, 128), (281470681743360, 96), (groups6 0x64 0xff9b 1 0, 48),
      (groups6 0x100 0 0 0, 64), (groups6 0x2001 0 0 0, 23), (groups6 0x2001 0xdb8 0 0, 32),
      (groups6 0x2002 0 0 0, 16), (groups6 0xfc00 0 0 0, 7), (groups6 0xfe80 0 0 0, 10)]"

definition ipv6_private_exceptions :: "(128 word \<times> nat) list" where
  "ipv6_private_exceptions =
     [(groups6 0x2001 1 0 0 + 1, 128), (groups6 0x2001 1 0 0 + 2, 128),
      (groups6 0x2001 3 0 0, 32), (groups6 0x2001 4 0x112 0, 48),
      (groups6 0x2001 0x20 0 0, 28), (groups6 0x2001 0x30 0 0, 28)]"

definition ipv6_reserved_networks :: "(128 word \<times> nat) list" where
  "ipv6_reserved_networks =
     [(0, 8), (groups6 0x100 0 0 0, 8), (groups6 0x200 0 0 0, 7), (groups6 0x400 0 0 0, 6),
      (groups6 0x800 0 0 0, 5), (groups6 0x1000 0 0 0, 4), (groups6 0x4000 0 0 0, 3),
      (groups6 0x6000 0 0 0, 3), (groups6 0x8000 0 0 0, 3), (groups6 0xA000 0 0 0, 3),
      (groups6 0xC000 0 0 0, 3), (groups6 0xE000 0 0 0, 4), (groups6 0xF000 0 0 0, 5),
      (groups6 0xF800 0 0 0, 6), (groups6 0xFE00 0 0 0, 9)]"

fun ipv4_mapped :: "ip_address \<Rightarrow> 32 word option" where
  "ipv4_mapped (IPv6Address a scope) =
     (if unat a div 2 ^ 32 = 65535 then Some (ucast a) else None)"
| "ipv4_mapped (IPv4Address a) = None"

fun is_private :: "ip_address \<Rightarrow> bool" where
  "is_private (IPv4Address a) =
     (list_ex (in_net4 a) ipv4_private_networks \<and> \<not> list_ex (in_net4 a) ipv4_private_exceptions)"
| "is_private (IPv6Address a scope) =
     (case ipv4_mapped (IPv6Address a scope) of
        Some m \<Rightarrow> list_ex (in_net4 m) ipv4_private_networks
                  \<and> \<not> list_ex (in_net4 m) ipv4_private_exceptions
      | None \<Rightarrow> list_ex (in_net6 a) ipv6_private_networks
                \<and> \<not> list_ex (in_net6 a) ipv6_private_exceptions)"

fun is_global :: "ip_address \<Rightarrow> bool" where
  "is_global (IPv4Address a) =
     (\<not> in_net4 a (quad 100 64 0 0, 10) \<and> \<not> is_private (IPv4Address a))"
| "is_global (IPv6Address a scope) = (\<not> is_private (IPv6Address a scope))"

fun is_loopback :: "ip_address \<Rightarrow> bool" where
  "is_loopback (IPv4Address a) = in_net4 a (quad 127 0 0 0, 8)"
| "is_loopback (IPv6Address a scope) = (a = 1)"

fun is_link_local :: "ip_address \<Rightarrow> bool" where
  "is_link_local (IPv4Address a) = in_net4 a (quad 169 254 0 0, 16)"
| "is_link_local (IPv6Address a scope) = in_net6 a (groups6 0xfe80 0 0 0, 10)"

fun is_unspecified :: "ip_address \<Rightarrow> bool" where
  "is_unspecified (IPv4Address a) = (a = 0)"
| "is_unspecified (IPv6Address a scope) = (a = 0)"

fun is_multicast :: "ip_address \<Rightarrow> bool" where
  "is_multicast (IPv4Address a) = in_net4 a (quad 224 0 0 0, 4)"
| "is_multicast (IPv6Address a scope) = in_net6 a (groups6 0xff00 0 0 0, 8)"

fun is_reserved :: "ip_address \<Rightarrow> bool" where
  "is_reserved (IPv4Address a) = in_net4 a (quad 240 0 0 0, 4)"
| "is_reserved (IPv6Address a scope) = list_ex (in_net6 a) ipv6_reserved_networks"

subsection \<open>Reading back a printed address\<close>

definition wf_ip :: "ip_address \<Rightarrow> bool" where
  "wf_ip ip \<longleftrightarrow>
     (case ip of IPv4Address a \<Rightarrow> True
      | IPv6Address a None \<Rightarrow> True
      | IPv6Address a (Some sc) \<Rightarrow> sc \<noteq> [] \<and> CHR ''%'' \<notin> set sc \<and> CHR ''/'' \<notin> set sc)"

lemma py_split_join:
  "ps \<noteq> [] \<Longrightarrow> \<forall>p \<in> set ps. c \<notin> set p \<Longrightarrow> py_split c (join_with [c] ps) = ps"
  by (induction "[c]" ps rule: join_with.induct) (auto simp: py_split_append py_split_no_sep)

lemma set_join_with: "set (join_with sep ps) \<subseteq> (\<Union>p \<in> set ps. set p) \<union> set sep"
  by (induction sep ps rule: join_with.induct) auto

lemma parse_octet_show_nat [simp]: "n < 256 \<Longrightarrow> parse_octet (show_nat n) = Some n"
proof -
  assume n: "n < 256"
  then have "length (show_nat n) \<le> 3" by (intro length_show_nat) auto
  moreover have "show_nat n \<noteq> ''0'' \<Longrightarrow> hd (show_nat n) \<noteq> CHR ''0''"
    using hd_show_nat[of n] by (cases "n = 0") (auto simp: show_nat.simps digit_char_def)
  ultimately show ?thesis using n by (auto simp: parse_octet_def)
qed

lemma parse_octets_show_nat [simp]:
  "\<forall>n \<in> set ns. n < 256 \<Longrightarrow> parse_octets (map show_nat ns) = Some ns"
  by (induction ns) auto

lemma foldl_digits:
  fixes x B :: nat
  shows "foldl (\<lambda>acc n. B * acc + n) acc (map (\<lambda>i. x div B ^ i mod B) (rev [0..<k]))
    = acc * B ^ k + x mod B ^ k"
proof (induction k arbitrary: acc)
  case (Suc k)
  have "x mod (B ^ k * B) = B ^ k * (x div B ^ k mod B) + x mod B ^ k"
    by (rule mod_mult2_eq)
  with Suc show ?case by (simp add: algebra_simps)
qed simp

lemma foldl_digits_all:
  fixes x B :: nat
  assumes "x < B ^ k"
  shows "foldl (\<lambda>acc n. B * acc + n) 0 (map (\<lambda>i. x div B ^ i mod B) (rev [0..<k])) = x"
  using assms by (simp add: foldl_digits)

lemma upt_rev_lists: "[3, 2, 1, 0] = rev [0..<4]" "[7, 6, 5, 4, 3, 2, 1, 0] = rev [0..<8]"
  by (simp_all add: upt_rec)

lemma of_octets: "of_nat (foldl (\<lambda>acc n. 256 * acc + n) 0 (ipv4_octets a)) = a"
proof -
  have "unat a < 256 ^ 4" using unsigned_less[of a] by simp
  from foldl_digits_all[OF this] show ?thesis
    by (simp only: ipv4_octets_def upt_rev_lists(1)) simp
qed

lemma of_hextets: "of_nat (foldl (\<lambda>acc n. 65536 * acc + n) 0 (ipv6_hextets a)) = a"
proof -
  have "unat a < 65536 ^ 8" using unsigned_less[of a] by simp
  from foldl_digits_all[OF this] show ?thesis
    by (simp only: ipv6_hextets_def upt_rev_lists(2)) simp
qed

lemma parse_ipv4_compressed: "parse_ipv4 (compressed (IPv4Address a)) = Some a"
proof -
  let ?s = "map show_nat (ipv4_octets a)"
  have sp: "py_split (CHR ''.'') (join_with [CHR ''.''] ?s) = ?s"
    by (rule py_split_join) (auto simp: ipv4_octets_def show_nat_no_sep)
  have oct: "parse_octets ?s = Some (ipv4_octets a)"
    by (rule parse_octets_show_nat) (auto simp: ipv4_octets_def)
  have len: "length ?s = 4" by (simp add: ipv4_octets_def)
  show ?thesis
    using sp oct len of_octets[of a] by (simp add: parse_ipv4_def)
qed

text \<open>The zero run that compression picks lies inside the list and holds only zeros.\<close>

definition zero_run :: "nat list \<Rightarrow> nat \<Rightarrow> nat \<Rightarrow> bool" where
  "zero_run hs start len \<longleftrightarrow>
     start + len \<le> length hs \<and> (\<forall>i. start \<le> i \<and> i < start + len \<longrightarrow> hs ! i = 0)"

lemma best_zero_run_correct:
  assumes "best_zero_run (length pre) todo len best = (s, l)"
    and "len \<le> length pre" and "zero_run pre (length pre - len) len"
    and "zero_run pre (fst best) (snd best)"
  shows "zero_run (pre @ todo) s l"
  using assms
proof (induction todo arbitrary: pre len best)
  case Nil
  then show ?case by simp
next
  case (Cons h hs)
  let ?d = "pre @ [h]"
  have ext: "zero_run ?d (fst best) (snd best)"
    using Cons.prems(4) by (auto simp: zero_run_def nth_append)
  show ?case
  proof (cases "h = 0")
    case True
    have cur: "zero_run ?d (length ?d - (len + 1)) (len + 1)"
      using Cons.prems(2,3) True by (auto simp: zero_run_def nth_append less_Suc_eq)
    let ?b = "if len + 1 > snd best then (length pre + 1 - (len + 1), len + 1) else best"
    have "zero_run ?d (fst ?b) (snd ?b)" using cur ext by auto
    moreover have "best_zero_run (length ?d) hs (len + 1) ?b = (s, l)"
      using Cons.prems(1) True by (auto simp: Let_def split: if_splits)
    ultimately show ?thesis using Cons.IH[of ?d "len + 1" ?b] cur Cons.prems(2) by simp
  next
    case False
    have "best_zero_run (length ?d) hs 0 best = (s, l)" using Cons.prems(1) False by simp
    moreover have "zero_run ?d (length ?d - 0) 0" by (auto simp: zero_run_def)
    ultimately show ?thesis using Cons.IH[of ?d 0 best] ext by simp
  qed
qed

corollary best_zero_run_top: "best_zero_run 0 hs 0 (0, 0) = (s, l) \<Longrightarrow> zero_run hs s l"
  using best_zero_run_correct[of "[]" hs 0 "(0, 0)" s l] by (simp add: zero_run_def)

lemma parse_hextet_show_hex [simp]: "n < 65536 \<Longrightarrow> parse_hextet (show_hex n) = Some n"
proof -
  assume n: "n < 65536"
  then have "length (show_hex n) \<le> 4" by (intro length_show_hex) auto
  then show ?thesis using show_hex_digits[of n] by (simp add: parse_hextet_def del: not_None_eq)
qed

lemma parse_hextets_show_hex [simp]:
  "\<forall>n \<in> set ns. n < 65536 \<Longrightarrow> parse_hextets (map show_hex ns) = Some ns"
  by (induction ns) auto

lemma inner_empty_map_show:
  "inner_empty (map show_hex hs) = []"
  by (auto simp: inner_empty_def filter_empty_conv)

lemma inner_empty_single:
  assumes "A \<noteq> []" and "B \<noteq> []" and "\<forall>x \<in> set (tl A). x \<noteq> []" and "\<forall>x \<in> set (butlast B). x \<noteq> []"
  shows "inner_empty (A @ [] # B) = [length A]"
proof -
  let ?P = "A @ [] # B" and ?a = "length A"
  have up: "[1..<length ?P - 1] = [1..<?a] @ ?a # [Suc ?a..<length ?P - 1]"
  proof -
    have "1 \<le> ?a" and "?a < length ?P - 1" using assms(1,2) by (cases A; cases B; simp)+
    then have "[1..<length ?P - 1] = [1..<?a] @ [?a..<length ?P - 1]"
      using upt_add_eq_append[of 1 ?a "length ?P - 1 - ?a"] by simp
    then show ?thesis using \<open>?a < length ?P - 1\<close> by (simp only: upt_conv_Cons)
  qed
  have "?P ! i \<noteq> []" if "i \<in> set [1..<?a]" for i
  proof -
    from that have "?P ! i = tl A ! (i - 1)" and "i - 1 < length (tl A)"
      by (auto simp: nth_append nth_tl)
    with assms(3) show ?thesis by auto
  qed
  moreover have "?P ! i \<noteq> []" if "i \<in> set [Suc ?a..<length ?P - 1]" for i
  proof -
    from that have "?P ! i = butlast B ! (i - Suc ?a)" and "i - Suc ?a < length (butlast B)"
      by (auto simp: nth_append nth_butlast nth_Cons' )
    with assms(4) show ?thesis by auto
  qed
  ultimately show ?thesis
    unfolding inner_empty_def up by (simp add: filter_empty_conv)
qed

text \<open>Reading the groups of a compressed address gives its eight groups back.\<close>

lemma hextets_of_run:
  assumes len: "length hs = 8" and small: "\<forall>n \<in> set hs. n < 65536"
    and z: "zero_run hs s l" and l: "1 < l"
    and A: "A = (if s = 0 then [[]] else take s (map show_hex hs))"
    and B: "B = (if s + l = 8 then [[]] else drop (s + l) (map show_hex hs))"
  shows "hextets_of_parts (A @ [] # B) = Some hs"
proof -
  have sl: "s + l \<le> 8" and zero: "\<And>i. s \<le> i \<Longrightarrow> i < s + l \<Longrightarrow> hs ! i = 0"
    using z len by (auto simp: zero_run_def)
  have ne: "A \<noteq> []" "B \<noteq> []" using A B len sl by auto
  have inner: "inner_empty (A @ [] # B) = [length A]"
  proof (rule inner_empty_single)
    show "\<forall>x \<in> set (tl A). x \<noteq> []"
    proof
      fix x assume "x \<in> set (tl A)"
      then have "s \<noteq> 0" and "x \<in> set (map show_hex hs)"
        unfolding A by (auto split: if_splits dest: in_set_takeD simp: tl_take take_map)
          (metis in_set_takeD list.set_map list.set_sel(2) list.sel(2) tl_take take_map)
      then show "x \<noteq> []" by auto
    qed
    show "\<forall>x \<in> set (butlast B). x \<noteq> []"
      unfolding B by (auto dest!: in_set_butlastD in_set_dropD)
  qed (use ne in auto)
  have hd: "hd (A @ [] # B) = [] \<longleftrightarrow> s = 0"
    unfolding A using len by (cases hs) (auto simp: take_Cons')
  have last: "last (A @ [] # B) = [] \<longleftrightarrow> s + l = 8"
  proof -
    have "last (A @ [] # B) = last B" using ne by simp
    moreover have "last (map show_hex (drop (s + l) hs)) \<noteq> []" if "s + l \<noteq> 8"
      using that len sl by (simp add: last_map)
    ultimately show ?thesis by (simp add: B drop_map)
  qed
  have parts: "take s (A @ [] # B) = map show_hex (take s hs)"
    "drop (length (A @ [] # B) - (8 - (s + l))) (A @ [] # B) = map show_hex (drop (s + l) hs)"
    unfolding A B using len sl by (auto simp: take_map drop_map)
  have sm: "\<forall>n \<in> set (take s hs). n < 65536" "\<forall>n \<in> set (drop (s + l) hs). n < 65536"
    using small by (auto dest: in_set_takeD in_set_dropD)
  have "take s hs @ replicate l 0 @ drop (s + l) hs = hs"
  proof -
    have "take l (drop s hs) = replicate l 0"
      by (rule nth_equalityI) (use len sl zero in auto)
    then show ?thesis
      by (metis append_take_drop_id drop_drop add.commute)
  qed
  moreover have l8: "s + l = 8 \<Longrightarrow> 8 - s = l" by simp
  moreover have "length A = (if s = 0 then 1 else s)" "length B = (if s + l = 8 then 1 else 8 - (s + l))"
    unfolding A B using len sl by auto
  ultimately show ?thesis
    unfolding hextets_of_parts_def inner
    using hd last parts sm sl l l8 by (auto simp: Let_def)
qed

lemma hextets_of_compressed:
  assumes "length hs = 8" and "\<forall>n \<in> set hs. n < 65536"
  shows "hextets_of_parts (compress_hextets hs) = Some hs"
proof -
  obtain s l where sl: "best_zero_run 0 hs 0 (0, 0) = (s, l)" by (cases "best_zero_run 0 hs 0 (0, 0)")
  note z = best_zero_run_top[OF sl]
  show ?thesis
  proof (cases "l > 1")
    case False
    then have c: "compress_hextets hs = map show_hex hs"
      using sl by (simp add: compress_hextets_def)
    have "hs \<noteq> []" using assms(1) by auto
    then show ?thesis unfolding c hextets_of_parts_def inner_empty_map_show
      using assms by (simp add: hd_map last_map)
  next
    case True
    then have "s + l \<le> 8" using z assms(1) by (simp add: zero_run_def)
    then have "compress_hextets hs =
        (if s = 0 then [[]] else take s (map show_hex hs))
        @ [] # (if s + l = 8 then [[]] else drop (s + l) (map show_hex hs))"
      using sl True assms(1) by (auto simp: compress_hextets_def Let_def)
    then show ?thesis using hextets_of_run[OF assms z True refl refl] by simp
  qed
qed

lemma compress_hextets_parts:
  assumes "length hs = 8"
  shows "3 \<le> length (compress_hextets hs)" and "length (compress_hextets hs) \<le> 9"
    and "p \<in> set (compress_hextets hs) \<Longrightarrow> hex_value c = None \<Longrightarrow> c \<notin> set p"
proof -
  obtain s l where sl: "best_zero_run 0 hs 0 (0, 0) = (s, l)" by (cases "best_zero_run 0 hs 0 (0, 0)")
  have z: "s + l \<le> 8" using best_zero_run_top[OF sl] assms by (simp add: zero_run_def)
  show "3 \<le> length (compress_hextets hs)" "length (compress_hextets hs) \<le> 9"
    using sl z assms by (auto simp: compress_hextets_def Let_def)
  assume p: "p \<in> set (compress_hextets hs)" and c: "hex_value c = None"
  from p have "p = [] \<or> p \<in> set (map show_hex hs)"
    using sl by (auto simp: compress_hextets_def Let_def split: if_splits
        dest!: in_set_takeD in_set_dropD)
  then show "c \<notin> set p" using c by (auto dest: show_hex_no_sep)
qed

lemma ipv6_hextets_range: "length (ipv6_hextets a) = 8" "\<forall>n \<in> set (ipv6_hextets a). n < 65536"
  by (auto simp: ipv6_hextets_def)

definition hextet_text :: "128 word \<Rightarrow> string" where
  "hextet_text a = join_with '':'' (compress_hextets (ipv6_hextets a))"

lemma hextet_text_split: "py_split (CHR '':'') (hextet_text a) = compress_hextets (ipv6_hextets a)"
  unfolding hextet_text_def
proof (rule py_split_join)
  note c = compress_hextets_parts[OF ipv6_hextets_range(1)[of a]]
  show "compress_hextets (ipv6_hextets a) \<noteq> []" using c(1) by auto
  show "\<forall>p \<in> set (compress_hextets (ipv6_hextets a)). CHR '':'' \<notin> set p" using c(3) by simp
qed

lemma hextet_text_no_sep: "hex_value c = None \<Longrightarrow> c \<noteq> CHR '':'' \<Longrightarrow> c \<notin> set (hextet_text a)"
  using set_join_with[of "'':''" "compress_hextets (ipv6_hextets a)"]
    compress_hextets_parts(3)[OF ipv6_hextets_range(1)[of a]]
  unfolding hextet_text_def by fastforce

lemma parse_ipv6_int_text: "parse_ipv6_int (hextet_text a) = Some a"
proof -
  let ?P = "compress_hextets (ipv6_hextets a)"
  note c = compress_hextets_parts[OF ipv6_hextets_range(1)[of a]]
  have ne: "?P \<noteq> []" using c(1) by auto
  have "CHR ''.'' \<notin> set (last ?P)" using c(3)[of "last ?P"] ne by simp
  then have "expand_dotted ?P = Some ?P" by (simp add: expand_dotted_def)
  moreover have "hextet_text a \<noteq> []"
  proof
    assume "hextet_text a = []"
    then have "?P = [[]]" using hextet_text_split[of a] by simp
    then show False using c(1) by simp
  qed
  ultimately show ?thesis
    using c(1,2) hextets_of_compressed[OF ipv6_hextets_range[of a]] of_hextets[of a]
    by (simp add: parse_ipv6_int_def hextet_text_split Let_def)
qed

lemma parse_ipv4_None_hex: "CHR ''.'' \<notin> set s \<Longrightarrow> parse_ipv4 s = None"
  by (simp add: parse_ipv4_def py_split_no_sep)

lemma py_partition_append: "c \<notin> set a \<Longrightarrow> py_partition c (a @ c # b) = (a, True, b)"
  by (induction a) auto

lemma py_partition_none: "c \<notin> set a \<Longrightarrow> py_partition c a = (a, False, [])"
  by (induction a) auto

lemma parse_ipv4_colon: "CHR '':'' \<in> set s \<Longrightarrow> parse_ipv4 s = None"
proof (rule ccontr)
  assume c: "CHR '':'' \<in> set s" and "parse_ipv4 s \<noteq> None"
  then obtain os where os: "parse_octets (py_split (CHR ''.'') s) = Some os"
    by (auto simp: parse_ipv4_def Let_def split: if_splits)
  have digits: "parse_octets ps = Some os \<Longrightarrow> p \<in> set ps \<Longrightarrow> list_all is_digit p" for ps os p
    by (induction ps arbitrary: os) (auto split: option.splits simp: parse_octet_def split: if_splits)
  have "\<exists>p \<in> set (py_split (CHR ''.'') s). CHR '':'' \<in> set p"
    using c
  proof (induction s)
    case (Cons x s)
    then show ?case by (cases "py_split (CHR ''.'') s") auto
  qed simp
  then show False using digits[OF os] by (metis is_digit_separators(1) list_all_iff)
qed

theorem ip_address_of_compressed: "wf_ip ip \<Longrightarrow> ip_address_of (compressed ip) = Some ip"
proof (cases ip)
  case (IPv4Address a)
  then show ?thesis using parse_ipv4_compressed[of a] by (simp add: ip_address_of_def)
next
  case (IPv6Address a sc)
  assume wf: "wf_ip ip"
  have colon: "CHR '':'' \<in> set (hextet_text a)"
  proof (rule ccontr)
    assume "CHR '':'' \<notin> set (hextet_text a)"
    from py_split_no_sep[OF this] show False
      using compress_hextets_parts(1)[OF ipv6_hextets_range(1)[of a]]
      by (simp add: hextet_text_split)
  qed
  have nop: "CHR ''%'' \<notin> set (hextet_text a)" "CHR ''/'' \<notin> set (hextet_text a)"
    using hextet_text_no_sep by simp_all
  have str: "compressed ip = hextet_text a @ (case sc of None \<Rightarrow> [] | Some s \<Rightarrow> CHR ''%'' # s)"
    using IPv6Address by (simp add: hextet_text_def)
  have p4: "parse_ipv4 (compressed ip) = None" using parse_ipv4_colon colon str by simp
  have p6: "parse_ipv6 (compressed ip) = Some ip"
    using nop wf IPv6Address parse_ipv6_int_text[of a] unfolding str
    by (cases sc) (auto simp: parse_ipv6_def py_partition_append py_partition_none wf_ip_def)
  show ?thesis by (simp add: ip_address_of_def p4 p6)
qed

lemma ip_address_of_wf: "ip_address_of s = Some ip \<Longrightarrow> wf_ip ip"
proof -
  assume a: "ip_address_of s = Some ip"
  show ?thesis
  proof (cases "parse_ipv4 s")
    case None
    obtain addr sep sc where p: "py_partition (CHR ''%'') s = (addr, sep, sc)" by (metis prod_cases3)
    from None a p have "CHR ''/'' \<notin> set s" and
      "ip = IPv6Address (the (parse_ipv6_int addr)) (if sep then Some sc else None)"
      and "sep \<longrightarrow> sc \<noteq> [] \<and> CHR ''%'' \<notin> set sc"
      by (auto simp: ip_address_of_def parse_ipv6_def split: if_splits)
    moreover have "sep \<Longrightarrow> set sc \<subseteq> set s"
      using py_partition_found[of "CHR ''%''" s addr sc] p by auto
    ultimately show ?thesis by (auto simp: wf_ip_def)
  qed (use a in \<open>auto simp: ip_address_of_def wf_ip_def\<close>)
qed

end
