(* ===== verification/PyUrl.thy ===== *)
theory PyUrl
  imports PyIp
begin

text \<open>
  \<open>urllib.parse.urlsplit\<close> and the attributes of its result that the platform reads
  (\<open>scheme\<close>, \<open>path\<close>, \<open>query\<close>, \<open>fragment\<close>, \<open>username\<close>, \<open>password\<close>, \<open>hostname\<close>,
  \<open>port\<close>), in the form of Python 3.12. \<open>None\<close> as the result of \<open>urlsplit\<close> is the
  \<open>ValueError\<close>. The NFKC check of a non-ASCII network location is not modelled.
\<close>

record split_result =
  scheme :: string
  netloc :: string
  path :: string
  query :: string
  fragment :: string

definition scheme_char :: "char \<Rightarrow> bool" where
  "scheme_char c \<longleftrightarrow> is_lower c \<or> is_upper c \<or> is_digit c \<or> c \<in> set ''+-.''"

text \<open>Leading C0 controls and spaces are dropped; tab, CR and LF are removed everywhere.\<close>

definition url_clean :: "string \<Rightarrow> string" where
  "url_clean url = filter (\<lambda>c. ord c \<notin> {9, 10, 13}) (dropWhile (\<lambda>c. ord c \<le> 32) url)"

definition split_scheme :: "string \<Rightarrow> string \<times> string" where
  "split_scheme url =
     (case py_partition (CHR '':'') url of
        (s, found, rest) \<Rightarrow>
          (if found \<and> s \<noteq> [] \<and> (is_lower (hd s) \<or> is_upper (hd s)) \<and> list_all scheme_char s
           then (py_lower s, rest) else ([], url)))"

definition split_netloc :: "string \<Rightarrow> string \<times> string" where
  "split_netloc url =
     (takeWhile (\<lambda>c. c \<notin> set ''/?#'') url, dropWhile (\<lambda>c. c \<notin> set ''/?#'') url)"

text \<open>The bracketed host is an IPv6 address or a future address literal.\<close>

definition ipvfuture :: "string \<Rightarrow> bool" where
  "ipvfuture h \<longleftrightarrow>
     (case h of [] \<Rightarrow> False
      | v # r \<Rightarrow> (case py_partition (CHR ''.'') r of
          (a, found, b) \<Rightarrow> v = CHR ''v'' \<and> found \<and> a \<noteq> [] \<and> b \<noteq> []
            \<and> list_all (\<lambda>c. hex_value c \<noteq> None) a))"

definition bracketed_host_ok :: "string \<Rightarrow> bool" where
  "bracketed_host_ok h \<longleftrightarrow>
     (if prefix ''v'' h then ipvfuture h
      else (case ip_address_of h of
              Some (IPv6Address a sc) \<Rightarrow> True
            | Some (IPv4Address a) \<Rightarrow> False
            | None \<Rightarrow> False))"

definition netloc_ok :: "string \<Rightarrow> bool" where
  "netloc_ok n \<longleftrightarrow>
     (let opening = CHR ''['' \<in> set n; closing = CHR '']'' \<in> set n in
      opening = closing
      \<and> (opening \<longrightarrow>
          (case py_partition (CHR ''['') n of (a, f, r) \<Rightarrow>
             (case py_partition (CHR '']'') r of (h, g, b) \<Rightarrow> bracketed_host_ok h))))"

definition urlsplit :: "string \<Rightarrow> split_result option" where
  "urlsplit url0 =
     (let url1 = url_clean url0;
          (sch, url2) = split_scheme url1;
          (nl, url3) = (if prefix ''//'' url2 then split_netloc (drop 2 url2) else ([], url2))
      in if \<not> netloc_ok nl then None
         else (case py_partition (CHR ''#'') url3 of (url4, ff, frag) \<Rightarrow>
           (case py_partition (CHR ''?'') url4 of (p, qf, q) \<Rightarrow>
             Some \<lparr>scheme = sch, netloc = nl, path = p, query = q, fragment = frag\<rparr>)))"

definition userinfo :: "split_result \<Rightarrow> (string \<times> string option) option" where
  "userinfo r =
     (case py_rpartition (CHR ''@'') (netloc r) of (u, found, h) \<Rightarrow>
        (if found then
           (case py_partition (CHR '':'') u of (name, pw_found, pw) \<Rightarrow>
              Some (name, if pw_found then Some pw else None))
         else None))"

text \<open>\<open>_hostinfo\<close>: the host text and the port text (empty when absent).\<close>

definition hostinfo :: "split_result \<Rightarrow> string \<times> string" where
  "hostinfo r =
     (case py_rpartition (CHR ''@'') (netloc r) of (u, f, h) \<Rightarrow>
       (case py_partition (CHR ''['') h of (a, br, bracketed) \<Rightarrow>
         (if br then
            (case py_partition (CHR '']'') bracketed of (host, g, rest) \<Rightarrow>
              (case py_partition (CHR '':'') rest of (b, c, port) \<Rightarrow> (host, port)))
          else
            (case py_partition (CHR '':'') h of (host, c, port) \<Rightarrow> (host, port)))))"

text \<open>\<open>hostname\<close>: \<open>None\<close> when empty; lower case up to a scope separator.\<close>

definition url_hostname :: "split_result \<Rightarrow> string option" where
  "url_hostname r =
     (case fst (hostinfo r) of [] \<Rightarrow> None
      | c # cs \<Rightarrow> (case py_partition (CHR ''%'') (c # cs) of (h, f, zone) \<Rightarrow>
          Some (py_lower h @ (if f then CHR ''%'' # zone else []))))"

text \<open>\<open>port\<close>: \<open>None\<close> when absent; \<open>ValueError\<close> (\<open>Inl\<close>) when not a number up to 65535.\<close>

definition url_port :: "split_result \<Rightarrow> unit + nat option" where
  "url_port r =
     (let p = snd (hostinfo r) in
      if p = [] then Inr None
      else if list_all is_digit p \<and> read_nat p \<le> 65535 then Inr (Some (read_nat p))
      else Inl ())"

subsection \<open>Where the characters of the parts come from\<close>

lemma set_py_partition:
  assumes "py_partition c s = (a, f, b)"
  shows "set a \<subseteq> set s" and "set b \<subseteq> set s"
  using assms py_partition_found[of c s a b] py_partition_missing[of c s a b]
  by (cases f; auto)+

lemma set_py_rpartition:
  assumes "py_rpartition c s = (a, f, b)"
  shows "set b \<subseteq> set s"
proof -
  obtain x g y where p: "py_partition c (rev s) = (x, g, y)" by (metis prod_cases3)
  then show ?thesis using assms set_py_partition[OF p]
    by (auto simp: py_rpartition_def split: bool.splits if_splits)
qed

lemma set_split_scheme: "split_scheme url = (sch, rest) \<Longrightarrow> set rest \<subseteq> set url"
proof -
  assume a: "split_scheme url = (sch, rest)"
  obtain x g y where p: "py_partition (CHR '':'') url = (x, g, y)" by (metis prod_cases3)
  then show ?thesis using a set_py_partition[OF p]
    by (auto simp: split_scheme_def split: if_splits)
qed

lemma set_url_clean: "set (url_clean url) \<subseteq> set url"
  by (auto simp: url_clean_def dest: set_dropWhileD)

lemma set_netloc:
  assumes "urlsplit url = Some r"
  shows "set (netloc r) \<subseteq> set url"
proof -
  obtain sch rest where sp: "split_scheme (url_clean url) = (sch, rest)" by (metis surj_pair)
  have "set rest \<subseteq> set url" using set_split_scheme[OF sp] set_url_clean by blast
  moreover have "netloc r = (if prefix ''//'' rest then fst (split_netloc (drop 2 rest)) else [])"
    using assms sp
    by (auto simp: urlsplit_def Let_def split_netloc_def split: if_splits prod.splits)
  moreover have "set (takeWhile P (drop 2 rest)) \<subseteq> set rest" for P
    by (meson in_set_dropD set_takeWhileD subsetI)
  ultimately show ?thesis by (auto simp: split_netloc_def split: if_splits)
qed

lemma set_hostinfo: "set (fst (hostinfo r)) \<subseteq> set (netloc r)"
proof -
  obtain u f h where 1: "py_rpartition (CHR ''@'') (netloc r) = (u, f, h)" by (metis prod_cases3)
  obtain a br b where 2: "py_partition (CHR ''['') h = (a, br, b)" by (metis prod_cases3)
  obtain c g d where 3: "py_partition (CHR '']'') b = (c, g, d)" by (metis prod_cases3)
  obtain c' g' d' where 4: "py_partition (CHR '':'') h = (c', g', d')" by (metis prod_cases3)
  have "fst (hostinfo r) = (if br then c else c')"
    using 1 2 3 4 by (auto simp: hostinfo_def split: prod.splits)
  then show ?thesis
    using set_py_rpartition[OF 1] set_py_partition[OF 2] set_py_partition[OF 3]
      set_py_partition[OF 4] by auto
qed

text \<open>Each character of the hostname is a character of the URL or its lower case form.\<close>

lemma url_hostname_chars:
  assumes "urlsplit url = Some r" and "url_hostname r = Some h" and "c \<in> set h"
  shows "\<exists>x \<in> set url. c = x \<or> c = lower_char x"
proof -
  let ?h = "fst (hostinfo r)"
  obtain a f z where p: "py_partition (CHR ''%'') ?h = (a, f, z)" by (metis prod_cases3)
  have sub: "set ?h \<subseteq> set url" using set_hostinfo set_netloc[OF assms(1)] by blast
  have "h = py_lower a @ (if f then CHR ''%'' # z else [])"
    using assms(2) p by (auto simp: url_hostname_def split: list.splits)
  moreover have "f \<Longrightarrow> CHR ''%'' \<in> set ?h" using p py_partition_flag[of "CHR ''%''" ?h] by simp
  ultimately show ?thesis
    using assms(3) sub set_py_partition[OF p] by (auto simp: py_lower_def split: if_splits)
qed

lemma lower_char_ascii [simp]: "is_ascii (lower_char c) \<longleftrightarrow> is_ascii c"
  by (auto simp: is_ascii_def lower_char_def is_upper_def)

lemma lower_char_space [simp]: "is_space (lower_char c) \<longleftrightarrow> is_space c"
  by (auto simp: is_space_def lower_char_def is_upper_def)

lemma lower_char_idem [simp]: "lower_char (lower_char c) = lower_char c"
  by (auto simp: lower_char_def is_upper_def)

lemma lower_char_eq_dot [simp]: "lower_char c = CHR ''.'' \<longleftrightarrow> c = CHR ''.''"
proof -
  have "is_upper c \<Longrightarrow> ord (lower_char c) \<noteq> ord (CHR ''.'')"
    by (simp add: lower_char_def is_upper_def ord_def[of "CHR ''.''"])
  then have "is_upper c \<Longrightarrow> lower_char c \<noteq> CHR ''.''" by metis
  moreover have "\<not> is_upper (CHR ''.'')" by (simp add: is_upper_def ord_def)
  ultimately show ?thesis by (cases "is_upper c") (auto simp: lower_char_def)
qed

lemma dropWhile_dot_map_lower:
  "dropWhile ((=) (CHR ''.'')) (map lower_char s) = map lower_char (dropWhile ((=) (CHR ''.'')) s)"
  by (induction s) (auto simp: eq_commute[of "CHR ''.''"])

lemma py_rstrip_lower:
  "py_rstrip_char (CHR ''.'') (py_lower s) = py_lower (py_rstrip_char (CHR ''.'') s)"
  using dropWhile_dot_map_lower[of "rev s"]
  by (simp add: py_rstrip_char_def py_lower_def rev_map)

end
