(* ===== verification/Destination.thy ===== *)
theory Destination
  imports PyUrl
begin

text \<open>
  The network destination policy (\<open>src/backend/app/network_safety/destination.py\<close>):
  canonical destinations, address categories and \<open>evaluate_destination_policy\<close>.
  The DNS resolver is a parameter, a function from a hostname to what \<open>resolve\<close> returns or
  \<open>None\<close> when it raises; nothing is assumed of it. \<open>encode("idna")\<close> is modelled on ASCII
  names, where it only checks the label lengths; on other names it is the parameter \<open>idna\<close>
  (\<open>None\<close> for \<open>UnicodeError\<close>).
\<close>

subsection \<open>Definitions\<close>

definition PRIVATE_LOCAL :: string where
  "PRIVATE_LOCAL = ''private_local''"

definition EXTERNAL_PUBLIC_AUTHORIZED :: string where
  "EXTERNAL_PUBLIC_AUTHORIZED = ''external_public_authorized''"

definition NETWORK_MODES :: "string list" where
  "NETWORK_MODES = [PRIVATE_LOCAL, EXTERNAL_PUBLIC_AUTHORIZED]"

datatype address_category =
  LOOPBACK | PRIVATE | LINK_LOCAL | UNSPECIFIED | MULTICAST | SPECIAL | PUBLIC

record canonical_destination =
  dest_scheme :: string
  dest_hostname :: string
  dest_port :: nat
  dest_is_ip_literal :: bool
  dest_ip_address :: "ip_address option"

record destination_policy_decision =
  ddec_allowed :: bool
  ddec_code :: string
  ddec_reason :: string
  ddec_mode :: string
  ddec_destination :: "canonical_destination option"
  ddec_resolved_addresses :: "string list"
  ddec_address_categories :: "address_category list"

text \<open>What a resolver can return: an iterable of addresses or texts, or a bare string.\<close>

datatype resolver_value = RIp ip_address | RText string | RMalformed
datatype resolver_result = RIterable "resolver_value list" | RBareString

type_synonym resolver = "string \<Rightarrow> resolver_result option"
type_synonym idna_codec = "string \<Rightarrow> string option"

definition encode_idna :: "idna_codec \<Rightarrow> string \<Rightarrow> string option" where
  "encode_idna idna h =
     (if list_all is_ascii h then
        (let labels = py_split (CHR ''.'') h in
         if list_all (\<lambda>l. 0 < length l \<and> length l < 64) (butlast labels)
            \<and> length (last labels) < 64
         then Some h else None)
      else idna h)"

definition label_char :: "char \<Rightarrow> bool" where
  "label_char c \<longleftrightarrow> is_lower c \<or> is_digit c \<or> c = CHR ''-''"

definition label_ok :: "string \<Rightarrow> bool" where
  "label_ok l \<longleftrightarrow>
     l \<noteq> [] \<and> length l \<le> 63 \<and> \<not> prefix ''-'' l \<and> \<not> suffix ''-'' l \<and> list_all label_char l"

definition parse_canonical_destination ::
  "idna_codec \<Rightarrow> string \<Rightarrow> string + canonical_destination" where
  "parse_canonical_destination idna url =
     (if url = [] \<or> CHR 0x5C \<in> set url then Inl ''destination URL is malformed''
      else if list_ex is_space url then Inl ''destination URL contains whitespace''
      else (case urlsplit url of
        None \<Rightarrow> Inl ''destination URL is malformed''
      | Some parsed \<Rightarrow>
        (let schm = py_lower (scheme parsed) in
         if schm \<notin> {''http'', ''https''} then Inl ''only http and https are supported''
         else if userinfo parsed \<noteq> None then Inl ''destination userinfo is prohibited''
         else (case url_hostname parsed of
           None \<Rightarrow> Inl ''destination hostname is missing''
         | Some h \<Rightarrow>
         if CHR ''%'' \<in> set h then Inl ''scoped IP literals are unsupported''
         else (case url_port parsed of
           Inl _ \<Rightarrow> Inl ''destination port is invalid''
         | Inr port \<Rightarrow>
         (let effective_port = (case port of Some p \<Rightarrow> p
                | None \<Rightarrow> (if schm = ''http'' then 80 else 443)) in
          if \<not> (1 \<le> effective_port \<and> effective_port \<le> 65535) then
            Inl ''destination port is invalid''
          else
          (let raw_hostname = py_lower (py_rstrip_char (CHR ''.'') h) in
           if raw_hostname = [] then Inl ''destination hostname is missing''
           else (case ip_address_of raw_hostname of
             Some literal \<Rightarrow>
               Inr \<lparr>dest_scheme = schm, dest_hostname = compressed literal,
                    dest_port = effective_port, dest_is_ip_literal = True,
                    dest_ip_address = Some literal\<rparr>
           | None \<Rightarrow>
             (case encode_idna idna raw_hostname of
               None \<Rightarrow> Inl ''destination hostname is invalid''
             | Some hostname \<Rightarrow>
               if length hostname > 253 \<or> \<not> list_all label_ok (py_split (CHR ''.'') hostname)
               then Inl ''destination hostname is invalid''
               else Inr \<lparr>dest_scheme = schm, dest_hostname = hostname,
                         dest_port = effective_port, dest_is_ip_literal = False,
                         dest_ip_address = None\<rparr>)))))))))"

definition private_v4_networks :: "(32 word \<times> nat) list" where
  "private_v4_networks = [(quad 10 0 0 0, 8), (quad 172 16 0 0, 12), (quad 192 168 0 0, 16)]"

text \<open>The body of \<open>classify_address\<close> after the unmapping of an IPv4-mapped address.\<close>

definition classify_unmapped :: "ip_address \<Rightarrow> address_category" where
  "classify_unmapped ip =
     (if ip = IPv4Address (quad 169 254 169 254) then LINK_LOCAL
      else if is_loopback ip then LOOPBACK
      else if is_link_local ip then LINK_LOCAL
      else if is_unspecified ip then UNSPECIFIED
      else if is_multicast ip then MULTICAST
      else if (case ip of
                 IPv4Address a \<Rightarrow> list_ex (in_net4 a) private_v4_networks
               | IPv6Address a sc \<Rightarrow> False) then PRIVATE
      else if (case ip of
                 IPv4Address a \<Rightarrow> False
               | IPv6Address a sc \<Rightarrow> in_net6 a (groups6 0xfc00 0 0 0, 7)) then PRIVATE
      else if is_reserved ip then SPECIAL
      else if is_global ip then PUBLIC
      else SPECIAL)"

definition classify_address :: "ip_address \<Rightarrow> address_category" where
  "classify_address ip =
     (case ipv4_mapped ip of
        Some a \<Rightarrow> classify_unmapped (IPv4Address a)
      | None \<Rightarrow> classify_unmapped ip)"

text \<open>The sort key \<open>(address.version, int(address))\<close>.\<close>

fun ip_key :: "ip_address \<Rightarrow> nat" where
  "ip_key (IPv4Address a) = unat a"
| "ip_key (IPv6Address a sc) = 2 ^ 32 + unat a"

text \<open>Sorted without duplicates; addresses that differ in their scope only keep the order given.\<close>

definition deduplicate_addresses :: "ip_address list \<Rightarrow> ip_address list" where
  "deduplicate_addresses ips = sort_key ip_key (remdups ips)"

definition canonicalize_resolver_results ::
  "resolver_result \<Rightarrow> unit + ip_address list" where
  "canonicalize_resolver_results values =
     (case values of
        RBareString \<Rightarrow> Inl ()
      | RIterable vs \<Rightarrow>
         res_map deduplicate_addresses
           (res_mapM (\<lambda>v. case v of
                RIp ip \<Rightarrow> Inr ip
              | RText s \<Rightarrow> (case ip_address_of s of Some ip \<Rightarrow> Inr ip | None \<Rightarrow> Inl ())
              | RMalformed \<Rightarrow> Inl ()) vs))"

text \<open>\<open>SystemDNSResolver.resolve\<close> over what \<open>getaddrinfo\<close> returned (\<open>None\<close>: an \<open>OSError\<close>).\<close>

definition system_resolve :: "(string \<Rightarrow> string list option) \<Rightarrow> resolver" where
  "system_resolve getaddrinfo hostname =
     (case getaddrinfo hostname of
        None \<Rightarrow> None
      | Some results \<Rightarrow>
         (case res_mapM (\<lambda>s. case ip_address_of s of Some ip \<Rightarrow> Inr ip | None \<Rightarrow> Inl ()) results of
            Inl _ \<Rightarrow> None
          | Inr ips \<Rightarrow> Some (RIterable (map RIp (deduplicate_addresses ips)))))"

definition denied ::
  "string \<Rightarrow> string \<Rightarrow> string \<Rightarrow> canonical_destination option \<Rightarrow> string list
   \<Rightarrow> address_category list \<Rightarrow> destination_policy_decision" where
  "denied mode cd rsn destination addresses categories =
     \<lparr>ddec_allowed = False, ddec_code = cd, ddec_reason = rsn, ddec_mode = mode,
      ddec_destination = destination, ddec_resolved_addresses = addresses,
      ddec_address_categories = categories\<rparr>"

text \<open>The addresses of a destination: the literal itself, or what the resolver returns.\<close>

definition destination_addresses :: "resolver \<Rightarrow> canonical_destination \<Rightarrow> unit + ip_address list" where
  "destination_addresses resolve d =
     (case dest_ip_address d of
        Some ip \<Rightarrow> canonicalize_resolver_results (RIterable [RIp ip])
      | None \<Rightarrow>
         (case resolve (dest_hostname d) of
            None \<Rightarrow> Inl ()
          | Some raw \<Rightarrow> canonicalize_resolver_results raw))"

definition evaluate_destination_policy ::
  "idna_codec \<Rightarrow> resolver \<Rightarrow> string \<Rightarrow> string \<Rightarrow> destination_policy_decision" where
  "evaluate_destination_policy idna resolve mode url =
     (if mode \<notin> set NETWORK_MODES then
        denied mode ''network_mode_invalid'' ''Target network mode is invalid.'' None [] []
      else (case parse_canonical_destination idna url of
        Inl _ \<Rightarrow> denied mode ''destination_invalid'' ''Destination URL is invalid.'' None [] []
      | Inr destination \<Rightarrow>
      (case destination_addresses resolve destination of
        Inl _ \<Rightarrow> denied mode ''destination_resolution_failed''
                   ''Destination resolution failed closed.'' (Some destination) [] []
      | Inr addresses \<Rightarrow>
      if addresses = [] then
        denied mode ''destination_resolution_empty''
          ''Destination resolution returned no addresses.'' (Some destination) [] []
      else
      (let categories = map classify_address addresses;
           address_strings = map compressed addresses in
       if mode = PRIVATE_LOCAL then
         (if list_all (\<lambda>c. c \<in> {LOOPBACK, PRIVATE}) categories then
            \<lparr>ddec_allowed = True, ddec_code = ''private_destination_allowed'',
             ddec_reason = ''Resolution contains only loopback or private addresses.'',
             ddec_mode = mode, ddec_destination = Some destination,
             ddec_resolved_addresses = address_strings, ddec_address_categories = categories\<rparr>
          else denied mode ''private_destination_prohibited''
                 ''Private/local mode prohibits any public or special address.''
                 (Some destination) address_strings categories)
       else
         (if list_all (\<lambda>c. c = PUBLIC) categories then
            \<lparr>ddec_allowed = True, ddec_code = ''public_destination_classified'',
             ddec_reason = ''Resolution contains only public/global addresses.'',
             ddec_mode = mode, ddec_destination = Some destination,
             ddec_resolved_addresses = address_strings, ddec_address_categories = categories\<rparr>
          else denied mode ''public_destination_prohibited''
                 ''External mode classification requires only public addresses.''
                 (Some destination) address_strings categories)))))"

subsection \<open>Categories as address ranges\<close>

lemma in_net4_unat:
  "in_net4 a (b, n) \<longleftrightarrow> unat a div 2 ^ (32 - n) = unat b div 2 ^ (32 - n)"
  unfolding in_net4_def
  by (simp only: word_unat_eq_iff unat_drop_bit_eq fst_conv snd_conv) (simp add: drop_bit_eq_div)

lemma div_eq_interval:
  fixes x m k :: nat
  assumes "0 < m"
  shows "x div m = k \<longleftrightarrow> m * k \<le> x \<and> x < m * k + m"
proof
  assume "x div m = k"
  then show "m * k \<le> x \<and> x < m * k + m"
    using assms times_div_less_eq_dividend[of m x] dividend_less_times_div[of m x] by auto
next
  assume "m * k \<le> x \<and> x < m * k + m"
  then show "x div m = k" by (intro div_nat_eqI) (auto simp: algebra_simps)
qed

lemma unat_quad:
  "((a * 256 + b) * 256 + c) * 256 + d < 2 ^ 32 \<Longrightarrow> unat (quad a b c d) = ((a * 256 + b) * 256 + c) * 256 + d"
  unfolding quad_def by (simp only: unat_of_nat) simp

definition local4 :: "32 word \<Rightarrow> bool" where
  "local4 a \<longleftrightarrow>
     unat a div 2 ^ 24 = 127 \<or> unat a div 2 ^ 24 = 10
     \<or> unat a div 2 ^ 20 = 2753 \<or> unat a div 2 ^ 16 = 49320"

definition local_address :: "ip_address \<Rightarrow> bool" where
  "local_address ip \<longleftrightarrow>
     (case ip of
        IPv4Address a \<Rightarrow> local4 a
      | IPv6Address a sc \<Rightarrow>
         (case ipv4_mapped ip of Some m \<Rightarrow> local4 m
          | None \<Rightarrow> a = 1 \<or> unat a div 2 ^ 121 = 126))"

lemma classify_v4:
  "classify_unmapped (IPv4Address a) \<in> {LOOPBACK, PRIVATE} \<longleftrightarrow> local4 a"
proof -
  have meta: "a = quad 169 254 169 254 \<longleftrightarrow> unat a = 2852039166"
    using unat_quad[of 169 254 169 254] by (simp add: word_unat_eq_iff)
  have nets: "in_net4 a (quad 127 0 0 0, 8) \<longleftrightarrow> unat a div 2 ^ 24 = 127"
    "in_net4 a (quad 10 0 0 0, 8) \<longleftrightarrow> unat a div 2 ^ 24 = 10"
    "in_net4 a (quad 172 16 0 0, 12) \<longleftrightarrow> unat a div 2 ^ 20 = 2753"
    "in_net4 a (quad 192 168 0 0, 16) \<longleftrightarrow> unat a div 2 ^ 16 = 49320"
    "in_net4 a (quad 169 254 0 0, 16) \<longleftrightarrow> unat a div 2 ^ 16 = 43518"
    "in_net4 a (quad 224 0 0 0, 4) \<longleftrightarrow> unat a div 2 ^ 28 = 14"
    by (simp_all add: in_net4_unat unat_quad)
  have zero: "a = 0 \<longleftrightarrow> unat a = 0" by (simp add: word_unat_eq_iff)
  have disj: "x \<noteq> 2852039166 \<and> x div 2 ^ 16 \<noteq> 43518 \<and> x \<noteq> 0 \<and> x div 2 ^ 28 \<noteq> 14"
    if "x div 2 ^ 24 = 127 \<or> x div 2 ^ 24 = 10 \<or> x div 2 ^ 20 = 2753 \<or> x div 2 ^ 16 = 49320"
    for x :: nat
    using that by (elim disjE; simp add: div_eq_interval)
  show ?thesis
  proof (cases "local4 a")
    case True
    then show ?thesis
      using disj[of "unat a"] nets meta zero
      by (auto simp: local4_def classify_unmapped_def private_v4_networks_def)
  next
    case False
    then show ?thesis
      using nets by (simp add: local4_def classify_unmapped_def private_v4_networks_def)
  qed
qed

lemma in_net6_unat:
  "in_net6 a (b, n) \<longleftrightarrow> unat a div 2 ^ (128 - n) = unat b div 2 ^ (128 - n)"
  unfolding in_net6_def
  by (simp only: word_unat_eq_iff unat_drop_bit_eq fst_conv snd_conv) (simp add: drop_bit_eq_div)

lemma unat_groups6:
  "(((a * 65536 + b) * 65536 + c) * 65536 + d) * 2 ^ 64 < 2 ^ 128
   \<Longrightarrow> unat (groups6 a b c d) = (((a * 65536 + b) * 65536 + c) * 65536 + d) * 2 ^ 64"
  unfolding groups6_def by (simp only: unat_of_nat) simp

lemma classify_v6:
  "classify_unmapped (IPv6Address a sc) \<in> {LOOPBACK, PRIVATE} \<longleftrightarrow> a = 1 \<or> unat a div 2 ^ 121 = 126"
proof -
  have nets: "in_net6 a (groups6 0xfc00 0 0 0, 7) \<longleftrightarrow> unat a div 2 ^ 121 = 126"
    "in_net6 a (groups6 0xfe80 0 0 0, 10) \<longleftrightarrow> unat a div 2 ^ 118 = 1018"
    "in_net6 a (groups6 0xff00 0 0 0, 8) \<longleftrightarrow> unat a div 2 ^ 120 = 255"
    by (simp_all add: in_net6_unat unat_groups6)
  have zero: "a = 0 \<longleftrightarrow> unat a = 0" by (simp add: word_unat_eq_iff)
  have disj: "x div 2 ^ 118 \<noteq> 1018 \<and> x div 2 ^ 120 \<noteq> 255 \<and> x \<noteq> 0" if "x div 2 ^ 121 = 126" for x :: nat
    using that by (simp add: div_eq_interval)
  show ?thesis
    using disj[of "unat a"] nets zero
    by (auto simp: classify_unmapped_def)
qed

theorem classify_local_iff: "classify_address ip \<in> {LOOPBACK, PRIVATE} \<longleftrightarrow> local_address ip"
proof (cases ip)
  case (IPv4Address a)
  then show ?thesis using classify_v4[of a] by (simp add: classify_address_def local_address_def)
next
  case (IPv6Address a sc)
  then show ?thesis using classify_v4 classify_v6[of a sc]
    by (auto simp: classify_address_def local_address_def split: option.splits)
qed

subsection \<open>What an allowed destination is\<close>

definition resolver_wf :: "resolver \<Rightarrow> bool" where
  "resolver_wf resolve \<longleftrightarrow>
     (\<forall>h vs ip. resolve h = Some (RIterable vs) \<and> RIp ip \<in> set vs \<longrightarrow> wf_ip ip)"

lemma set_deduplicate [simp]: "set (deduplicate_addresses ips) = set ips"
  by (simp add: deduplicate_addresses_def)

lemma deduplicate_distinct: "distinct (deduplicate_addresses ips)"
  by (simp add: deduplicate_addresses_def)

lemma canonicalize_from:
  assumes "canonicalize_resolver_results raw = Inr ips" and "ip \<in> set ips"
  shows "\<exists>vs. raw = RIterable vs \<and> (RIp ip \<in> set vs \<or> (\<exists>s. RText s \<in> set vs \<and> ip_address_of s = Some ip))"
proof -
  from assms(1) obtain vs where raw: "raw = RIterable vs"
    by (auto simp: canonicalize_resolver_results_def split: resolver_result.splits)
  let ?f = "\<lambda>v. case v of RIp ip \<Rightarrow> Inr ip
    | RText s \<Rightarrow> (case ip_address_of s of Some ip \<Rightarrow> Inr ip | None \<Rightarrow> Inl ()) | RMalformed \<Rightarrow> Inl ()"
  from assms raw obtain ys where ys: "res_mapM ?f vs = Inr ys" and "ip \<in> set ys"
    by (auto simp: canonicalize_resolver_results_def)
  then obtain i where i: "i < length ys" "ys ! i = ip" by (auto simp: in_set_conv_nth)
  then have iv: "i < length vs" using res_mapM_length[OF ys] by simp
  have "?f (vs ! i) = Inr ip" using res_mapM_nth[OF ys iv] i by simp
  then have "vs ! i = RIp ip \<or> (\<exists>s. vs ! i = RText s \<and> ip_address_of s = Some ip)"
    by (auto split: resolver_value.splits option.splits)
  then show ?thesis using raw iv by (metis nth_mem)
qed

lemma parse_canonical_destination_wf:
  assumes "parse_canonical_destination idna url = Inr d" and "dest_ip_address d = Some ip"
  shows "wf_ip ip"
  using assms ip_address_of_wf
  by (fastforce simp: parse_canonical_destination_def Let_def split: if_splits option.splits sum.splits)

lemma destination_addresses_wf:
  assumes "resolver_wf resolve" and "parse_canonical_destination idna url = Inr d"
    and "destination_addresses resolve d = Inr ips" and "ip \<in> set ips"
  shows "wf_ip ip"
proof (cases "dest_ip_address d")
  case None
  with assms(3) obtain raw where raw: "resolve (dest_hostname d) = Some raw"
    and can: "canonicalize_resolver_results raw = Inr ips"
    by (auto simp: destination_addresses_def split: option.splits)
  from canonicalize_from[OF can assms(4)] raw assms(1) ip_address_of_wf show ?thesis
    by (auto simp: resolver_wf_def)
next
  case (Some lit)
  with assms(3,4) have "ip = lit"
    by (auto simp: destination_addresses_def canonicalize_resolver_results_def)
  then show ?thesis using parse_canonical_destination_wf[OF assms(2) Some] by simp
qed

text \<open>An allowed decision carries the printed form of a non-empty list of checked addresses.\<close>

lemma destination_allowed:
  assumes "ddec_allowed (evaluate_destination_policy idna resolve mode url)"
  obtains d ips where "parse_canonical_destination idna url = Inr d"
    and "destination_addresses resolve d = Inr ips" and "ips \<noteq> []"
    and "ddec_destination (evaluate_destination_policy idna resolve mode url) = Some d"
    and "ddec_resolved_addresses (evaluate_destination_policy idna resolve mode url)
         = map compressed ips"
    and "mode = PRIVATE_LOCAL \<and> (\<forall>ip \<in> set ips. local_address ip)
         \<or> mode = EXTERNAL_PUBLIC_AUTHORIZED \<and> (\<forall>ip \<in> set ips. classify_address ip = PUBLIC)"
proof -
  let ?e = "evaluate_destination_policy idna resolve mode url"
  from assms have mode: "mode \<in> set NETWORK_MODES"
    by (auto simp: evaluate_destination_policy_def denied_def split: if_splits)
  from assms mode obtain d where d: "parse_canonical_destination idna url = Inr d"
    by (auto simp: evaluate_destination_policy_def denied_def split: sum.splits)
  from assms mode d obtain ips where ips: "destination_addresses resolve d = Inr ips"
    by (auto simp: evaluate_destination_policy_def denied_def split: sum.splits)
  from assms mode d ips have ne: "ips \<noteq> []"
    by (auto simp: evaluate_destination_policy_def denied_def)
  show thesis
  proof (cases "mode = PRIVATE_LOCAL")
    case True
    with assms mode d ips ne have "list_all (\<lambda>c. c \<in> {LOOPBACK, PRIVATE}) (map classify_address ips)"
      by (auto simp: evaluate_destination_policy_def denied_def Let_def split: if_splits)
    with True mode d ips ne classify_local_iff show thesis
      by (intro that) (auto simp: evaluate_destination_policy_def Let_def list_all_iff)
  next
    case False
    with mode have "mode = EXTERNAL_PUBLIC_AUTHORIZED" by (simp add: NETWORK_MODES_def)
    moreover from False assms mode d ips ne have "list_all (\<lambda>c. c = PUBLIC) (map classify_address ips)"
      by (auto simp: evaluate_destination_policy_def denied_def Let_def split: if_splits)
    ultimately show thesis using False mode d ips ne
      by (intro that) (auto simp: evaluate_destination_policy_def Let_def list_all_iff)
  qed
qed

end
