(* ===== verification/Gateway.thy ===== *)
theory Gateway
  imports Destination
begin

text \<open>
  The network gateway (\<open>src/backend/app/network_safety/gateway.py\<close>): one GET request, admitted
  by the network controller, sent to an address that the destination policy approved, with
  the connected peer checked again.

  What lies outside the repository is a parameter, collected in \<open>gateway_env\<close>: the answers of
  the network controller at admission and just before the connection, the DNS resolver, the
  TLS settings, the TCP connector, and \<open>httpcore\<close>, which calls \<open>connect_tcp\<close> and then
  either returns a response or raises. The result is paired with the list of TCP connections
  that were attempted. The path with a research \<open>request_boundary\<close> is not modelled.
\<close>

subsection \<open>Definitions\<close>

record coded_error =
  err_code :: string
  err_reason :: string

abbreviation gateway_error :: "string \<Rightarrow> string \<Rightarrow> coded_error" where
  "gateway_error cd rsn \<equiv> \<lparr>err_code = cd, err_reason = rsn\<rparr>"

text \<open>\<open>stream.get_extra_info("server_addr")\<close>: a tuple whose first entry is a text, or not.\<close>

datatype server_addr = AddrTuple string | AddrOther

datatype connect_outcome =
  Connected server_addr
| ConnectGatewayError coded_error
| ConnectRaised

record http_response =
  resp_status :: int
  resp_headers :: "(string \<times> string) list"
  resp_chunks :: "string list"

datatype exchange_outcome = Responded http_response | ExchangeTimeout | ExchangeRaised

record gateway_env =
  env_idna :: idna_codec
  env_resolve :: resolver
  env_admission :: "int \<Rightarrow> coded_error + unit"
  env_check_enabled :: "int \<Rightarrow> coded_error + unit"
  env_tls_cert_required :: bool
  env_tls_check_hostname :: bool
  env_connect_host :: "string \<Rightarrow> string"
  env_connect_port :: "string \<Rightarrow> nat"
  env_local_address :: "string option"
  env_connect :: "ip_address \<Rightarrow> nat \<Rightarrow> connect_outcome"
  env_exchange :: exchange_outcome

record gateway_result =
  gw_status_code :: int
  gw_body :: string
  gw_destination :: canonical_destination
  gw_selected_ip :: string
  gw_peer_ip :: string
  gw_content_encoding :: "string option"
  gw_content_type :: "string option"

definition header_name_char :: "char \<Rightarrow> bool" where
  "header_name_char c \<longleftrightarrow>
     is_digit c \<or> is_lower c \<or> is_upper c \<or> c \<in> set (''!#$%&*+-.^_`|~'' @ [CHR 0x27])"

text \<open>A character beyond Latin-1 starts, in UTF-8, with a byte of at least 196.\<close>

definition header_value_char :: "char \<Rightarrow> bool" where
  "header_value_char c \<longleftrightarrow> \<not> (ord c \<ge> 196 \<or> (ord c < 32 \<and> ord c \<noteq> 9) \<or> ord c = 127)"

definition invalid_headers :: coded_error where
  "invalid_headers = gateway_error ''network_request_failed'' ''Request headers are invalid.''"

text \<open>The loop of \<open>_build_headers\<close>: names and values are checked, \<open>Host\<close> is dropped.\<close>

fun checked_headers :: "(string \<times> string) list \<Rightarrow> coded_error + (string \<times> string) list" where
  "checked_headers [] = Inr []"
| "checked_headers ((name, val) # rest) =
     (if name = [] \<or> \<not> list_all header_name_char name \<or> \<not> list_all header_value_char val
      then Inl invalid_headers
      else if py_lower name = ''host'' then checked_headers rest
      else res_map ((#) (name, val)) (checked_headers rest))"

definition host_header :: "canonical_destination \<Rightarrow> string" where
  "host_header d =
     (let default_port = (if dest_scheme d = ''http'' then 80 else 443);
          hostname = (if CHR '':'' \<in> set (dest_hostname d)
                      then ''['' @ dest_hostname d @ '']'' else dest_hostname d)
      in if dest_port d = default_port then hostname
         else hostname @ '':'' @ show_nat (dest_port d))"

definition build_headers ::
  "(string \<times> string) list \<Rightarrow> canonical_destination \<Rightarrow> coded_error + (string \<times> string) list" where
  "build_headers headers d =
     res_map (\<lambda>hs. hs @ [(''Host'', host_header d)]) (checked_headers headers)"

definition header_value :: "(string \<times> string) list \<Rightarrow> string \<Rightarrow> string option" where
  "header_value headers field =
     (let values = map snd (filter (\<lambda>h. py_lower (fst h) = field) headers) in
      if values = [] then None else Some (join_with '','' values))"

fun read_bounded_from :: "nat \<Rightarrow> string list \<Rightarrow> nat \<Rightarrow> coded_error + string" where
  "read_bounded_from sofar [] maximum = Inr []"
| "read_bounded_from sofar (chunk # chunks) maximum =
     (if sofar + length chunk > maximum then
        Inl (gateway_error ''response_too_large'' ''Network response exceeded the allowed size.'')
      else res_map ((@) chunk) (read_bounded_from (sofar + length chunk) chunks maximum))"

definition read_bounded :: "string list \<Rightarrow> nat \<Rightarrow> coded_error + string" where
  "read_bounded chunks maximum = read_bounded_from 0 chunks maximum"

definition peer_unavailable :: coded_error where
  "peer_unavailable =
     gateway_error ''destination_peer_unavailable'' ''Connected peer address was unavailable.''"

definition extract_peer_ip :: "server_addr \<Rightarrow> coded_error + ip_address" where
  "extract_peer_ip addr =
     (case addr of
        AddrOther \<Rightarrow> Inl peer_unavailable
      | AddrTuple s \<Rightarrow>
         (case ip_address_of s of Some ip \<Rightarrow> Inr ip | None \<Rightarrow> Inl peer_unavailable))"

definition normalized_ip :: "ip_address \<Rightarrow> ip_address" where
  "normalized_ip ip = (case ipv4_mapped ip of Some a \<Rightarrow> IPv4Address a | None \<Rightarrow> ip)"

definition validate_peer :: "ip_address \<Rightarrow> ip_address \<Rightarrow> string \<Rightarrow> coded_error + unit" where
  "validate_peer selected_ip peer_ip mode =
     (let normalized_selected = normalized_ip selected_ip;
          normalized_peer = normalized_ip peer_ip;
          category = classify_address normalized_peer;
          ok = (if mode = PRIVATE_LOCAL then category \<in> {LOOPBACK, PRIVATE}
                else mode = EXTERNAL_PUBLIC_AUTHORIZED \<and> category = PUBLIC)
      in if \<not> ok then
           Inl (gateway_error ''destination_peer_prohibited''
             ''Connected peer is prohibited by network mode policy.'')
         else if normalized_peer \<noteq> normalized_selected then
           Inl (gateway_error ''destination_peer_mismatch''
             ''Connected peer did not match the approved destination.'')
         else Inr ())"

definition validate_ssl_context :: "gateway_env \<Rightarrow> coded_error + unit" where
  "validate_ssl_context env =
     (if \<not> env_tls_cert_required env \<or> \<not> env_tls_check_hostname env then
        Inl (gateway_error ''tls_verification_required''
          ''TLS certificate and hostname verification are required.'')
      else Inr ())"

definition gateway_reason :: "string \<Rightarrow> string" where
  "gateway_reason cd =
     (if cd = ''destination_invalid'' then ''Destination URL is invalid.''
      else if cd = ''destination_resolution_failed'' then ''Destination resolution failed.''
      else if cd = ''destination_resolution_empty''
        then ''Destination resolution returned no addresses.''
      else ''Destination was denied by network policy.'')"

text \<open>
  \<open>_BoundNetworkBackend.connect_tcp\<close>: the connection goes to the selected address whatever
  the host name resolves to now; returns the checked peer and the connections attempted.
\<close>

definition connect_tcp ::
  "gateway_env \<Rightarrow> int \<Rightarrow> string \<Rightarrow> string \<Rightarrow> ip_address \<Rightarrow> string \<Rightarrow> nat
   \<Rightarrow> (coded_error + ip_address) \<times> (ip_address \<times> nat) list" where
  "connect_tcp env target_id mode logical_hostname selected_ip host port =
     (if host \<noteq> logical_hostname \<or> env_local_address env \<noteq> None then
        (Inl (gateway_error ''destination_connect_failed''
           ''Gateway connection binding was rejected.''), [])
      else (case env_check_enabled env target_id of
        Inl e \<Rightarrow> (Inl e, [])
      | Inr _ \<Rightarrow>
        ((case env_connect env selected_ip port of
            ConnectGatewayError e \<Rightarrow> Inl e
          | ConnectRaised \<Rightarrow>
              Inl (gateway_error ''destination_connect_failed''
                ''Connection to the approved destination failed.'')
          | Connected addr \<Rightarrow>
              res_bind (extract_peer_ip addr) (\<lambda>peer_ip.
              res_bind (validate_peer selected_ip peer_ip mode) (\<lambda>_. Inr peer_ip))),
         [(selected_ip, port)])))"

definition request_admitted ::
  "gateway_env \<Rightarrow> int \<Rightarrow> string \<Rightarrow> string \<Rightarrow> (string \<times> string) list \<Rightarrow> nat
   \<Rightarrow> (coded_error + gateway_result) \<times> (ip_address \<times> nat) list" where
  "request_admitted env target_id network_mode url headers max_response_bytes =
     (let decision = evaluate_destination_policy (env_idna env) (env_resolve env) network_mode url in
      case (if ddec_allowed decision then ddec_destination decision else None) of
        None \<Rightarrow>
          (let cd = (if ddec_code decision \<in> {''destination_invalid'',
                         ''destination_resolution_failed'', ''destination_resolution_empty''}
                     then ddec_code decision else ''destination_policy_denied'')
           in (Inl (gateway_error cd (gateway_reason cd)), []))
      | Some destination \<Rightarrow>
      (case (if dest_scheme destination = ''https'' then validate_ssl_context env else Inr ()) of
        Inl e \<Rightarrow> (Inl e, [])
      | Inr _ \<Rightarrow>
      (case ddec_resolved_addresses decision of
        [] \<Rightarrow> (Inl (gateway_error ''IndexError'' []), [])
      | first_address # _ \<Rightarrow>
      (case ip_address_of first_address of
        None \<Rightarrow> (Inl (gateway_error ''ValueError'' []), [])
      | Some selected_ip \<Rightarrow>
      (case build_headers headers destination of
        Inl e \<Rightarrow> (Inl e, [])
      | Inr request_headers \<Rightarrow>
      (case connect_tcp env target_id network_mode (dest_hostname destination) selected_ip
              (env_connect_host env url) (env_connect_port env url) of
        (Inl e, tr) \<Rightarrow> (Inl e, tr)
      | (Inr peer_ip, tr) \<Rightarrow>
        ((case env_exchange env of
            ExchangeTimeout \<Rightarrow>
              Inl (gateway_error ''network_request_failed'' ''Network request timed out.'')
          | ExchangeRaised \<Rightarrow>
              Inl (gateway_error ''network_request_failed'' ''Network request failed.'')
          | Responded response \<Rightarrow>
              res_map (\<lambda>body.
                \<lparr>gw_status_code = resp_status response, gw_body = body,
                 gw_destination = destination, gw_selected_ip = compressed selected_ip,
                 gw_peer_ip = compressed peer_ip,
                 gw_content_encoding = header_value (resp_headers response) ''content-encoding'',
                 gw_content_type = header_value (resp_headers response) ''content-type''\<rparr>)
              (read_bounded (resp_chunks response) max_response_bytes)), tr)))))))"

text \<open>\<open>NetworkGateway.request\<close>; \<open>timeout_ok\<close> is \<open>timeout_seconds > 0\<close>.\<close>

definition gateway_request ::
  "gateway_env \<Rightarrow> int \<Rightarrow> string \<Rightarrow> string \<Rightarrow> (string \<times> string) list \<Rightarrow> int \<Rightarrow> bool
   \<Rightarrow> (coded_error + gateway_result) \<times> (ip_address \<times> nat) list" where
  "gateway_request env target_id network_mode url headers max_response_bytes timeout_ok =
     (if max_response_bytes \<le> 0 \<or> \<not> timeout_ok then
        (Inl (gateway_error ''network_request_failed'' ''Gateway request bounds are invalid.''), [])
      else (case env_admission env target_id of
        Inl e \<Rightarrow> (Inl e, [])
      | Inr _ \<Rightarrow>
          request_admitted env target_id network_mode url headers (nat max_response_bytes)))"

subsection \<open>Facts\<close>

lemma read_bounded_from_ok:
  "read_bounded_from sofar chunks maximum = Inr body \<Longrightarrow> sofar \<le> maximum
   \<Longrightarrow> body = concat chunks \<and> sofar + length body \<le> maximum"
  by (induction sofar chunks maximum arbitrary: body rule: read_bounded_from.induct)
     (auto split: if_splits)

lemma read_bounded_iff:
  "read_bounded chunks maximum = Inr body \<longleftrightarrow> body = concat chunks \<and> length body \<le> maximum"
proof -
  have conv: "sofar + length (concat cs) \<le> maximum
      \<Longrightarrow> read_bounded_from sofar cs maximum = Inr (concat cs)" for sofar cs
    by (induction sofar cs maximum rule: read_bounded_from.induct) auto
  show ?thesis
    using read_bounded_from_ok[of 0 chunks maximum body] conv[of 0 chunks]
    by (auto simp: read_bounded_def)
qed

lemma checked_headers_no_host:
  "checked_headers hs = Inr out \<Longrightarrow> (n, v) \<in> set out
   \<Longrightarrow> (n, v) \<in> set hs \<and> py_lower n \<noteq> ''host'' \<and> list_all header_value_char v
       \<and> list_all header_name_char n \<and> n \<noteq> []"
  by (induction hs arbitrary: out rule: checked_headers.induct) (auto split: if_splits)

lemma normalized_local: "local_address (normalized_ip ip) \<longleftrightarrow> local_address ip"
  by (cases ip) (auto simp: normalized_ip_def local_address_def split: option.splits)

lemma validate_peer_ok:
  assumes "validate_peer sel peer mode = Inr ()"
  shows "normalized_ip peer = normalized_ip sel"
    and "mode = PRIVATE_LOCAL \<Longrightarrow> local_address peer"
  using assms classify_local_iff[of "normalized_ip peer"] normalized_local[of peer]
  by (auto simp: validate_peer_def Let_def split: if_splits)

lemma connect_tcp_trace:
  "snd (connect_tcp env t mode lh sel host port) \<in> {[], [(sel, port)]}"
  by (auto simp: connect_tcp_def split: sum.splits)

lemma connect_tcp_peer:
  assumes "connect_tcp env t mode lh sel host port = (Inr peer, tr)"
  shows "tr = [(sel, port)]" and "validate_peer sel peer mode = Inr ()"
    and "env_check_enabled env t = Inr ()" and "host = lh"
  using assms by (auto simp: connect_tcp_def split: if_splits sum.splits connect_outcome.splits)

lemma head_of_allowed:
  assumes "ddec_allowed (evaluate_destination_policy idna resolve mode url)" and "resolver_wf resolve"
  obtains d ip ips where "ddec_destination (evaluate_destination_policy idna resolve mode url) = Some d"
    and "ddec_resolved_addresses (evaluate_destination_policy idna resolve mode url)
         = compressed ip # ips"
    and "ip_address_of (compressed ip) = Some ip"
    and "mode = PRIVATE_LOCAL \<Longrightarrow> local_address ip"
proof -
  from assms(1) obtain d ips where d: "parse_canonical_destination idna url = Inr d"
    "destination_addresses resolve d = Inr ips" "ips \<noteq> []"
    "ddec_destination (evaluate_destination_policy idna resolve mode url) = Some d"
    "ddec_resolved_addresses (evaluate_destination_policy idna resolve mode url) = map compressed ips"
    "mode = PRIVATE_LOCAL \<and> (\<forall>ip \<in> set ips. local_address ip)
     \<or> mode = EXTERNAL_PUBLIC_AUTHORIZED \<and> (\<forall>ip \<in> set ips. classify_address ip = PUBLIC)"
    by (rule destination_allowed)
  from d(3) obtain ip rest where ips: "ips = ip # rest" by (cases ips) auto
  have "wf_ip ip" using destination_addresses_wf[OF assms(2) d(1,2)] ips by simp
  then have "ip_address_of (compressed ip) = Some ip" by (rule ip_address_of_compressed)
  then show thesis using that d ips
    by (auto simp: PRIVATE_LOCAL_def EXTERNAL_PUBLIC_AUTHORIZED_def)
qed

subsection \<open>Confinement of the connections\<close>

text \<open>What the gateway relies on of a resolver: the addresses it returns are well formed.\<close>

locale dns_resolver =
  fixes resolve :: resolver
  assumes resolve_wf: "resolve h = Some (RIterable vs) \<Longrightarrow> RIp ip \<in> set vs \<Longrightarrow> wf_ip ip"
begin

lemma resolver_wf: "resolver_wf resolve"
  using resolve_wf by (auto simp: resolver_wf_def)

lemma request_trace:
  assumes "env_resolve env = resolve"
    and "(ip, port) \<in> set (snd (request_admitted env t PRIVATE_LOCAL url hs mx))"
  shows "local_address ip"
proof -
  let ?e = "evaluate_destination_policy (env_idna env) resolve PRIVATE_LOCAL url"
  have al: "ddec_allowed ?e"
    using assms by (auto simp: request_admitted_def Let_def split: if_splits)
  obtain d sel ips where d: "ddec_destination ?e = Some d"
    "ddec_resolved_addresses ?e = compressed sel # ips"
    "ip_address_of (compressed sel) = Some sel" "local_address sel"
    using head_of_allowed[OF al resolver_wf] by blast
  have "ip = sel"
    using assms al d connect_tcp_trace[of env t PRIVATE_LOCAL "dest_hostname d" sel
        "env_connect_host env url" "env_connect_port env url"]
    by (auto simp: request_admitted_def Let_def split: sum.splits prod.splits)
  with d show ?thesis by simp
qed

lemma request_result:
  assumes "env_resolve env = resolve"
    and "request_admitted env t PRIVATE_LOCAL url hs mx = (Inr r, tr)"
  shows "\<exists>sel peer port. tr = [(sel, port)] \<and> local_address sel \<and> local_address peer
    \<and> normalized_ip peer = normalized_ip sel \<and> gw_peer_ip r = compressed peer
    \<and> length (gw_body r) \<le> mx \<and> env_check_enabled env t = Inr ()"
proof -
  let ?e = "evaluate_destination_policy (env_idna env) resolve PRIVATE_LOCAL url"
  have al: "ddec_allowed ?e"
    using assms by (auto simp: request_admitted_def Let_def split: if_splits)
  obtain d sel ips where d: "ddec_destination ?e = Some d"
    "ddec_resolved_addresses ?e = compressed sel # ips"
    "ip_address_of (compressed sel) = Some sel" "local_address sel"
    using head_of_allowed[OF al resolver_wf] by blast
  let ?c = "connect_tcp env t PRIVATE_LOCAL (dest_hostname d) sel (env_connect_host env url)
    (env_connect_port env url)"
  obtain peer where c: "?c = (Inr peer, tr)" and peer: "gw_peer_ip r = compressed peer"
    and body: "length (gw_body r) \<le> mx"
    using assms al d
    by (auto simp: request_admitted_def Let_def read_bounded_iff
        split: sum.splits prod.splits exchange_outcome.splits if_splits)
  show ?thesis
    using connect_tcp_peer[OF c] validate_peer_ok[OF connect_tcp_peer(2)[OF c]] peer body d by blast
qed

end

lemma system_resolve_wf:
  assumes "system_resolve g h = Some (RIterable vs)" and "RIp ip \<in> set vs"
  shows "wf_ip ip"
proof -
  let ?f = "\<lambda>s. case ip_address_of s of Some ip \<Rightarrow> Inr ip | None \<Rightarrow> Inl ()"
  from assms obtain results ips where r: "res_mapM ?f results = Inr ips" and ip: "ip \<in> set ips"
    by (auto simp: system_resolve_def split: option.splits sum.splits)
  then obtain i where i: "i < length ips" "ips ! i = ip" by (auto simp: in_set_conv_nth)
  then have "?f (results ! i) = Inr ip"
    using res_mapM_nth[OF r] res_mapM_length[OF r] by auto
  then show ?thesis by (auto split: option.splits dest: ip_address_of_wf)
qed

interpretation sysdns: dns_resolver "system_resolve getaddrinfo" for getaddrinfo
  by unfold_locales (rule system_resolve_wf)

definition lab_env :: gateway_env where
  "lab_env = \<lparr>env_idna = (\<lambda>_. None), env_resolve = system_resolve (\<lambda>h. Some [''192.168.1.7'']),
     env_admission = (\<lambda>_. Inr ()), env_check_enabled = (\<lambda>_. Inr ()),
     env_tls_cert_required = True, env_tls_check_hostname = True,
     env_connect_host = (\<lambda>_. ''lab.test''), env_connect_port = (\<lambda>_. 8000),
     env_local_address = None, env_connect = (\<lambda>ip p. Connected (AddrTuple ''192.168.1.7'')),
     env_exchange = Responded \<lparr>resp_status = 200, resp_headers = [], resp_chunks = [''ok'']\<rparr>\<rparr>"

text \<open>
  C1. In private/local mode every TCP connection that the gateway attempts, with the system
  resolver over whatever \<open>getaddrinfo\<close> answers, goes to a loopback or private address: an
  address of 127/8, 10/8, 172.16/12, 192.168/16, ::1, fc00::/7, or an IPv4-mapped form of
  one. In particular no answer of the resolver, no redirect of the name after the check and
  no link-local metadata address can be reached.
\<close>

theorem gateway_confined:
  assumes "(ip, port) \<in> set (snd (gateway_request (env\<lparr>env_resolve := system_resolve getaddrinfo\<rparr>)
     target_id PRIVATE_LOCAL url headers max_bytes timeout_ok))"
  shows "local_address ip"
  using assms sysdns.request_trace[where env = "env\<lparr>env_resolve := system_resolve getaddrinfo\<rparr>"]
  by (auto simp: gateway_request_def split: sum.splits if_splits)

theorem gateway_confined_witness:
  "(IPv4Address (quad 192 168 1 7), 8000) \<in> set (snd (gateway_request
     (lab_env\<lparr>env_resolve := system_resolve (\<lambda>h. Some [''192.168.1.7''])\<rparr>)
     3 PRIVATE_LOCAL ''http://lab.test:8000/a'' [] 100 True))
   \<and> local_address (IPv4Address (quad 192 168 1 7))"
proof -
  have h: "(IPv4Address (quad 192 168 1 7), 8000) \<in> set (snd (gateway_request
     (lab_env\<lparr>env_resolve := system_resolve (\<lambda>h. Some [''192.168.1.7''])\<rparr>)
     3 PRIVATE_LOCAL ''http://lab.test:8000/a'' [] 100 True))"
    by code_simp
  show ?thesis using h gateway_confined[OF h] by blast
qed

end
