(* ===== verification/Network_Control.thy ===== *)
theory Network_Control
  imports Gateway
begin

text \<open>
  Admission to the network: the process-local \<open>NetworkExecutionController\<close>
  (\<open>network_safety/controller.py\<close>) with its switches and bounded semaphore, and the shared
  \<open>PostgresNetworkExecutionController\<close> (\<open>postgres_controller.py\<close>) whose permits are advisory
  locks. Both are step relations of any number of workers; the bound on concurrent requests is
  proved once, in the locale \<open>permit_pool\<close>, for any discipline that hands out permits.
\<close>

subsection \<open>The contract of a pool of permits\<close>

text \<open>What a client relies on: never more workers hold a permit than the limit says.\<close>

locale bounded_admission =
  fixes start :: "'s \<Rightarrow> bool" and step :: "'s \<Rightarrow> 's \<Rightarrow> bool"
    and holders :: "'s \<Rightarrow> 'w set" and limit :: "'s \<Rightarrow> nat"
  assumes bounded: "start s \<Longrightarrow> step\<^sup>*\<^sup>* s t \<Longrightarrow> finite (holders t) \<and> card (holders t) \<le> limit s"
begin

lemma admitted_bounded:
  assumes "start s" and "step\<^sup>*\<^sup>* s t" and "A \<subseteq> holders t"
  shows "finite A \<and> card A \<le> limit s"
  using bounded[OF assms(1,2)] assms(3) by (meson card_mono finite_subset le_trans)

lemma one_more_waits:
  assumes "start s" and "step\<^sup>*\<^sup>* s t" and "card A = Suc (limit s)"
  shows "\<exists>w\<in>A. w \<notin> holders t"
  using admitted_bounded[OF assms(1,2), of A] assms(3) by auto

end

text \<open>Anonymous permits, counted: \<open>taken\<close> is the counter of a semaphore.\<close>

locale count_pool =
  fixes start :: "'s \<Rightarrow> bool" and step :: "'s \<Rightarrow> 's \<Rightarrow> bool"
    and holders :: "'s \<Rightarrow> 'w set" and limit :: "'s \<Rightarrow> nat" and taken :: "'s \<Rightarrow> nat"
  assumes start_none: "start s \<Longrightarrow> holders s = {} \<and> taken s = 0"
    and step_limit: "step s t \<Longrightarrow> limit t = limit s"
    and step_count: "step s t \<Longrightarrow> holders t = holders s \<and> taken t = taken s
      \<or> (\<exists>w \<in> holders s. holders t = holders s - {w} \<and> Suc (taken t) = taken s)
      \<or> (\<exists>w. w \<notin> holders s \<and> holders t = insert w (holders s)
            \<and> taken s < limit s \<and> taken t = Suc (taken s))"
begin

lemma count_steps:
  assumes "start s" and "step\<^sup>*\<^sup>* s t"
  shows "finite (holders t) \<and> card (holders t) = taken t \<and> taken t \<le> limit s \<and> limit t = limit s"
  using assms(2)
proof (induction rule: rtranclp_induct)
  case base
  then show ?case using start_none[OF assms(1)] by simp
next
  case (step t u)
  have l: "limit u = limit s" using step.IH step_limit[OF step.hyps(2)] by metis
  consider "holders u = holders t" "taken u = taken t"
    | w where "w \<in> holders t" "holders u = holders t - {w}" "Suc (taken u) = taken t"
    | w where "w \<notin> holders t" "holders u = insert w (holders t)" "taken t < limit t" "taken u = Suc (taken t)"
    using step_count[OF step.hyps(2)] by blast
  then have "finite (holders u) \<and> card (holders u) = taken u \<and> taken u \<le> limit s"
  proof cases
    case 2
    then have "card (holders u) = card (holders t) - 1" by (simp add: card_Diff_singleton)
    then show ?thesis using step.IH 2(2,3) by auto
  next
    case 3
    then have "card (holders u) = Suc (card (holders t))" using step.IH by simp
    then show ?thesis using step.IH 3(2,3,4) by auto
  qed (use step.IH in auto)
  then show ?case using l by blast
qed

end

sublocale count_pool \<subseteq> bounded_admission start step holders limit
proof
  fix s t
  assume "start s" and "step\<^sup>*\<^sup>* s t"
  from count_steps[OF this] show "finite (holders t) \<and> card (holders t) \<le> limit s" by simp
qed

text \<open>
  Numbered permits: \<open>slot s w\<close> is the permit that worker \<open>w\<close> holds. A step changes the permit
  of one worker only, gives out only permits from \<open>1\<close> to the limit, and never one that is held.
\<close>

locale slot_pool =
  fixes start :: "'s \<Rightarrow> bool" and step :: "'s \<Rightarrow> 's \<Rightarrow> bool"
    and slot :: "'s \<Rightarrow> 'w \<Rightarrow> nat option" and limit :: "'s \<Rightarrow> nat"
  assumes start_none: "start s \<Longrightarrow> slot s w = None"
    and step_limit: "step s t \<Longrightarrow> limit t = limit s"
    and step_slot: "step s t \<Longrightarrow> slot t = slot s
      \<or> (\<exists>w. slot t = (slot s)(w := None))
      \<or> (\<exists>w k. 1 \<le> k \<and> k \<le> limit s \<and> (\<forall>v. slot s v \<noteq> Some k) \<and> slot t = (slot s)(w := Some k))"
begin

definition pool_inv :: "'s \<Rightarrow> bool" where
  "pool_inv s \<longleftrightarrow> (\<forall>w k. slot s w = Some k \<longrightarrow> 1 \<le> k \<and> k \<le> limit s)
     \<and> (\<forall>w v k. slot s w = Some k \<longrightarrow> slot s v = Some k \<longrightarrow> w = v)"

lemma pool_inv_step:
  assumes "step s t" and "pool_inv s"
  shows "pool_inv t"
  using step_slot[OF assms(1)] step_limit[OF assms(1)] assms(2)
  by (auto simp: pool_inv_def split: if_splits)

lemma pool_inv_steps:
  assumes "start s" and "step\<^sup>*\<^sup>* s t"
  shows "pool_inv t \<and> limit t = limit s"
  using assms(2)
proof (induction rule: rtranclp_induct)
  case base
  then show ?case using start_none[OF assms(1)] by (simp add: pool_inv_def)
next
  case (step t u)
  then show ?case using pool_inv_step step_limit by metis
qed

lemma holders_bounded:
  assumes "start s" and "step\<^sup>*\<^sup>* s t"
  shows "finite {w. slot t w \<noteq> None} \<and> card {w. slot t w \<noteq> None} \<le> limit s"
proof -
  let ?H = "{w. slot t w \<noteq> None}" and ?f = "\<lambda>w. the (slot t w)"
  have inv: "pool_inv t" and lim: "limit t = limit s" using pool_inv_steps[OF assms] by simp_all
  have inj: "inj_on ?f ?H" using inv by (auto simp: inj_on_def pool_inv_def)
  have img: "?f ` ?H \<subseteq> {1..limit s}" using inv lim by (auto simp: pool_inv_def)
  show ?thesis
    using card_inj_on_le[OF inj img] inj_on_finite[OF inj img] by simp
qed

end

sublocale slot_pool \<subseteq> bounded_admission start step "\<lambda>s. {w. slot s w \<noteq> None}" limit
  by unfold_locales (rule holders_bounded)

subsection \<open>The process-local controller\<close>

record controller =
  ctl_maximum_concurrency :: nat
  ctl_global_enabled :: bool
  ctl_disabled_target_ids :: "int set"
  ctl_permits_taken :: nat

definition DEFAULT_MAX_CONCURRENT_NETWORK_REQUESTS :: pynum where
  "DEFAULT_MAX_CONCURRENT_NETWORK_REQUESTS = PyInt 4"

definition controller_init :: "pynum \<Rightarrow> pynum \<Rightarrow> string + controller" where
  "controller_init maximum_concurrency permit_wait_seconds =
     (case maximum_concurrency of
        PyInt m \<Rightarrow>
          (if m \<le> 0 then Inl ''maximum_concurrency must be a positive integer''
           else (case finite_number permit_wait_seconds of
               None \<Rightarrow> Inl ''permit_wait_seconds must be finite and positive''
             | Some q \<Rightarrow>
                (if q \<le> 0 then Inl ''permit_wait_seconds must be finite and positive''
                 else Inr \<lparr>ctl_maximum_concurrency = nat m, ctl_global_enabled = True,
                           ctl_disabled_target_ids = {}, ctl_permits_taken = 0\<rparr>)))
      | _ \<Rightarrow> Inl ''maximum_concurrency must be a positive integer'')"

text \<open>\<open>NetworkExecutionDenied\<close> carries a code and a reason.\<close>

definition network_denied :: "string \<Rightarrow> string \<Rightarrow> coded_error" where
  "network_denied cd rsn = \<lparr>err_code = cd, err_reason = rsn\<rparr>"

definition validate_target_id :: "pynum \<Rightarrow> coded_error + int" where
  "validate_target_id target_id =
     (case target_id of
        PyInt i \<Rightarrow> (if i \<le> 0 then Inl (network_denied ''network_target_invalid''
                        ''Network Target identifier is invalid.'') else Inr i)
      | _ \<Rightarrow> Inl (network_denied ''network_target_invalid''
               ''Network Target identifier is invalid.''))"

definition disable_global :: "controller \<Rightarrow> controller" where
  "disable_global c = c\<lparr>ctl_global_enabled := False\<rparr>"

definition enable_global :: "controller \<Rightarrow> controller" where
  "enable_global c = c\<lparr>ctl_global_enabled := True\<rparr>"

definition disable_target :: "pynum \<Rightarrow> controller \<Rightarrow> coded_error + controller" where
  "disable_target target_id c =
     res_map (\<lambda>i. c\<lparr>ctl_disabled_target_ids := insert i (ctl_disabled_target_ids c)\<rparr>)
       (validate_target_id target_id)"

definition enable_target :: "pynum \<Rightarrow> controller \<Rightarrow> coded_error + controller" where
  "enable_target target_id c =
     res_map (\<lambda>i. c\<lparr>ctl_disabled_target_ids := ctl_disabled_target_ids c - {i}\<rparr>)
       (validate_target_id target_id)"

definition check_enabled :: "controller \<Rightarrow> pynum \<Rightarrow> coded_error + unit" where
  "check_enabled c target_id =
     res_bind (validate_target_id target_id) (\<lambda>i.
       if \<not> ctl_global_enabled c then
         Inl (network_denied ''network_global_disabled'' ''Global network execution is disabled.'')
       else if i \<in> ctl_disabled_target_ids c then
         Inl (network_denied ''network_target_disabled''
           ''Network execution is disabled for this Target.'')
       else Inr ())"

text \<open>
  \<open>BoundedSemaphore\<close>: \<open>acquire\<close> takes a permit if one is left; \<open>release\<close> raises when no permit
  is out (the value would exceed the initial one).
\<close>

definition semaphore_acquire :: "controller \<Rightarrow> controller option" where
  "semaphore_acquire c =
     (if ctl_permits_taken c < ctl_maximum_concurrency c
      then Some (c\<lparr>ctl_permits_taken := ctl_permits_taken c + 1\<rparr>) else None)"

definition semaphore_release :: "controller \<Rightarrow> controller option" where
  "semaphore_release c =
     (if ctl_permits_taken c = 0 then None else Some (c\<lparr>ctl_permits_taken := ctl_permits_taken c - 1\<rparr>))"

text \<open>
  The phases of a worker inside \<open>admission\<close>: after the first check, with a permit, and inside
  the \<open>with\<close> block; \<open>Denied\<close> carries the exception it left with.
\<close>

datatype phase = Out | Waiting pynum | Permitted pynum | Admitted pynum | Denied coded_error

record admission_state =
  ctl :: controller
  phase_of :: "nat \<Rightarrow> phase"

definition set_phase :: "admission_state \<Rightarrow> nat \<Rightarrow> phase \<Rightarrow> admission_state" where
  "set_phase s w p = s\<lparr>phase_of := (phase_of s)(w := p)\<rparr>"

definition enter_admission :: "nat \<Rightarrow> pynum \<Rightarrow> admission_state \<Rightarrow> admission_state" where
  "enter_admission w tid s =
     (case check_enabled (ctl s) tid of
        Inl e \<Rightarrow> set_phase s w (Denied e) | Inr _ \<Rightarrow> set_phase s w (Waiting tid))"

definition permit_timeout :: "nat \<Rightarrow> admission_state \<Rightarrow> admission_state" where
  "permit_timeout w s = set_phase s w (Denied (network_denied ''network_concurrency_timeout''
     ''Network concurrency permit wait timed out.''))"

text \<open>Leaving through \<open>finally\<close>: the permit is released; a failing release would raise.\<close>

definition leave_with :: "nat \<Rightarrow> phase \<Rightarrow> admission_state \<Rightarrow> admission_state option" where
  "leave_with w p s =
     map_option (\<lambda>c. (set_phase s w p)\<lparr>ctl := c\<rparr>) (semaphore_release (ctl s))"

definition second_check :: "nat \<Rightarrow> pynum \<Rightarrow> admission_state \<Rightarrow> admission_state option" where
  "second_check w tid s =
     (case check_enabled (ctl s) tid of
        Inl e \<Rightarrow> leave_with w (Denied e) s | Inr _ \<Rightarrow> Some (set_phase s w (Admitted tid)))"

inductive astep :: "admission_state \<Rightarrow> admission_state \<Rightarrow> bool" where
  enter: "phase_of s w = Out \<or> (\<exists>e. phase_of s w = Denied e) \<Longrightarrow> astep s (enter_admission w tid s)"
| permit: "phase_of s w = Waiting tid \<Longrightarrow> semaphore_acquire (ctl s) = Some c
     \<Longrightarrow> astep s ((set_phase s w (Permitted tid))\<lparr>ctl := c\<rparr>)"
| timeout: "phase_of s w = Waiting tid \<Longrightarrow> astep s (permit_timeout w s)"
| recheck: "phase_of s w = Permitted tid \<Longrightarrow> second_check w tid s = Some t \<Longrightarrow> astep s t"
| leave: "phase_of s w = Admitted tid \<Longrightarrow> leave_with w Out s = Some t \<Longrightarrow> astep s t"
| switch_global: "b = disable_global \<or> b = enable_global \<Longrightarrow> astep s (s\<lparr>ctl := b (ctl s)\<rparr>)"
| switch_target: "disable_target tid (ctl s) = Inr c \<or> enable_target tid (ctl s) = Inr c
     \<Longrightarrow> astep s (s\<lparr>ctl := c\<rparr>)"

inductive_cases astepE: "astep s t"

definition admission_start :: "admission_state \<Rightarrow> bool" where
  "admission_start s \<longleftrightarrow> ctl_permits_taken (ctl s) = 0 \<and> (\<forall>w. phase_of s w = Out)"

text \<open>The workers that hold a permit, and the number of permits out.\<close>

definition permit_holders :: "admission_state \<Rightarrow> nat set" where
  "permit_holders s = {w. \<exists>tid. phase_of s w \<in> {Permitted tid, Admitted tid}}"

definition has_permit :: "phase \<Rightarrow> bool" where
  "has_permit p \<longleftrightarrow> (\<exists>tid. p \<in> {Permitted tid, Admitted tid})"

lemma has_permit_simps [simp]:
  "has_permit (Permitted tid)" "has_permit (Admitted tid)" "\<not> has_permit Out"
  "\<not> has_permit (Waiting tid)" "\<not> has_permit (Denied e)"
  by (simp_all add: has_permit_def)

lemma permit_holders_set [simp]:
  "permit_holders ((set_phase s w p)\<lparr>ctl := c\<rparr>)
     = (if has_permit p then insert w (permit_holders s) else permit_holders s - {w})"
  "permit_holders (set_phase s w p)
     = (if has_permit p then insert w (permit_holders s) else permit_holders s - {w})"
  "permit_holders (s\<lparr>ctl := c\<rparr>) = permit_holders s"
  by (auto simp: permit_holders_def set_phase_def has_permit_def)

lemma in_permit_holders: "w \<in> permit_holders s \<longleftrightarrow> has_permit (phase_of s w)"
  by (simp add: permit_holders_def has_permit_def)

lemma ctl_set_phase [simp]: "ctl (set_phase s w p) = ctl s"
  by (simp add: set_phase_def)

lemma switch_keeps [simp]:
  "ctl_permits_taken (disable_global c) = ctl_permits_taken c"
  "ctl_permits_taken (enable_global c) = ctl_permits_taken c"
  "ctl_maximum_concurrency (disable_global c) = ctl_maximum_concurrency c"
  "ctl_maximum_concurrency (enable_global c) = ctl_maximum_concurrency c"
  by (simp_all add: disable_global_def enable_global_def)

lemma switch_target_keeps:
  "disable_target tid c = Inr c' \<or> enable_target tid c = Inr c'
   \<Longrightarrow> ctl_permits_taken c' = ctl_permits_taken c
     \<and> ctl_maximum_concurrency c' = ctl_maximum_concurrency c"
  by (auto simp: disable_target_def enable_target_def res_map_def split: sum.splits)

lemma leave_with_Some:
  "leave_with w p s = Some t \<longleftrightarrow> ctl_permits_taken (ctl s) \<noteq> 0
     \<and> t = (set_phase s w p)\<lparr>ctl := (ctl s)\<lparr>ctl_permits_taken := ctl_permits_taken (ctl s) - 1\<rparr>\<rparr>"
  by (auto simp: leave_with_def semaphore_release_def)

text \<open>The effect of one step of the local controller on the count of permits.\<close>

lemma astep_count:
  assumes "astep s t"
  shows "ctl_maximum_concurrency (ctl t) = ctl_maximum_concurrency (ctl s)"
    and "permit_holders t = permit_holders s \<and> ctl_permits_taken (ctl t) = ctl_permits_taken (ctl s)
      \<or> (\<exists>w \<in> permit_holders s. permit_holders t = permit_holders s - {w}
            \<and> Suc (ctl_permits_taken (ctl t)) = ctl_permits_taken (ctl s))
      \<or> (\<exists>w. w \<notin> permit_holders s \<and> permit_holders t = insert w (permit_holders s)
            \<and> ctl_permits_taken (ctl s) < ctl_maximum_concurrency (ctl s)
            \<and> ctl_permits_taken (ctl t) = Suc (ctl_permits_taken (ctl s)))"
  using assms
proof (induction rule: astep.induct)
  case (enter s w tid)
  {
    case 1
    show ?case by (simp add: enter_admission_def split: sum.splits)
  next
    case 2
    have "w \<notin> permit_holders s" using enter by (auto simp: in_permit_holders)
    then show ?case by (simp add: enter_admission_def split: sum.splits)
  }
next
  case (permit s w tid c)
  {
    case 1
    show ?case using permit by (auto simp: semaphore_acquire_def split: if_splits)
  next
    case 2
    have "w \<notin> permit_holders s" using permit by (simp add: in_permit_holders)
    then show ?case using permit(2) by (auto simp: semaphore_acquire_def split: if_splits)
  }
next
  case (timeout s w tid)
  {
    case 1
    show ?case by (simp add: permit_timeout_def)
  next
    case 2
    have "w \<notin> permit_holders s" using timeout by (simp add: in_permit_holders)
    then show ?case by (simp add: permit_timeout_def)
  }
next
  case (recheck s w tid t)
  {
    case 1
    show ?case using recheck by (auto simp: second_check_def leave_with_Some split: sum.splits)
  next
    case 2
    have "w \<in> permit_holders s" using recheck by (simp add: in_permit_holders)
    then show ?case using recheck(2)
      by (auto simp: second_check_def leave_with_Some insert_absorb split: sum.splits)
  }
next
  case (leave s w tid t)
  {
    case 1
    show ?case using leave by (auto simp: leave_with_Some)
  next
    case 2
    have "w \<in> permit_holders s" using leave by (simp add: in_permit_holders)
    then show ?case using leave(2) by (auto simp: leave_with_Some)
  }
next
  case (switch_global b s)
  {
    case 1
    show ?case using switch_global by auto
  next
    case 2
    show ?case using switch_global by auto
  }
next
  case (switch_target tid s c)
  {
    case 1
    show ?case using switch_target_keeps[OF switch_target] by simp
  next
    case 2
    show ?case using switch_target_keeps[OF switch_target] by simp
  }
qed

interpretation local_permits: count_pool admission_start astep permit_holders
  "\<lambda>s. ctl_maximum_concurrency (ctl s)" "\<lambda>s. ctl_permits_taken (ctl s)"
proof (unfold_locales)
  fix s :: admission_state
  assume "admission_start s"
  then show "permit_holders s = {} \<and> ctl_permits_taken (ctl s) = 0"
    by (simp add: admission_start_def permit_holders_def)
qed (fact astep_count)+

lemma recheck_enabled:
  assumes "astep s t" and "phase_of t w = Admitted tid" and "phase_of s w \<noteq> Admitted tid"
  shows "check_enabled (ctl s) tid = Inr () \<and> phase_of s w = Permitted tid"
  using assms
  by (induction rule: astep.induct)
    (auto simp: enter_admission_def permit_timeout_def second_check_def leave_with_Some set_phase_def
      split: sum.splits if_splits)

subsection \<open>The shared controller\<close>

definition ADVISORY_LOCK_NAMESPACE :: int where
  "ADVISORY_LOCK_NAMESPACE = 4278163"

definition MAXIMUM_CONCURRENCY_BOUND :: int where
  "MAXIMUM_CONCURRENCY_BOUND = 1024"

text \<open>
  The row of \<open>network_global_control\<close> with id 1, and \<open>network_disabled_targets\<close>. A statement
  that raises anything but \<open>NetworkExecutionDenied\<close> ends as \<open>network_coordination_failed\<close>.
\<close>

record network_tables =
  control_row :: "(bool \<times> int) option"
  disabled_targets :: "int set"

datatype pg_exception = ExecutionDenied coded_error | OtherException

definition coordination_failed :: coded_error where
  "coordination_failed =
     network_denied ''network_coordination_failed'' ''Shared network coordination failed.''"

definition concurrency_timeout :: coded_error where
  "concurrency_timeout =
     network_denied ''network_concurrency_timeout'' ''Network concurrency permit wait timed out.''"

definition read_limit :: "network_tables \<Rightarrow> pg_exception + int" where
  "read_limit db =
     (case control_row db of
        None \<Rightarrow> Inl OtherException
      | Some (_, maximum) \<Rightarrow>
         (if 1 \<le> maximum \<and> maximum \<le> MAXIMUM_CONCURRENCY_BOUND then Inr maximum
          else Inl OtherException))"

definition read_enabled_and_limit :: "network_tables \<Rightarrow> int \<Rightarrow> pg_exception + int" where
  "read_enabled_and_limit db target_id =
     (case control_row db of
        None \<Rightarrow> Inl OtherException
      | Some (enabled, maximum) \<Rightarrow>
         (if \<not> (1 \<le> maximum \<and> maximum \<le> MAXIMUM_CONCURRENCY_BOUND) then Inl OtherException
          else if \<not> enabled then
            Inl (ExecutionDenied (network_denied ''network_global_disabled''
              ''Global network execution is disabled.''))
          else if target_id \<in> disabled_targets db then
            Inl (ExecutionDenied (network_denied ''network_target_disabled''
              ''Network execution is disabled for this Target.''))
          else Inr maximum))"

definition as_denied :: "pg_exception \<Rightarrow> coded_error" where
  "as_denied e = (case e of ExecutionDenied d \<Rightarrow> d | OtherException \<Rightarrow> coordination_failed)"

text \<open>\<open>db_ok\<close> is false when connecting, the statement or the commit raises.\<close>

definition pg_check_enabled :: "bool \<Rightarrow> network_tables \<Rightarrow> pynum \<Rightarrow> coded_error + unit" where
  "pg_check_enabled db_ok db target_id =
     res_bind (validate_target_id target_id) (\<lambda>i.
       if \<not> db_ok then Inl coordination_failed
       else (case read_enabled_and_limit db i of Inl e \<Rightarrow> Inl (as_denied e) | Inr _ \<Rightarrow> Inr ()))"

definition update_global :: "bool \<Rightarrow> bool \<Rightarrow> network_tables \<Rightarrow> network_tables \<times> (coded_error + unit)" where
  "update_global db_ok enabled db =
     (if \<not> db_ok then (db, Inl coordination_failed)
      else (case control_row db of
        None \<Rightarrow> (db, Inl coordination_failed)
      | Some (_, maximum) \<Rightarrow> (db\<lparr>control_row := Some (enabled, maximum)\<rparr>, Inr ())))"

definition pg_disable_target ::
  "bool \<Rightarrow> pynum \<Rightarrow> network_tables \<Rightarrow> network_tables \<times> (coded_error + unit)" where
  "pg_disable_target db_ok target_id db =
     (case validate_target_id target_id of
        Inl e \<Rightarrow> (db, Inl e)
      | Inr i \<Rightarrow> (if db_ok then (db\<lparr>disabled_targets := insert i (disabled_targets db)\<rparr>, Inr ())
                  else (db, Inl coordination_failed)))"

definition pg_enable_target ::
  "bool \<Rightarrow> pynum \<Rightarrow> network_tables \<Rightarrow> network_tables \<times> (coded_error + unit)" where
  "pg_enable_target db_ok target_id db =
     (case validate_target_id target_id of
        Inl e \<Rightarrow> (db, Inl e)
      | Inr i \<Rightarrow> (if db_ok then (db\<lparr>disabled_targets := disabled_targets db - {i}\<rparr>, Inr ())
                  else (db, Inl coordination_failed)))"

text \<open>
  The phases of a worker in \<open>admission\<close>. It holds its advisory lock in \<open>PgLocked\<close> and
  \<open>PgInside\<close>; a worker whose database session dies inside the \<open>with\<close> block loses the lock on
  the server and is \<open>PgOrphan\<close> until it leaves.
\<close>

datatype pg_phase =
  PgOut | PgScan int | PgLocked int nat | PgInside int nat | PgOrphan int | PgDenied coded_error

record pg_state =
  pg_db :: network_tables
  pg_phase_of :: "nat \<Rightarrow> pg_phase"

fun pg_slot_of :: "pg_phase \<Rightarrow> nat option" where
  "pg_slot_of (PgLocked _ k) = Some k"
| "pg_slot_of (PgInside _ k) = Some k"
| "pg_slot_of _ = None"

definition pg_slot :: "pg_state \<Rightarrow> nat \<Rightarrow> nat option" where
  "pg_slot s w = pg_slot_of (pg_phase_of s w)"

definition pg_goto :: "pg_state \<Rightarrow> nat \<Rightarrow> pg_phase \<Rightarrow> pg_state" where
  "pg_goto s w p = s\<lparr>pg_phase_of := (pg_phase_of s)(w := p)\<rparr>"

text \<open>The check after the lock was obtained, in the same session.\<close>

definition pg_recheck :: "network_tables \<Rightarrow> int \<Rightarrow> nat \<Rightarrow> pg_phase" where
  "pg_recheck db tid k =
     (case read_enabled_and_limit db tid of
        Inl e \<Rightarrow> PgDenied (as_denied e)
      | Inr fresh_maximum \<Rightarrow>
         (if int k > fresh_maximum then PgDenied coordination_failed else PgInside tid k))"

inductive pgstep :: "pg_state \<Rightarrow> pg_state \<Rightarrow> bool" where
  pg_enter: "pg_phase_of s w = PgOut \<or> (\<exists>e. pg_phase_of s w = PgDenied e)
     \<Longrightarrow> pgstep s (pg_goto s w (case (pg_check_enabled db_ok (pg_db s) tid, validate_target_id tid) of
            (Inr _, Inr i) \<Rightarrow> PgScan i | (Inl e, _) \<Rightarrow> PgDenied e | (_, Inl e) \<Rightarrow> PgDenied e))"
| pg_lock: "pg_phase_of s w = PgScan tid \<Longrightarrow> read_limit (pg_db s) = Inr maximum
     \<Longrightarrow> 1 \<le> k \<Longrightarrow> int k \<le> maximum \<Longrightarrow> (\<forall>v. pg_slot s v \<noteq> Some k)
     \<Longrightarrow> pgstep s (pg_goto s w (PgLocked tid k))"
| pg_scan_ends: "pg_phase_of s w = PgScan tid \<Longrightarrow> e \<in> {concurrency_timeout, coordination_failed}
     \<Longrightarrow> pgstep s (pg_goto s w (PgDenied e))"
| pg_locked_ends: "pg_phase_of s w = PgLocked tid k \<Longrightarrow> e \<in> {concurrency_timeout, coordination_failed}
     \<Longrightarrow> pgstep s (pg_goto s w (PgDenied e))"
| pg_rechecked: "pg_phase_of s w = PgLocked tid k \<Longrightarrow> pgstep s (pg_goto s w (pg_recheck (pg_db s) tid k))"
| pg_session_dies: "pg_phase_of s w = PgInside tid k \<Longrightarrow> pgstep s (pg_goto s w (PgOrphan tid))"
| pg_leave: "pg_phase_of s w = PgInside tid k \<or> pg_phase_of s w = PgOrphan tid
     \<Longrightarrow> pgstep s (pg_goto s w PgOut)"
| pg_switch: "f = update_global db_ok enabled \<or> f = pg_disable_target db_ok tid
     \<or> f = pg_enable_target db_ok tid \<Longrightarrow> f (pg_db s) = (db', r) \<Longrightarrow> pgstep s (s\<lparr>pg_db := db'\<rparr>)"

definition pg_start :: "pg_state \<Rightarrow> bool" where
  "pg_start s \<longleftrightarrow> (\<forall>w. pg_phase_of s w = PgOut)"

definition pg_limit :: "pg_state \<Rightarrow> nat" where
  "pg_limit s = (case control_row (pg_db s) of None \<Rightarrow> 0 | Some (_, maximum) \<Rightarrow> nat maximum)"

lemma pg_goto_simps [simp]:
  "pg_db (pg_goto s w p) = pg_db s" "pg_slot (pg_goto s w p) = (pg_slot s)(w := pg_slot_of p)"
  "pg_slot (s\<lparr>pg_db := db\<rparr>) = pg_slot s"
  by (auto simp: pg_goto_def pg_slot_def fun_eq_iff)

lemma pg_switch_limit:
  "f = update_global db_ok enabled \<or> f = pg_disable_target db_ok tid
     \<or> f = pg_enable_target db_ok tid \<Longrightarrow> f db = (db', r)
   \<Longrightarrow> map_option snd (control_row db') = map_option snd (control_row db)"
  by (auto simp: update_global_def pg_disable_target_def pg_enable_target_def
      split: option.splits sum.splits if_splits)

lemma pgstep_limit: "pgstep s t \<Longrightarrow> pg_limit t = pg_limit s"
proof (induction rule: pgstep.induct)
  case (pg_switch f db_ok enabled tid s db' r)
  then show ?case using pg_switch_limit[OF pg_switch] by (auto simp: pg_limit_def split: option.splits)
qed (simp_all add: pg_limit_def)

lemma pgstep_slot:
  "pgstep s t \<Longrightarrow> pg_slot t = pg_slot s \<or> (\<exists>w. pg_slot t = (pg_slot s)(w := None))
     \<or> (\<exists>w k. 1 \<le> k \<and> k \<le> pg_limit s \<and> (\<forall>v. pg_slot s v \<noteq> Some k) \<and> pg_slot t = (pg_slot s)(w := Some k))"
proof (induction rule: pgstep.induct)
  case (pg_enter s w db_ok tid)
  then have "pg_slot s w = None" by (auto simp: pg_slot_def)
  then show ?case by (auto split: sum.splits)
next
  case (pg_lock s w tid maximum k)
  then have "k \<le> pg_limit s" by (auto simp: pg_limit_def read_limit_def split: option.splits if_splits)
  then show ?case using pg_lock by auto
next
  case (pg_rechecked s w tid k)
  then have k: "pg_slot s w = Some k" by (simp add: pg_slot_def)
  have "pg_slot_of (pg_recheck (pg_db s) tid k) \<in> {None, Some k}"
    by (auto simp: pg_recheck_def split: sum.splits)
  then show ?case
  proof (elim insertE emptyE)
    assume "pg_slot_of (pg_recheck (pg_db s) tid k) = Some k"
    then show ?thesis using k by (simp add: fun_upd_idem)
  qed (simp, blast)
qed (auto simp del: fun_upd_apply)

interpretation shared_permits: slot_pool pg_start pgstep pg_slot pg_limit
proof (unfold_locales)
  fix s w
  assume "pg_start s"
  then show "pg_slot s w = None" by (simp add: pg_start_def pg_slot_def)
qed (fact pgstep_limit pgstep_slot)+

subsection \<open>Properties\<close>

text \<open>
  C9. The process-local controller, for every interleaving of workers and switch operations:
  the number of workers inside \<open>admission\<close> never exceeds the configured maximum; a worker
  enters only by a check of the switches made after it obtained its permit; the permit of a
  worker inside can always be released, so none is lost, and when no worker holds a permit all
  are free.
\<close>

theorem local_admission_safe:
  assumes "admission_start s" and "astep\<^sup>*\<^sup>* s t"
  shows "card {w. \<exists>tid. phase_of t w = Admitted tid} \<le> ctl_maximum_concurrency (ctl s)
    \<and> (\<forall>u w tid. astep t u \<longrightarrow> phase_of u w = Admitted tid \<longrightarrow> phase_of t w \<noteq> Admitted tid
         \<longrightarrow> check_enabled (ctl t) tid = Inr () \<and> phase_of t w = Permitted tid)
    \<and> (\<forall>w tid. phase_of t w = Admitted tid \<longrightarrow> leave_with w Out t \<noteq> None)
    \<and> (permit_holders t = {} \<longrightarrow> ctl_permits_taken (ctl t) = 0)"
proof -
  note count = local_permits.count_steps[OF assms]
  have "{w. \<exists>tid. phase_of t w = Admitted tid} \<subseteq> permit_holders t" by (auto simp: permit_holders_def)
  then have "card {w. \<exists>tid. phase_of t w = Admitted tid} \<le> ctl_maximum_concurrency (ctl s)"
    using local_permits.admitted_bounded[OF assms] by blast
  moreover have "leave_with w Out t \<noteq> None" if "phase_of t w = Admitted tid" for w tid
  proof -
    have "w \<in> permit_holders t" using that by (simp add: in_permit_holders)
    then have "ctl_permits_taken (ctl t) \<noteq> 0" using count by (metis card_eq_0_iff empty_iff)
    then show ?thesis by (simp add: leave_with_def semaphore_release_def)
  qed
  moreover have "permit_holders t = {} \<longrightarrow> ctl_permits_taken (ctl t) = 0"
    using count by (metis card.empty)
  ultimately show ?thesis using recheck_enabled by blast
qed

theorem local_admission_safe_witness:
  "(let s = \<lparr>ctl = \<lparr>ctl_maximum_concurrency = 2, ctl_global_enabled = True,
       ctl_disabled_target_ids = {}, ctl_permits_taken = 0\<rparr>, phase_of = (\<lambda>_. Out)\<rparr>
    in phase_of (enter_admission 1 (PyInt 5) s) 1 = Waiting (PyInt 5)
       \<and> card {w. \<exists>tid. phase_of (enter_admission 1 (PyInt 5) s) w = Admitted tid} \<le> 2)"
proof -
  let ?s = "\<lparr>ctl = \<lparr>ctl_maximum_concurrency = 2, ctl_global_enabled = True,
       ctl_disabled_target_ids = {}, ctl_permits_taken = 0\<rparr>, phase_of = (\<lambda>_. Out)\<rparr>"
  have st: "admission_start ?s" by (simp add: admission_start_def)
  have "astep\<^sup>*\<^sup>* ?s (enter_admission 1 (PyInt 5) ?s)"
    by (intro r_into_rtranclp astep.enter) simp
  from local_admission_safe[OF st this] show ?thesis
    by (simp add: enter_admission_def check_enabled_def validate_target_id_def res_bind_def set_phase_def)
qed



end
