(* ===== verification/Db_Models.thy ===== *)
theory Db_Models
  imports PyText
begin

text \<open>
  The rows of the platform's tables (\<open>src/backend/app/db/models\<close>) as records, one per
  model class with its columns, and the check constraints of the tables as predicates.
  A nullable column is an \<open>option\<close>, an identifier an \<open>int\<close>, a \<open>DateTime(timezone=True)\<close>
  the number of microseconds since the epoch in UTC (the resolution of both Python and
  PostgreSQL), a JSONB column a \<open>json\<close> value. Relationship attributes are not columns.
\<close>

type_synonym row_id = int
type_synonym datetime = int

text \<open>
  JSON values as Python holds them. A finite float is represented by the text of its
  \<open>repr\<close>; the infinities and NaN, which strict JSON cannot express, are \<open>JNonFinite\<close>
  of their \<open>repr\<close> (\<open>inf\<close>, \<open>-inf\<close>, \<open>nan\<close>).
\<close>

datatype json =
  JNull
| JBool bool
| JInt int
| JFloat string
| JNonFinite string
| JStr string
| JArr "json list"
| JObj "(string \<times> json) list"

subsection \<open>Targets, authorization and scope\<close>

record target =
  tgt_id :: row_id
  tgt_asset_enrollment_decision_id :: "row_id option"
  tgt_authorization_profile_id :: "row_id option"
  tgt_authorization_revision_id :: "row_id option"
  tgt_name :: string
  tgt_base_url :: string
  tgt_environment :: string
  tgt_network_mode :: string
  tgt_is_enabled :: bool
  tgt_created_at :: datetime

definition target_row_ok :: "target \<Rightarrow> bool" where
  "target_row_ok t \<longleftrightarrow>
     tgt_network_mode t \<in> {''private_local'', ''external_public_authorized''}"

record authorization_revision =
  rev_id :: row_id
  rev_authorization_profile_id :: row_id
  rev_revision_number :: int
  rev_lifecycle_state :: string
  rev_name :: string
  rev_program_name :: string
  rev_program_url :: "string option"
  rev_authorization_type :: string
  rev_authorization_reference :: "string option"
  rev_valid_from :: "datetime option"
  rev_valid_until :: "datetime option"
  rev_automation_allowed :: bool
  rev_max_requests_per_second :: pynum
  rev_allow_get :: bool
  rev_allow_post :: bool
  rev_allow_patch :: bool
  rev_allow_put :: bool
  rev_allow_delete :: bool
  rev_require_human_execution_approval :: bool
  rev_notes :: "string option"
  rev_created_at :: datetime

definition authorization_revision_row_ok :: "authorization_revision \<Rightarrow> bool" where
  "authorization_revision_row_ok r \<longleftrightarrow>
     rev_revision_number r > 0
     \<and> (case rev_max_requests_per_second r of
          PyFloat q \<Rightarrow> q > 0 | PyInf \<Rightarrow> True | PyNan \<Rightarrow> True | _ \<Rightarrow> False)
     \<and> (case (rev_valid_from r, rev_valid_until r) of
          (Some a, Some b) \<Rightarrow> b > a | _ \<Rightarrow> True)
     \<and> rev_lifecycle_state r \<in> {''draft'', ''active'', ''superseded'', ''revoked''}"

record scope =
  scope_id :: row_id
  scope_target_id :: row_id
  scope_hostname :: string
  scope_path_pattern :: string
  scope_allowed_methods :: "string list"
  scope_is_active :: bool

subsection \<open>Identities, credentials, endpoints, resources and test cases\<close>

record test_identity =
  ident_id :: row_id
  ident_target_id :: row_id
  ident_name :: string
  ident_role :: "string option"
  ident_auth_type :: string
  ident_credentials :: "json option"
  ident_is_active :: bool
  ident_created_at :: datetime
  ident_updated_at :: datetime

record credential_binding =
  cb_id :: row_id
  cb_test_identity_id :: row_id
  cb_auth_type :: string
  cb_source_type :: string
  cb_is_active :: bool
  cb_created_at :: datetime
  cb_updated_at :: datetime

record credential_secret_version =
  csv_id :: row_id
  csv_credential_binding_id :: row_id
  csv_encrypted_envelope :: string
  csv_envelope_version :: int
  csv_key_version :: string
  csv_created_at :: datetime

record endpoint =
  ep_id :: row_id
  ep_target_id :: row_id
  ep_path :: string
  ep_method :: string
  ep_operation_id :: "string option"
  ep_requires_auth :: bool
  ep_parameters :: "json list"
  ep_request_body :: "json option"
  ep_security :: "json list option"
  ep_created_at :: datetime
  ep_updated_at :: datetime

record resource =
  res_id :: row_id
  res_target_id :: row_id
  res_resource_type :: string
  res_external_id :: string
  res_owner_identity_id :: row_id
  res_created_at :: datetime
  res_updated_at :: datetime

record test_case =
  tc_id :: row_id
  tc_endpoint_id :: row_id
  tc_actor_identity_id :: row_id
  tc_resource_id :: row_id
  tc_test_type :: string
  tc_ownership_relation :: string
  tc_expected_statuses :: "int list"
  tc_status :: string
  tc_created_at :: datetime

record test_run =
  run_id :: row_id
  run_test_case_id :: row_id
  run_request_data :: json
  run_response_status :: "int option"
  run_response_body :: "string option"
  run_duration_ms :: "int option"
  run_error_message :: "string option"
  run_executed_at :: datetime
  run_authorization_revision_id :: "row_id option"
  run_execution_plan_id :: "row_id option"

subsection \<open>Execution plans and their coordination rows\<close>

record execution_plan =
  plan_id :: row_id
  plan_target_id :: row_id
  plan_authorization_revision_id :: row_id
  plan_actor_identity_id :: row_id
  plan_credential_binding_id :: "row_id option"
  plan_digest_version :: string
  plan_plan_digest :: string
  plan_action_count :: int
  plan_policy_context :: json
  plan_created_at :: datetime

definition lower_hex_char :: "char \<Rightarrow> bool" where
  "lower_hex_char c \<longleftrightarrow> is_digit c \<or> (97 \<le> ord c \<and> ord c \<le> 102)"

text \<open>The regular expression \<open>[0-9a-f]{64}\<close> of the digest columns and of the integrity check.\<close>

definition digest_shape :: "string \<Rightarrow> bool" where
  "digest_shape d \<longleftrightarrow> length d = 64 \<and> list_all lower_hex_char d"

definition execution_plan_row_ok :: "execution_plan \<Rightarrow> bool" where
  "execution_plan_row_ok p \<longleftrightarrow>
     plan_action_count p > 0 \<and> plan_action_count p \<le> 100
     \<and> plan_digest_version p = ''v1'' \<and> digest_shape (plan_plan_digest p)"

record plan_action =
  act_id :: row_id
  act_execution_plan_id :: row_id
  act_ordinal :: int
  act_method :: string
  act_url :: string
  act_test_case_id :: "row_id option"
  act_resource_id :: "row_id option"
  act_created_at :: datetime

definition plan_action_row_ok :: "plan_action \<Rightarrow> bool" where
  "plan_action_row_ok a \<longleftrightarrow> act_ordinal a > 0 \<and> act_method a = ''GET''"

record execution_plan_claim =
  claim_owner_id :: "string option"
  claim_fencing_generation :: int
  claim_lease_expires_at :: datetime

record execution_plan_progress =
  prog_fencing_generation :: int
  prog_phase :: string
  prog_updated_at :: datetime

record execution_plan_cancellation =
  cancel_requested_at :: datetime

record execution_plan_approval_record =
  appr_id :: row_id
  appr_execution_plan_id :: row_id
  appr_digest_version :: string
  appr_plan_digest :: string
  appr_decision :: string
  appr_created_at :: datetime

record safety_decision_record =
  sdr_stage :: string
  sdr_operation :: string
  sdr_outcome :: string
  sdr_target_id :: row_id
  sdr_authorization_revision_id :: "row_id option"
  sdr_execution_plan_id :: "row_id option"
  sdr_plan_action_id :: "row_id option"
  sdr_test_case_id :: "row_id option"
  sdr_test_run_id :: "row_id option"
  sdr_code :: "string option"
  sdr_reason :: "string option"
  sdr_matched_scope_id :: "row_id option"
  sdr_policy_evaluated_at :: "datetime option"

definition safety_decision_record_row_ok :: "safety_decision_record \<Rightarrow> bool" where
  "safety_decision_record_row_ok r \<longleftrightarrow>
     sdr_stage r \<in> {''plan'', ''policy'', ''execution''}
     \<and> sdr_operation r
         \<in> {''testcase_plan'', ''policy_check'', ''test_execution'', ''openapi_import''}
     \<and> sdr_outcome r \<in> {''created'', ''allowed'', ''blocked'', ''succeeded'', ''failed''}
     \<and> ((sdr_stage r = ''plan'' \<and> sdr_outcome r = ''created'')
        \<or> (sdr_stage r = ''policy'' \<and> sdr_outcome r \<in> {''allowed'', ''blocked''})
        \<or> (sdr_stage r = ''execution''
            \<and> sdr_outcome r \<in> {''blocked'', ''succeeded'', ''failed''}))
     \<and> (sdr_stage r \<noteq> ''plan'' \<or> sdr_execution_plan_id r \<noteq> None)"

end
