(* ===== verification/Plan_Coordination.thy ===== *)
theory Plan_Coordination
  imports Db_Models
begin

text \<open>
  The PostgreSQL coordination of plan execution: claims with leases and fencing generations
  (\<open>services/execution_plan_claim.py\<close>), execution progress (\<open>execution_plan_progress.py\<close>) and
  cancellation (\<open>execution_plan_cancellation.py\<close>).

  Each SQL statement, or transaction that locks the plan row, is one atomic function of the
  tables and of the database clock. The services retry a transaction that raised; an attempt
  may be rolled back, or committed although the client saw an exception (\<open>CommitLost\<close>), and the
  next attempt then runs on the changed tables. Intervals are microseconds.
\<close>

subsection \<open>Tables and attempts\<close>

record coord =
  claims :: "row_id \<Rightarrow> execution_plan_claim option"
  progress :: "row_id \<Rightarrow> execution_plan_progress option"
  cancellations :: "row_id \<Rightarrow> execution_plan_cancellation option"
  plan_rows :: "row_id \<Rightarrow> bool"
  canonical_run :: "row_id \<Rightarrow> row_id option"

datatype attempt = AttemptOk | RolledBack | CommitLost

datatype 'e service_error = CoordinationError | ValueError string | TypeError | Domain 'e

text \<open>
  The retry loop: at most \<open>n\<close> attempts; attempt \<open>i\<close> has the fate and the clock reading \<open>env i\<close>.
  A domain error raised inside the transaction rolls it back and is not retried.
\<close>

fun retrying ::
  "(nat \<Rightarrow> attempt \<times> 'c) \<Rightarrow> nat \<Rightarrow> nat \<Rightarrow> ('c \<Rightarrow> 's \<Rightarrow> 's \<times> ('e + 'r)) \<Rightarrow> 's
   \<Rightarrow> 's \<times> ('e service_error + 'r)" where
  "retrying env i 0 f s = (s, Inl CoordinationError)"
| "retrying env i (Suc n) f s =
     (case env i of (fate, now) \<Rightarrow>
       (case f now s of (s', r) \<Rightarrow>
         (case fate of
            RolledBack \<Rightarrow> retrying env (i + 1) n f s
          | AttemptOk \<Rightarrow>
             (case r of Inl e \<Rightarrow> (s, Inl (Domain e)) | Inr x \<Rightarrow> (s', Inr x))
          | CommitLost \<Rightarrow>
             (case r of Inl e \<Rightarrow> (s, Inl (Domain e)) | Inr x \<Rightarrow> retrying env (i + 1) n f s'))))"

text \<open>Constructor checks shared by the three services: positive retries, finite positive timeout.\<close>

definition service_init :: "int \<Rightarrow> pynum \<Rightarrow> 'e service_error + (nat \<times> int)" where
  "service_init max_retries attempt_timeout_seconds =
     (if max_retries \<le> 0 then Inl (ValueError ''max_retries must be positive'')
      else (let checked = (\<lambda>q. if q \<le> (0 :: rat)
                 then Inl (ValueError ''attempt timeout must be finite and positive'')
                 else Inr (nat max_retries, max 1 \<lceil>q * 1000\<rceil>))
       in case attempt_timeout_seconds of
            PyBool b \<Rightarrow> checked (if b then 1 else 0)
          | PyNotNumber \<Rightarrow> Inl TypeError
          | v \<Rightarrow> (case finite_number v of
                    None \<Rightarrow> Inl (ValueError ''attempt timeout must be finite and positive'')
                  | Some q \<Rightarrow> checked q)))"

subsection \<open>Claims\<close>

record claim_handle =
  h_execution_plan_id :: row_id
  h_owner_id :: string
  h_fencing_generation :: int
  h_lease_expires_at :: datetime
  h_database_now :: datetime

datatype claim_error = ClaimUnavailable | ClaimLost

text \<open>\<open>make_interval(secs => x)\<close>, in microseconds.\<close>

definition interval_us :: "rat \<Rightarrow> int" where
  "interval_us secs = round (secs * 1000000)"

definition validate_claim_args :: "string \<Rightarrow> pynum \<Rightarrow> string + rat" where
  "validate_claim_args owner_id lease_seconds =
     (if py_strip owner_id = [] \<or> py_len owner_id > 128 then
        Inl ''owner_id must be non-empty and bounded''
      else (case finite_number lease_seconds of
        None \<Rightarrow> Inl ''lease_seconds must be finite and bounded''
      | Some q \<Rightarrow> (if 0 < q \<and> q \<le> 300 then Inr q
                   else Inl ''lease_seconds must be finite and bounded'')))"

text \<open>The \<open>INSERT ... ON CONFLICT DO UPDATE ... RETURNING\<close> of \<open>acquire\<close>.\<close>

definition acquire_stmt ::
  "row_id \<Rightarrow> string \<Rightarrow> int \<Rightarrow> datetime \<Rightarrow> coord \<Rightarrow> coord \<times> claim_handle option" where
  "acquire_stmt pid owner lease now db =
     (let expires = now + lease;
          put = (\<lambda>g. db\<lparr>claims := (claims db)(pid := Some \<lparr>claim_owner_id = Some owner,
                   claim_fencing_generation = g, claim_lease_expires_at = expires\<rparr>)\<rparr>);
          handle = (\<lambda>g. \<lparr>h_execution_plan_id = pid, h_owner_id = owner,
                   h_fencing_generation = g, h_lease_expires_at = expires, h_database_now = now\<rparr>)
      in case claims db pid of
           None \<Rightarrow> (put 1, Some (handle 1))
         | Some c \<Rightarrow>
            (if claim_owner_id c = None \<or> claim_lease_expires_at c \<le> now
             then (put (claim_fencing_generation c + 1),
                   Some (handle (claim_fencing_generation c + 1)))
             else (db, None)))"

text \<open>The condition on which \<open>assert_current\<close>, \<open>renew\<close>, and the progress service agree.\<close>

definition holds_claim :: "coord \<Rightarrow> claim_handle \<Rightarrow> bool" where
  "holds_claim db h \<longleftrightarrow>
     (case claims db (h_execution_plan_id h) of
        None \<Rightarrow> False
      | Some c \<Rightarrow> claim_owner_id c = Some (h_owner_id h)
                  \<and> claim_fencing_generation c = h_fencing_generation h)"

definition claim_is_current :: "coord \<Rightarrow> claim_handle \<Rightarrow> datetime \<Rightarrow> bool" where
  "claim_is_current db h now \<longleftrightarrow>
     holds_claim db h
     \<and> (case claims db (h_execution_plan_id h) of
          None \<Rightarrow> False | Some c \<Rightarrow> claim_lease_expires_at c > now)"

definition renew_stmt ::
  "claim_handle \<Rightarrow> int \<Rightarrow> datetime \<Rightarrow> coord \<Rightarrow> coord \<times> claim_handle option" where
  "renew_stmt h lease now db =
     (if claim_is_current db h now then
        (db\<lparr>claims := (claims db)(h_execution_plan_id h :=
             map_option (\<lambda>c. c\<lparr>claim_lease_expires_at := now + lease\<rparr>)
               (claims db (h_execution_plan_id h)))\<rparr>,
         Some (h\<lparr>h_lease_expires_at := now + lease, h_database_now := now\<rparr>))
      else (db, None))"

definition release_stmt :: "claim_handle \<Rightarrow> datetime \<Rightarrow> coord \<Rightarrow> coord \<times> bool" where
  "release_stmt h now db =
     (if holds_claim db h then
        (db\<lparr>claims := (claims db)(h_execution_plan_id h :=
             map_option (\<lambda>c. c\<lparr>claim_owner_id := None, claim_lease_expires_at := now\<rparr>)
               (claims db (h_execution_plan_id h)))\<rparr>, True)
      else (db, False))"

text \<open>The second statement of \<open>release\<close>: was this very generation released before?\<close>

definition already_released :: "coord \<Rightarrow> claim_handle \<Rightarrow> bool" where
  "already_released db h \<longleftrightarrow>
     (case claims db (h_execution_plan_id h) of
        None \<Rightarrow> False
      | Some c \<Rightarrow> claim_owner_id c = None \<and> claim_fencing_generation c = h_fencing_generation h)"

definition no_error :: "'s \<times> 'r \<Rightarrow> 's \<times> (claim_error + 'r)" where
  "no_error p = (fst p, Inr (snd p))"

text \<open>A missing plan violates the foreign key: every attempt raises.\<close>

definition claim_acquire ::
  "(nat \<Rightarrow> attempt \<times> datetime) \<Rightarrow> nat \<Rightarrow> row_id \<Rightarrow> string \<Rightarrow> pynum \<Rightarrow> coord
   \<Rightarrow> coord \<times> (claim_error service_error + claim_handle)" where
  "claim_acquire env retries pid owner lease_seconds db =
     (case validate_claim_args owner lease_seconds of
        Inl msg \<Rightarrow> (db, Inl (ValueError msg))
      | Inr lease \<Rightarrow>
        (if \<not> plan_rows db pid then (db, Inl CoordinationError)
         else (case retrying env 0 retries
           (\<lambda>now s. no_error (acquire_stmt pid owner (interval_us lease) now s)) db of
           (db', Inl e) \<Rightarrow> (db', Inl e)
         | (db', Inr None) \<Rightarrow> (db', Inl (Domain ClaimUnavailable))
         | (db', Inr (Some h)) \<Rightarrow> (db', Inr h))))"

text \<open>
  \<open>assert_current\<close>: with the caller's transaction (\<open>Some\<close>) one attempt and no retry, without
  it a transaction of its own under \<open>_run\<close>. Its locks end with the transaction.
\<close>

definition claim_assert_current ::
  "(attempt \<times> datetime) option \<Rightarrow> (nat \<Rightarrow> attempt \<times> datetime) \<Rightarrow> nat \<Rightarrow> claim_handle \<Rightarrow> coord
   \<Rightarrow> claim_error service_error + unit" where
  "claim_assert_current caller env retries h db =
     (let verdict = (\<lambda>ok. if ok then Inr () else Inl (Domain ClaimLost)) in
      case caller of
        Some (fate, now) \<Rightarrow>
          (if fate \<noteq> AttemptOk then Inl CoordinationError else verdict (claim_is_current db h now))
      | None \<Rightarrow>
          (case retrying env 0 retries (\<lambda>now s. no_error (s, claim_is_current s h now)) db of
             (_, Inl e) \<Rightarrow> Inl e
           | (_, Inr ok) \<Rightarrow> verdict ok))"

definition claim_renew ::
  "(nat \<Rightarrow> attempt \<times> datetime) \<Rightarrow> nat \<Rightarrow> claim_handle \<Rightarrow> pynum \<Rightarrow> coord
   \<Rightarrow> coord \<times> (claim_error service_error + claim_handle)" where
  "claim_renew env retries h lease_seconds db =
     (case validate_claim_args (h_owner_id h) lease_seconds of
        Inl msg \<Rightarrow> (db, Inl (ValueError msg))
      | Inr lease \<Rightarrow>
        (case retrying env 0 retries
            (\<lambda>now s. no_error (renew_stmt h (interval_us lease) now s)) db of
           (db', Inl e) \<Rightarrow> (db', Inl e)
         | (db', Inr None) \<Rightarrow> (db', Inl (Domain ClaimLost))
         | (db', Inr (Some h')) \<Rightarrow> (db', Inr h')))"

definition claim_release ::
  "(nat \<Rightarrow> attempt \<times> datetime) \<Rightarrow> (nat \<Rightarrow> attempt \<times> datetime) \<Rightarrow> nat \<Rightarrow> claim_handle \<Rightarrow> coord
   \<Rightarrow> coord \<times> (claim_error service_error + unit)" where
  "claim_release env env2 retries h db =
     (case retrying env 0 retries (\<lambda>now s. no_error (release_stmt h now s)) db of
        (db', Inl e) \<Rightarrow> (db', Inl e)
      | (db', Inr True) \<Rightarrow> (db', Inr ())
      | (db', Inr False) \<Rightarrow>
         (case retrying env2 0 retries (\<lambda>now s. no_error (s, already_released s h)) db' of
            (db'', Inl e) \<Rightarrow> (db'', Inl e)
          | (db'', Inr b) \<Rightarrow> (db'', if b then Inr () else Inl (Domain ClaimLost))))"

subsection \<open>Progress\<close>

datatype progress_error = InDoubt | ProgressLost | ProgressCancelled

text \<open>
  The single statement of \<open>prepare_attempt\<close>: insert or update the progress row if the claim is
  current and the row is still \<open>pre_network\<close> of no later generation, else classify.
\<close>

definition prepare_stmt ::
  "claim_handle \<Rightarrow> datetime \<Rightarrow> coord \<Rightarrow> coord \<times> (progress_error + execution_plan_progress)" where
  "prepare_stmt h now db =
     (let pid = h_execution_plan_id h;
          row = \<lparr>prog_fencing_generation = h_fencing_generation h, prog_phase = ''pre_network'',
                 prog_updated_at = now\<rparr>;
          current = claim_is_current db h now
      in if current \<and> (case progress db pid of
                          None \<Rightarrow> True
                        | Some p \<Rightarrow> prog_phase p = ''pre_network''
                            \<and> prog_fencing_generation p \<le> h_fencing_generation h)
         then (db\<lparr>progress := (progress db)(pid := Some row)\<rparr>, Inr row)
         else (db, Inl
           (if \<not> current then ProgressLost
            else (case progress db pid of
                    None \<Rightarrow> ProgressLost
                  | Some p \<Rightarrow> if prog_phase p \<in> {''network_started'', ''in_doubt''}
                              then InDoubt else ProgressLost))))"

text \<open>
  \<open>_run\<close> of the progress service commits the statement whatever it classified, so the
  classification is a value of the transaction, not an error raised inside it.
\<close>

definition prepare_attempt ::
  "(nat \<Rightarrow> attempt \<times> datetime) \<Rightarrow> nat \<Rightarrow> claim_handle \<Rightarrow> coord
   \<Rightarrow> coord \<times> (progress_error service_error + execution_plan_progress)" where
  "prepare_attempt env retries h db =
     (case retrying env 0 retries (\<lambda>now s. no_error (prepare_stmt h now s)) db of
        (db', Inl _) \<Rightarrow> (db', Inl CoordinationError)
      | (db', Inr (Inl e)) \<Rightarrow> (db', Inl (Domain e))
      | (db', Inr (Inr row)) \<Rightarrow> (db', Inr row))"

text \<open>
  The transaction of \<open>mark_network_started\<close>: lock the plan row, check the claim, check the
  cancellation, then move \<open>pre_network\<close> of this generation to \<open>network_started\<close>. A missing
  plan row (\<open>.one()\<close>) is an ordinary exception and is retried: it never commits.
\<close>

definition mark_txn ::
  "claim_handle \<Rightarrow> datetime \<Rightarrow> coord \<Rightarrow> coord \<times> (progress_error + execution_plan_progress)" where
  "mark_txn h now db =
     (let pid = h_execution_plan_id h in
      if \<not> claim_is_current db h now then (db, Inl ProgressLost)
      else if cancellations db pid \<noteq> None then (db, Inl ProgressCancelled)
      else (case progress db pid of
        None \<Rightarrow> (db, Inl ProgressLost)
      | Some p \<Rightarrow>
         (if prog_fencing_generation p = h_fencing_generation h \<and> prog_phase p = ''pre_network''
          then (let row = p\<lparr>prog_phase := ''network_started'', prog_updated_at := now\<rparr>
                in (db\<lparr>progress := (progress db)(pid := Some row)\<rparr>, Inr row))
          else (db, Inl ProgressLost))))"

definition mark_network_started ::
  "(nat \<Rightarrow> attempt \<times> datetime) \<Rightarrow> nat \<Rightarrow> claim_handle \<Rightarrow> coord
   \<Rightarrow> coord \<times> (progress_error service_error + execution_plan_progress)" where
  "mark_network_started env retries h db =
     (if plan_rows db (h_execution_plan_id h) then retrying env 0 retries (mark_txn h) db
      else (db, Inl CoordinationError))"

subsection \<open>Cancellation\<close>

datatype cancellation_error = PlanNotFound | AlreadyCompleted | CancellationInDoubt

definition cancel_txn ::
  "row_id \<Rightarrow> datetime \<Rightarrow> coord \<Rightarrow> coord \<times> (cancellation_error + execution_plan_cancellation)" where
  "cancel_txn pid now db =
     (if \<not> plan_rows db pid then (db, Inl PlanNotFound)
      else if canonical_run db pid \<noteq> None then (db, Inl AlreadyCompleted)
      else if (case progress db pid of
                 None \<Rightarrow> False
               | Some p \<Rightarrow> prog_phase p \<in> {''network_started'', ''in_doubt''})
      then (db, Inl CancellationInDoubt)
      else (case cancellations db pid of
              Some c \<Rightarrow> (db, Inr c)
            | None \<Rightarrow>
               (let c = \<lparr>cancel_requested_at = now\<rparr>
                in (db\<lparr>cancellations := (cancellations db)(pid := Some c)\<rparr>, Inr c))))"

definition request_cancel ::
  "(nat \<Rightarrow> attempt \<times> datetime) \<Rightarrow> nat \<Rightarrow> row_id \<Rightarrow> coord
   \<Rightarrow> coord \<times> (cancellation_error service_error + execution_plan_cancellation)" where
  "request_cancel env retries pid db = retrying env 0 retries (cancel_txn pid) db"

definition get_cancellation ::
  "(nat \<Rightarrow> attempt \<times> datetime) \<Rightarrow> nat \<Rightarrow> row_id \<Rightarrow> coord
   \<Rightarrow> cancellation_error service_error + execution_plan_cancellation option" where
  "get_cancellation env retries pid db =
     snd (retrying env 0 retries (\<lambda>now s. (s, Inr (cancellations s pid))) db)"

subsection \<open>Facts about claims\<close>

lemmas claim_defs = holds_claim_def claim_is_current_def acquire_stmt_def renew_stmt_def release_stmt_def

lemma acquire_gives_current:
  assumes "acquire_stmt pid owner lease now db = (db', Some h)" and "0 < lease"
  shows "claim_is_current db' h now"
  using assms by (auto simp: claim_defs Let_def split: option.splits if_splits)

lemma acquire_frame:
  "acquire_stmt pid owner lease now db = (db', r) \<Longrightarrow>
     progress db' = progress db \<and> cancellations db' = cancellations db
     \<and> canonical_run db' = canonical_run db \<and> plan_rows db' = plan_rows db"
  by (auto simp: acquire_stmt_def Let_def split: option.splits if_splits)

lemma renew_frame:
  "renew_stmt h lease now db = (db', r) \<Longrightarrow>
     progress db' = progress db \<and> cancellations db' = cancellations db
     \<and> canonical_run db' = canonical_run db \<and> plan_rows db' = plan_rows db"
  by (auto simp: renew_stmt_def split: if_splits)

lemma release_frame:
  "release_stmt h now db = (db', r) \<Longrightarrow>
     progress db' = progress db \<and> cancellations db' = cancellations db
     \<and> canonical_run db' = canonical_run db \<and> plan_rows db' = plan_rows db"
  by (auto simp: release_stmt_def split: if_splits)

text \<open>The fencing generation of a plan; 0 when there is no claim row.\<close>

definition generation :: "coord \<Rightarrow> row_id \<Rightarrow> int" where
  "generation db pid = (case claims db pid of None \<Rightarrow> 0 | Some c \<Rightarrow> claim_fencing_generation c)"

lemma acquire_generation:
  assumes "acquire_stmt pid owner lease now db = (db', Some h)"
  shows "h_fencing_generation h = generation db pid + 1" and "generation db' pid = generation db pid + 1"
    and "h_execution_plan_id h = pid" and "h_owner_id h = owner"
  using assms by (auto simp: acquire_stmt_def generation_def Let_def split: option.splits if_splits)

lemma current_generation: "claim_is_current db h now \<Longrightarrow> h_fencing_generation h = generation db (h_execution_plan_id h)"
  by (auto simp: claim_defs generation_def split: option.splits)

lemma acquire_None:
  assumes "acquire_stmt pid owner lease now db = (db', None)"
  shows "db' = db" and "\<exists>c. claims db pid = Some c \<and> claim_owner_id c \<noteq> None \<and> now < claim_lease_expires_at c"
  using assms by (auto simp: acquire_stmt_def Let_def split: option.splits if_splits)

subsection \<open>Facts about progress and cancellation\<close>

definition started :: "coord \<Rightarrow> row_id \<Rightarrow> bool" where
  "started db pid \<longleftrightarrow>
     (case progress db pid of None \<Rightarrow> False | Some p \<Rightarrow> prog_phase p \<in> {''network_started'', ''in_doubt''})"

lemma prepare_frame:
  "prepare_stmt h now db = (db', r) \<Longrightarrow>
     claims db' = claims db \<and> cancellations db' = cancellations db
     \<and> canonical_run db' = canonical_run db \<and> plan_rows db' = plan_rows db
     \<and> (\<forall>pid. started db' pid \<longleftrightarrow> started db pid)"
  by (auto simp: prepare_stmt_def started_def Let_def split: if_splits option.splits)

lemma mark_ok:
  assumes "mark_txn h now db = (db', Inr row)"
  shows "\<not> started db (h_execution_plan_id h)" and "started db' (h_execution_plan_id h)"
    and "cancellations db (h_execution_plan_id h) = None" and "claim_is_current db h now"
    and "cancellations db' = cancellations db" and "claims db' = claims db"
    and "canonical_run db' = canonical_run db" and "plan_rows db' = plan_rows db"
    and "pid \<noteq> h_execution_plan_id h \<Longrightarrow> started db' pid = started db pid"
  using assms by (auto simp: mark_txn_def started_def Let_def split: if_splits option.splits)

lemma mark_error: "mark_txn h now db = (db', Inl e) \<Longrightarrow> db' = db"
  by (auto simp: mark_txn_def Let_def split: if_splits option.splits)

lemma cancel_frame:
  "cancel_txn pid now db = (db', r) \<Longrightarrow>
     claims db' = claims db \<and> progress db' = progress db
     \<and> canonical_run db' = canonical_run db \<and> plan_rows db' = plan_rows db
     \<and> (\<forall>q. q \<noteq> pid \<longrightarrow> cancellations db' q = cancellations db q)
     \<and> (cancellations db' pid \<noteq> None \<longrightarrow> cancellations db pid \<noteq> None \<or> \<not> started db pid)
     \<and> (cancellations db pid \<noteq> None \<longrightarrow> cancellations db' pid = cancellations db pid)"
  by (auto simp: cancel_txn_def started_def Let_def split: if_splits option.splits)

lemma prepare_in_doubt:
  assumes "started db (h_execution_plan_id h)"
  shows "prepare_stmt h now db
    = (db, Inl (if claim_is_current db h now then InDoubt else ProgressLost))"
  using assms by (auto simp: prepare_stmt_def started_def Let_def split: option.splits)

subsection \<open>Facts about the retry loop\<close>

text \<open>
  If every run of the transaction keeps an invariant of the tables, the retry loop keeps it,
  whatever happens to the attempts.
\<close>

lemma retrying_invariant:
  assumes "\<And>t s. I s \<Longrightarrow> I (fst (f t s))" and "I s"
  shows "I (fst (retrying env i n f s))"
  using assms(2)
proof (induction n arbitrary: i s)
  case (Suc n)
  obtain fate now where e: "env i = (fate, now)" by (cases "env i")
  obtain s' r where f: "f now s = (s', r)" by (cases "f now s")
  have "I s'" using assms(1)[of s now] Suc.prems f by simp
  then show ?case using Suc e f by (cases fate; cases r) auto
qed simp

lemma retrying_RolledBack:
  "(\<And>k. fst (env k) = RolledBack) \<Longrightarrow> retrying env i n f s = (s, Inl CoordinationError)"
proof (induction n arbitrary: i)
  case (Suc n)
  then show ?case by (cases "env i"; cases "f (snd (env i)) s") (metis (mono_tags, lifting)
      attempt.simps(8) fst_conv old.prod.case retrying.simps(2) snd_conv)
qed simp

lemma retrying_first_ok:
  assumes "env i = (AttemptOk, t)" and "0 < n"
  shows "retrying env i n f s = (case f t s of (s', Inl e) \<Rightarrow> (s, Inl (Domain e)) | (s', Inr x) \<Rightarrow> (s', Inr x))"
  using assms by (cases n) (auto split: prod.splits sum.splits)

text \<open>What holds of every result of the transaction holds of the result of the loop.\<close>

lemma retrying_result:
  assumes "\<And>t s s' x. f t s = (s', Inr x) \<Longrightarrow> P x" and "retrying env i n f s = (s', Inr x)"
  shows "P x"
  using assms(2)
proof (induction n arbitrary: i s)
  case (Suc n)
  obtain fate now where e: "env i = (fate, now)" by (cases "env i")
  obtain d r where a: "f now s = (d, r)" by fastforce
  show ?case using Suc assms(1)[of now s d] e a by (cases fate; cases r) auto
qed simp

end
