(* ===== verification/Rate_Limit.thy ===== *)
theory Rate_Limit
  imports Plan_Coordination
begin

text \<open>
  The rate limiters of \<open>executors/rate_limit.py\<close>: the in-memory one under its lock and the
  PostgreSQL one with its single upsert. Seconds are rationals (Python's floats without
  rounding); the times of the database are microseconds. Both are instances of a locale that
  bounds the number of request starts of a key in any window of time.
\<close>

subsection \<open>Spacing\<close>

definition spaced :: "rat \<Rightarrow> rat list \<Rightarrow> bool" where
  "spaced d ts \<longleftrightarrow> sorted_wrt (\<lambda>x y. x + d \<le> y) ts"

lemma spaced_span: "spaced d (x # xs) \<Longrightarrow> 0 \<le> d \<Longrightarrow> x + of_nat (length xs) * d \<le> last (x # xs)"
proof (induction xs arbitrary: x)
  case (Cons y ys)
  then have "x + d \<le> y" and "y + of_nat (length ys) * d \<le> last (y # ys)" by (simp_all add: spaced_def)
  then show ?case by (simp add: algebra_simps)
qed simp

lemma spaced_filter: "spaced d ts \<Longrightarrow> spaced d (filter P ts)"
  by (simp add: spaced_def sorted_wrt_filter)

text \<open>In a window of length \<open>T\<close> lie at most \<open>T / d + 1\<close> of the times.\<close>

lemma spaced_window:
  assumes "spaced d ts" and "0 < d" and "0 \<le> T"
  shows "of_nat (length (filter (\<lambda>t. a \<le> t \<and> t \<le> a + T) ts)) \<le> T / d + 1"
proof (cases "filter (\<lambda>t. a \<le> t \<and> t \<le> a + T) ts")
  case Nil
  then show ?thesis using assms by simp
next
  case (Cons x xs)
  let ?w = "filter (\<lambda>t. a \<le> t \<and> t \<le> a + T) ts"
  have "x \<in> set ?w" "last (x # xs) \<in> set ?w" using Cons last_in_set[of "x # xs"] by simp_all
  then have "a \<le> x" "last (x # xs) \<le> a + T" by simp_all
  moreover have "x + of_nat (length xs) * d \<le> last (x # xs)"
    using spaced_span[of d x xs] spaced_filter[OF assms(1)] Cons assms(2) by (metis less_imp_le)
  ultimately have "of_nat (length xs) * d \<le> T" by linarith
  then have "of_nat (length xs) \<le> T / d" using assms(2) by (simp add: pos_le_divide_eq)
  then show ?thesis using Cons by simp
qed

text \<open>The starts that a sequence of calls reserves, and those of one key.\<close>

fun reserved_starts ::
  "('k \<Rightarrow> 'e \<Rightarrow> 's \<Rightarrow> 's \<times> rat) \<Rightarrow> ('k \<times> 'e) list \<Rightarrow> 's \<Rightarrow> ('k \<times> rat) list" where
  "reserved_starts reserve [] s = []"
| "reserved_starts reserve ((k, e) # calls) s =
     (case reserve k e s of (s', t) \<Rightarrow> (k, t) # reserved_starts reserve calls s')"

definition starts_of :: "('k \<Rightarrow> 'e \<Rightarrow> 's \<Rightarrow> 's \<times> rat) \<Rightarrow> 'k \<Rightarrow> ('k \<times> 'e) list \<Rightarrow> 's \<Rightarrow> rat list" where
  "starts_of reserve k calls s = map snd (filter (\<lambda>p. fst p = k) (reserved_starts reserve calls s))"

lemma starts_of_simps [simp]:
  "starts_of reserve k [] s = []"
  "starts_of reserve k ((k', e) # calls) s = (case reserve k' e s of (s', t) \<Rightarrow>
     (if k' = k then [t] else []) @ starts_of reserve k calls s')"
  by (simp_all add: starts_of_def split: prod.splits)

text \<open>
  A limiter reserves a start for a key in an environment (clock readings and requested rate).
  It never gives a start before \<open>earliest\<close>, and moves \<open>earliest\<close> past the start by at least
  the spacing of the platform rate.
\<close>

locale reserving_limiter =
  fixes reserve :: "'k \<Rightarrow> 'e \<Rightarrow> 's \<Rightarrow> 's \<times> rat"
    and earliest :: "'s \<Rightarrow> 'k \<Rightarrow> rat option"
    and spacing :: "'s \<Rightarrow> rat" and ok :: "'s \<Rightarrow> bool" and ok_env :: "'e \<Rightarrow> bool"
  assumes ok_reserve: "ok s \<Longrightarrow> ok_env e \<Longrightarrow> reserve k e s = (s', t) \<Longrightarrow> ok s' \<and> spacing s' = spacing s"
    and not_before: "ok s \<Longrightarrow> ok_env e \<Longrightarrow> reserve k e s = (s', t) \<Longrightarrow> earliest s k = Some u \<Longrightarrow> u \<le> t"
    and moved: "ok s \<Longrightarrow> ok_env e \<Longrightarrow> reserve k e s = (s', t)
      \<Longrightarrow> \<exists>u. earliest s' k = Some u \<and> t + spacing s \<le> u"
    and others: "reserve k e s = (s', t) \<Longrightarrow> k' \<noteq> k \<Longrightarrow> earliest s' k' = earliest s k'"
    and spacing_nonneg: "ok s \<Longrightarrow> 0 \<le> spacing s"
begin

lemma starts_after:
  assumes "ok s" and "\<forall>c\<in>set calls. ok_env (snd c)" and "earliest s k = Some u"
  shows "\<forall>t \<in> set (starts_of reserve k calls s). u \<le> t"
  using assms
proof (induction calls arbitrary: s u)
  case (Cons c calls)
  obtain k' e where c: "c = (k', e)" by (cases c)
  obtain s' t where r: "reserve k' e s = (s', t)" by (cases "reserve k' e s")
  have e: "ok_env e" using Cons.prems(2) c by simp
  note s' = ok_reserve[OF Cons.prems(1) e r]
  show ?case
  proof (cases "k' = k")
    case True
    obtain v where v: "earliest s' k = Some v" "t + spacing s \<le> v"
      using moved[OF Cons.prems(1) e r] True by auto
    have ut: "u \<le> t" using not_before[OF Cons.prems(1) e r] Cons.prems(3) True by simp
    then have "u \<le> v" using v(2) spacing_nonneg[OF Cons.prems(1)] by linarith
    then show ?thesis using Cons.IH[of s' v] s' v(1) Cons.prems(2) ut c r True by force
  next
    case False
    then show ?thesis
      using Cons.IH[of s' u] s' others[OF r, of k] Cons.prems c r by simp
  qed
qed simp

lemma starts_spaced:
  assumes "ok s" and "\<forall>c\<in>set calls. ok_env (snd c)"
  shows "spaced (spacing s) (starts_of reserve k calls s)"
  using assms
proof (induction calls arbitrary: s)
  case (Cons c calls)
  obtain k' e where c: "c = (k', e)" by (cases c)
  obtain s' t where r: "reserve k' e s = (s', t)" by (cases "reserve k' e s")
  have e: "ok_env e" using Cons.prems(2) c by simp
  note s' = ok_reserve[OF Cons.prems(1) e r]
  have IH: "spaced (spacing s) (starts_of reserve k calls s')" using Cons.IH[of s'] s' Cons.prems(2) by simp
  show ?case
  proof (cases "k' = k")
    case True
    obtain v where v: "earliest s' k = Some v" "t + spacing s \<le> v"
      using moved[OF Cons.prems(1) e r] True by auto
    have "\<forall>y \<in> set (starts_of reserve k calls s'). t + spacing s \<le> y"
      using starts_after[of s' calls k v] s' v Cons.prems(2) by force
    then show ?thesis using IH c r True by (simp add: spaced_def)
  qed (use IH c r in simp)
qed (simp add: spaced_def)

lemma window:
  assumes "ok s" and "\<forall>c\<in>set calls. ok_env (snd c)" and "0 < spacing s" and "0 \<le> T"
  shows "of_nat (length (filter (\<lambda>t. a \<le> t \<and> t \<le> a + T) (starts_of reserve k calls s))) \<le> T / spacing s + 1"
  by (rule spaced_window[OF starts_spaced[OF assms(1,2)] assms(3,4)])

end

subsection \<open>Validation\<close>

definition validate_requests_per_second :: "pynum \<Rightarrow> string \<Rightarrow> string + rat" where
  "validate_requests_per_second v field_name =
     (let msg = field_name @ '' must be finite and greater than zero'' in
      case finite_number v of
        None \<Rightarrow> Inl msg
      | Some q \<Rightarrow> (if q \<le> 0 then Inl msg else Inr q))"

lemma validate_rate_ok:
  "validate_requests_per_second v f = Inr q \<longleftrightarrow> finite_number v = Some q \<and> 0 < q"
  by (auto simp: validate_requests_per_second_def Let_def split: option.splits if_splits)

subsection \<open>The in-memory limiter\<close>

record memory_limiter =
  ml_platform_requests_per_second :: rat
  ml_last_reserved_at :: "string \<Rightarrow> rat option"

definition memory_limiter_init :: "pynum \<Rightarrow> string + memory_limiter" where
  "memory_limiter_init requests_per_second =
     res_map (\<lambda>q. \<lparr>ml_platform_requests_per_second = q, ml_last_reserved_at = (\<lambda>_. None)\<rparr>)
       (validate_requests_per_second requests_per_second ''requests_per_second'')"

text \<open>The critical section of \<open>wait\<close>: the reserved time and the delay to sleep.\<close>

definition memory_reserve ::
  "string \<Rightarrow> rat \<times> rat \<Rightarrow> memory_limiter \<Rightarrow> memory_limiter \<times> rat \<times> rat" where
  "memory_reserve key env st =
     (case env of (requested_rate, now) \<Rightarrow>
       (let effective_rate = min (ml_platform_requests_per_second st) requested_rate;
            minimum_interval = 1 / effective_rate;
            last_reserved = (case ml_last_reserved_at st key of
                               Some t \<Rightarrow> t | None \<Rightarrow> now - minimum_interval);
            next_allowed = last_reserved + minimum_interval;
            delay = max 0 (next_allowed - now);
            reserved_time = max now next_allowed
        in (st\<lparr>ml_last_reserved_at := (ml_last_reserved_at st)(key := Some reserved_time)\<rparr>,
            reserved_time, delay)))"

text \<open>\<open>wait\<close>: the seconds it sleeps, \<open>None\<close> for no sleep.\<close>

definition memory_wait ::
  "string \<Rightarrow> pynum \<Rightarrow> rat \<Rightarrow> memory_limiter \<Rightarrow> string + (memory_limiter \<times> rat option)" where
  "memory_wait key requested_requests_per_second now st =
     res_map (\<lambda>requested_rate.
        (case memory_reserve key (requested_rate, now) st of
           (st', _, delay) \<Rightarrow> (st', if delay > 0 then Some delay else None)))
       (validate_requests_per_second requested_requests_per_second ''requested_requests_per_second'')"

definition memory_start :: "string \<Rightarrow> rat \<times> rat \<Rightarrow> memory_limiter \<Rightarrow> memory_limiter \<times> rat" where
  "memory_start key env st = (case memory_reserve key env st of (st', t, _) \<Rightarrow> (st', t))"

definition memory_earliest :: "memory_limiter \<Rightarrow> string \<Rightarrow> rat option" where
  "memory_earliest st key =
     map_option (\<lambda>t. t + 1 / ml_platform_requests_per_second st) (ml_last_reserved_at st key)"

lemma interval_at_least: "0 < R \<Longrightarrow> 0 < (q :: rat) \<Longrightarrow> 1 / R \<le> 1 / min R q"
  by (simp add: min_def frac_le)

interpretation memory: reserving_limiter memory_start memory_earliest
  "\<lambda>st. 1 / ml_platform_requests_per_second st"
  "\<lambda>st. 0 < ml_platform_requests_per_second st" "\<lambda>env. 0 < fst env"
proof (unfold_locales, goal_cases)
  case (2 s e k s' t u)
  then show ?case using interval_at_least[of "ml_platform_requests_per_second s" "fst e"]
    by (auto simp: memory_start_def memory_reserve_def memory_earliest_def Let_def split: prod.splits)
qed (auto simp: memory_start_def memory_reserve_def memory_earliest_def Let_def split: prod.splits)

subsection \<open>The PostgreSQL limiter\<close>

text \<open>
  \<open>clock_timestamp()\<close> advances within a statement: a reading for the inserted value, one for the
  update of an existing row, one for the returned delay.
\<close>

record clock_readings =
  clock_insert :: datetime
  clock_update :: datetime
  clock_return :: datetime

record postgres_limiter =
  pl_platform_requests_per_second :: rat
  pl_max_retries :: nat
  rate_reservation_states :: "string \<Rightarrow> datetime option"

definition postgres_limiter_init ::
  "pynum \<Rightarrow> pynum \<Rightarrow> pynum \<Rightarrow> (string \<Rightarrow> datetime option) \<Rightarrow> string + (postgres_limiter \<times> int)" where
  "postgres_limiter_init requests_per_second max_retries attempt_timeout_seconds states =
     res_bind (validate_requests_per_second requests_per_second ''requests_per_second'') (\<lambda>rate.
     case max_retries of
       PyInt n \<Rightarrow>
         (if n \<le> 0 then Inl ''max_retries must be a positive integer''
          else (case finite_number attempt_timeout_seconds of
              None \<Rightarrow> Inl ''attempt_timeout_seconds must be finite and positive''
            | Some q \<Rightarrow>
               (if q \<le> 0 then Inl ''attempt_timeout_seconds must be finite and positive''
                else Inr (\<lparr>pl_platform_requests_per_second = rate, pl_max_retries = nat n,
                           rate_reservation_states = states\<rparr>, max 1 \<lceil>q * 1000\<rceil>))))
     | _ \<Rightarrow> Inl ''max_retries must be a positive integer'')"

text \<open>The upsert of \<open>_reserve_once\<close>: the new \<open>next_allowed_at\<close> and the returned seconds.\<close>

definition reserve_upsert ::
  "string \<Rightarrow> int \<Rightarrow> clock_readings \<Rightarrow> postgres_limiter \<Rightarrow> postgres_limiter \<times> datetime \<times> rat" where
  "reserve_upsert key interval clk st =
     (let next_allowed = (case rate_reservation_states st key of
            None \<Rightarrow> clock_insert clk + interval
          | Some n \<Rightarrow> max n (clock_update clk) + interval)
      in (st\<lparr>rate_reservation_states := (rate_reservation_states st)(key := Some next_allowed)\<rparr>,
          next_allowed - interval,
          max 0 (rat_of_int (next_allowed - interval - clock_return clk) / 1000000)))"

definition reserve_once ::
  "string \<Rightarrow> rat \<Rightarrow> clock_readings \<Rightarrow> postgres_limiter \<Rightarrow> postgres_limiter \<times> (unit + rat)" where
  "reserve_once key minimum_interval clk st =
     (case reserve_upsert key (interval_us minimum_interval) clk st of
        (st', _, delay) \<Rightarrow> (st', Inr (max 0 delay)))"

definition reserve_delay ::
  "(nat \<Rightarrow> attempt \<times> clock_readings) \<Rightarrow> string \<Rightarrow> pynum \<Rightarrow> postgres_limiter
   \<Rightarrow> postgres_limiter \<times> (string + rat)" where
  "reserve_delay env key requested_requests_per_second st =
     (case validate_requests_per_second requested_requests_per_second
             ''requested_requests_per_second'' of
        Inl e \<Rightarrow> (st, Inl e)
      | Inr requested_rate \<Rightarrow>
         (let minimum_interval = 1 / min (pl_platform_requests_per_second st) requested_rate in
          case retrying env 0 (pl_max_retries st) (reserve_once key minimum_interval) st of
            (st', Inr delay) \<Rightarrow> (st', Inr delay)
          | (st', Inl _) \<Rightarrow> (st', Inl ''Shared rate coordination failed.'')))"

definition postgres_wait ::
  "(nat \<Rightarrow> attempt \<times> clock_readings) \<Rightarrow> string \<Rightarrow> pynum \<Rightarrow> postgres_limiter
   \<Rightarrow> postgres_limiter \<times> (string + rat option)" where
  "postgres_wait env key requested st =
     (case reserve_delay env key requested st of
        (st', r) \<Rightarrow> (st', res_map (\<lambda>delay. if delay > 0 then Some delay else None) r))"

text \<open>One committed reservation, with the start that it reserved, in microseconds.\<close>

definition postgres_start ::
  "string \<Rightarrow> rat \<times> clock_readings \<Rightarrow> postgres_limiter \<Rightarrow> postgres_limiter \<times> rat" where
  "postgres_start key env st =
     (case reserve_upsert key
        (interval_us (1 / min (pl_platform_requests_per_second st) (fst env))) (snd env) st of
        (st', t, _) \<Rightarrow> (st', of_int t))"

definition postgres_earliest :: "postgres_limiter \<Rightarrow> string \<Rightarrow> rat option" where
  "postgres_earliest st key = map_option of_int (rate_reservation_states st key)"

lemma interval_us_mono: "a \<le> b \<Longrightarrow> interval_us a \<le> interval_us b"
  by (simp add: interval_us_def round_mono)

lemma interval_us_nonneg: "0 \<le> a \<Longrightarrow> 0 \<le> interval_us a"
  using interval_us_mono[of 0 a] by (simp add: interval_us_def)

interpretation postgres: reserving_limiter postgres_start postgres_earliest
  "\<lambda>st. of_int (interval_us (1 / pl_platform_requests_per_second st))"
  "\<lambda>st. 0 < pl_platform_requests_per_second st" "\<lambda>env. 0 < fst env"
proof (unfold_locales, goal_cases)
  case (2 s e k s' t u)
  then show ?case
    by (auto simp: postgres_start_def reserve_upsert_def postgres_earliest_def Let_def)
next
  case (3 s e k s' t)
  then show ?case
    using interval_us_mono[OF interval_at_least[of "pl_platform_requests_per_second s" "fst e"]]
    by (auto simp: postgres_start_def reserve_upsert_def postgres_earliest_def Let_def)
next
  case (5 s)
  then show ?case using interval_us_nonneg by simp
qed (auto simp: postgres_start_def reserve_upsert_def postgres_earliest_def Let_def)

subsection \<open>Properties\<close>

text \<open>
  The in-memory limiter: whatever rates are requested and whatever the clock reads, the
  reserved request starts of a key never exceed the platform rate: in a window of \<open>T\<close> seconds
  there are at most \<open>T * rate + 1\<close> of them.
\<close>

theorem memory_rate_bound:
  assumes "0 < ml_platform_requests_per_second st" and "\<forall>c\<in>set calls. 0 < fst (snd c)" and "0 \<le> T"
  shows "of_nat (length (filter (\<lambda>t. a \<le> t \<and> t \<le> a + T) (starts_of memory_start key calls st)))
    \<le> T * ml_platform_requests_per_second st + 1"
  using memory.window[of st calls T a key] assms by simp

theorem memory_rate_bound_witness:
  "of_nat (length (filter (\<lambda>t. 0 \<le> t \<and> t \<le> 0 + 1)
      (starts_of memory_start ''t'' [(''t'', (9, 0)), (''t'', (9, 0)), (''u'', (9, 0)), (''t'', (9, 0))]
        \<lparr>ml_platform_requests_per_second = 2, ml_last_reserved_at = (\<lambda>_. None)\<rparr>))) \<le> (1 * 2 + 1 :: rat)"
  using memory_rate_bound[of "\<lparr>ml_platform_requests_per_second = 2, ml_last_reserved_at = (\<lambda>_. None)\<rparr>"
    "[(''t'', (9, 0)), (''t'', (9, 0)), (''u'', (9, 0)), (''t'', (9, 0))]" 1 0 "''t''"] by simp

text \<open>
  C11. The PostgreSQL limiter, shared by all processes: committed reservations of a key, in any
  order and with any clock readings, start at least the interval of the platform rate apart
  (rounded to microseconds), so that a window of \<open>T\<close> microseconds has at most
  \<open>T / interval + 1\<close> starts; and a caller that sleeps the returned delay from the moment of the
  answer does not start before its reserved start.
\<close>

theorem postgres_rate_bound:
  assumes "0 < pl_platform_requests_per_second st" and "\<forall>c\<in>set calls. 0 < fst (snd c)" and "0 \<le> T"
    and "0 < interval_us (1 / pl_platform_requests_per_second st)"
  shows "of_nat (length (filter (\<lambda>t. a \<le> t \<and> t \<le> a + T) (starts_of postgres_start key calls st)))
      \<le> T / of_int (interval_us (1 / pl_platform_requests_per_second st)) + 1
    \<and> (\<forall>k i clk s' t delay. reserve_upsert k i clk st = (s', t, delay)
         \<longrightarrow> rat_of_int t \<le> of_int (clock_return clk) + delay * 1000000)"
proof -
  have "rat_of_int t \<le> of_int (clock_return clk) + delay * 1000000"
    if "reserve_upsert k i clk st = (s', t, delay)" for k i clk s' t delay
  proof -
    have "delay = max 0 (rat_of_int (t - clock_return clk) / 1000000)"
      using that by (auto simp: reserve_upsert_def Let_def)
    then have "rat_of_int (t - clock_return clk) / 1000000 \<le> delay" by simp
    then show ?thesis by (simp add: field_simps)
  qed
  then show ?thesis using postgres.window[of st calls T a key] assms by simp
qed

theorem postgres_rate_bound_witness:
  "of_nat (length (filter (\<lambda>t. 0 \<le> t \<and> t \<le> 0 + 1000000)
      (starts_of postgres_start ''t'' [(''t'', (9, \<lparr>clock_insert = 0, clock_update = 0, clock_return = 1\<rparr>))]
        \<lparr>pl_platform_requests_per_second = 2, pl_max_retries = 3, rate_reservation_states = (\<lambda>_. None)\<rparr>)))
     \<le> (3 :: rat)"
proof -
  have i: "interval_us (1 / 2) = 500000" by (simp add: interval_us_def)
  show ?thesis
    using postgres_rate_bound[of "\<lparr>pl_platform_requests_per_second = 2, pl_max_retries = 3,
        rate_reservation_states = (\<lambda>_. None)\<rparr>"
      "[(''t'', (9, \<lparr>clock_insert = 0, clock_update = 0, clock_return = 1\<rparr>))]" 1000000 0 "''t''"] i
    by simp
qed

end
