(* ===== verification/PyBase64.thy ===== *)
theory PyBase64
  imports PyText
begin

text \<open>
  The URL-safe Base64 of Python's \<open>base64\<close> and \<open>binascii\<close> modules, as the stored secrets use
  it: \<open>urlsafe_b64encode\<close>, and \<open>b64decode(altchars=b"-_", validate=True)\<close> in the strict mode of
  \<open>a2b_base64\<close>, which reads one character at a time. Bytes are characters. Decoding undoes
  encoding.
\<close>

subsection \<open>Encoding\<close>

definition b64_char :: "nat \<Rightarrow> char" where
  "b64_char n =
     (if n < 26 then char_of (65 + n) else if n < 52 then char_of (71 + n)
      else if n < 62 then char_of (n - 4) else if n = 62 then CHR ''-'' else CHR ''_'')"

fun b64_encode :: "string \<Rightarrow> string" where
  "b64_encode [] = []"
| "b64_encode [a] = [b64_char (ord a div 4), b64_char (ord a mod 4 * 16), CHR ''='', CHR ''='']"
| "b64_encode [a, b] = [b64_char (ord a div 4), b64_char (ord a mod 4 * 16 + ord b div 16),
     b64_char (ord b mod 16 * 4), CHR ''='']"
| "b64_encode (a # b # c # r) =
     b64_char (ord a div 4) # b64_char (ord a mod 4 * 16 + ord b div 16)
     # b64_char (ord b mod 16 * 4 + ord c div 64) # b64_char (ord c mod 64) # b64_encode r"

subsection \<open>Decoding\<close>

text \<open>Both alphabets are accepted: the alternative characters are translated first.\<close>

definition b64_value :: "char \<Rightarrow> nat option" where
  "b64_value c =
     (if is_upper c then Some (ord c - 65) else if is_lower c then Some (ord c - 71)
      else if is_digit c then Some (ord c + 4)
      else if c = CHR ''+'' \<or> c = CHR ''-'' then Some 62
      else if c = CHR ''/'' \<or> c = CHR ''_'' then Some 63 else None)"

text \<open>
  The loop of \<open>a2b_base64\<close> in strict mode: the position in the group of four, the bits left
  over, the pad characters seen in this group, whether padding has started.
\<close>

fun a2b :: "nat \<Rightarrow> nat \<Rightarrow> nat \<Rightarrow> bool \<Rightarrow> string \<Rightarrow> string option" where
  "a2b quad_pos leftchar pads started [] = (if quad_pos = 0 then Some [] else None)"
| "a2b quad_pos leftchar pads started (c # s) =
     (if c = CHR ''='' then
        (if quad_pos \<ge> 2 then
           (if quad_pos + (pads + 1) \<ge> 4 then (if s = [] then Some [] else None)
            else a2b quad_pos leftchar (pads + 1) True s)
         else a2b quad_pos leftchar pads True s)
      else (case b64_value c of
        None \<Rightarrow> None
      | Some v \<Rightarrow>
         (if started then None
          else if quad_pos = 0 then a2b 1 v 0 started s
          else if quad_pos = 1 then
            map_option ((#) (char_of (leftchar * 4 + v div 16))) (a2b 2 (v mod 16) 0 started s)
          else if quad_pos = 2 then
            map_option ((#) (char_of (leftchar * 16 + v div 4))) (a2b 3 (v mod 4) 0 started s)
          else map_option ((#) (char_of (leftchar * 64 + v))) (a2b 0 0 0 started s))))"

definition b64_decode :: "string \<Rightarrow> string option" where
  "b64_decode s = (if prefix ''='' s then None else a2b 0 0 0 False s)"

subsection \<open>Decoding undoes encoding\<close>

lemma char_of_ord [simp]: "char_of (ord c) = c"
  by (simp add: ord_def)

lemma b64_value_char [simp]:
  assumes "n < 64"
  shows "b64_value (b64_char n) = Some n"
proof -
  have "list_all (\<lambda>n. b64_value (b64_char n) = Some n) [0..<64]" by code_simp
  then show ?thesis using assms by (simp add: list_all_iff)
qed

lemma b64_char_not_pad [simp]: "n < 64 \<Longrightarrow> b64_char n \<noteq> CHR ''=''"
proof
  assume n: "n < 64" and e: "b64_char n = CHR ''=''"
  have "b64_value (CHR ''='') = None" by (simp add: b64_value_def is_upper_def is_lower_def is_digit_def ord_def)
  then show False using b64_value_char[OF n] e by simp
qed

lemma b64_fields:
  fixes a b c :: nat
  assumes "a < 256" "b < 256" "c < 256"
  shows "a div 4 < 64" "a mod 4 * 16 + b div 16 < 64" "b mod 16 * 4 + c div 64 < 64" "c mod 64 < 64"
    and "a mod 4 * 16 < 64" "b mod 16 * 4 < 64"
    and "a div 4 * 4 + (a mod 4 * 16 + b div 16) div 16 = a" "a div 4 * 4 + (a mod 4 * 16) div 16 = a"
    and "(a mod 4 * 16 + b div 16) mod 16 = b div 16" "(b mod 16 * 4 + c div 64) div 4 = b mod 16"
    and "(b mod 16 * 4 + c div 64) mod 4 = c div 64" "(b mod 16 * 4) div 4 = b mod 16"
proof -
  have bounds: "a div 4 < 64" "b div 16 < 16" "c div 64 < 4" "a mod 4 < 4" "b mod 16 < 16" "c mod 64 < 64"
    using assms by (simp_all add: less_mult_imp_div_less)
  have split: "(y * k + x) div k = y" "(y * k + x) mod k = x" if "x < k" for x y k :: nat
    using that by simp_all
  show "a div 4 < 64" "a mod 4 * 16 + b div 16 < 64" "b mod 16 * 4 + c div 64 < 64" "c mod 64 < 64"
    "a mod 4 * 16 < 64" "b mod 16 * 4 < 64" using bounds by linarith+
  show "(a mod 4 * 16 + b div 16) mod 16 = b div 16" "(b mod 16 * 4 + c div 64) div 4 = b mod 16"
    "(b mod 16 * 4 + c div 64) mod 4 = c div 64" "(b mod 16 * 4) div 4 = b mod 16"
    using split[OF bounds(2)] split[OF bounds(3)] by simp_all
  show "a div 4 * 4 + (a mod 4 * 16 + b div 16) div 16 = a" "a div 4 * 4 + (a mod 4 * 16) div 16 = a"
    unfolding split(1)[OF bounds(2)] by simp_all
qed

lemma a2b_quad:
  assumes "n1 < 64" "n2 < 64" "n3 < 64" "n4 < 64"
  shows "a2b 0 0 0 False (b64_char n1 # b64_char n2 # b64_char n3 # b64_char n4 # r) =
    map_option (\<lambda>t. char_of (n1 * 4 + n2 div 16) # char_of (n2 mod 16 * 16 + n3 div 4)
      # char_of (n3 mod 4 * 64 + n4) # t) (a2b 0 0 0 False r)"
  using assms by (cases "a2b 0 0 0 False r") simp_all

lemma a2b_three:
  assumes "n1 < 64" "n2 < 64" "n3 < 64"
  shows "a2b 0 0 0 False [b64_char n1, b64_char n2, b64_char n3, CHR ''=''] =
    Some [char_of (n1 * 4 + n2 div 16), char_of (n2 mod 16 * 16 + n3 div 4)]"
  using assms by simp

lemma a2b_two:
  assumes "n1 < 64" "n2 < 64"
  shows "a2b 0 0 0 False [b64_char n1, b64_char n2, CHR ''='', CHR ''=''] = Some [char_of (n1 * 4 + n2 div 16)]"
  using assms by simp

lemma a2b_encode: "a2b 0 0 0 False (b64_encode s) = Some s"
proof (induction s rule: b64_encode.induct)
  case (2 a)
  have a: "ord a < 256" "(0::nat) < 256" by simp_all
  note f = b64_fields[OF a(1) a(2) a(2)]
  show ?case unfolding b64_encode.simps a2b_two[OF f(1,5)] f(8) by simp
next
  case (3 a b)
  have a: "ord a < 256" "ord b < 256" "(0::nat) < 256" by simp_all
  note f = b64_fields[OF a]
  have b: "ord b div 16 * 16 + ord b mod 16 = ord b" by (rule div_mult_mod_eq)
  show ?case unfolding b64_encode.simps a2b_three[OF f(1,2,6)] f(7,9,12) b by simp
next
  case (4 a b c r)
  have a: "ord a < 256" "ord b < 256" "ord c < 256" by simp_all
  note f = b64_fields[OF a]
  have b: "ord b div 16 * 16 + ord b mod 16 = ord b" by (rule div_mult_mod_eq)
  have c: "ord c div 64 * 64 + ord c mod 64 = ord c" by (rule div_mult_mod_eq)
  show ?case unfolding b64_encode.simps a2b_quad[OF f(1-4)] f(7,9,10,11) b c 4 by simp
qed simp

lemma b64_encode_chars: "c \<in> set (b64_encode s) \<Longrightarrow> c = CHR ''='' \<or> (\<exists>n < 64. c = b64_char n)"
proof (induction s rule: b64_encode.induct)
  case (2 a)
  have a: "ord a < 256" "(0::nat) < 256" by simp_all
  show ?case using 2 b64_fields(1,5)[OF a(1) a(2) a(2)] unfolding b64_encode.simps set_simps by blast
next
  case (3 a b)
  have a: "ord a < 256" "ord b < 256" "(0::nat) < 256" by simp_all
  show ?case using 3 b64_fields(1,2,6)[OF a] unfolding b64_encode.simps set_simps by blast
next
  case (4 a b d r)
  have a: "ord a < 256" "ord b < 256" "ord d < 256" by simp_all
  show ?case using 4 b64_fields(1-4)[OF a] unfolding b64_encode.simps set_simps by blast
qed simp

lemma b64_encode_first: "\<not> prefix ''='' (b64_encode s)"
proof -
  have a: "ord a div 4 < 64" for a using b64_fields(1)[of "ord a" 0 0] by simp
  show ?thesis using b64_char_not_pad[OF a, symmetric] by (cases s rule: b64_encode.cases) simp_all
qed

lemma b64_roundtrip [simp]: "b64_decode (b64_encode s) = Some s"
  by (simp add: b64_decode_def b64_encode_first a2b_encode)

text \<open>The encoded text uses no separator of the envelope.\<close>

lemma b64_encode_no_dot: "CHR ''.'' \<notin> set (b64_encode s)"
proof
  assume "CHR ''.'' \<in> set (b64_encode s)"
  from b64_encode_chars[OF this] obtain n where "n < 64" "b64_char n = CHR ''.''" by auto
  moreover have "b64_value (CHR ''.'') = None" by (simp add: b64_value_def is_upper_def is_lower_def is_digit_def ord_def)
  ultimately show False using b64_value_char[of n] by simp
qed

end
