(* ===== verification/Scope_Policy.thy ===== *)
theory Scope_Policy
  imports PyUrl Db_Models
begin

text \<open>
  The scope policy engine (\<open>src/backend/app/policies/scope_policy.py\<close>): hostname, origin
  and path normalisation, scope pattern matching and \<open>ScopePolicyEngine.evaluate\<close>.
  A \<open>PolicyValidationError\<close> is its message. The lemmas characterise the normal forms, the
  matching relation and the set of requests the engine allows.
\<close>

subsection \<open>Definitions\<close>

record origin =
  origin_scheme :: string
  origin_hostname :: string
  origin_port :: nat

record policy_decision =
  allowed :: bool
  code :: string
  reason :: string
  authorization_profile_id :: "row_id option"
  authorization_revision_id :: "row_id option"
  evaluated_at :: datetime
  matched_scope_id :: "row_id option"

definition MVP_HTTP_METHODS :: "string list" where
  "MVP_HTTP_METHODS = [''GET'', ''POST'', ''PATCH'', ''DELETE'']"

definition normalize_hostname :: "string \<Rightarrow> string + string" where
  "normalize_hostname hostname =
     (let value = py_rstrip_char (CHR ''.'') (py_lower (py_strip hostname)) in
      if value = [] then Inl ''hostname is empty''
      else (case ip_address_of value of
              Some ip \<Rightarrow> Inr (compressed ip)
            | None \<Rightarrow> Inr value))"

definition parse_origin :: "string \<Rightarrow> string + origin" where
  "parse_origin url =
     (case urlsplit url of
        None \<Rightarrow> Inl ''invalid URL''
      | Some parsed \<Rightarrow>
         (if scheme parsed \<notin> {''http'', ''https''} then
            Inl ''only http and https URLs are supported''
          else if userinfo parsed \<noteq> None then Inl ''URL userinfo is not allowed''
          else (case url_hostname parsed of
             None \<Rightarrow> Inl ''URL hostname is missing''
           | Some h \<Rightarrow>
              (case url_port parsed of
                 Inl _ \<Rightarrow> Inl ''invalid URL port''
               | Inr explicit_port \<Rightarrow>
                  (let port = (case explicit_port of
                       Some p \<Rightarrow> p
                     | None \<Rightarrow> (if scheme parsed = ''http'' then 80 else 443))
                   in res_map (\<lambda>hn. \<lparr>origin_scheme = scheme parsed, origin_hostname = hn,
                                      origin_port = port\<rparr>)
                        (normalize_hostname h))))))"

definition blocked_encodings :: "string list" where
  "blocked_encodings = [''%2f'', ''%5c'', ''%00'', ''%25'']"

text \<open>\<open>urlsplit\<close> of an ill-formed URL raises a plain \<open>ValueError\<close>, modelled by \<open>invalid URL\<close>.\<close>

definition normalize_request_path :: "string \<Rightarrow> string + string" where
  "normalize_request_path url =
     (case urlsplit url of
        None \<Rightarrow> Inl ''invalid URL''
      | Some parsed \<Rightarrow>
         (let raw_path = (if path parsed = [] then ''/'' else path parsed);
              lower_path = py_lower raw_path
          in if list_ex (\<lambda>item. py_contains item lower_path) blocked_encodings then
               Inl ''ambiguous encoded path is not allowed''
             else
               (let decoded_path = unquote raw_path in
                if char_of (0::nat) \<in> set decoded_path then
                  Inl ''null byte is not allowed in path''
                else if CHR 0x5C \<in> set decoded_path then
                  Inl ''backslash is not allowed in path''
                else if py_contains ''//'' decoded_path then
                  Inl ''double slash is not allowed in path''
                else if list_ex (\<lambda>seg. seg \<in> {''.'', ''..''}) (py_split (CHR ''/'') decoded_path)
                then Inl ''dot path segments are not allowed''
                else if \<not> prefix ''/'' decoded_path then
                  Inl (''path must start with '/'' @ [CHR 0x27])
                else Inr decoded_path)))"

definition normalize_scope_path_pattern :: "string \<Rightarrow> string + string" where
  "normalize_scope_path_pattern pattern =
     (let value = py_strip pattern in
      if \<not> prefix ''/'' value then Inl (''scope path must start with '/'' @ [CHR 0x27])
      else if CHR ''*'' \<notin> set value then Inr value
      else if py_count (CHR ''*'') value \<noteq> 1 then Inl ''only one wildcard is allowed''
      else if \<not> suffix ''/*'' value then
        Inl ''wildcard is only supported as trailing /*''
      else Inr value)"

definition path_matches_scope :: "string \<Rightarrow> string \<Rightarrow> string + bool" where
  "path_matches_scope request_path scope_pattern =
     res_bind (normalize_scope_path_pattern scope_pattern) (\<lambda>pattern.
       if CHR ''*'' \<notin> set pattern then Inr (request_path = pattern)
       else
         (let base_path = take (length pattern - 2) pattern in
          if base_path = [] then Inr True
          else Inr (request_path = base_path \<or> prefix (base_path @ ''/'') request_path)))"

text \<open>\<open>repr\<close> of a string, used in two refusal messages.\<close>

definition py_repr :: "string \<Rightarrow> string" where
  "py_repr s =
     (let sq = CHR 0x27; dq = CHR 0x22; bs = CHR 0x5C;
          q = (if sq \<in> set s \<and> dq \<notin> set s then dq else sq);
          esc = (\<lambda>c. if c = bs \<or> c = q then [bs, c]
                     else if ord c = 9 then [bs, CHR ''t'']
                     else if ord c = 10 then [bs, CHR ''n'']
                     else if ord c = 13 then [bs, CHR ''r'']
                     else if ord c < 32 \<or> ord c = 127
                     then [bs, CHR ''x'', hex_digit_char (ord c div 16), hex_digit_char (ord c mod 16)]
                     else [c])
      in [q] @ concat (map esc s) @ [q])"

text \<open>The constructor normalises the platform's host allow list and raises on an empty entry.\<close>

definition scope_policy_engine :: "string list \<Rightarrow> string + string list" where
  "scope_policy_engine platform_allowed_hosts = res_mapM normalize_hostname platform_allowed_hosts"

definition revision_allows_method :: "authorization_revision \<Rightarrow> string \<Rightarrow> bool" where
  "revision_allows_method r m =
     (if m = ''GET'' then rev_allow_get r
      else if m = ''POST'' then rev_allow_post r
      else if m = ''PATCH'' then rev_allow_patch r
      else if m = ''DELETE'' then rev_allow_delete r
      else False)"

text \<open>One turn of the loop over the scopes: does this scope allow the request?\<close>

definition scope_allows :: "scope \<Rightarrow> string \<Rightarrow> string \<Rightarrow> string \<Rightarrow> bool" where
  "scope_allows sc hostname normalized_method request_path \<longleftrightarrow>
     scope_is_active sc
     \<and> normalize_hostname (scope_hostname sc) = Inr hostname
     \<and> normalized_method \<in> set (map (\<lambda>m. py_upper (py_strip m)) (scope_allowed_methods sc))
     \<and> path_matches_scope request_path (scope_path_pattern sc) = Inr True"

datatype py_datetime = Naive datetime | Aware datetime

datatype value_error = EvaluationTimeNaive

text \<open>
  \<open>ScopePolicyEngine.evaluate\<close>; \<open>now\<close> is the reading of the clock that is used when no
  evaluation time is given.
\<close>

definition evaluate ::
  "string list \<Rightarrow> target \<Rightarrow> authorization_revision option \<Rightarrow> scope list \<Rightarrow> string \<Rightarrow> string
   \<Rightarrow> py_datetime option \<Rightarrow> datetime \<Rightarrow> value_error + policy_decision" where
  "evaluate platform_allowed_hosts target authorization_revision scopes request_url mth
     evaluation_time now =
   (case (case evaluation_time of Some t \<Rightarrow> t | None \<Rightarrow> Aware now) of
      Naive _ \<Rightarrow> Inl EvaluationTimeNaive
    | Aware eval_time \<Rightarrow>
      (let decision = (\<lambda>ok cd rsn scp.
             \<lparr>allowed = ok, code = cd, reason = rsn,
              authorization_profile_id =
                map_option rev_authorization_profile_id authorization_revision,
              authorization_revision_id = map_option rev_id authorization_revision,
              evaluated_at = eval_time, matched_scope_id = scp\<rparr>);
           deny = (\<lambda>cd rsn. Inr (decision False cd rsn None))
       in
       if \<not> tgt_is_enabled target then deny ''target_disabled'' ''Target is disabled.''
       else (case tgt_authorization_revision_id target of
         None \<Rightarrow> deny ''authorization_revision_missing''
                  ''Target has no AuthorizationRevision binding.''
       | Some bound_id \<Rightarrow>
       (case authorization_revision of
         None \<Rightarrow> deny ''authorization_revision_missing''
                  ''The bound AuthorizationRevision was not provided.''
       | Some revision \<Rightarrow>
       if rev_id revision \<noteq> bound_id then
         deny ''authorization_revision_mismatch''
           ''AuthorizationRevision does not match the Target binding.''
       else if (case tgt_authorization_profile_id target of
                  None \<Rightarrow> False
                | Some pid \<Rightarrow> rev_authorization_profile_id revision \<noteq> pid) then
         deny ''authorization_revision_profile_mismatch''
           ''AuthorizationRevision does not belong to the Target profile.''
       else if rev_lifecycle_state revision \<noteq> ''active'' then
         deny ''authorization_revision_inactive'' ''AuthorizationRevision is not active.''
       else if (case rev_valid_from revision of None \<Rightarrow> False | Some f \<Rightarrow> eval_time < f) then
         deny ''authorization_not_yet_valid'' ''Authorization is not yet valid.''
       else if (case rev_valid_until revision of None \<Rightarrow> False | Some u \<Rightarrow> eval_time \<ge> u) then
         deny ''authorization_expired'' ''Authorization has expired.''
       else if \<not> rev_automation_allowed revision then
         deny ''automation_not_allowed'' ''AuthorizationRevision does not allow automation.''
       else (case parse_origin request_url of
         Inl exc \<Rightarrow> deny ''invalid_request_url'' exc
       | Inr request_origin \<Rightarrow>
       if origin_hostname request_origin \<notin> set platform_allowed_hosts then
         deny ''host_not_in_platform_allowlist''
           (''Host '' @ py_repr (origin_hostname request_origin)
            @ '' is not in the platform allowlist.'')
       else (case parse_origin (tgt_base_url target) of
         Inl exc \<Rightarrow> deny ''invalid_target_url'' exc
       | Inr target_origin \<Rightarrow>
       if request_origin \<noteq> target_origin then
         deny ''target_origin_mismatch''
           ''Request origin does not match the configured target origin.''
       else
       (let normalized_method = py_upper (py_strip mth) in
       if normalized_method \<notin> set MVP_HTTP_METHODS then
         deny ''unsupported_http_method''
           (''HTTP method '' @ py_repr normalized_method @ '' is not supported by the MVP.'')
       else if \<not> revision_allows_method revision normalized_method then
         deny ''authorization_method_not_allowed''
           (''AuthorizationRevision does not allow HTTP method ''
            @ py_repr normalized_method @ ''.'')
       else (case normalize_request_path request_url of
         Inl exc \<Rightarrow> deny ''unsafe_request_path'' exc
       | Inr request_path \<Rightarrow>
       (case find (\<lambda>sc. scope_allows sc (origin_hostname request_origin) normalized_method
                          request_path) scopes of
         Some sc \<Rightarrow> Inr (decision True ''allowed_by_scope''
                          ''Request matches an active scope.'' (Some (scope_id sc)))
       | None \<Rightarrow> deny ''no_matching_scope''
                  ''No active scope allows this hostname, path, and HTTP method.'')))))))))"

subsection \<open>The authorised requests\<close>

definition in_validity_window :: "authorization_revision \<Rightarrow> datetime \<Rightarrow> bool" where
  "in_validity_window rv t \<longleftrightarrow>
     (\<forall>f. rev_valid_from rv = Some f \<longrightarrow> f \<le> t)
     \<and> (\<forall>u. rev_valid_until rv = Some u \<longrightarrow> t < u)"

definition revision_governs :: "target \<Rightarrow> authorization_revision \<Rightarrow> bool" where
  "revision_governs t rv \<longleftrightarrow>
     tgt_authorization_revision_id t = Some (rev_id rv)
     \<and> (\<forall>pid. tgt_authorization_profile_id t = Some pid
          \<longrightarrow> rev_authorization_profile_id rv = pid)"

definition request_in_scope ::
  "string list \<Rightarrow> target \<Rightarrow> authorization_revision \<Rightarrow> scope list \<Rightarrow> string \<Rightarrow> string \<Rightarrow> bool" where
  "request_in_scope hosts t rv scopes url mth \<longleftrightarrow>
     (\<exists>orig p sc. parse_origin url = Inr orig \<and> parse_origin (tgt_base_url t) = Inr orig
        \<and> origin_hostname orig \<in> set hosts
        \<and> py_upper (py_strip mth) \<in> set MVP_HTTP_METHODS
        \<and> revision_allows_method rv (py_upper (py_strip mth))
        \<and> normalize_request_path url = Inr p
        \<and> sc \<in> set scopes \<and> scope_allows sc (origin_hostname orig) (py_upper (py_strip mth)) p)"

text \<open>
  What the engine is meant to allow: an enabled target, governed by an active revision that
  permits automation and whose validity window holds the time, and a request in scope.
\<close>

definition request_authorized ::
  "string list \<Rightarrow> target \<Rightarrow> authorization_revision option \<Rightarrow> scope list \<Rightarrow> string \<Rightarrow> string
   \<Rightarrow> datetime \<Rightarrow> bool" where
  "request_authorized hosts t revision scopes url mth now \<longleftrightarrow>
     tgt_is_enabled t
     \<and> (\<exists>rv. revision = Some rv \<and> revision_governs t rv
          \<and> rev_lifecycle_state rv = ''active'' \<and> in_validity_window rv now
          \<and> rev_automation_allowed rv \<and> request_in_scope hosts t rv scopes url mth)"

lemma request_in_scopeD:
  assumes "request_in_scope hosts t rv scopes url mth"
  obtains orig p sc where "parse_origin url = Inr orig" "parse_origin (tgt_base_url t) = Inr orig"
    "origin_hostname orig \<in> set hosts" "py_upper (py_strip mth) \<in> set MVP_HTTP_METHODS"
    "revision_allows_method rv (py_upper (py_strip mth))" "normalize_request_path url = Inr p"
    "sc \<in> set scopes" "scope_allows sc (origin_hostname orig) (py_upper (py_strip mth)) p"
  using assms by (auto simp: request_in_scope_def)

lemma window_iff:
  "in_validity_window rv t \<longleftrightarrow>
     \<not> (case rev_valid_from rv of None \<Rightarrow> False | Some f \<Rightarrow> t < f)
     \<and> \<not> (case rev_valid_until rv of None \<Rightarrow> False | Some u \<Rightarrow> u \<le> t)"
  by (auto simp: in_validity_window_def not_less not_le split: option.splits)

lemma governs_iff:
  "revision_governs t rv \<longleftrightarrow>
     tgt_authorization_revision_id t = Some (rev_id rv)
     \<and> \<not> (case tgt_authorization_profile_id t of None \<Rightarrow> False
            | Some pid \<Rightarrow> rev_authorization_profile_id rv \<noteq> pid)"
  by (auto simp: revision_governs_def split: option.splits)

lemma evaluate_naive [simp]:
  "evaluate hosts t revision scopes url mth (Some (Naive n)) now = Inl EvaluationTimeNaive"
  by (simp add: evaluate_def)

lemma evaluate_Aware_ok: "\<exists>d. evaluate hosts t revision scopes url mth (Some (Aware e)) now = Inr d"
  by (simp add: evaluate_def Let_def split: option.splits sum.splits)

lemma evaluate_now: "evaluate hosts t revision scopes url mth None now
    = evaluate hosts t revision scopes url mth (Some (Aware now)) now'"
  by (simp add: evaluate_def)

lemma evaluate_denied:
  assumes "evaluate hosts t revision scopes url mth (Some (Aware e)) now = Inr d"
    and "\<not> request_authorized hosts t revision scopes url mth e"
  shows "\<not> allowed d"
proof (rule ccontr)
  assume al: "\<not> \<not> allowed d"
  from assms(1) al have en: "tgt_is_enabled t"
    by (auto simp: evaluate_def Let_def split: if_splits)
  from assms(1) al en obtain rv where rv: "revision = Some rv"
      and b: "tgt_authorization_revision_id t = Some (rev_id rv)"
    by (auto simp: evaluate_def Let_def split: option.splits if_splits)
  have "revision_governs t rv \<and> rev_lifecycle_state rv = ''active''
      \<and> in_validity_window rv e \<and> rev_automation_allowed rv"
    using assms(1) al en rv b unfolding window_iff governs_iff
    by (simp add: evaluate_def Let_def split: if_splits) auto
  moreover from this have "request_in_scope hosts t rv scopes url mth"
    using assms(1) al en rv b unfolding window_iff governs_iff request_in_scope_def
    by (auto simp: evaluate_def Let_def split: if_splits sum.splits option.splits
        dest: find_Some_in)
  ultimately show False using assms(2) en rv by (simp add: request_authorized_def)
qed

lemma evaluate_denied_code:
  assumes "evaluate hosts t revision scopes url mth (Some (Aware e)) now = Inr d"
    and "\<not> allowed d"
  shows "code d \<noteq> ''allowed_by_scope'' \<and> matched_scope_id d = None"
  using assms
  by (auto simp: evaluate_def Let_def split: if_splits sum.splits option.splits)

lemma evaluate_authorized:
  assumes "request_authorized hosts t revision scopes url mth e"
  shows "\<exists>d. evaluate hosts t revision scopes url mth (Some (Aware e)) now = Inr d \<and> allowed d
    \<and> code d = ''allowed_by_scope''
    \<and> (\<exists>sc \<in> set scopes. scope_is_active sc \<and> matched_scope_id d = Some (scope_id sc))"
proof -
  from assms obtain rv where en: "tgt_is_enabled t" and rv: "revision = Some rv"
    and g: "revision_governs t rv" and st: "rev_lifecycle_state rv = ''active''"
    and w: "in_validity_window rv e" and au: "rev_automation_allowed rv"
    and sc: "request_in_scope hosts t rv scopes url mth"
    by (auto simp: request_authorized_def)
  from sc obtain orig p sc where s: "parse_origin url = Inr orig"
    "parse_origin (tgt_base_url t) = Inr orig" "origin_hostname orig \<in> set hosts"
    "py_upper (py_strip mth) \<in> set MVP_HTTP_METHODS"
    "revision_allows_method rv (py_upper (py_strip mth))" "normalize_request_path url = Inr p"
    "sc \<in> set scopes" "scope_allows sc (origin_hostname orig) (py_upper (py_strip mth)) p"
    by (rule request_in_scopeD)
  let ?P = "\<lambda>x. scope_allows x (origin_hostname orig) (py_upper (py_strip mth)) p"
  from s have "find ?P scopes \<noteq> None" by (auto simp: find_None_all)
  then obtain hit where hit: "find ?P scopes = Some hit" by blast
  then have hit2: "hit \<in> set scopes" "scope_is_active hit"
    using find_Some_in[OF hit] by (auto simp: scope_allows_def)
  from en rv g st w au s(1-6) hit show ?thesis
    using hit2 unfolding window_iff governs_iff
    by (auto simp: evaluate_def Let_def)
qed

subsection \<open>Normal forms of paths and patterns\<close>

text \<open>
  A normalised request path: absolute, no NUL, no backslash, no empty inner segment, no dot
  segment.
\<close>

definition safe_path :: "string \<Rightarrow> bool" where
  "safe_path p \<longleftrightarrow>
     prefix ''/'' p \<and> char_of (0::nat) \<notin> set p \<and> CHR 0x5C \<notin> set p
     \<and> \<not> sublist ''//'' p \<and> (\<forall>seg \<in> set (py_split (CHR ''/'') p). seg \<noteq> ''.'' \<and> seg \<noteq> ''..'')"

definition raw_path_of :: "string \<Rightarrow> string" where
  "raw_path_of url =
     (case urlsplit url of None \<Rightarrow> ''/''
      | Some parsed \<Rightarrow> (if path parsed = [] then ''/'' else path parsed))"

lemma normalize_request_path_Inr:
  assumes "normalize_request_path url = Inr p"
  shows "safe_path p" and "p = unquote (raw_path_of url)"
    and "\<not> (\<exists>item \<in> set blocked_encodings. sublist item (py_lower (raw_path_of url)))"
  using assms
  by (auto simp: normalize_request_path_def safe_path_def raw_path_of_def Let_def list_ex_iff
      py_contains_iff split: option.splits if_splits)

lemma escape_of_slash: "escape_of (CHR ''/'') = ''%2f''"
  by code_simp

lemma normalize_scope_path_pattern_Inr:
  assumes "normalize_scope_path_pattern pattern = Inr value"
  shows "value = py_strip pattern" and "prefix ''/'' value"
    and "CHR ''*'' \<in> set value \<Longrightarrow> \<exists>base. value = base @ ''/*'' \<and> CHR ''*'' \<notin> set base"
proof -
  show "value = py_strip pattern" "prefix ''/'' value"
    using assms by (auto simp: normalize_scope_path_pattern_def Let_def split: if_splits)
  assume star: "CHR ''*'' \<in> set value"
  with assms have cnt: "py_count (CHR ''*'') value = 1" and suf: "suffix ''/*'' value"
    by (auto simp: normalize_scope_path_pattern_def Let_def split: if_splits)
  from suf obtain base where base: "value = base @ ''/*''" by (auto simp: suffix_def)
  with cnt have "filter ((=) (CHR ''*'')) base = []" by (auto simp: py_count_def)
  with base show "\<exists>base. value = base @ ''/*'' \<and> CHR ''*'' \<notin> set base"
    by (auto simp: filter_empty_conv)
qed

text \<open>
  Which paths a pattern matches: the exact path, or, for a pattern \<open>base/*\<close>, the base itself
  and every path below it; \<open>/*\<close> matches every path.
\<close>

definition pattern_covers :: "string \<Rightarrow> string \<Rightarrow> bool" where
  "pattern_covers value p \<longleftrightarrow>
     prefix ''/'' value
     \<and> (if CHR ''*'' \<in> set value
        then \<exists>base. value = base @ ''/*'' \<and> CHR ''*'' \<notin> set base
               \<and> (base = [] \<or> p = base \<or> prefix (base @ ''/'') p)
        else p = value)"

lemma path_matches_scope_covers:
  "path_matches_scope p pattern = Inr True \<longleftrightarrow> pattern_covers (py_strip pattern) p"
proof (cases "normalize_scope_path_pattern pattern")
  case (Inl e)
  then have "\<not> pattern_covers (py_strip pattern) p"
    by (auto simp: normalize_scope_path_pattern_def Let_def pattern_covers_def py_count_def
        filter_empty_conv suffix_def split: if_splits)
  with Inl show ?thesis by (simp add: path_matches_scope_def)
next
  case (Inr v)
  note n = normalize_scope_path_pattern_Inr[OF Inr]
  show ?thesis
  proof (cases "CHR ''*'' \<in> set v")
    case True
    with n(3) obtain base where b: "v = base @ ''/*''" "CHR ''*'' \<notin> set base" by blast
    then show ?thesis using Inr n True
      by (auto simp: path_matches_scope_def pattern_covers_def Let_def)
  next
    case False
    then show ?thesis using Inr n
      by (auto simp: path_matches_scope_def pattern_covers_def)
  qed
qed

text \<open>Segment-wise containment: a match below \<open>base\<close> extends the segments of \<open>base\<close>.\<close>

lemma covers_segments:
  assumes "pattern_covers (base @ ''/*'') p" and "base \<noteq> []"
  shows "prefix (py_split (CHR ''/'') base) (py_split (CHR ''/'') p)"
proof -
  from assms have "p = base \<or> prefix (base @ ''/'') p"
    by (auto simp: pattern_covers_def split: if_splits)
  then show ?thesis
  proof
    assume "prefix (base @ ''/'') p"
    then obtain r where "p = base @ CHR ''/'' # r" by (auto simp: prefix_def)
    then show ?thesis by (simp add: py_split_append)
  qed simp
qed

subsection \<open>Properties\<close>

text \<open>
  C2. The policy engine is exact: with a timezone-aware evaluation time it always returns a
  decision, and the decision allows the request if and only if the request is authorised:
  the target is enabled and bound to the given revision, the revision is active, inside its
  validity window and permits automation and the method, and the request has the target's
  origin, a host of the platform allow list, a safe path and an active scope that covers it.
\<close>

theorem evaluate_exact:
  "\<exists>d. evaluate hosts target revision scopes url mth (Some (Aware t)) now = Inr d
     \<and> (allowed d \<longleftrightarrow> request_authorized hosts target revision scopes url mth t)
     \<and> (allowed d \<longleftrightarrow> code d = ''allowed_by_scope'') \<and> (allowed d \<longleftrightarrow> matched_scope_id d \<noteq> None)"
proof (cases "request_authorized hosts target revision scopes url mth t")
  case True
  from evaluate_authorized[OF this] show ?thesis using True by (metis option.distinct(1))
next
  case False
  obtain d where d: "evaluate hosts target revision scopes url mth (Some (Aware t)) now = Inr d"
    using evaluate_Aware_ok by blast
  have "\<not> allowed d" by (rule evaluate_denied[OF d False])
  moreover from this have "code d \<noteq> ''allowed_by_scope'' \<and> matched_scope_id d = None"
    by (rule evaluate_denied_code[OF d])
  ultimately show ?thesis using d False by blast
qed

text \<open>
  C3. A normalised request path is safe (absolute, no NUL, no backslash, no empty inner
  segment, no dot segment), it is the percent decoding of the raw path of the URL, and
  decoding has not changed the number of slashes: an escaped separator cannot move the
  request into another scope.
\<close>

theorem normalize_request_path_sound:
  assumes "normalize_request_path url = Inr p"
  shows "safe_path p \<and> p = unquote (raw_path_of url)
    \<and> py_count (CHR ''/'') p = py_count (CHR ''/'') (raw_path_of url)"
proof -
  have "\<not> sublist (escape_of (CHR ''/'')) (py_lower (raw_path_of url))"
    using normalize_request_path_Inr(3)[OF assms] by (simp add: blocked_encodings_def escape_of_slash)
  then have "py_count (CHR ''/'') (unquote (raw_path_of url)) = py_count (CHR ''/'') (raw_path_of url)"
    by (rule unquote_count) (simp_all add: is_ascii_def ord_def)
  then show ?thesis using normalize_request_path_Inr(1,2)[OF assms] by simp
qed

theorem normalize_request_path_sound_witness:
  "normalize_request_path ''http://h/a%20b/c'' = Inr ''/a b/c'' \<and> safe_path ''/a b/c''"
proof -
  have h: "normalize_request_path ''http://h/a%20b/c'' = Inr ''/a b/c''" by code_simp
  show ?thesis using h normalize_request_path_sound[OF h] by blast
qed

text \<open>
  Scope matching is segment-wise: a path matches a pattern only if it is the pattern
  itself, or the pattern is \<open>base/*\<close> and the segments of the base are the first segments of
  the path (\<open>/api/*\<close> does not match \<open>/apix\<close>); the pattern \<open>/*\<close> matches everything.
\<close>

theorem scope_match_segments:
  "path_matches_scope p pattern = Inr True \<longrightarrow>
     p = py_strip pattern \<or>
     (\<exists>base. py_strip pattern = base @ ''/*'' \<and>
        (base = [] \<or> prefix (py_split (CHR ''/'') base) (py_split (CHR ''/'') p)))"
proof
  assume "path_matches_scope p pattern = Inr True"
  then have cov: "pattern_covers (py_strip pattern) p" by (simp add: path_matches_scope_covers)
  show "p = py_strip pattern \<or> (\<exists>base. py_strip pattern = base @ ''/*'' \<and>
      (base = [] \<or> prefix (py_split (CHR ''/'') base) (py_split (CHR ''/'') p)))"
  proof (cases "CHR ''*'' \<in> set (py_strip pattern)")
    case True
    with cov obtain base where b: "py_strip pattern = base @ ''/*''"
      by (auto simp: pattern_covers_def)
    then show ?thesis using covers_segments[of base p] cov by auto
  next
    case False
    then show ?thesis using cov by (simp add: pattern_covers_def)
  qed
qed

theorem scope_match_segments_witness:
  "path_matches_scope ''/api/v1/x'' '' /api/* '' = Inr True \<and>
   (\<exists>base. py_strip '' /api/* '' = base @ ''/*'' \<and>
      (base = [] \<or> prefix (py_split (CHR ''/'') base) (py_split (CHR ''/'') ''/api/v1/x'')))"
proof -
  have h: "path_matches_scope ''/api/v1/x'' '' /api/* '' = Inr True" by code_simp
  have n: "''/api/v1/x'' \<noteq> py_strip '' /api/* ''" by code_simp
  show ?thesis using h n scope_match_segments by blast
qed

end
