(* ===== verification/Canonical_Json.thy ===== *)
theory Canonical_Json
  imports Db_Models PyIp "HOL-Library.List_Lexorder" "HOL-Library.Char_ord"
begin

text \<open>
  The canonical JSON text of \<open>services/execution_plan.py\<close> (\<open>_canonical_json\<close>):
  \<open>json.dumps\<close> with sorted keys, no white space, no ASCII escaping and no NaN. The printer is
  proved unambiguous: the text determines the value up to the order of object keys.
\<close>

subsection \<open>Printing\<close>

text \<open>\<open>ESCAPE_DCT\<close> of the standard encoder: quote, backslash and the control characters.\<close>

definition json_escape :: "char \<Rightarrow> string" where
  "json_escape c =
     (let bs = CHR 0x5C in
      if c = CHR 0x22 \<or> c = bs then [bs, c]
      else if ord c = 10 then [bs, CHR ''n'']
      else if ord c = 13 then [bs, CHR ''r'']
      else if ord c = 9 then [bs, CHR ''t'']
      else if ord c = 12 then [bs, CHR ''f'']
      else if ord c = 8 then [bs, CHR ''b'']
      else if ord c < 32 then
        [bs, CHR ''u'', CHR ''0'', CHR ''0'', hex_digit_char (ord c div 16), hex_digit_char (ord c mod 16)]
      else [c])"

definition json_string :: "string \<Rightarrow> string" where
  "json_string s = CHR 0x22 # concat (map json_escape s) @ [CHR 0x22]"

fun json_text :: "json \<Rightarrow> string" where
  "json_text JNull = ''null''"
| "json_text (JBool b) = (if b then ''true'' else ''false'')"
| "json_text (JInt i) = show_int i"
| "json_text (JFloat r) = r"
| "json_text (JNonFinite r) = (if r = ''nan'' then ''NaN'' else if r = ''inf'' then ''Infinity'' else ''-Infinity'')"
| "json_text (JStr s) = json_string s"
| "json_text (JArr xs) = ''['' @ join_with '','' (map json_text xs) @ '']''"
| "json_text (JObj kvs) =
     ''{'' @ join_with '','' (map (\<lambda>p. json_string (fst p) @ '':'' @ json_text (snd p)) kvs) @ ''}''"

text \<open>Keys in ascending order, at every level.\<close>

fun json_sort :: "json \<Rightarrow> json" where
  "json_sort (JArr xs) = JArr (map json_sort xs)"
| "json_sort (JObj kvs) = JObj (sort_key fst (map (\<lambda>p. (fst p, json_sort (snd p))) kvs))"
| "json_sort v = v"

fun json_finite :: "json \<Rightarrow> bool" where
  "json_finite (JNonFinite r) = False"
| "json_finite (JArr xs) = list_all json_finite xs"
| "json_finite (JObj kvs) = list_all (\<lambda>p. json_finite (snd p)) kvs"
| "json_finite v = True"

definition canonical_json :: "json \<Rightarrow> string + string" where
  "canonical_json v =
     (if json_finite v then Inr (json_text (json_sort v))
      else Inl ''policy_context must be JSON-serializable'')"

subsection \<open>Well-formed values\<close>

definition number_char :: "char \<Rightarrow> bool" where
  "number_char c \<longleftrightarrow> is_digit c \<or> c \<in> set ''+-.e''"

text \<open>
  The \<open>repr\<close> of a finite float starts with a digit or a minus sign and has a point or an
  exponent.
\<close>

definition float_repr :: "string \<Rightarrow> bool" where
  "float_repr r \<longleftrightarrow> r \<noteq> [] \<and> (is_digit (hd r) \<or> hd r = CHR ''-'') \<and> list_all number_char r
     \<and> (CHR ''.'' \<in> set r \<or> CHR ''e'' \<in> set r)"

fun json_wf :: "json \<Rightarrow> bool" where
  "json_wf (JNonFinite r) = False"
| "json_wf (JFloat r) = float_repr r"
| "json_wf (JArr xs) = list_all json_wf xs"
| "json_wf (JObj kvs) = list_all (\<lambda>p. json_wf (snd p)) kvs"
| "json_wf v = True"

subsection \<open>Strings are unambiguous\<close>

lemma hex_digit_char_inj: "m < 16 \<Longrightarrow> n < 16 \<Longrightarrow> hex_digit_char m = hex_digit_char n \<longleftrightarrow> m = n"
  by (metis hex_value_hex_digit_char option.inject)

lemma ord_inj: "ord c = ord d \<longleftrightarrow> c = d"
  by (auto simp: ord_def of_char_eq_iff)

lemma json_escape_ne: "json_escape c \<noteq> []"
  by (simp add: json_escape_def Let_def)

lemma json_escape_hd: "hd (json_escape c @ x) \<noteq> CHR 0x22"
  by (simp add: json_escape_def Let_def)

text \<open>The letter after the backslash of a short escape.\<close>

definition short_escape :: "char \<Rightarrow> char option" where
  "short_escape c =
     (if c = CHR 0x22 \<or> c = CHR 0x5C then Some c
      else if ord c = 10 then Some (CHR ''n'') else if ord c = 13 then Some (CHR ''r'')
      else if ord c = 9 then Some (CHR ''t'') else if ord c = 12 then Some (CHR ''f'')
      else if ord c = 8 then Some (CHR ''b'') else None)"

lemma short_escape_inj:
  assumes "short_escape c = Some l" and "short_escape d = Some l"
  shows "c = d"
  using assms by (auto simp: short_escape_def split: if_splits) (metis ord_inj)+

lemma short_escape_not_u: "short_escape c \<noteq> Some (CHR ''u'')"
  by (auto simp: short_escape_def)

lemma json_escape_short:
  "json_escape c = (case short_escape c of Some l \<Rightarrow> [CHR 0x5C, l]
     | None \<Rightarrow> if ord c < 32 then [CHR 0x5C, CHR ''u'', CHR ''0'', CHR ''0'',
         hex_digit_char (ord c div 16), hex_digit_char (ord c mod 16)] else [c])"
  by (simp add: json_escape_def short_escape_def Let_def)

lemma json_escape_cases:
  obtains (short) l where "short_escape c = Some l" "json_escape c = [CHR 0x5C, l]"
  | (control) "short_escape c = None" "ord c < 32" "json_escape c = [CHR 0x5C, CHR ''u'', CHR ''0'', CHR ''0'',
      hex_digit_char (ord c div 16), hex_digit_char (ord c mod 16)]"
  | (plain) "json_escape c = [c]" "c \<noteq> CHR 0x5C"
proof (cases "short_escape c")
  case None
  then have "c \<noteq> CHR 0x5C" by (auto simp: short_escape_def)
  then show ?thesis using None that(2,3) by (cases "ord c < 32") (simp_all add: json_escape_short)
qed (simp add: json_escape_short that(1))

lemma json_escape_control_inj:
  assumes "ord c < 32" and "ord d < 32"
    and "hex_digit_char (ord c div 16) = hex_digit_char (ord d div 16)"
    and "hex_digit_char (ord c mod 16) = hex_digit_char (ord d mod 16)"
  shows "c = d"
proof -
  have "ord c div 16 = ord d div 16" using assms hex_digit_char_inj[of "ord c div 16" "ord d div 16"] by simp
  moreover have "ord c mod 16 = ord d mod 16" using assms(4) hex_digit_char_inj[of "ord c mod 16" "ord d mod 16"] by simp
  ultimately have "ord c = ord d" by (metis div_mult_mod_eq)
  then show ?thesis by (simp add: ord_inj)
qed

lemma json_escape_prefix:
  assumes "json_escape c @ x = json_escape d @ y"
  shows "c = d \<and> x = y"
proof (cases rule: json_escape_cases[of c])
  case (short l)
  then show ?thesis using assms short_escape_inj short_escape_not_u
    by (cases rule: json_escape_cases[of d]) auto
next
  case control
  then show ?thesis using assms json_escape_control_inj[of c d] short_escape_not_u
    by (cases rule: json_escape_cases[of d]) auto
next
  case plain
  then show ?thesis using assms by (cases rule: json_escape_cases[of d]) auto
qed

lemma json_escapes_prefix:
  "concat (map json_escape s) @ CHR 0x22 # x = concat (map json_escape t) @ CHR 0x22 # y \<Longrightarrow> s = t \<and> x = y"
proof (induction s arbitrary: t)
  case Nil
  then show ?case using json_escape_hd json_escape_ne
    by (cases t) (auto, metis append.assoc hd_append2 list.sel(1))
next
  case (Cons c s)
  show ?case
  proof (cases t)
    case Nil
    then show ?thesis using Cons.prems json_escape_hd[of c "concat (map json_escape s) @ CHR 0x22 # x"] by auto
  next
    case (Cons d t')
    with Cons.prems json_escape_prefix[of c _ d] show ?thesis using Cons.IH[of t'] by auto
  qed
qed

lemma json_string_prefix: "json_string s @ x = json_string t @ y \<Longrightarrow> s = t \<and> x = y"
  using json_escapes_prefix[of s x t y] by (simp add: json_string_def)

subsection \<open>Values are unambiguous\<close>

definition delimited :: "string \<Rightarrow> bool" where
  "delimited x \<longleftrightarrow> x = [] \<or> \<not> number_char (hd x)"

lemma delimited_simps [simp]:
  "delimited []" "delimited (CHR '','' # x)" "delimited (CHR '']'' # x)" "delimited (CHR 0x7D # x)"
  by (simp_all add: delimited_def number_char_def is_digit_def ord_def)

lemma number_prefix:
  assumes "list_all number_char t" "list_all number_char u" "delimited x" "delimited y" "t @ x = u @ y"
  shows "t = u \<and> x = y"
proof -
  have tw: "takeWhile number_char (r @ z) = r" if "list_all number_char r" "delimited z" for r z
    using that by (cases z) (auto simp: delimited_def takeWhile_append list_all_iff)
  then have "t = u" using tw[OF assms(1,3)] tw[OF assms(2,4)] assms(5) by metis
  then show ?thesis using assms(5) by simp
qed

lemma show_int_number: "list_all number_char (show_int i)"
proof -
  have "list_all number_char (show_nat n)" for n
    using show_nat_digits[of n] by (auto simp: number_char_def list_all_iff)
  then show ?thesis by (simp add: show_int_def number_char_def)
qed

lemma show_int_hd: "show_int i \<noteq> [] \<and> (is_digit (hd (show_int i)) \<or> hd (show_int i) = CHR ''-'')"
proof -
  have "is_digit (hd (show_nat n))" for n
    using show_nat_digits[of n] show_nat_not_Nil[of n] by (cases "show_nat n") auto
  then show ?thesis by (simp add: show_int_def)
qed

lemma show_int_not_float: "\<not> float_repr (show_int i)"
proof -
  have "c \<notin> set (show_nat n)" if "c \<in> set ''.e''" for c n
    using that show_nat_no_sep[of c n] by (auto simp: is_digit_def ord_def)
  then show ?thesis by (auto simp: float_repr_def show_int_def)
qed

lemma show_int_inject: "show_int i = show_int j \<Longrightarrow> i = j"
proof -
  have "show_nat n \<noteq> CHR ''-'' # z" for n z
    using show_nat_digits[of n] by (cases "show_nat n") (auto simp: is_digit_def ord_def)
  then show "show_int i = show_int j \<Longrightarrow> i = j"
    by (auto simp: show_int_def split: if_splits) (metis nat_eq_iff2 linorder_not_less)+
qed

text \<open>The first character of a text tells the kind of the value.\<close>

definition first_kind :: "char \<Rightarrow> nat" where
  "first_kind c =
     (if c = CHR ''n'' then 0 else if c = CHR ''t'' then 1 else if c = CHR ''f'' then 2
      else if is_digit c \<or> c = CHR ''-'' then 3 else if c = CHR 0x22 then 4
      else if c = CHR ''['' then 5 else if c = CHR 0x7B then 6 else 7)"

fun json_kind :: "json \<Rightarrow> nat" where
  "json_kind JNull = 0"
| "json_kind (JBool b) = (if b then 1 else 2)"
| "json_kind (JInt _) = 3"
| "json_kind (JFloat _) = 3"
| "json_kind (JStr _) = 4"
| "json_kind (JArr _) = 5"
| "json_kind (JObj _) = 6"
| "json_kind (JNonFinite r) = 8"

lemma first_kind_number: "is_digit c \<or> c = CHR ''-'' \<Longrightarrow> first_kind c = 3"
  by (auto simp: first_kind_def is_digit_def ord_def)

lemma first_kind_char:
  "first_kind (CHR ''n'') = 0" "first_kind (CHR ''t'') = 1" "first_kind (CHR ''f'') = 2"
  "first_kind (CHR 0x22) = 4" "first_kind (CHR ''['') = 5" "first_kind (CHR 0x7B) = 6"
  "first_kind (CHR '']'') = 7" "first_kind (CHR 0x7D) = 7"
  by (simp_all add: first_kind_def is_digit_def ord_def)

lemma json_text_first: "json_wf v \<Longrightarrow> json_text v \<noteq> [] \<and> first_kind (hd (json_text v)) = json_kind v"
  using show_int_hd
  by (cases v) (auto simp: first_kind_char float_repr_def json_string_def intro!: first_kind_number)

lemma json_text_kind:
  assumes "json_wf v" "json_wf w" "json_text v @ x = json_text w @ y"
  shows "json_kind v = json_kind w"
  using json_text_first[OF assms(1)] json_text_first[OF assms(2)] assms(3) by (metis hd_append2)

text \<open>The items of an array or object after the first, with the closing bracket.\<close>

definition unambiguous :: "('a \<Rightarrow> string) \<Rightarrow> 'a \<Rightarrow> 'a \<Rightarrow> bool" where
  "unambiguous f a b \<longleftrightarrow>
     (\<forall>x y. delimited x \<longrightarrow> delimited y \<longrightarrow> f a @ x = f b @ y \<longrightarrow> a = b \<and> x = y)"

lemma unambiguousD:
  "unambiguous f a b \<Longrightarrow> delimited x \<Longrightarrow> delimited y \<Longrightarrow> f a @ x = f b @ y \<Longrightarrow> a = b \<and> x = y"
  by (simp add: unambiguous_def)

fun items_tail :: "('a \<Rightarrow> string) \<Rightarrow> char \<Rightarrow> 'a list \<Rightarrow> string" where
  "items_tail f e [] = [e]"
| "items_tail f e (a # as) = CHR '','' # f a @ items_tail f e as"

lemma join_tail: "join_with '','' (map f (a # as)) @ e # x = f a @ items_tail f e as @ x"
  by (induction as arbitrary: a) auto

lemma delimited_tail: "e \<in> {CHR '']'', CHR 0x7D} \<Longrightarrow> delimited (items_tail f e as @ x)"
  by (cases as) auto

lemma items_tail_prefix:
  assumes "\<forall>a\<in>set as. \<forall>b\<in>set bs. unambiguous f a b" and "e \<in> {CHR '']'', CHR 0x7D}"
    and "items_tail f e as @ x = items_tail f e bs @ y"
  shows "as = bs \<and> x = y"
  using assms
proof (induction as arbitrary: bs)
  case Nil
  then show ?case by (cases bs) auto
next
  case (Cons a as)
  then obtain b bs' where bs: "bs = b # bs'" by (cases bs) auto
  have eq: "f a @ items_tail f e as @ x = f b @ items_tail f e bs' @ y" using Cons.prems(3) bs by simp
  have "unambiguous f a b" using Cons.prems(1) bs by simp
  then have "a = b \<and> items_tail f e as @ x = items_tail f e bs' @ y"
    by (rule unambiguousD) (rule delimited_tail[OF Cons.prems(2)] eq)+
  then show ?case using Cons.IH[of bs'] Cons.prems(1,2) bs by simp
qed

lemma items_prefix:
  assumes "\<forall>a\<in>set as. \<forall>b\<in>set bs. unambiguous f a b" and "e \<in> {CHR '']'', CHR 0x7D}"
    and "\<forall>b\<in>set as \<union> set bs. f b \<noteq> [] \<and> hd (f b) \<noteq> e"
    and "join_with '','' (map f as) @ e # x = join_with '','' (map f bs) @ e # y"
  shows "as = bs \<and> x = y"
proof (cases as)
  case Nil
  show ?thesis
  proof (cases bs)
    case (Cons b bs')
    then have "e # x = f b @ items_tail f e bs' @ y" using assms(4) Nil join_tail[of f b bs' e y] by simp
    then show ?thesis using assms(3) Cons by (metis UnI2 hd_append2 list.sel(1) list.set_intros(1))
  qed (use assms(4) Nil in simp)
next
  case as: (Cons a as')
  have a: "join_with '','' (map f as) @ e # x = f a @ items_tail f e as' @ x"
    unfolding as by (rule join_tail)
  show ?thesis
  proof (cases bs)
    case Nil
    then have "e # y = f a @ items_tail f e as' @ x" using assms(4) a by simp
    then show ?thesis using assms(3) as by (metis UnI1 hd_append2 list.sel(1) list.set_intros(1))
  next
    case (Cons b bs')
    have b: "join_with '','' (map f bs) @ e # y = f b @ items_tail f e bs' @ y"
      unfolding Cons by (rule join_tail)
    have eq: "f a @ items_tail f e as' @ x = f b @ items_tail f e bs' @ y"
      by (rule trans[OF a[symmetric] trans[OF assms(4) b]])
    have "unambiguous f a b" using assms(1) as Cons by simp
    then have "a = b \<and> items_tail f e as' @ x = items_tail f e bs' @ y"
      by (rule unambiguousD) (rule delimited_tail[OF assms(2)] eq)+
    moreover have "\<forall>a\<in>set as'. \<forall>b\<in>set bs'. unambiguous f a b" using assms(1) as Cons by simp
    ultimately show ?thesis using items_tail_prefix[OF _ assms(2), of as' bs' f x y] as Cons by blast
  qed
qed

lemma number_text: "json_kind v = 3 \<Longrightarrow> json_wf v \<Longrightarrow> list_all number_char (json_text v)"
  by (cases v) (auto simp: show_int_number float_repr_def split: if_splits)

lemma number_text_inject:
  assumes "json_kind v = 3" "json_kind w = 3" "json_wf v" "json_wf w" "json_text v = json_text w"
  shows "v = w"
  using assms show_int_not_float by (cases v; cases w) (auto dest: show_int_inject split: if_splits)

lemma number_unambiguous:
  assumes "json_kind v = 3" "json_wf v" "json_wf w"
  shows "unambiguous json_text v w"
  unfolding unambiguous_def
proof (intro allI impI)
  fix x y
  assume d: "delimited x" "delimited y" "json_text v @ x = json_text w @ y"
  have k: "json_kind w = 3" using json_text_kind[OF assms(2,3) d(3)] assms(1) by simp
  have "json_text v = json_text w \<and> x = y"
    by (rule number_prefix[OF number_text[OF assms(1,2)] number_text[OF k assms(3)] d])
  then show "v = w \<and> x = y" using number_text_inject[OF assms(1) k assms(2,3)] by blast
qed

lemma member_unambiguous:
  assumes "\<forall>b. json_wf b \<longrightarrow> unambiguous json_text (snd p) b" and "json_wf (snd q)"
  shows "unambiguous (\<lambda>p. json_string (fst p) @ '':'' @ json_text (snd p)) p q"
  unfolding unambiguous_def
proof (intro allI impI)
  fix x y
  assume d: "delimited x" "delimited y"
    and e: "(json_string (fst p) @ '':'' @ json_text (snd p)) @ x
      = (json_string (fst q) @ '':'' @ json_text (snd q)) @ y"
  then have "fst p = fst q" and "json_text (snd p) @ x = json_text (snd q) @ y"
    using json_string_prefix[of "fst p" _ "fst q"] by force+
  then show "p = q \<and> x = y"
    using unambiguousD[of json_text "snd p" "snd q"] assms d by (simp add: prod_eq_iff)
qed

lemma json_text_unambiguous: "json_wf v \<Longrightarrow> json_wf w \<Longrightarrow> unambiguous json_text v w"
proof (induction v arbitrary: w)
  case (JInt i)
  then show ?case by (intro number_unambiguous) simp_all
next
  case (JFloat r)
  then show ?case by (intro number_unambiguous) simp_all
next
  case (JStr s)
  show ?case unfolding unambiguous_def
  proof (intro allI impI)
    fix x y
    assume d: "json_text (JStr s) @ x = json_text w @ y"
    have "json_kind w = 4" using json_text_kind[OF JStr.prems d] by simp
    then show "JStr s = w \<and> x = y" using d json_string_prefix[of s x] by (cases w) (auto split: if_splits)
  qed
next
  case (JArr vs)
  show ?case unfolding unambiguous_def
  proof (intro allI impI)
    fix x y
    assume d: "json_text (JArr vs) @ x = json_text w @ y"
    have "json_kind w = 5" using json_text_kind[OF JArr.prems d] by simp
    then obtain ws where w: "w = JArr ws" by (cases w) (auto split: if_splits)
    have wf: "json_wf u" if "u \<in> set vs \<union> set ws" for u using that JArr.prems w by (auto simp: list_all_iff)
    have "\<forall>a\<in>set vs. \<forall>b\<in>set ws. unambiguous json_text a b" using JArr.IH wf by blast
    moreover have "\<forall>b\<in>set vs \<union> set ws. json_text b \<noteq> [] \<and> hd (json_text b) \<noteq> CHR '']''"
    proof
      fix b
      assume "b \<in> set vs \<union> set ws"
      then show "json_text b \<noteq> [] \<and> hd (json_text b) \<noteq> CHR '']''"
        using json_text_first[OF wf, of b] by (cases b) (auto simp: first_kind_char split: if_splits)
    qed
    moreover have "join_with '','' (map json_text vs) @ CHR '']'' # x
        = join_with '','' (map json_text ws) @ CHR '']'' # y" using d w by simp
    ultimately have "vs = ws \<and> x = y" by (intro items_prefix[of vs ws json_text "CHR '']''"]) auto
    then show "JArr vs = w \<and> x = y" using w by simp
  qed
next
  case (JObj kvs)
  let ?f = "\<lambda>p. json_string (fst p) @ '':'' @ json_text (snd p)"
  show ?case unfolding unambiguous_def
  proof (intro allI impI)
    fix x y
    assume d: "json_text (JObj kvs) @ x = json_text w @ y"
    have "json_kind w = 6" using json_text_kind[OF JObj.prems d] by simp
    then obtain ws where w: "w = JObj ws" by (cases w) (auto split: if_splits)
    have wf: "json_wf (snd u)" if "u \<in> set kvs \<union> set ws" for u
      using that JObj.prems w by (auto simp: list_all_iff)
    have "unambiguous ?f a b" if "a \<in> set kvs" "b \<in> set ws" for a b
    proof (rule member_unambiguous)
      have "snd a \<in> Basic_BNFs.snds a" by (cases a) (simp add: snds.simps)
      then show "\<forall>b. json_wf b \<longrightarrow> unambiguous json_text (snd a) b"
        using JObj.IH[OF that(1)] wf[of a] that(1) by blast
    qed (use wf[of b] that(2) in blast)
    then have "\<forall>a\<in>set kvs. \<forall>b\<in>set ws. unambiguous ?f a b" by blast
    moreover have "\<forall>b\<in>set kvs \<union> set ws. ?f b \<noteq> [] \<and> hd (?f b) \<noteq> CHR 0x7D"
      by (simp add: json_string_def)
    moreover have "join_with '','' (map ?f kvs) @ CHR 0x7D # x = join_with '','' (map ?f ws) @ CHR 0x7D # y"
      using d w by simp
    ultimately have "kvs = ws \<and> x = y" by (intro items_prefix[of kvs ws ?f "CHR 0x7D"]) auto
    then show "JObj kvs = w \<and> x = y" using w by simp
  qed
next
  case JNull
  then show ?case using json_text_kind[OF JNull]
    by (cases w) (auto simp: unambiguous_def split: if_splits)
next
  case (JBool b)
  then show ?case using json_text_kind[OF JBool]
    by (cases w) (auto simp: unambiguous_def split: if_splits)
qed simp

lemma json_text_inject: "json_wf v \<Longrightarrow> json_wf w \<Longrightarrow> json_text v = json_text w \<Longrightarrow> v = w"
  using json_text_unambiguous[of v w] unambiguousD[of json_text v w "[]" "[]"] by simp

lemma json_sort_wf [simp]: "json_wf (json_sort v) = json_wf v"
  by (induction v rule: json_sort.induct) (auto simp: list_all_iff)

lemma json_wf_finite: "json_wf v \<Longrightarrow> json_finite v"
  by (induction v rule: json_wf.induct) (auto simp: list_all_iff)

text \<open>Equal canonical texts are equal values, up to the order of keys.\<close>

lemma canonical_json_inject:
  assumes "canonical_json v = Inr s" "canonical_json w = Inr s" "json_wf v" "json_wf w"
  shows "json_sort v = json_sort w"
  using assms by (intro json_text_inject) (auto simp: canonical_json_def split: if_splits)

end
