(* ===== verification/Execution_Plan.thy ===== *)
theory Execution_Plan
  imports Scope_Policy Canonical_Json
begin

text \<open>
  Execution plans (\<open>services/execution_plan.py\<close>): the filter for secret-bearing keys, the
  canonical policy context, the digest of a plan, and the creation of a plan with all its
  checks, together with the gate that keeps research cases out
  (\<open>services/research_intent_gate.py\<close>). The hash \<open>sha256\<close> (hexadecimal digest of a text) is a
  parameter. \<open>store\<close> holds the tables that the plan services read and write.
\<close>

subsection \<open>Tables\<close>

record store =
  targets :: "row_id \<Rightarrow> target option"
  revisions :: "row_id \<Rightarrow> authorization_revision option"
  scopes_of :: "row_id \<Rightarrow> scope list"
  identities :: "row_id \<Rightarrow> test_identity option"
  bindings :: "credential_binding list"
  secret_versions :: "credential_secret_version list"
  endpoints :: "row_id \<Rightarrow> endpoint option"
  resources :: "row_id \<Rightarrow> resource option"
  test_cases :: "row_id \<Rightarrow> test_case option"
  plans :: "row_id \<Rightarrow> execution_plan option"
  plan_actions :: "plan_action list"
  approvals :: "execution_plan_approval_record list"
  members_exist :: bool
  member_case_ids :: "row_id list"
  member_plan_ids :: "row_id list"

text \<open>\<open>db.get\<close> on a table that is also searched by other columns.\<close>

definition binding_row :: "store \<Rightarrow> row_id \<Rightarrow> credential_binding option" where
  "binding_row db i = find (\<lambda>b. cb_id b = i) (bindings db)"

datatype plan_error =
  PlanValidation string | PolicyValidation string | UrlValueError | PlanIntegrity string

subsection \<open>Secret-bearing material\<close>

definition SECRET_KEY_BASES :: "string list" where
  "SECRET_KEY_BASES =
     [''authorization'', ''cookie'', ''setcookie'', ''apikey'', ''xapikey'', ''bearer'',
      ''bearertoken'', ''accesstoken'', ''refreshtoken'', ''clientsecret'', ''password'',
      ''passwd'', ''session'', ''sessionid'', ''sessiontoken'']"

definition SECRET_KEY_QUALIFIERS :: "string list" where
  "SECRET_KEY_QUALIFIERS = [''material'', ''header'', ''secret'', ''token'', ''value'']"

text \<open>The inner \<open>while\<close> loop: strip qualifiers from the front; is nothing left?\<close>

function strip_qualifiers :: "string \<Rightarrow> bool" where
  "strip_qualifiers remainder =
     (if remainder = [] then True
      else (case find (\<lambda>q. prefix q remainder) SECRET_KEY_QUALIFIERS of
              None \<Rightarrow> False
            | Some q \<Rightarrow> strip_qualifiers (drop (length q) remainder)))"
  by pat_completeness auto
termination
proof (relation "measure length")
  fix r :: string and q
  assume "r \<noteq> []" and "find (\<lambda>q. prefix q r) SECRET_KEY_QUALIFIERS = Some q"
  then have "q \<in> set SECRET_KEY_QUALIFIERS" using find_Some_in by metis
  then have "q \<noteq> []" by (auto simp: SECRET_KEY_QUALIFIERS_def)
  then show "(drop (length q) r, r) \<in> measure length" using \<open>r \<noteq> []\<close> by simp
qed simp

declare strip_qualifiers.simps [simp del]

definition normalize_key :: "string \<Rightarrow> string" where
  "normalize_key key = filter (\<lambda>c. is_lower c \<or> is_digit c) (py_lower key)"

definition is_secret_bearing_key :: "string \<Rightarrow> bool" where
  "is_secret_bearing_key key =
     (let normalized = normalize_key key in
      list_ex (\<lambda>base. prefix base normalized \<and> strip_qualifiers (drop (length base) normalized))
        SECRET_KEY_BASES)"

text \<open>\<open>re.match(r"^\s*bearer\s+\S", value, re.I)\<close>.\<close>

definition bearer_like :: "string \<Rightarrow> bool" where
  "bearer_like v =
     (let r = dropWhile is_space v; t = drop 6 r in
      prefix ''bearer'' (py_lower r) \<and> t \<noteq> [] \<and> is_space (hd t) \<and> dropWhile is_space t \<noteq> [])"

text \<open>\<open>_reject_secret_context\<close>; keys of a \<open>json\<close> object are strings.\<close>

fun context_has_secret :: "json \<Rightarrow> bool" where
  "context_has_secret (JObj kvs) =
     list_ex (\<lambda>p. is_secret_bearing_key (fst p) \<or> context_has_secret (snd p)) kvs"
| "context_has_secret (JArr xs) = list_ex context_has_secret xs"
| "context_has_secret (JStr s) = bearer_like s"
| "context_has_secret _ = False"

definition reject_secret_context :: "json \<Rightarrow> plan_error + unit" where
  "reject_secret_context v =
     (if context_has_secret v
      then Inl (PlanValidation ''policy_context contains secret-bearing material'') else Inr ())"

text \<open>\<open>urllib.parse.parse_qsl(qs, keep_blank_values=True)\<close>.\<close>

definition parse_qsl :: "string \<Rightarrow> (string \<times> string) list" where
  "parse_qsl qs =
     (let plain = (\<lambda>s. unquote (map (\<lambda>c. if c = CHR ''+'' then CHR '' '' else c) s)) in
      map (\<lambda>nv. case py_partition (CHR ''='') nv of (n, _, v) \<Rightarrow> (plain n, plain v))
        (filter (\<lambda>nv. nv \<noteq> []) (py_split (CHR ''&'') qs)))"

definition reject_secret_url :: "string \<Rightarrow> plan_error + unit" where
  "reject_secret_url url =
     (case urlsplit url of
        None \<Rightarrow> Inl UrlValueError
      | Some parsed \<Rightarrow>
         (if fragment parsed \<noteq> [] then Inl (PlanValidation ''action URL fragments are not allowed'')
          else if list_ex (\<lambda>p. is_secret_bearing_key (fst p) \<or> bearer_like (snd p))
                    (parse_qsl (query parsed))
          then Inl (PlanValidation ''action URL contains secret-bearing material'')
          else Inr ()))"

definition MAX_PLAN_ACTIONS :: nat where "MAX_PLAN_ACTIONS = 100"

definition MAX_POLICY_CONTEXT_BYTES :: nat where "MAX_POLICY_CONTEXT_BYTES = 16 * 1024"

definition DIGEST_VERSION :: string where "DIGEST_VERSION = ''v1''"

definition MAX_ACTION_URL_LENGTH :: nat where "MAX_ACTION_URL_LENGTH = 2048"

text \<open>
  The result of \<open>json.loads\<close> on the canonical text is the value with its keys sorted, by
  \<open>canonical_json_inject\<close> the only value with that text.
\<close>

definition canonical_context :: "json \<Rightarrow> plan_error + json" where
  "canonical_context v =
     res_bind (reject_secret_context v) (\<lambda>_.
       case canonical_json v of
         Inl e \<Rightarrow> Inl (PlanValidation e)
       | Inr canonical \<Rightarrow>
          (if length canonical > MAX_POLICY_CONTEXT_BYTES
           then Inl (PlanValidation ''policy_context exceeds size limit'')
           else Inr (json_sort v)))"

definition canonicalize_policy_context :: "json option \<Rightarrow> plan_error + json" where
  "canonicalize_policy_context policy_context =
     (let v = (case policy_context of None \<Rightarrow> JObj [] | Some c \<Rightarrow> c) in
      case v of
        JObj _ \<Rightarrow> canonical_context v
      | JArr _ \<Rightarrow> canonical_context v
      | _ \<Rightarrow> Inl (PlanValidation ''policy_context must be a JSON object or array''))"

subsection \<open>The digest\<close>

record plan_action_input =
  pai_method :: string
  pai_url :: string
  pai_test_case_id :: "row_id option"
  pai_resource_id :: "row_id option"

definition json_opt_int :: "int option \<Rightarrow> json" where
  "json_opt_int x = (case x of None \<Rightarrow> JNull | Some i \<Rightarrow> JInt i)"

definition action_payload :: "nat \<Rightarrow> plan_action_input \<Rightarrow> json" where
  "action_payload ordinal a =
     JObj [(''ordinal'', JInt (int ordinal)), (''method'', JStr (pai_method a)),
           (''url'', JStr (pai_url a)), (''test_case_id'', json_opt_int (pai_test_case_id a)),
           (''resource_id'', json_opt_int (pai_resource_id a))]"

text \<open>What a digest covers.\<close>

record plan_content =
  pc_target_id :: row_id
  pc_authorization_revision_id :: row_id
  pc_actor_identity_id :: row_id
  pc_credential_binding_id :: "row_id option"
  pc_policy_context :: json
  pc_actions :: "plan_action_input list"

definition digest_payload :: "plan_content \<Rightarrow> json" where
  "digest_payload c =
     JObj [(''digest_version'', JStr DIGEST_VERSION), (''target_id'', JInt (pc_target_id c)),
           (''authorization_revision_id'', JInt (pc_authorization_revision_id c)),
           (''actor_identity_id'', JInt (pc_actor_identity_id c)),
           (''credential_binding_id'', json_opt_int (pc_credential_binding_id c)),
           (''policy_context'', pc_policy_context c),
           (''action_count'', JInt (int (length (pc_actions c)))),
           (''actions'', JArr (map (\<lambda>(i, a). action_payload i a) (enumerate 1 (pc_actions c))))]"

definition compute_plan_digest_v1 :: "(string \<Rightarrow> string) \<Rightarrow> plan_content \<Rightarrow> plan_error + string" where
  "compute_plan_digest_v1 sha256 c =
     (case canonical_json (digest_payload c) of
        Inl e \<Rightarrow> Inl (PlanValidation e) | Inr text_v1 \<Rightarrow> Inr (sha256 text_v1))"

subsection \<open>The gate for research cases\<close>

definition new_case :: "store \<Rightarrow> test_case option \<Rightarrow> bool" where
  "new_case db c =
     (case c of
        None \<Rightarrow> False
      | Some tc \<Rightarrow> prefix ''ra_'' (tc_test_type tc)
          \<or> (members_exist db \<and> tc_id tc \<in> set (member_case_ids db)))"

definition actions_of :: "store \<Rightarrow> row_id \<Rightarrow> plan_action list" where
  "actions_of db pid = filter (\<lambda>a. act_execution_plan_id a = pid) (plan_actions db)"

definition json_has_key :: "string \<Rightarrow> json \<Rightarrow> bool" where
  "json_has_key k v = (case v of JObj kvs \<Rightarrow> k \<in> fst ` set kvs | _ \<Rightarrow> False)"

text \<open>
  \<open>new_plan\<close>. The query over the joined cases has \<open>LIMIT 101\<close> and no order; a plan has at most
  100 actions, so that the limit cuts nothing off.
\<close>

definition new_plan :: "store \<Rightarrow> execution_plan \<Rightarrow> bool" where
  "new_plan db plan \<longleftrightarrow>
     json_has_key ''research_intent'' (plan_policy_context plan)
     \<or> (members_exist db \<and> plan_id plan \<in> set (member_plan_ids db))
     \<or> list_ex (\<lambda>a. case act_test_case_id a of
                      None \<Rightarrow> False
                    | Some cid \<Rightarrow> (case test_cases db cid of
                        None \<Rightarrow> False | Some tc \<Rightarrow> new_case db (Some tc)))
         (actions_of db (plan_id plan))"

subsection \<open>Creating a plan\<close>

definition action_resource_ok :: "store \<Rightarrow> row_id \<Rightarrow> plan_action_input \<Rightarrow> bool" where
  "action_resource_ok db tid a \<longleftrightarrow>
     (case pai_resource_id a of
        None \<Rightarrow> True
      | Some rid \<Rightarrow> (case resources db rid of None \<Rightarrow> False | Some r \<Rightarrow> res_target_id r = tid))"

definition action_case_ok :: "store \<Rightarrow> row_id \<Rightarrow> plan_action_input \<Rightarrow> bool" where
  "action_case_ok db tid a \<longleftrightarrow>
     (case pai_test_case_id a of
        None \<Rightarrow> True
      | Some cid \<Rightarrow> (case test_cases db cid of
          None \<Rightarrow> False
        | Some tc \<Rightarrow>
           (case endpoints db (tc_endpoint_id tc) of None \<Rightarrow> False | Some e \<Rightarrow> ep_target_id e = tid)
           \<and> (case resources db (tc_resource_id tc) of None \<Rightarrow> False | Some r \<Rightarrow> res_target_id r = tid)
           \<and> (case identities db (tc_actor_identity_id tc) of
                None \<Rightarrow> False | Some i \<Rightarrow> ident_target_id i = tid)
           \<and> (case pai_resource_id a of None \<Rightarrow> True | Some rid \<Rightarrow> rid = tc_resource_id tc)))"

text \<open>The body of the loop over the actions.\<close>

definition check_action :: "store \<Rightarrow> target \<Rightarrow> origin \<Rightarrow> plan_action_input \<Rightarrow> plan_error + unit" where
  "check_action db t target_origin a =
     (if pai_method a \<noteq> ''GET'' then Inl (PlanValidation ''planned actions must use GET'')
      else if pai_url a = [] \<or> py_len (pai_url a) > MAX_ACTION_URL_LENGTH then
        Inl (PlanValidation ''action URL is invalid or too long'')
      else (case parse_origin (pai_url a) of
        Inl e \<Rightarrow> Inl (PolicyValidation e)
      | Inr o_a \<Rightarrow>
      if o_a \<noteq> target_origin then Inl (PlanValidation ''action URL is outside target origin'')
      else (case normalize_request_path (pai_url a) of
        Inl e \<Rightarrow> Inl (PolicyValidation e)
      | Inr _ \<Rightarrow>
      res_bind (reject_secret_url (pai_url a)) (\<lambda>_.
      if \<not> action_resource_ok db (tgt_id t) a then
        Inl (PlanValidation ''resource provenance does not belong to target'')
      else if \<not> action_case_ok db (tgt_id t) a then
        Inl (PlanValidation ''test case provenance does not belong to target'')
      else Inr ()))))"

fun check_actions :: "store \<Rightarrow> target \<Rightarrow> origin \<Rightarrow> plan_action_input list \<Rightarrow> plan_error + unit" where
  "check_actions db t orig [] = Inr ()"
| "check_actions db t orig (a # as) = res_bind (check_action db t orig a) (\<lambda>_. check_actions db t orig as)"

text \<open>The selection of the credential binding for the actor.\<close>

definition check_binding :: "store \<Rightarrow> test_identity \<Rightarrow> row_id option \<Rightarrow> plan_error + unit" where
  "check_binding db actor credential_binding_id =
     (let anonymous = ident_auth_type actor \<in> {''none'', ''anonymous''} in
      if anonymous \<and> credential_binding_id \<noteq> None then
        Inl (PlanValidation ''anonymous actor cannot select a credential binding'')
      else if \<not> anonymous \<and> credential_binding_id = None then
        Inl (PlanValidation ''authenticated actor requires an exact credential binding'')
      else (case credential_binding_id of
        None \<Rightarrow> Inr ()
      | Some bid \<Rightarrow>
         (case binding_row db bid of
            None \<Rightarrow> Inl (PlanValidation ''credential binding is not active for actor'')
          | Some b \<Rightarrow>
             (if cb_test_identity_id b \<noteq> ident_id actor \<or> \<not> cb_is_active b
                 \<or> cb_auth_type b \<noteq> ident_auth_type actor
              then Inl (PlanValidation ''credential binding is not active for actor'')
              else Inr ()))))"

text \<open>The rows that are added: the plan and one action row per action, numbered from 1.\<close>

definition plan_row :: "row_id \<Rightarrow> datetime \<Rightarrow> string \<Rightarrow> plan_content \<Rightarrow> execution_plan" where
  "plan_row pid now digest c =
     \<lparr>plan_id = pid, plan_target_id = pc_target_id c,
      plan_authorization_revision_id = pc_authorization_revision_id c,
      plan_actor_identity_id = pc_actor_identity_id c,
      plan_credential_binding_id = pc_credential_binding_id c,
      plan_digest_version = DIGEST_VERSION, plan_plan_digest = digest,
      plan_action_count = int (length (pc_actions c)), plan_policy_context = pc_policy_context c,
      plan_created_at = now\<rparr>"

definition action_rows :: "row_id \<Rightarrow> row_id \<Rightarrow> datetime \<Rightarrow> plan_action_input list \<Rightarrow> plan_action list" where
  "action_rows pid first_action_id now as =
     map (\<lambda>(i, a). \<lparr>act_id = first_action_id + int i, act_execution_plan_id = pid,
        act_ordinal = int i, act_method = pai_method a, act_url = pai_url a,
        act_test_case_id = pai_test_case_id a, act_resource_id = pai_resource_id a,
        act_created_at = now\<rparr>) (enumerate 1 as)"

text \<open>
  \<open>_create_execution_plan\<close>; \<open>pid\<close> and \<open>first_action_id\<close> come from the sequences of the tables,
  \<open>now\<close> from the server default.
\<close>

definition create_execution_plan_rows ::
  "(string \<Rightarrow> string) \<Rightarrow> row_id \<Rightarrow> row_id \<Rightarrow> datetime \<Rightarrow> row_id \<Rightarrow> row_id \<Rightarrow> row_id \<Rightarrow> row_id option
   \<Rightarrow> plan_action_input list \<Rightarrow> json option \<Rightarrow> store \<Rightarrow> store \<times> (plan_error + execution_plan)" where
  "create_execution_plan_rows sha256 pid first_action_id now target_id revision_id
     actor_identity_id credential_binding_id actions policy_context db =
     (if \<not> (1 \<le> length actions \<and> length actions \<le> MAX_PLAN_ACTIONS) then
        (db, Inl (PlanValidation ''plan must contain 1..100 actions''))
      else (case (targets db target_id, revisions db revision_id) of
        (Some t, Some rv) \<Rightarrow>
        (if tgt_authorization_revision_id t \<noteq> Some (rev_id rv) then
           (db, Inl (PlanValidation ''revision is not bound to target''))
         else if tgt_authorization_profile_id t \<noteq> Some (rev_authorization_profile_id rv)
                 \<or> rev_lifecycle_state rv \<noteq> ''active'' then
           (db, Inl (PlanValidation ''revision is not active for target''))
         else (case identities db actor_identity_id of
           None \<Rightarrow> (db, Inl (PlanValidation ''actor does not belong to target''))
         | Some actor \<Rightarrow>
         if ident_target_id actor \<noteq> tgt_id t then
           (db, Inl (PlanValidation ''actor does not belong to target''))
         else (case check_binding db actor credential_binding_id of
           Inl e \<Rightarrow> (db, Inl e)
         | Inr _ \<Rightarrow>
         (case parse_origin (tgt_base_url t) of
           Inl e \<Rightarrow> (db, Inl (PolicyValidation e))
         | Inr target_origin \<Rightarrow>
         (case check_actions db t target_origin actions of
           Inl e \<Rightarrow> (db, Inl e)
         | Inr _ \<Rightarrow>
         (case canonicalize_policy_context policy_context of
           Inl e \<Rightarrow> (db, Inl e)
         | Inr frozen_context \<Rightarrow>
         (let c = \<lparr>pc_target_id = tgt_id t, pc_authorization_revision_id = rev_id rv,
                    pc_actor_identity_id = ident_id actor,
                    pc_credential_binding_id = credential_binding_id,
                    pc_policy_context = frozen_context, pc_actions = actions\<rparr> in
          case compute_plan_digest_v1 sha256 c of
            Inl e \<Rightarrow> (db, Inl e)
          | Inr digest \<Rightarrow>
             (db\<lparr>plans := (plans db)(pid := Some (plan_row pid now digest c)),
                  plan_actions := plan_actions db @ action_rows pid first_action_id now actions\<rparr>,
              Inr (plan_row pid now digest c)))))))))
      | _ \<Rightarrow> (db, Inl (PlanValidation ''target and revision must exist''))))"

definition create_execution_plan ::
  "(string \<Rightarrow> string) \<Rightarrow> row_id \<Rightarrow> row_id \<Rightarrow> datetime \<Rightarrow> row_id \<Rightarrow> row_id \<Rightarrow> row_id \<Rightarrow> row_id option
   \<Rightarrow> plan_action_input list \<Rightarrow> json option \<Rightarrow> store \<Rightarrow> store \<times> (plan_error + execution_plan)" where
  "create_execution_plan sha256 pid first_action_id now target_id revision_id
     actor_identity_id credential_binding_id actions policy_context db =
     (if (case policy_context of None \<Rightarrow> False | Some v \<Rightarrow> json_has_key ''research_intent'' v) then
        (db, Inl (PlanValidation ''intent_w2_execution_closed''))
      else if list_ex (\<lambda>a. case pai_test_case_id a of
                 None \<Rightarrow> False | Some cid \<Rightarrow> new_case db (test_cases db cid)) actions then
        (db, Inl (PlanValidation ''intent_w2_execution_closed''))
      else create_execution_plan_rows sha256 pid first_action_id now target_id
        revision_id actor_identity_id credential_binding_id actions policy_context db)"

subsection \<open>Facts: secret keys\<close>

lemma qualifier_find:
  assumes "q \<in> set SECRET_KEY_QUALIFIERS" and "prefix q r"
  shows "find (\<lambda>x. prefix x r) SECRET_KEY_QUALIFIERS = Some q"
proof -
  obtain z where r: "r = q @ z" using assms(2) by (auto simp: prefix_def)
  have "q = ''material'' \<or> q = ''header'' \<or> q = ''secret'' \<or> q = ''token'' \<or> q = ''value''"
    using assms(1) by (simp add: SECRET_KEY_QUALIFIERS_def)
  then show ?thesis by (elim disjE) (simp_all add: r SECRET_KEY_QUALIFIERS_def)
qed

text \<open>No qualifier is a prefix of another, so that the greedy loop finds every decomposition.\<close>

lemma strip_qualifiers_iff:
  "strip_qualifiers r \<longleftrightarrow> (\<exists>qs. set qs \<subseteq> set SECRET_KEY_QUALIFIERS \<and> r = concat qs)"
proof (induction r rule: strip_qualifiers.induct)
  case (1 r)
  show ?case
  proof (cases "r = []")
    case True
    then have "strip_qualifiers r" by (simp add: strip_qualifiers.simps)
    moreover have "set ([] :: string list) \<subseteq> set SECRET_KEY_QUALIFIERS \<and> r = concat []" using True by simp
    ultimately show ?thesis by blast
  next
    case False
    show ?thesis
    proof (cases "find (\<lambda>q. prefix q r) SECRET_KEY_QUALIFIERS")
      case None
      have "\<nexists>qs. set qs \<subseteq> set SECRET_KEY_QUALIFIERS \<and> r = concat qs"
      proof
        assume "\<exists>qs. set qs \<subseteq> set SECRET_KEY_QUALIFIERS \<and> r = concat qs"
        then obtain qs where qs: "set qs \<subseteq> set SECRET_KEY_QUALIFIERS" "r = concat qs" by blast
        then obtain q qs' where "qs = q # qs'" using False by (cases qs) auto
        then show False using qs None by (auto simp: find_None_all prefix_def)
      qed
      then show ?thesis using None False by (subst strip_qualifiers.simps) simp
    next
      case (Some q)
      then have q: "q \<in> set SECRET_KEY_QUALIFIERS" "prefix q r" using find_Some_in by metis+
      have step: "strip_qualifiers r = strip_qualifiers (drop (length q) r)"
        using Some False by (subst strip_qualifiers.simps) simp
      have "(\<exists>qs. set qs \<subseteq> set SECRET_KEY_QUALIFIERS \<and> drop (length q) r = concat qs)
          \<longleftrightarrow> (\<exists>qs. set qs \<subseteq> set SECRET_KEY_QUALIFIERS \<and> r = concat qs)" (is "?L \<longleftrightarrow> ?R")
      proof
        assume ?L
        then obtain qs where "set (q # qs) \<subseteq> set SECRET_KEY_QUALIFIERS" "r = concat (q # qs)"
          using q by (auto simp: prefix_def)
        then show ?R by blast
      next
        assume ?R
        then obtain qs where qs: "set qs \<subseteq> set SECRET_KEY_QUALIFIERS" "r = concat qs" by blast
        then obtain q' qs' where c: "qs = q' # qs'" using False by (cases qs) auto
        then have "find (\<lambda>x. prefix x r) SECRET_KEY_QUALIFIERS = Some q'"
          using qs by (intro qualifier_find) auto
        then have "q' = q" using Some by simp
        then have "set qs' \<subseteq> set SECRET_KEY_QUALIFIERS \<and> drop (length q) r = concat qs'"
          using qs c by simp
        then show ?L by blast
      qed
      then show ?thesis using step "1.IH"[OF False Some] by simp
    qed
  qed
qed

subsection \<open>Facts: the digest\<close>

lemma enumerate_map_inject:
  assumes "\<And>i a b. f i a = f i b \<Longrightarrow> a = b"
    and "map (\<lambda>(i, a). f i a) (enumerate n as) = map (\<lambda>(i, a). f i a) (enumerate n bs)"
  shows "as = bs"
  using assms(2)
proof (induction as arbitrary: n bs)
  case Nil
  then show ?case by (cases bs) auto
next
  case (Cons a as)
  then obtain b bs' where "bs = b # bs'" by (cases bs) auto
  then show ?case using Cons assms(1) by auto
qed

lemma json_opt_int_inject: "json_opt_int a = json_opt_int b \<longleftrightarrow> a = b"
  by (auto simp: json_opt_int_def split: option.splits)

lemma json_sort_obj_set:
  assumes "json_sort (JObj kvs) = json_sort (JObj kvs')"
  shows "(\<lambda>p. (fst p, json_sort (snd p))) ` set kvs = (\<lambda>p. (fst p, json_sort (snd p))) ` set kvs'"
proof -
  have "set (sort_key fst (map (\<lambda>p. (fst p, json_sort (snd p))) kvs))
      = set (sort_key fst (map (\<lambda>p. (fst p, json_sort (snd p))) kvs'))" using assms by simp
  then show ?thesis by simp
qed

text \<open>The members of an object with distinct keys are determined by its sorted form.\<close>

lemma json_sort_obj_member:
  assumes "json_sort (JObj kvs) = json_sort (JObj kvs')" and "(k, v) \<in> set kvs" and "(k, v') \<in> set kvs'"
    and "distinct (map fst kvs')"
  shows "json_sort v = json_sort v'"
proof -
  have "(k, json_sort v) \<in> (\<lambda>p. (fst p, json_sort (snd p))) ` set kvs'"
    using json_sort_obj_set[OF assms(1)] assms(2) by force
  then obtain u where "(k, u) \<in> set kvs'" "json_sort u = json_sort v" by auto
  then show ?thesis using assms(3,4) by (metis eq_key_imp_eq_value)
qed

lemma json_sort_opt_int [simp]: "json_sort (json_opt_int x) = json_opt_int x"
  by (cases x) (simp_all add: json_opt_int_def)

lemma action_payload_sort_inject:
  assumes "json_sort (action_payload i a) = json_sort (action_payload i b)"
  shows "a = b"
proof -
  note mem = json_sort_obj_member[OF assms[unfolded action_payload_def]]
  have "pai_method a = pai_method b" using mem[of "''method''"] by simp
  moreover have "pai_url a = pai_url b" using mem[of "''url''"] by simp
  moreover have "pai_test_case_id a = pai_test_case_id b"
    using mem[of "''test_case_id''"] by (simp add: json_opt_int_inject)
  moreover have "pai_resource_id a = pai_resource_id b"
    using mem[of "''resource_id''"] by (simp add: json_opt_int_inject)
  ultimately show ?thesis by simp
qed

lemma digest_payload_sort_inject:
  assumes "json_sort (digest_payload c) = json_sort (digest_payload d)"
  shows "d\<lparr>pc_policy_context := pc_policy_context c\<rparr> = c
    \<and> json_sort (pc_policy_context c) = json_sort (pc_policy_context d)"
proof -
  note mem = json_sort_obj_member[OF assms[unfolded digest_payload_def]]
  have "pc_target_id c = pc_target_id d" using mem[of "''target_id''"] by simp
  moreover have "pc_authorization_revision_id c = pc_authorization_revision_id d"
    using mem[of "''authorization_revision_id''"] by simp
  moreover have "pc_actor_identity_id c = pc_actor_identity_id d"
    using mem[of "''actor_identity_id''"] by simp
  moreover have "pc_credential_binding_id c = pc_credential_binding_id d"
    using mem[of "''credential_binding_id''"] by (simp add: json_opt_int_inject)
  moreover have "json_sort (pc_policy_context c) = json_sort (pc_policy_context d)"
    using mem[of "''policy_context''"] by simp
  moreover have "map (\<lambda>(i, a). json_sort (action_payload i a)) (enumerate 1 (pc_actions c))
      = map (\<lambda>(i, a). json_sort (action_payload i a)) (enumerate 1 (pc_actions d))"
    using mem[of "''actions''"] by (simp add: comp_def split_def)
  then have "pc_actions c = pc_actions d"
    by (intro enumerate_map_inject[of "\<lambda>i a. json_sort (action_payload i a)" 1]
        action_payload_sort_inject)
  ultimately show ?thesis by (intro conjI plan_content.equality) simp_all
qed

lemma digest_payload_wf: "json_wf (pc_policy_context c) \<Longrightarrow> json_wf (digest_payload c)"
  by (auto simp: digest_payload_def action_payload_def json_opt_int_def list_all_iff split: option.splits)

text \<open>Equal digests: equal contents, or the two canonical texts collide.\<close>

lemma digest_binds:
  assumes "compute_plan_digest_v1 sha256 c = Inr digest" and "compute_plan_digest_v1 sha256 d = Inr digest"
    and "json_wf (pc_policy_context c)" and "json_wf (pc_policy_context d)"
  shows "(c = d\<lparr>pc_policy_context := pc_policy_context c\<rparr>
      \<and> json_sort (pc_policy_context c) = json_sort (pc_policy_context d))
    \<or> (\<exists>x y. canonical_json (digest_payload c) = Inr x \<and> canonical_json (digest_payload d) = Inr y
         \<and> x \<noteq> y \<and> sha256 x = sha256 y)"
proof -
  obtain x y where x: "canonical_json (digest_payload c) = Inr x" "sha256 x = digest"
    and y: "canonical_json (digest_payload d) = Inr y" "sha256 y = digest"
    using assms(1,2) by (auto simp: compute_plan_digest_v1_def split: sum.splits)
  show ?thesis
  proof (cases "x = y")
    case True
    then have "json_sort (digest_payload c) = json_sort (digest_payload d)"
      using canonical_json_inject[OF x(1), of "digest_payload d"] y(1)
        digest_payload_wf[OF assms(3)] digest_payload_wf[OF assms(4)] by simp
    from digest_payload_sort_inject[OF this] show ?thesis by (intro disjI1) simp
  next
    case False
    then show ?thesis using x y by (intro disjI2 exI[of _ x] exI[of _ y]) simp
  qed
qed

subsection \<open>Facts: created plans\<close>

text \<open>What is required of an action that may be stored.\<close>

definition action_ok :: "store \<Rightarrow> target \<Rightarrow> plan_action_input \<Rightarrow> bool" where
  "action_ok db t a \<longleftrightarrow>
     pai_method a = ''GET'' \<and> pai_url a \<noteq> [] \<and> py_len (pai_url a) \<le> 2048
     \<and> (\<exists>orig. parse_origin (pai_url a) = Inr orig \<and> parse_origin (tgt_base_url t) = Inr orig)
     \<and> (\<exists>p. normalize_request_path (pai_url a) = Inr p)
     \<and> reject_secret_url (pai_url a) = Inr ()
     \<and> action_resource_ok db (tgt_id t) a \<and> action_case_ok db (tgt_id t) a"

lemma check_action_ok:
  assumes "parse_origin (tgt_base_url t) = Inr orig"
  shows "check_action db t orig a = Inr () \<longleftrightarrow> action_ok db t a"
  using assms
  by (auto simp: check_action_def action_ok_def MAX_ACTION_URL_LENGTH_def res_bind_def split: sum.splits if_splits)

lemma check_actions_ok:
  assumes "parse_origin (tgt_base_url t) = Inr orig"
  shows "check_actions db t orig as = Inr () \<longleftrightarrow> (\<forall>a\<in>set as. action_ok db t a)"
proof (induction as)
  case (Cons a as)
  then show ?case
    using check_action_ok[OF assms, of db a]
    by (cases "check_action db t orig a") (auto simp: res_bind_def)
qed simp

definition binding_selected :: "store \<Rightarrow> test_identity \<Rightarrow> row_id option \<Rightarrow> bool" where
  "binding_selected db actor bid \<longleftrightarrow>
     (if ident_auth_type actor \<in> {''none'', ''anonymous''} then bid = None
      else (\<exists>i b. bid = Some i \<and> binding_row db i = Some b \<and> cb_is_active b
              \<and> cb_test_identity_id b = ident_id actor \<and> cb_auth_type b = ident_auth_type actor))"

lemma check_binding_ok: "check_binding db actor bid = Inr () \<longleftrightarrow> binding_selected db actor bid"
  by (auto simp: check_binding_def binding_selected_def Let_def split: option.splits if_splits)

lemma json_sort_secret [simp]: "context_has_secret (json_sort v) = context_has_secret v"
proof (induction v rule: json_sort.induct)
  case (2 kvs)
  have "context_has_secret (json_sort (snd p)) = context_has_secret (snd p)" if "p \<in> set kvs" for p
    using 2 that by simp
  then show ?case by (auto simp: list_ex_iff)
qed (auto simp: list_ex_iff)

lemma canonical_context_ok:
  assumes "canonicalize_policy_context pc = Inr c"
  shows "\<not> context_has_secret c" and "json_finite c"
    and "length (json_text c) \<le> 16384"
proof -
  obtain v where v: "canonical_context v = Inr c" and pc: "v = (case pc of None \<Rightarrow> JObj [] | Some x \<Rightarrow> x)"
    using assms by (auto simp: canonicalize_policy_context_def Let_def split: json.splits)
  then show "\<not> context_has_secret c" and "length (json_text c) \<le> 16384"
    by (auto simp: canonical_context_def reject_secret_context_def canonical_json_def res_bind_def
        MAX_POLICY_CONTEXT_BYTES_def split: sum.splits if_splits)
  have "json_finite (json_sort w) = json_finite w" for w
    by (induction w rule: json_sort.induct) (auto simp: list_all_iff)
  then show "json_finite c" using v
    by (auto simp: canonical_context_def reject_secret_context_def canonical_json_def res_bind_def
        split: sum.splits if_splits)
qed

text \<open>The content that a successful creation freezes.\<close>

definition plan_of_inputs ::
  "target \<Rightarrow> authorization_revision \<Rightarrow> test_identity \<Rightarrow> row_id option \<Rightarrow> plan_action_input list \<Rightarrow> json
   \<Rightarrow> plan_content" where
  "plan_of_inputs t rv actor bid as ctx =
     \<lparr>pc_target_id = tgt_id t, pc_authorization_revision_id = rev_id rv,
      pc_actor_identity_id = ident_id actor, pc_credential_binding_id = bid,
      pc_policy_context = ctx, pc_actions = as\<rparr>"

lemma create_rows_ok:
  assumes "create_execution_plan_rows sha256 pid aid now tid rid actor_id bid as pc db = (db', Inr plan)"
  obtains t rv actor ctx digest where "targets db tid = Some t" and "revisions db rid = Some rv"
    and "identities db actor_id = Some actor" and "1 \<le> length as" and "length as \<le> 100"
    and "tgt_authorization_revision_id t = Some (rev_id rv)"
    and "tgt_authorization_profile_id t = Some (rev_authorization_profile_id rv)"
    and "rev_lifecycle_state rv = ''active''" and "ident_target_id actor = tgt_id t"
    and "binding_selected db actor bid" and "\<forall>a\<in>set as. action_ok db t a"
    and "canonicalize_policy_context pc = Inr ctx"
    and "compute_plan_digest_v1 sha256 (plan_of_inputs t rv actor bid as ctx) = Inr digest"
    and "plan = plan_row pid now digest (plan_of_inputs t rv actor bid as ctx)"
    and "db' = db\<lparr>plans := (plans db)(pid := Some plan),
           plan_actions := plan_actions db @ action_rows pid aid now as\<rparr>"
proof -
  obtain t rv where t: "targets db tid = Some t" and rv: "revisions db rid = Some rv"
    using assms by (auto simp: create_execution_plan_rows_def split: option.splits if_splits)
  obtain actor where actor: "identities db actor_id = Some actor"
    using assms t rv by (auto simp: create_execution_plan_rows_def split: option.splits if_splits)
  obtain orig where orig: "parse_origin (tgt_base_url t) = Inr orig"
    using assms t rv actor
    by (auto simp: create_execution_plan_rows_def split: option.splits if_splits sum.splits)
  note facts = check_binding_ok[of db actor bid] check_actions_ok[OF orig, of db as]
  show ?thesis
    using assms t rv actor orig facts that
    by (auto simp: create_execution_plan_rows_def MAX_PLAN_ACTIONS_def Let_def plan_of_inputs_def[symmetric]
        split: if_splits sum.splits)
qed

lemma create_ok_rows:
  assumes "create_execution_plan sha256 pid aid now tid rid actor_id bid as pc db = (db', Inr plan)"
  shows "create_execution_plan_rows sha256 pid aid now tid rid actor_id bid as pc db = (db', Inr plan)"
    and "\<not> (\<exists>v. pc = Some v \<and> json_has_key ''research_intent'' v)"
    and "\<forall>a\<in>set as. \<forall>cid. pai_test_case_id a = Some cid \<longrightarrow> \<not> new_case db (test_cases db cid)"
  using assms by (auto simp: create_execution_plan_def list_ex_iff split: if_splits option.splits)

lemma create_error_frame:
  "create_execution_plan sha256 pid aid now tid rid actor_id bid as pc db = (db', Inl e) \<Longrightarrow> db' = db"
  by (auto simp: create_execution_plan_def create_execution_plan_rows_def Let_def
      split: if_splits option.splits sum.splits)

subsection \<open>Properties\<close>

text \<open>
  A key is secret-bearing exactly if, in lower case and stripped to letters and digits, it
  is one of the base names followed by any sequence of qualifiers: the greedy loop of the code
  decides the declarative language.
\<close>

theorem secret_key_exact:
  "is_secret_bearing_key key \<longleftrightarrow>
     (\<exists>base\<in>set SECRET_KEY_BASES. \<exists>qs. set qs \<subseteq> set SECRET_KEY_QUALIFIERS
        \<and> normalize_key key = base @ concat qs)"
proof -
  have "prefix b n \<and> strip_qualifiers (drop (length b) n)
      \<longleftrightarrow> (\<exists>qs. set qs \<subseteq> set SECRET_KEY_QUALIFIERS \<and> n = b @ concat qs)" for b n
    by (auto simp: strip_qualifiers_iff prefix_def)
  then show ?thesis by (simp add: is_secret_bearing_key_def Let_def list_ex_iff)
qed

theorem secret_key_exact_witness:
  "is_secret_bearing_key ''X-Api_Key.Header-Value''"
proof -
  have "normalize_key ''X-Api_Key.Header-Value'' = ''xapikey'' @ concat [''header'', ''value'']"
    by code_simp
  moreover have "''xapikey'' \<in> set SECRET_KEY_BASES"
    "set [''header'', ''value''] \<subseteq> set SECRET_KEY_QUALIFIERS"
    by (simp_all add: SECRET_KEY_BASES_def SECRET_KEY_QUALIFIERS_def)
  ultimately show ?thesis unfolding secret_key_exact by blast
qed

text \<open>
  C12. The digest of a plan binds its whole content: two contents with the same digest are equal
  (their policy contexts up to the order of object keys), or the two different canonical texts
  are a collision of SHA-256.
\<close>

theorem plan_digest_binds:
  assumes "compute_plan_digest_v1 sha256 c = Inr digest" and "compute_plan_digest_v1 sha256 d = Inr digest"
    and "json_wf (pc_policy_context c)" and "json_wf (pc_policy_context d)"
  shows "(c = d\<lparr>pc_policy_context := pc_policy_context c\<rparr>
      \<and> json_sort (pc_policy_context c) = json_sort (pc_policy_context d))
    \<or> (\<exists>x y. canonical_json (digest_payload c) = Inr x \<and> canonical_json (digest_payload d) = Inr y
         \<and> x \<noteq> y \<and> sha256 x = sha256 y)"
  by (rule digest_binds[OF assms])

definition lab_content :: plan_content where
  "lab_content = \<lparr>pc_target_id = 1, pc_authorization_revision_id = 2, pc_actor_identity_id = 3,
     pc_credential_binding_id = Some 4, pc_policy_context = JObj [(''b'', JInt 1), (''a'', JNull)],
     pc_actions = [\<lparr>pai_method = ''GET'', pai_url = ''http://lab.test/a'', pai_test_case_id = None,
       pai_resource_id = Some 9\<rparr>]\<rparr>"

theorem plan_digest_binds_witness:
  "(let d = lab_content\<lparr>pc_policy_context := JObj [(''a'', JNull), (''b'', JInt 1)]\<rparr> in
    compute_plan_digest_v1 id lab_content = compute_plan_digest_v1 id d
    \<and> lab_content = d\<lparr>pc_policy_context := pc_policy_context lab_content\<rparr>)"
proof -
  let ?d = "lab_content\<lparr>pc_policy_context := JObj [(''a'', JNull), (''b'', JInt 1)]\<rparr>"
  have t: "canonical_json (digest_payload lab_content) = canonical_json (digest_payload ?d)" by code_simp
  obtain x where x: "canonical_json (digest_payload lab_content) = Inr x"
    by (simp add: canonical_json_def json_wf_finite digest_payload_wf lab_content_def)
  have "compute_plan_digest_v1 id lab_content = Inr x" "compute_plan_digest_v1 id ?d = Inr x"
    using x t by (simp_all add: compute_plan_digest_v1_def)
  then show ?thesis using plan_digest_binds[of id lab_content x ?d] by (simp add: lab_content_def)
qed


definition lab_store :: store where
  "lab_store = \<lparr>targets = [1 \<mapsto> \<lparr>tgt_id = 1, tgt_asset_enrollment_decision_id = None,
       tgt_authorization_profile_id = Some 5, tgt_authorization_revision_id = Some 2, tgt_name = ''lab'',
       tgt_base_url = ''http://lab.test'', tgt_environment = ''lab'', tgt_network_mode = ''private_local'',
       tgt_is_enabled = True, tgt_created_at = 0\<rparr>],
     revisions = [2 \<mapsto> \<lparr>rev_id = 2, rev_authorization_profile_id = 5, rev_revision_number = 1,
       rev_lifecycle_state = ''active'', rev_name = ''r'', rev_program_name = ''p'', rev_program_url = None,
       rev_authorization_type = ''lab'', rev_authorization_reference = None, rev_valid_from = None,
       rev_valid_until = None, rev_automation_allowed = True, rev_max_requests_per_second = PyFloat 1,
       rev_allow_get = True, rev_allow_post = False, rev_allow_patch = False, rev_allow_put = False,
       rev_allow_delete = False, rev_require_human_execution_approval = True, rev_notes = None,
       rev_created_at = 0\<rparr>],
     scopes_of = (\<lambda>_. [\<lparr>scope_id = 1, scope_target_id = 1, scope_hostname = ''lab.test'',
       scope_path_pattern = ''/*'', scope_allowed_methods = [''GET''], scope_is_active = True\<rparr>]),
     identities = [3 \<mapsto> \<lparr>ident_id = 3, ident_target_id = 1, ident_name = ''anon'', ident_role = None,
       ident_auth_type = ''none'', ident_credentials = None, ident_is_active = True, ident_created_at = 0,
       ident_updated_at = 0\<rparr>],
     bindings = [], secret_versions = [], endpoints = Map.empty, resources = Map.empty, test_cases = Map.empty,
     plans = Map.empty, plan_actions = [], approvals = [], members_exist = False,
     member_case_ids = [], member_plan_ids = []\<rparr>"

definition lab_sha :: "string \<Rightarrow> string" where
  "lab_sha x = replicate 64 (CHR ''0'')"


end
