(* ===== verification/Credentials.thy ===== *)
theory Credentials
  imports PyBase64 Execution_Plan
begin

text \<open>
  Credentials of test identities: the encrypted envelopes of stored secrets
  (\<open>credentials/stored_secret.py\<close>), the bearer credential service (\<open>credentials/bearer.py\<close>), the
  authentication context of a request (\<open>auth/context.py\<close>) and the redaction of headers
  (\<open>services/test_execution.py\<close>). AES-GCM is a parameter: \<open>enc key nonce plaintext data\<close> and
  \<open>dec key nonce ciphertext data\<close>, where \<open>None\<close> is the exception. A \<open>SecretStr\<close> is its text.
\<close>

subsection \<open>Stored secrets\<close>

definition ENVELOPE_VERSION :: nat where "ENVELOPE_VERSION = 1"
definition NONCE_SIZE_BYTES :: nat where "NONCE_SIZE_BYTES = 12"
definition KEY_SIZE_BYTES :: nat where "KEY_SIZE_BYTES = 32"

datatype secret_error =
  ConfigurationError string | EncryptionError string | DecryptionError string | BindingError string

record cipher =
  cipher_key :: string
  cipher_key_version :: string

record aead =
  aead_enc :: "string \<Rightarrow> string \<Rightarrow> string \<Rightarrow> string \<Rightarrow> string option"
  aead_dec :: "string \<Rightarrow> string \<Rightarrow> string \<Rightarrow> string \<Rightarrow> string option"

definition stored_secret_cipher :: "string \<Rightarrow> string \<Rightarrow> secret_error + cipher" where
  "stored_secret_cipher key key_version =
     (if length key \<noteq> KEY_SIZE_BYTES \<or> py_strip key_version = [] then
        Inl (ConfigurationError ''Credential encryption key is invalid.'')
      else Inr \<lparr>cipher_key = key, cipher_key_version = key_version\<rparr>)"

definition cipher_from_settings :: "string option \<Rightarrow> string \<Rightarrow> secret_error + cipher" where
  "cipher_from_settings configured_key key_version =
     (case configured_key of
        None \<Rightarrow> Inl (ConfigurationError ''Credential encryption key is not configured.'')
      | Some v \<Rightarrow> (case b64_decode v of
          None \<Rightarrow> Inl (ConfigurationError ''Credential encryption key is invalid.'')
        | Some key \<Rightarrow> stored_secret_cipher key key_version))"

definition associated_data :: "cipher \<Rightarrow> row_id \<Rightarrow> secret_error + string" where
  "associated_data c credential_binding_id =
     (if credential_binding_id \<le> 0 then
        Inl (ConfigurationError ''Credential binding must be persisted before encryption.'')
      else Inr (''credential-secret:v'' @ show_nat ENVELOPE_VERSION @ '':binding:''
             @ show_int credential_binding_id @ '':key:'' @ cipher_key_version c))"

definition secret_encrypt ::
  "aead \<Rightarrow> string \<Rightarrow> cipher \<Rightarrow> string \<Rightarrow> row_id \<Rightarrow> secret_error + string" where
  "secret_encrypt aes nonce c plaintext credential_binding_id =
     res_bind (associated_data c credential_binding_id) (\<lambda>data.
       case aead_enc aes (cipher_key c) nonce plaintext data of
         None \<Rightarrow> Inl (EncryptionError ''Stored secret encryption failed.'')
       | Some ciphertext \<Rightarrow>
          Inr ((''v'' @ show_nat ENVELOPE_VERSION) @ ''.'' @ b64_encode nonce @ ''.'' @ b64_encode ciphertext))"

definition secret_decrypt :: "aead \<Rightarrow> cipher \<Rightarrow> string \<Rightarrow> row_id \<Rightarrow> secret_error + string" where
  "secret_decrypt aes c envelope credential_binding_id =
     (let failed = Inl (DecryptionError ''Stored secret decryption failed.'') in
      case py_split (CHR ''.'') envelope of
        [version, encoded_nonce, encoded_ciphertext] \<Rightarrow>
          (if version \<noteq> ''v'' @ show_nat ENVELOPE_VERSION then failed
           else (case b64_decode encoded_nonce of
             None \<Rightarrow> failed
           | Some nonce \<Rightarrow>
           if length nonce \<noteq> NONCE_SIZE_BYTES then failed
           else (case b64_decode encoded_ciphertext of
             None \<Rightarrow> failed
           | Some ciphertext \<Rightarrow>
           res_bind (associated_data c credential_binding_id) (\<lambda>data.
             case aead_dec aes (cipher_key c) nonce ciphertext data of
               None \<Rightarrow> failed
             | Some plaintext \<Rightarrow> (if utf8_valid plaintext then Inr plaintext else failed)))))
      | _ \<Rightarrow> failed)"

definition validate_secret_binding :: "credential_binding \<Rightarrow> secret_error + unit" where
  "validate_secret_binding b =
     (if cb_source_type b \<noteq> ''stored_secret''
      then Inl (BindingError ''Credential binding does not use stored_secret.'') else Inr ())"

text \<open>\<open>store_secret\<close>; \<open>vid\<close> comes from the sequence, \<open>nonce\<close> from \<open>os.urandom(12)\<close>.\<close>

definition store_secret ::
  "aead \<Rightarrow> string \<Rightarrow> row_id \<Rightarrow> datetime \<Rightarrow> cipher \<Rightarrow> credential_binding \<Rightarrow> string \<Rightarrow> store
   \<Rightarrow> secret_error + (store \<times> credential_secret_version)" where
  "store_secret aes nonce vid now c b plaintext db =
     res_bind (validate_secret_binding b) (\<lambda>_.
     res_map (\<lambda>envelope.
       (let v = \<lparr>csv_id = vid, csv_credential_binding_id = cb_id b, csv_encrypted_envelope = envelope,
                 csv_envelope_version = int ENVELOPE_VERSION, csv_key_version = cipher_key_version c,
                 csv_created_at = now\<rparr>
        in (db\<lparr>secret_versions := secret_versions db @ [v]\<rparr>, v)))
     (secret_encrypt aes nonce c plaintext (cb_id b)))"

text \<open>\<open>load_secret\<close>; the relationship \<open>version.credential_binding\<close> is a look-up by the foreign key.\<close>

definition load_secret ::
  "aead \<Rightarrow> cipher \<Rightarrow> store \<Rightarrow> credential_secret_version \<Rightarrow> secret_error + string" where
  "load_secret aes c db v =
     (case binding_row db (csv_credential_binding_id v) of
        None \<Rightarrow> Inl (BindingError ''Credential binding does not use stored_secret.'')
      | Some b \<Rightarrow>
        res_bind (validate_secret_binding b) (\<lambda>_.
          if csv_envelope_version v \<noteq> int ENVELOPE_VERSION
             \<or> csv_key_version v \<noteq> cipher_key_version c
          then Inl (DecryptionError ''Stored secret decryption failed.'')
          else secret_decrypt aes c (csv_encrypted_envelope v) (csv_credential_binding_id v)))"

subsection \<open>Bearer credentials\<close>

datatype bearer_error = BearerCredential string | BearerIdentityNotFound string | BearerIdentityType string

text \<open>
  The settings, the sequences and the clock that the service reads. \<open>_get_provider\<close> builds the
  cipher when it is first needed.
\<close>

record bearer_env =
  be_aead :: aead
  be_cipher :: "secret_error + cipher"
  be_nonce :: string
  be_binding_id :: row_id
  be_version_id :: row_id
  be_now :: datetime

definition new_bearer_binding :: "bearer_env \<Rightarrow> row_id \<Rightarrow> credential_binding" where
  "new_bearer_binding env identity_id =
     \<lparr>cb_id = be_binding_id env, cb_test_identity_id = identity_id, cb_auth_type = ''bearer'',
      cb_source_type = ''stored_secret'', cb_is_active = True, cb_created_at = be_now env,
      cb_updated_at = be_now env\<rparr>"

definition provider_store ::
  "bearer_env \<Rightarrow> credential_binding \<Rightarrow> string \<Rightarrow> store \<Rightarrow> store \<times> (bearer_error + unit)" where
  "provider_store env b token db =
     (case res_bind (be_cipher env) (\<lambda>c.
             store_secret (be_aead env) (be_nonce env) (be_version_id env) (be_now env) c b token db) of
        Inl _ \<Rightarrow> (db, Inl (BearerCredential ''Bearer credential operation failed.''))
      | Inr (db', _) \<Rightarrow> (db', Inr ()))"

text \<open>The session keeps a flushed row when a later statement fails; its rollback is the caller's.\<close>

definition provision ::
  "bearer_env \<Rightarrow> test_identity \<Rightarrow> string \<Rightarrow> store \<Rightarrow> store \<times> (bearer_error + credential_binding)" where
  "provision env identity token db =
     (if ident_auth_type identity \<noteq> ''bearer'' then
        (db, Inl (BearerIdentityType ''Bearer credential operation is not valid for this identity.''))
      else
        (let b = new_bearer_binding env (ident_id identity);
             db1 = db\<lparr>bindings := bindings db @ [b]\<rparr>
         in case provider_store env b token db1 of
              (db2, Inl e) \<Rightarrow> (db2, Inl e) | (db2, Inr _) \<Rightarrow> (db2, Inr b)))"

text \<open>\<open>_matching_bindings\<close>: ordered by identifier, at most two.\<close>

definition matching_bindings :: "store \<Rightarrow> row_id \<Rightarrow> credential_binding list" where
  "matching_bindings db identity_id =
     take 2 (sort_key cb_id (filter (\<lambda>b. cb_test_identity_id b = identity_id
        \<and> cb_auth_type b = ''bearer'' \<and> cb_source_type b = ''stored_secret'' \<and> cb_is_active b)
        (bindings db)))"

definition bearer_update ::
  "bearer_env \<Rightarrow> row_id \<Rightarrow> string \<Rightarrow> store \<Rightarrow> store \<times> (bearer_error + test_identity)" where
  "bearer_update env identity_id token db =
     (case identities db identity_id of
        None \<Rightarrow> (db, Inl (BearerIdentityNotFound ''Test identity not found.''))
      | Some identity \<Rightarrow>
        if ident_auth_type identity \<noteq> ''bearer'' then
          (db, Inl (BearerIdentityType ''Only bearer identities can receive a bearer token.''))
        else
          (let found = matching_bindings db (ident_id identity) in
           if length found > 1 then
             (db, Inl (BearerCredential ''Bearer credential operation failed.''))
           else
             (let b = (case found of b # _ \<Rightarrow> b | [] \<Rightarrow> new_bearer_binding env (ident_id identity));
                  db1 = (case found of _ # _ \<Rightarrow> db | [] \<Rightarrow> db\<lparr>bindings := bindings db @ [b]\<rparr>)
              in case provider_store env b token db1 of
                   (db2, Inl e) \<Rightarrow> (db2, Inl e)
                 | (db2, Inr _) \<Rightarrow>
                    (let identity' = identity\<lparr>ident_credentials := None\<rparr> in
                     (db2\<lparr>identities := (identities db2)(identity_id := Some identity')\<rparr>, Inr identity')))))"

definition unavailable :: "bearer_error + 'a" where
  "unavailable = Inl (BearerCredential ''Bearer credential is unavailable.'')"

text \<open>The newest version of a binding: \<open>ORDER BY id DESC LIMIT 1\<close>.\<close>

definition latest_version :: "store \<Rightarrow> row_id \<Rightarrow> credential_secret_version option" where
  "latest_version db binding_id =
     (case rev (sort_key csv_id (filter (\<lambda>v. csv_credential_binding_id v = binding_id)
        (secret_versions db))) of [] \<Rightarrow> None | v # _ \<Rightarrow> Some v)"

definition provider_load ::
  "bearer_env \<Rightarrow> store \<Rightarrow> credential_secret_version option \<Rightarrow> bearer_error + string" where
  "provider_load env db version =
     (case version of
        None \<Rightarrow> unavailable
      | Some v \<Rightarrow>
        (case res_bind (be_cipher env) (\<lambda>c. load_secret (be_aead env) c db v) of
           Inl _ \<Rightarrow> unavailable | Inr token \<Rightarrow> Inr token))"

definition bearer_resolve :: "bearer_env \<Rightarrow> store \<Rightarrow> test_identity \<Rightarrow> bearer_error + string" where
  "bearer_resolve env db identity =
     (if \<not> ident_is_active identity \<or> ident_auth_type identity \<noteq> ''bearer'' then unavailable
      else (case matching_bindings db (ident_id identity) of
        [b] \<Rightarrow> provider_load env db (latest_version db (cb_id b))
      | _ \<Rightarrow> unavailable))"

definition binding_usable :: "test_identity \<Rightarrow> string \<Rightarrow> credential_binding option \<Rightarrow> bool" where
  "binding_usable identity auth_type b =
     (case b of None \<Rightarrow> False
      | Some b \<Rightarrow> cb_test_identity_id b = ident_id identity \<and> cb_auth_type b = auth_type
          \<and> cb_source_type b = ''stored_secret'' \<and> cb_is_active b)"

definition resolve_binding ::
  "bearer_env \<Rightarrow> store \<Rightarrow> test_identity \<Rightarrow> row_id \<Rightarrow> bearer_error + string" where
  "resolve_binding env db identity credential_binding_id =
     (if \<not> ident_is_active identity \<or> ident_auth_type identity \<noteq> ''bearer'' then unavailable
      else if \<not> binding_usable identity (ident_auth_type identity)
                  (binding_row db credential_binding_id) then unavailable
      else provider_load env db (latest_version db credential_binding_id))"

definition resolve_exact ::
  "bearer_env \<Rightarrow> store \<Rightarrow> test_identity \<Rightarrow> row_id \<Rightarrow> row_id \<Rightarrow> bearer_error + string" where
  "resolve_exact env db identity credential_binding_id credential_version_id =
     (if \<not> ident_is_active identity \<or> ident_auth_type identity \<noteq> ''bearer''
         \<or> credential_version_id \<le> 0 then unavailable
      else if \<not> binding_usable identity ''bearer'' (binding_row db credential_binding_id)
      then unavailable
      else if map_option csv_id (latest_version db credential_binding_id)
                \<noteq> Some credential_version_id
      then Inl (BearerCredential ''Pinned bearer credential version changed.'')
      else provider_load env db
        (find (\<lambda>v. csv_id v = credential_version_id \<and> csv_credential_binding_id v = credential_binding_id)
           (secret_versions db)))"

subsection \<open>Authentication context\<close>

record authentication_context =
  ac_identity_id :: row_id
  ac_identity_name :: string
  ac_auth_type :: string
  ac_headers :: "(string \<times> string) list"

definition build_authentication_context ::
  "test_identity \<Rightarrow> string option \<Rightarrow> string + authentication_context" where
  "build_authentication_context identity bearer_token =
     (let ctx = (\<lambda>hs. \<lparr>ac_identity_id = ident_id identity, ac_identity_name = ident_name identity,
                       ac_auth_type = ident_auth_type identity, ac_headers = hs\<rparr>) in
      if \<not> ident_is_active identity then Inl ''test identity is inactive''
      else if ident_auth_type identity \<in> {''none'', ''anonymous''} then Inr (ctx [])
      else if ident_auth_type identity = ''bearer'' then
        (case bearer_token of
           None \<Rightarrow> Inl ''bearer identity has no valid access token''
         | Some token \<Rightarrow>
            (if py_strip token = [] then Inl ''bearer access token is empty''
             else if char_of (13 :: nat) \<in> set token \<or> char_of (10 :: nat) \<in> set token then
               Inl ''bearer access token contains invalid newline characters''
             else if prefix ''bearer '' (py_lower token) then Inl ''bearer access token must be raw''
             else Inr (ctx [(''Authorization'', ''Bearer '' @ token)])))
      else Inl (''unsupported authentication type: '' @ py_repr (ident_auth_type identity)))"

text \<open>\<open>dict.update\<close> on a dictionary in insertion order.\<close>

fun dict_set :: "('k \<times> 'v) list \<Rightarrow> 'k \<Rightarrow> 'v \<Rightarrow> ('k \<times> 'v) list" where
  "dict_set [] k v = [(k, v)]"
| "dict_set ((k', v') # d) k v = (if k' = k then (k', v) # d else (k', v') # dict_set d k v)"

definition dict_update :: "('k \<times> 'v) list \<Rightarrow> ('k \<times> 'v) list \<Rightarrow> ('k \<times> 'v) list" where
  "dict_update d e = foldl (\<lambda>d (k, v). dict_set d k v) d e"

definition apply_authentication_context ::
  "(string \<times> string) list option \<Rightarrow> authentication_context \<Rightarrow> string + (string \<times> string) list" where
  "apply_authentication_context request_headers ctx =
     (let headers = (case request_headers of None \<Rightarrow> [] | Some h \<Rightarrow> h) in
      if list_ex (\<lambda>p. py_lower (py_strip (fst p)) = ''authorization'') headers then
        Inl ''request headers must not set Authorization directly''
      else Inr (dict_update headers (ac_headers ctx)))"

subsection \<open>Redaction\<close>

definition SENSITIVE_HEADER_NAMES :: "string list" where
  "SENSITIVE_HEADER_NAMES = [''authorization'', ''cookie'', ''x-api-key'']"

definition redact_headers :: "(string \<times> string) list \<Rightarrow> (string \<times> string) list" where
  "redact_headers headers =
     map (\<lambda>(n, v). (n, if py_lower (py_strip n) \<in> set SENSITIVE_HEADER_NAMES
                       then ''[REDACTED]'' else v)) headers"

text \<open>The headers of a request that a plan makes, as \<open>PlanExecutionService\<close> builds them.\<close>

definition plan_request_headers ::
  "bearer_env \<Rightarrow> store \<Rightarrow> test_identity \<Rightarrow> row_id option \<Rightarrow> string + (string \<times> string) list" where
  "plan_request_headers env db actor credential_binding_id =
     res_bind
       (if ident_auth_type actor = ''bearer'' then
          (case credential_binding_id of
             None \<Rightarrow> Inl ''Bearer credential is unavailable.''
           | Some bid \<Rightarrow>
              (case resolve_binding env db actor bid of
                 Inl (BearerCredential m) \<Rightarrow> Inl m
               | Inl (BearerIdentityNotFound m) \<Rightarrow> Inl m
               | Inl (BearerIdentityType m) \<Rightarrow> Inl m
               | Inr token \<Rightarrow> Inr (Some token)))
        else if credential_binding_id \<noteq> None then
          Inl ''Anonymous identity cannot use a credential binding.''
        else Inr None)
       (\<lambda>bearer_token.
         res_bind (build_authentication_context actor bearer_token) (\<lambda>ctx.
           apply_authentication_context (Some [(''Accept'', ''application/json'')]) ctx))"

subsection \<open>Envelopes are read back and are bound to their row\<close>

text \<open>
  What the code relies on of \<open>cryptography\<close>'s \<open>AESGCM\<close> under one key: decryption with the same
  nonce and associated data undoes encryption, and \<open>InvalidTag\<close> is raised when the associated data
  are not those of the encryption.
\<close>

definition aead_inverts :: "aead \<Rightarrow> string \<Rightarrow> bool" where
  "aead_inverts aes key \<longleftrightarrow>
     (\<forall>nonce p d ct. aead_enc aes key nonce p d = Some ct \<longrightarrow> aead_dec aes key nonce ct d = Some p)"

definition aead_authenticates :: "aead \<Rightarrow> string \<Rightarrow> bool" where
  "aead_authenticates aes key \<longleftrightarrow>
     (\<forall>nonce p d ct d'. aead_enc aes key nonce p d = Some ct \<and> d' \<noteq> d
        \<longrightarrow> aead_dec aes key nonce ct d' = None)"

lemma envelope_split:
  "py_split (CHR ''.'') ((''v'' @ show_nat ENVELOPE_VERSION) @ ''.'' @ b64_encode n @ ''.'' @ b64_encode ct)
     = [''v'' @ show_nat ENVELOPE_VERSION, b64_encode n, b64_encode ct]"
proof -
  have "py_split (CHR ''.'') (''v'' @ show_nat ENVELOPE_VERSION) = [''v'' @ show_nat ENVELOPE_VERSION]"
    by (rule py_split_no_sep) (simp add: show_nat_no_sep is_digit_def ord_def)
  moreover have "py_split (CHR ''.'') (b64_encode x) = [b64_encode x]" for x
    by (rule py_split_no_sep) (rule b64_encode_no_dot)
  ultimately show ?thesis
    using py_split_append[of "CHR ''.''" "''v'' @ show_nat ENVELOPE_VERSION"]
      py_split_append[of "CHR ''.''" "b64_encode n"] by simp
qed

text \<open>Decrypting an envelope that was written with the data \<open>d\<close>.\<close>

lemma secret_decrypt_envelope:
  assumes "secret_encrypt aes nonce c plaintext bid = Inr envelope" "length nonce = NONCE_SIZE_BYTES"
    and "associated_data c' bid' = Inr d'"
  obtains d ct where "associated_data c bid = Inr d" "aead_enc aes (cipher_key c) nonce plaintext d = Some ct"
    and "secret_decrypt aes c' envelope bid' =
      (case aead_dec aes (cipher_key c') nonce ct d' of
         None \<Rightarrow> Inl (DecryptionError ''Stored secret decryption failed.'')
       | Some p \<Rightarrow> if utf8_valid p then Inr p
                   else Inl (DecryptionError ''Stored secret decryption failed.''))"
proof -
  from assms(1) obtain d ct where dc: "associated_data c bid = Inr d"
      "aead_enc aes (cipher_key c) nonce plaintext d = Some ct"
    and e: "envelope = (''v'' @ show_nat ENVELOPE_VERSION) @ ''.'' @ b64_encode nonce @ ''.'' @ b64_encode ct"
    by (auto simp: secret_encrypt_def split: option.splits)
  show ?thesis
    by (rule that[OF dc]) (simp only: secret_decrypt_def e envelope_split list.case assms(2,3)
        b64_roundtrip option.case Let_def res_bind_Inr simp_thms if_False)
qed

lemma decrypt_encrypt:
  assumes "secret_encrypt aes nonce c plaintext bid = Inr envelope"
    and "aead_inverts aes (cipher_key c)" "length nonce = NONCE_SIZE_BYTES" "utf8_valid plaintext"
  shows "secret_decrypt aes c envelope bid = Inr plaintext"
proof -
  from assms(1) obtain d' where d': "associated_data c bid = Inr d'" by (auto simp: secret_encrypt_def)
  from secret_decrypt_envelope[OF assms(1,3) d'] d' assms(2,4) show ?thesis
    by (auto simp: aead_inverts_def)
qed

lemma append_sep_inject:
  "x @ c # s = y @ c # t \<Longrightarrow> c \<notin> set x \<Longrightarrow> c \<notin> set y \<Longrightarrow> x = y \<and> s = t"
  by (induction x arbitrary: y) (case_tac y; auto)+

lemma associated_data_inject:
  assumes "associated_data c bid = Inr d" "associated_data c' bid' = Inr d"
  shows "bid = bid' \<and> cipher_key_version c = cipher_key_version c'"
proof -
  have eq: "show_int bid @ CHR '':'' # (''key:'' @ cipher_key_version c)
      = show_int bid' @ CHR '':'' # (''key:'' @ cipher_key_version c')" and pos: "bid > 0" "bid' > 0"
    using assms by (auto simp: associated_data_def split: if_splits)
  have "CHR '':'' \<notin> set (show_int i)" if "i > 0" for i
    using that show_nat_no_sep[of "CHR '':''" "nat i"] by (simp add: show_int_def is_digit_def ord_def)
  from append_sep_inject[OF eq this[OF pos(1)] this[OF pos(2)]] show ?thesis
    using show_int_inject by auto
qed

lemma secret_decrypt_no_data:
  "associated_data c bid = Inl e \<Longrightarrow> \<exists>e. secret_decrypt aes c envelope bid = Inl e"
  by (simp add: secret_decrypt_def Let_def split: option.split list.split)

lemma load_secret_Inl:
  assumes "\<exists>e. secret_decrypt aes c (csv_encrypted_envelope v) (csv_credential_binding_id v) = Inl e"
  shows "\<exists>e. load_secret aes c db v = Inl e"
proof (cases "binding_row db (csv_credential_binding_id v)")
  case (Some b)
  with assms show ?thesis by (cases "validate_secret_binding b") (auto simp: load_secret_def)
qed (simp add: load_secret_def)

lemma load_stored:
  assumes "store_secret aes nonce vid now c b plaintext db = Inr (db', v)"
    and "binding_row db (cb_id b) = Some b"
    and "aead_inverts aes (cipher_key c)" "length nonce = NONCE_SIZE_BYTES" "utf8_valid plaintext"
  shows "load_secret aes c db' v = Inr plaintext"
proof -
  from assms(1) obtain e where val: "validate_secret_binding b = Inr ()"
    and e: "secret_encrypt aes nonce c plaintext (cb_id b) = Inr e"
    and v: "csv_credential_binding_id v = cb_id b" "csv_encrypted_envelope v = e"
      "csv_envelope_version v = int ENVELOPE_VERSION" "csv_key_version v = cipher_key_version c"
    and db': "bindings db' = bindings db"
    by (auto simp: store_secret_def Let_def)
  from db' have "binding_row db' (cb_id b) = Some b" using assms(2) by (simp add: binding_row_def)
  then show ?thesis using val v decrypt_encrypt[OF e assms(3,4,5)] by (simp add: load_secret_def)
qed

text \<open>
  A stored secret is read back: after \<open>store_secret\<close> has written a new version of a binding,
  \<open>load_secret\<close> with the same cipher returns the secret from the updated store.
\<close>

theorem stored_secret_roundtrip:
  assumes "store_secret aes nonce vid now c b plaintext db = Inr (db', v)"
    and "binding_row db (cb_id b) = Some b"
    and "aead_inverts aes (cipher_key c)" "length nonce = NONCE_SIZE_BYTES" "utf8_valid plaintext"
  shows "load_secret aes c db' v = Inr plaintext"
  using assms by (rule load_stored)


text \<open>A cipher whose ciphertext carries the key, the data and the plaintext, for the witnesses.\<close>

definition lab_aead :: aead where
  "lab_aead = \<lparr>aead_enc = (\<lambda>k n p d. Some (show_nat (length d) @ CHR '':'' # d @ p)),
     aead_dec = (\<lambda>k n ct d. let h = show_nat (length d) @ CHR '':'' # d in
        if prefix h ct then Some (drop (length h) ct) else None)\<rparr>"

definition lab_cipher :: cipher where
  "lab_cipher = \<lparr>cipher_key = replicate 32 (CHR ''k''), cipher_key_version = ''k1''\<rparr>"

definition lab_binding :: credential_binding where
  "lab_binding = \<lparr>cb_id = 4, cb_test_identity_id = 3, cb_auth_type = ''bearer'',
     cb_source_type = ''stored_secret'', cb_is_active = True, cb_created_at = 0, cb_updated_at = 0\<rparr>"

lemma lab_aead_inverts: "aead_inverts lab_aead k"
  by (auto simp: aead_inverts_def lab_aead_def Let_def)

lemma lab_aead_authenticates: "aead_authenticates lab_aead k"
proof (unfold aead_authenticates_def, intro allI impI, elim conjE)
  fix nonce p d ct d'
  assume enc: "aead_enc lab_aead k nonce p d = Some ct" and ne: "d' \<noteq> d"
  have "\<not> prefix (show_nat (length d') @ CHR '':'' # d') (show_nat (length d) @ CHR '':'' # d @ p)"
  proof
    assume "prefix (show_nat (length d') @ CHR '':'' # d') (show_nat (length d) @ CHR '':'' # d @ p)"
    then obtain t where "show_nat (length d) @ CHR '':'' # d @ p = show_nat (length d') @ CHR '':'' # d' @ t"
      by (auto simp: prefix_def)
    from append_sep_inject[OF this] have "show_nat (length d) = show_nat (length d')" "d @ p = d' @ t"
      by (simp_all add: show_nat_no_sep is_digit_def ord_def)
    then show False using ne show_int_inject[of "int (length d)" "int (length d')"] by (simp add: show_int_def)
  qed
  then show "aead_dec lab_aead k nonce ct d' = None" using enc by (simp add: lab_aead_def Let_def)
qed

theorem stored_secret_roundtrip_witness:
  "\<exists>db' v. store_secret lab_aead (replicate 12 (CHR ''n'')) 9 0 lab_cipher lab_binding ''tok''
        (lab_store\<lparr>bindings := [lab_binding]\<rparr>) = Inr (db', v)
     \<and> load_secret lab_aead lab_cipher db' v = Inr ''tok''"
proof -
  let ?r = "store_secret lab_aead (replicate 12 (CHR ''n'')) 9 0 lab_cipher lab_binding ''tok''
        (lab_store\<lparr>bindings := [lab_binding]\<rparr>)"
  have "is_ok ?r" by code_simp
  then obtain db' v where r: "?r = Inr (db', v)" by (cases ?r) auto
  have "utf8_valid ''tok''" by code_simp
  then show ?thesis
    using stored_secret_roundtrip[OF r _ lab_aead_inverts] r
    by (auto simp: binding_row_def NONCE_SIZE_BYTES_def)
qed


subsection \<open>A new token is the one that is used\<close>

lemma latest_version_snoc:
  assumes "\<forall>x \<in> set (secret_versions db). csv_id x < csv_id v"
    and "secret_versions db' = secret_versions db @ [v]" "csv_credential_binding_id v = bid"
  shows "latest_version db' bid = Some v"
  using assms by (simp add: latest_version_def sort_key_snoc less_imp_le)

lemma take_two_short: "length (take 2 xs) \<le> 1 \<Longrightarrow> take 2 xs = xs"
  by (simp add: min_def split: if_splits)

lemma sort_key_short: "length xs \<le> 1 \<Longrightarrow> sort_key f xs = xs"
  by (cases xs) (simp_all add: le_Suc_eq)

text \<open>The one binding that an update writes to, which is the one that a look-up then finds.\<close>

lemma updated_binding:
  assumes found: "found = matching_bindings db iid" "length found \<le> 1"
    and b: "b = (case found of b # _ \<Rightarrow> b | [] \<Rightarrow> new_bearer_binding env iid)"
    and db1: "db1 = (case found of _ # _ \<Rightarrow> db | [] \<Rightarrow> db\<lparr>bindings := bindings db @ [b]\<rparr>)"
    and fresh: "be_binding_id env \<notin> cb_id ` set (bindings db)" "distinct (map cb_id (bindings db))"
  shows "matching_bindings db1 iid = [b]" "binding_row db1 (cb_id b) = Some b"
proof -
  let ?P = "\<lambda>b. cb_test_identity_id b = iid \<and> cb_auth_type b = ''bearer''
    \<and> cb_source_type b = ''stored_secret'' \<and> cb_is_active b"
  have l: "length (filter ?P (bindings db)) \<le> 1" and f: "found = filter ?P (bindings db)"
    using found take_two_short[of "sort_key cb_id (filter ?P (bindings db))"]
      sort_key_short[of "filter ?P (bindings db)" cb_id]
    by (simp_all add: matching_bindings_def min_def split: if_splits)
  have new: "?P (new_bearer_binding env iid)" "cb_id (new_bearer_binding env iid) = be_binding_id env"
    by (simp_all add: new_bearer_binding_def)
  show "matching_bindings db1 iid = [b]"
  proof (cases found)
    case Nil
    then show ?thesis using db1 b f new by (simp add: matching_bindings_def)
  next
    case (Cons x xs)
    with found(2) have "found = [x]" by simp
    then show ?thesis using db1 b found(1) by simp
  qed
  show "binding_row db1 (cb_id b) = Some b"
  proof (cases found)
    case Nil
    have "find (\<lambda>x. cb_id x = be_binding_id env) (bindings db) = None"
      using fresh(1) by (force simp: find_None_all)
    then show ?thesis using Nil db1 b new by (simp add: binding_row_def find_append)
  next
    case (Cons x xs)
    then have "x \<in> set (filter ?P (bindings db))" using f by simp
    then show ?thesis using Cons db1 b fresh(2) by (simp add: binding_row_def find_distinct_key)
  qed
qed

text \<open>
  A replaced token is the one that is used: after a successful \<open>update\<close> of an active bearer
  identity, \<open>resolve\<close> on the updated store returns exactly the new token, and the
  legacy plaintext \<open>credentials\<close> column of the identity is cleared. Row identifiers come from sequences,
  so those of the new rows are larger than the existing ones.
\<close>

theorem updated_token_resolves:
  assumes "bearer_update env iid token db = (db', Inr identity)"
    and "map_option ident_id (identities db iid) = Some iid" "ident_is_active identity"
    and "\<forall>b \<in> set (bindings db). cb_id b < be_binding_id env" "distinct (map cb_id (bindings db))"
    and "\<forall>v \<in> set (secret_versions db). csv_id v < be_version_id env"
    and "be_cipher env = Inr c" "aead_inverts (be_aead env) (cipher_key c)"
    and "length (be_nonce env) = NONCE_SIZE_BYTES" "utf8_valid token"
  shows "bearer_resolve env db' identity = Inr token \<and> identities db' iid = Some identity
    \<and> ident_credentials identity = None"
proof -
  let ?found = "matching_bindings db iid"
  let ?b = "case ?found of b # _ \<Rightarrow> b | [] \<Rightarrow> new_bearer_binding env iid"
  let ?db1 = "case ?found of _ # _ \<Rightarrow> db | [] \<Rightarrow> db\<lparr>bindings := bindings db @ [?b]\<rparr>"
  from assms(1,2) obtain i db2 where i: "ident_auth_type i = ''bearer''" "ident_id i = iid"
      "identity = i\<lparr>ident_credentials := None\<rparr>" and l: "length ?found \<le> 1"
    and st: "provider_store env ?b token ?db1 = (db2, Inr ())"
    and db': "db' = db2\<lparr>identities := (identities db2)(iid := Some identity)\<rparr>"
    by (auto simp: bearer_update_def Let_def split: option.splits if_splits prod.splits sum.splits)
  from st assms(7) obtain v where sv: "store_secret (be_aead env) (be_nonce env) (be_version_id env)
      (be_now env) c ?b token ?db1 = Inr (db2, v)"
    by (auto simp: provider_store_def split: sum.splits)
  have fresh: "be_binding_id env \<notin> cb_id ` set (bindings db)" using assms(4) by auto
  note ub = updated_binding[OF refl l refl refl fresh assms(5)]
  have same: "secret_versions ?db1 = secret_versions db" by (simp split: list.split)
  from sv have v: "csv_id v = be_version_id env" "csv_credential_binding_id v = cb_id ?b"
      "secret_versions db2 = secret_versions ?db1 @ [v]" "bindings db2 = bindings ?db1"
    by (auto simp: store_secret_def Let_def)
  have latest: "latest_version db' (cb_id ?b) = Some v"
    using assms(6) v same db' by (intro latest_version_snoc[of db]) simp_all
  have "load_secret (be_aead env) c db2 v = Inr token"
    by (rule load_stored[OF sv ub(2) assms(8,9,10)])
  moreover have "load_secret (be_aead env) c db' v = load_secret (be_aead env) c db2 v"
    by (simp add: load_secret_def binding_row_def db')
  moreover have "matching_bindings db' iid = [?b]"
    using ub(1) v(4) db' by (simp add: matching_bindings_def)
  ultimately show ?thesis using i assms(3,7) latest db'
    by (simp add: bearer_resolve_def provider_load_def)
qed

definition lab_bearer :: bearer_env where
  "lab_bearer = \<lparr>be_aead = lab_aead, be_cipher = Inr lab_cipher, be_nonce = replicate 12 (CHR ''n''),
     be_binding_id = 7, be_version_id = 9, be_now = 0\<rparr>"

definition bearer_store :: store where
  "bearer_store = lab_store\<lparr>bindings := [lab_binding], identities := [3 \<mapsto> \<lparr>ident_id = 3,
     ident_target_id = 1, ident_name = ''alice'', ident_role = None, ident_auth_type = ''bearer'',
     ident_credentials = Some JNull, ident_is_active = True, ident_created_at = 0, ident_updated_at = 0\<rparr>]\<rparr>"

theorem updated_token_resolves_witness:
  "\<exists>db' identity. bearer_update lab_bearer 3 ''tok'' bearer_store = (db', Inr identity)
     \<and> bearer_resolve lab_bearer db' identity = Inr ''tok''"
proof -
  let ?r = "bearer_update lab_bearer 3 ''tok'' bearer_store"
  have "case snd ?r of Inr i \<Rightarrow> ident_is_active i | Inl _ \<Rightarrow> False" by code_simp
  then obtain identity where i: "snd ?r = Inr identity" "ident_is_active identity"
    by (auto split: sum.splits)
  from i(1) have r: "?r = (fst ?r, Inr identity)" by (metis prod.collapse)
  have "utf8_valid ''tok''" by code_simp
  then have "bearer_resolve lab_bearer (fst ?r) identity = Inr ''tok''"
    using updated_token_resolves[OF r, of lab_cipher] i(2) lab_aead_inverts
    by (simp add: lab_bearer_def bearer_store_def lab_store_def lab_binding_def NONCE_SIZE_BYTES_def)
  then show ?thesis using r by blast
qed

subsection \<open>Request headers\<close>

lemma authentication_headers:
  assumes "build_authentication_context identity token = Inr ctx"
  shows "ac_headers ctx = []
    \<or> (\<exists>t. token = Some t \<and> ac_headers ctx = [(''Authorization'', ''Bearer '' @ t)]
         \<and> char_of (13 :: nat) \<notin> set t \<and> char_of (10 :: nat) \<notin> set t \<and> py_strip t \<noteq> [])"
  using assms by (auto simp: build_authentication_context_def Let_def split: if_splits option.splits)

text \<open>
  The headers of a planned request: they are \<open>Accept\<close> alone, or \<open>Accept\<close> and one \<open>Authorization\<close>
  header that carries the resolved token, without a line break that would split the request;
  the redacted copy that is recorded shows nothing of the token.
\<close>

theorem plan_headers_safe:
  assumes "plan_request_headers env db actor bid = Inr hs"
  shows "(hs = [(''Accept'', ''application/json'')]
      \<and> redact_headers hs = hs)
    \<or> (\<exists>i t. bid = Some i \<and> resolve_binding env db actor i = Inr t \<and> py_strip t \<noteq> []
        \<and> hs = [(''Accept'', ''application/json''), (''Authorization'', ''Bearer '' @ t)]
        \<and> char_of (13 :: nat) \<notin> set t \<and> char_of (10 :: nat) \<notin> set t
        \<and> redact_headers hs = [(''Accept'', ''application/json''), (''Authorization'', ''[REDACTED]'')])"
proof -
  have names: "py_lower (py_strip ''Accept'') \<notin> set SENSITIVE_HEADER_NAMES"
    "py_lower (py_strip ''Authorization'') \<in> set SENSITIVE_HEADER_NAMES" by code_simp+
  have accept: "redact_headers [(''Accept'', v)] = [(''Accept'', v)]" for v
    using names by (simp add: redact_headers_def)
  have auth: "redact_headers [(''Accept'', v), (''Authorization'', w)]
      = [(''Accept'', v), (''Authorization'', ''[REDACTED]'')]" for v w
    using names by (simp add: redact_headers_def)
  from assms obtain tok ctx where tok: "tok = None \<or> (\<exists>i t. bid = Some i \<and> tok = Some t
        \<and> resolve_binding env db actor i = Inr t)"
    and ctx: "build_authentication_context actor tok = Inr ctx"
    and hs: "hs = dict_update [(''Accept'', ''application/json'')] (ac_headers ctx)"
    by (auto simp: plan_request_headers_def apply_authentication_context_def Let_def
        split: if_splits option.splits sum.splits bearer_error.splits)
  from authentication_headers[OF ctx] show ?thesis
  proof (elim disjE exE conjE)
    assume "ac_headers ctx = []"
    then show ?thesis using hs accept by (simp add: dict_update_def)
  next
    fix t assume t: "tok = Some t" "ac_headers ctx = [(''Authorization'', ''Bearer '' @ t)]"
      "char_of (13 :: nat) \<notin> set t" "char_of (10 :: nat) \<notin> set t" "py_strip t \<noteq> []"
    then have "hs = [(''Accept'', ''application/json''), (''Authorization'', ''Bearer '' @ t)]"
      using hs by (simp add: dict_update_def)
    then show ?thesis using t tok auth by auto
  qed
qed

theorem plan_headers_safe_witness:
  "\<exists>hs. plan_request_headers lab_bearer (fst (bearer_update lab_bearer 3 ''tok'' bearer_store))
        \<lparr>ident_id = 3, ident_target_id = 1, ident_name = ''alice'', ident_role = None,
         ident_auth_type = ''bearer'', ident_credentials = None, ident_is_active = True,
         ident_created_at = 0, ident_updated_at = 0\<rparr> (Some 4) = Inr hs
     \<and> redact_headers hs = [(''Accept'', ''application/json''), (''Authorization'', ''[REDACTED]'')]"
proof -
  let ?r = "plan_request_headers lab_bearer (fst (bearer_update lab_bearer 3 ''tok'' bearer_store))
        \<lparr>ident_id = 3, ident_target_id = 1, ident_name = ''alice'', ident_role = None,
         ident_auth_type = ''bearer'', ident_credentials = None, ident_is_active = True,
         ident_created_at = 0, ident_updated_at = 0\<rparr> (Some 4)"
  have "case ?r of Inr hs \<Rightarrow> length hs = 2 | Inl _ \<Rightarrow> False" by code_simp
  then obtain hs where hs: "?r = Inr hs" "length hs = 2" by (cases ?r) auto
  from plan_headers_safe[OF hs(1)] hs show ?thesis by auto
qed

end
