(* ===== verification/Plan_Approval.thy ===== *)
theory Plan_Approval
  imports Execution_Plan
begin

text \<open>
  Integrity and approval of stored plans (\<open>services/execution_plan_approval.py\<close>): the digest of
  the stored rows is recomputed before every use, decisions are appended, and the latest
  decision for exactly this digest counts.
\<close>

subsection \<open>Operations\<close>

text \<open>\<open>ORDER BY ordinal, id\<close>.\<close>

definition ordered_actions :: "store \<Rightarrow> row_id \<Rightarrow> plan_action list" where
  "ordered_actions db pid = sort_key act_ordinal (sort_key act_id (actions_of db pid))"

definition load_plan_snapshot :: "store \<Rightarrow> row_id \<Rightarrow> plan_error + (execution_plan \<times> plan_action list)" where
  "load_plan_snapshot db pid =
     (case plans db pid of
        None \<Rightarrow> Inl (PlanIntegrity ''Execution plan is unavailable.'')
      | Some plan \<Rightarrow>
         (let acts = ordered_actions db pid in
          if map act_ordinal acts \<noteq> map int [1..<Suc (length acts)]
          then Inl (PlanIntegrity ''Persisted plan action ordering is invalid.'')
          else Inr (plan, acts)))"

definition validate_digest_contract :: "execution_plan \<Rightarrow> plan_error + unit" where
  "validate_digest_contract plan =
     (if plan_digest_version plan \<noteq> DIGEST_VERSION \<or> \<not> digest_shape (plan_plan_digest plan)
      then Inl (PlanIntegrity ''Persisted plan digest contract is unsupported.'') else Inr ())"

definition input_of_action :: "plan_action \<Rightarrow> plan_action_input" where
  "input_of_action a = \<lparr>pai_method = act_method a, pai_url = act_url a,
     pai_test_case_id = act_test_case_id a, pai_resource_id = act_resource_id a\<rparr>"

definition content_of_rows :: "execution_plan \<Rightarrow> plan_action list \<Rightarrow> plan_content" where
  "content_of_rows plan acts =
     \<lparr>pc_target_id = plan_target_id plan,
      pc_authorization_revision_id = plan_authorization_revision_id plan,
      pc_actor_identity_id = plan_actor_identity_id plan,
      pc_credential_binding_id = plan_credential_binding_id plan,
      pc_policy_context = plan_policy_context plan, pc_actions = map input_of_action acts\<rparr>"

definition recompute_persisted_plan_digest ::
  "(string \<Rightarrow> string) \<Rightarrow> store \<Rightarrow> row_id \<Rightarrow> plan_error + string" where
  "recompute_persisted_plan_digest sha256 db pid =
     res_bind (load_plan_snapshot db pid) (\<lambda>(plan, acts).
     res_bind (validate_digest_contract plan) (\<lambda>_.
     compute_plan_digest_v1 sha256 (content_of_rows plan acts)))"

definition validate_persisted_plan_integrity ::
  "(string \<Rightarrow> string) \<Rightarrow> store \<Rightarrow> row_id \<Rightarrow> plan_error + execution_plan" where
  "validate_persisted_plan_integrity sha256 db pid =
     res_bind (load_plan_snapshot db pid) (\<lambda>(plan, acts).
     res_bind (validate_digest_contract plan) (\<lambda>_.
     if plan_action_count plan \<noteq> int (length acts)
     then Inl (PlanIntegrity ''Persisted plan action count does not match.'')
     else res_bind (compute_plan_digest_v1 sha256 (content_of_rows plan acts)) (\<lambda>recomputed.
       if recomputed \<noteq> plan_plan_digest plan
       then Inl (PlanIntegrity ''Persisted plan digest does not match its actions.'')
       else Inr plan)))"

definition decision_valid :: "string \<Rightarrow> bool" where
  "decision_valid d \<longleftrightarrow> d \<in> {''approved'', ''revoked''}"

text \<open>\<open>_append_exact_decision\<close>; \<open>rid\<close> comes from the sequence of the table.\<close>

definition append_exact_decision ::
  "row_id \<Rightarrow> datetime \<Rightarrow> execution_plan \<Rightarrow> string \<Rightarrow> store
   \<Rightarrow> store \<times> (plan_error + execution_plan_approval_record)" where
  "append_exact_decision rid now plan decision db =
     (if \<not> decision_valid decision then
        (db, Inl (PlanIntegrity ''Approval decision is invalid.''))
      else (let r = \<lparr>appr_id = rid, appr_execution_plan_id = plan_id plan,
                     appr_digest_version = plan_digest_version plan,
                     appr_plan_digest = plan_plan_digest plan, appr_decision = decision,
                     appr_created_at = now\<rparr>
            in (db\<lparr>approvals := approvals db @ [r]\<rparr>, Inr r)))"

definition record_plan_decision ::
  "(string \<Rightarrow> string) \<Rightarrow> row_id \<Rightarrow> datetime \<Rightarrow> row_id \<Rightarrow> string \<Rightarrow> store
   \<Rightarrow> store \<times> (plan_error + execution_plan_approval_record)" where
  "record_plan_decision sha256 rid now pid decision db =
     (if \<not> decision_valid decision then
        (db, Inl (PlanIntegrity ''Approval decision is invalid.''))
      else (case validate_persisted_plan_integrity sha256 db pid of
        Inl e \<Rightarrow> (db, Inl e)
      | Inr plan \<Rightarrow>
         (if new_plan db plan then (db, Inl (PlanIntegrity ''intent_w2_execution_closed''))
          else append_exact_decision rid now plan decision db)))"

definition exact_decisions :: "store \<Rightarrow> execution_plan \<Rightarrow> execution_plan_approval_record list" where
  "exact_decisions db plan =
     filter (\<lambda>r. appr_execution_plan_id r = plan_id plan
               \<and> appr_digest_version r = plan_digest_version plan
               \<and> appr_plan_digest r = plan_plan_digest plan) (approvals db)"

text \<open>\<open>ORDER BY id DESC LIMIT 1\<close>.\<close>

definition latest_exact_decision :: "store \<Rightarrow> execution_plan \<Rightarrow> execution_plan_approval_record option" where
  "latest_exact_decision db plan =
     (case rev (sort_key appr_id (exact_decisions db plan)) of [] \<Rightarrow> None | r # _ \<Rightarrow> Some r)"

text \<open>
  \<open>is_plan_approved\<close>. Only \<open>PlanIntegrityError\<close> is caught; a stored context that cannot be
  serialised raises the validation error of the digest.
\<close>

definition is_plan_approved :: "(string \<Rightarrow> string) \<Rightarrow> store \<Rightarrow> row_id \<Rightarrow> plan_error + bool" where
  "is_plan_approved sha256 db pid =
     (case validate_persisted_plan_integrity sha256 db pid of
        Inl (PlanIntegrity _) \<Rightarrow> Inr False
      | Inl e \<Rightarrow> Inl e
      | Inr plan \<Rightarrow>
         (if new_plan db plan then Inr False
          else (case latest_exact_decision db plan of
                  None \<Rightarrow> Inr False
                | Some r \<Rightarrow> Inr (appr_decision r = ''approved''))))"

subsection \<open>Facts\<close>

lemma integrity_ok:
  assumes "validate_persisted_plan_integrity sha256 db pid = Inr plan"
  shows "plans db pid = Some plan"
    and "compute_plan_digest_v1 sha256 (content_of_rows plan (ordered_actions db pid)) = Inr (plan_plan_digest plan)"
    and "plan_action_count plan = int (length (ordered_actions db pid))"
    and "map act_ordinal (ordered_actions db pid) = map int [1..<Suc (length (ordered_actions db pid))]"
    and "digest_shape (plan_plan_digest plan)"
  using assms
  by (auto simp: validate_persisted_plan_integrity_def load_plan_snapshot_def validate_digest_contract_def
      res_bind_def Let_def split: sum.splits option.splits if_splits)

lemma integrity_frame:
  "plans db' = plans db \<Longrightarrow> plan_actions db' = plan_actions db
   \<Longrightarrow> validate_persisted_plan_integrity sha256 db' pid = validate_persisted_plan_integrity sha256 db pid"
  by (simp add: validate_persisted_plan_integrity_def load_plan_snapshot_def ordered_actions_def actions_of_def
      cong: option.case_cong)

lemma new_plan_frame:
  "test_cases db' = test_cases db \<Longrightarrow> plan_actions db' = plan_actions db
   \<Longrightarrow> members_exist db' = members_exist db \<Longrightarrow> member_case_ids db' = member_case_ids db
   \<Longrightarrow> member_plan_ids db' = member_plan_ids db \<Longrightarrow> new_plan db' plan = new_plan db plan"
  by (simp add: new_plan_def new_case_def actions_of_def cong: option.case_cong)

text \<open>The record with the greatest identifier is the latest.\<close>

lemma latest_in:
  assumes "latest_exact_decision db plan = Some r"
  shows "r \<in> set (exact_decisions db plan)"
proof -
  obtain rs where "rev (sort_key appr_id (exact_decisions db plan)) = r # rs"
    using assms unfolding latest_exact_decision_def by (auto split: list.splits)
  then have "set (rev (sort_key appr_id (exact_decisions db plan))) = insert r (set rs)" by simp
  then show ?thesis by simp
qed

lemma append_error_frame: "append_exact_decision rid now plan decision db = (db', Inl e) \<Longrightarrow> db' = db"
  by (auto simp: append_exact_decision_def Let_def split: if_splits)

lemma append_ok:
  assumes "append_exact_decision rid now plan decision db = (db', Inr r)"
  shows "db' = db\<lparr>approvals := approvals db @ [r]\<rparr>" and "appr_plan_digest r = plan_plan_digest plan"
  using assms by (auto simp: append_exact_decision_def Let_def split: if_splits)

lemma record_cases:
  assumes "record_plan_decision sha256 rid now pid decision db = (db', res)"
  obtains (refused) e where "res = Inl e" "db' = db"
  | (recorded) plan where "validate_persisted_plan_integrity sha256 db pid = Inr plan" "\<not> new_plan db plan"
      "append_exact_decision rid now plan decision db = (db', res)"
  using assms by (auto simp: record_plan_decision_def split: if_splits sum.splits)

lemma latest_after_append:
  assumes "append_exact_decision rid now plan decision db = (db', Inr r)"
    and "\<forall>q\<in>set (approvals db). appr_id q < rid"
  shows "latest_exact_decision db' plan = Some r" and "appr_decision r = decision"
proof -
  have r: "approvals db' = approvals db @ [r]" "appr_id r = rid" "appr_execution_plan_id r = plan_id plan"
      "appr_digest_version r = plan_digest_version plan" "appr_plan_digest r = plan_plan_digest plan"
      "appr_decision r = decision"
    using assms(1) by (auto simp: append_exact_decision_def Let_def split: if_splits)
  then have "exact_decisions db' plan = exact_decisions db plan @ [r]" by (simp add: exact_decisions_def)
  moreover have "\<forall>q\<in>set (exact_decisions db plan). appr_id q \<le> appr_id r"
    using assms(2) r(2) by (auto simp: exact_decisions_def less_imp_le)
  ultimately show "latest_exact_decision db' plan = Some r"
    by (simp add: latest_exact_decision_def sort_key_snoc)
  show "appr_decision r = decision" by fact
qed

text \<open>Reading back the rows of a created plan.\<close>

lemma ordered_created:
  assumes "\<forall>a\<in>set (plan_actions db). act_execution_plan_id a \<noteq> pid"
    and "plan_actions db' = plan_actions db @ action_rows pid aid now as"
  shows "ordered_actions db' pid = action_rows pid aid now as"
proof -
  have "actions_of db' pid = action_rows pid aid now as"
    using assms by (auto simp: actions_of_def action_rows_def filter_empty_conv intro!: filter_True)
  moreover have "sorted (map act_id (action_rows pid aid now as))"
    "sorted (map act_ordinal (action_rows pid aid now as))"
    by (auto simp: action_rows_def sorted_iff_nth_mono nth_enumerate_eq)
  ultimately show ?thesis by (simp add: ordered_actions_def sort_key_id_if_sorted)
qed

lemma map_enumerate_snd: "map (\<lambda>p. f (snd p)) (enumerate n xs) = map f xs"
  using map_map[of f snd "enumerate n xs"] by (simp add: comp_def)

lemma map_enumerate_fst: "map (\<lambda>p. f (fst p)) (enumerate n xs) = map f [n..<n + length xs]"
  using map_map[of f fst "enumerate n xs"] by (simp add: comp_def)

lemma action_rows_inputs [simp]:
  "map input_of_action (action_rows pid aid now as) = as"
  "map act_ordinal (action_rows pid aid now as) = map int [1..<Suc (length as)]"
  "length (action_rows pid aid now as) = length as"
proof -
  have "map input_of_action (action_rows pid aid now as)
      = map (\<lambda>p. (\<lambda>a. \<lparr>pai_method = pai_method a, pai_url = pai_url a,
          pai_test_case_id = pai_test_case_id a, pai_resource_id = pai_resource_id a\<rparr>) (snd p)) (enumerate 1 as)"
    by (simp add: action_rows_def input_of_action_def split_def comp_def)
  also have "\<dots> = map (\<lambda>a. \<lparr>pai_method = pai_method a, pai_url = pai_url a,
          pai_test_case_id = pai_test_case_id a, pai_resource_id = pai_resource_id a\<rparr>) as"
    by (rule map_enumerate_snd)
  also have "\<dots> = as" by (simp add: map_idI)
  finally show "map input_of_action (action_rows pid aid now as) = as" .
  have "map act_ordinal (action_rows pid aid now as) = map (\<lambda>p. int (fst p)) (enumerate 1 as)"
    by (simp add: action_rows_def split_def comp_def)
  then show "map act_ordinal (action_rows pid aid now as) = map int [1..<Suc (length as)]"
    by (simp add: map_enumerate_fst)
qed (simp add: action_rows_def)

subsection \<open>Properties\<close>



text \<open>
  C15. Approval is for content: if a decision was recorded for a plan whose stored rows passed the
  integrity check, and in a later state of the tables the plan of the same identifier counts as
  approved by that same record, then the stored target, revision, actor, binding, actions and
  context are the ones that were decided on (the context up to key order), or the two canonical
  texts collide under SHA-256.
\<close>

theorem approval_binds_content:
  assumes "record_plan_decision sha256 rid now pid decision db = (db1, Inr r)"
    and "is_plan_approved sha256 db2 pid = Inr True" and "plans db2 pid = Some plan2"
    and "latest_exact_decision db2 plan2 = Some r"
    and "plans db pid = Some plan"
    and "json_wf (plan_policy_context plan)" and "json_wf (plan_policy_context plan2)"
  shows "(let c = content_of_rows plan (ordered_actions db pid);
              d = content_of_rows plan2 (ordered_actions db2 pid) in
      (c = d\<lparr>pc_policy_context := pc_policy_context c\<rparr>
        \<and> json_sort (pc_policy_context c) = json_sort (pc_policy_context d))
      \<or> (\<exists>x y. canonical_json (digest_payload c) = Inr x \<and> canonical_json (digest_payload d) = Inr y
           \<and> x \<noteq> y \<and> sha256 x = sha256 y))"
proof -
  let ?c = "content_of_rows plan (ordered_actions db pid)"
  let ?d = "content_of_rows plan2 (ordered_actions db2 pid)"
  obtain p where p: "validate_persisted_plan_integrity sha256 db pid = Inr p"
    "append_exact_decision rid now p decision db = (db1, Inr r)"
    using assms(1) by (cases rule: record_cases) auto
  then have v1: "validate_persisted_plan_integrity sha256 db pid = Inr plan"
    and r: "appr_plan_digest r = plan_plan_digest plan"
    using integrity_ok(1)[OF p(1)] append_ok(2)[OF p(2)] assms(5) by simp_all
  have v2: "validate_persisted_plan_integrity sha256 db2 pid = Inr plan2"
    using assms(2,3) integrity_ok(1)[of sha256 db2 pid]
    by (auto simp: is_plan_approved_def split: sum.splits plan_error.splits)
  have "r \<in> set (exact_decisions db2 plan2)"
    using assms(4) by (rule latest_in)
  then have "plan_plan_digest plan2 = plan_plan_digest plan" using r by (simp add: exact_decisions_def)
  then have dig: "compute_plan_digest_v1 sha256 ?c = Inr (plan_plan_digest plan)"
    "compute_plan_digest_v1 sha256 ?d = Inr (plan_plan_digest plan)"
    using integrity_ok(2)[OF v1] integrity_ok(2)[OF v2] by simp_all
  show ?thesis
    unfolding Let_def by (rule digest_binds[OF dig]) (use assms(6,7) in \<open>simp_all add: content_of_rows_def\<close>)
qed

definition lab_actions :: "plan_action_input list" where
  "lab_actions = [\<lparr>pai_method = ''GET'', pai_url = ''http://lab.test/a'', pai_test_case_id = None,
     pai_resource_id = None\<rparr>]"

definition lab_created :: store where
  "lab_created = fst (create_execution_plan lab_sha 7 0 0 1 2 3 None lab_actions None lab_store)"

definition lab_decided :: store where
  "lab_decided = fst (record_plan_decision lab_sha 1 0 7 ''approved'' lab_created)"

lemma lab_record: "\<exists>r. record_plan_decision lab_sha 1 0 7 ''approved'' lab_created = (lab_decided, Inr r)"
proof -
  have "is_ok (snd (record_plan_decision lab_sha 1 0 7 ''approved'' lab_created))" by code_simp
  then obtain r where "snd (record_plan_decision lab_sha 1 0 7 ''approved'' lab_created) = Inr r"
    by (cases "snd (record_plan_decision lab_sha 1 0 7 ''approved'' lab_created)") auto
  then show ?thesis unfolding lab_decided_def by (metis prod.collapse)
qed

lemma lab_created_approvals: "approvals lab_created = []"
  by code_simp

theorem approval_binds_content_witness:
  "\<exists>plan. plans lab_decided 7 = Some plan
    \<and> content_of_rows plan (ordered_actions lab_created 7)
      = content_of_rows plan (ordered_actions lab_decided 7)"
proof -
  obtain r where r: "record_plan_decision lab_sha 1 0 7 ''approved'' lab_created = (lab_decided, Inr r)"
    using lab_record by blast
  then obtain plan where v: "validate_persisted_plan_integrity lab_sha lab_created 7 = Inr plan"
    and a: "append_exact_decision 1 0 plan ''approved'' lab_created = (lab_decided, Inr r)"
    by (cases rule: record_cases) auto
  note db' = append_ok(1)[OF a] and p = integrity_ok(1)[OF v]
  have p2: "plans lab_decided 7 = Some plan" using p unfolding db' by simp
  have ap: "is_plan_approved lab_sha lab_decided 7 = Inr True" by code_simp
  have l: "latest_exact_decision lab_decided plan = Some r"
    using latest_after_append(1)[OF a] lab_created_approvals by simp
  have "\<forall>p. plans lab_created 7 = Some p \<longrightarrow> json_wf (plan_policy_context p)"
  proof -
    have "case plans lab_created 7 of None \<Rightarrow> True | Some p \<Rightarrow> json_wf (plan_policy_context p)" by code_simp
    then show ?thesis by (auto split: option.splits)
  qed
  then have "json_wf (plan_policy_context plan)" using p by blast
  moreover have "ordered_actions lab_decided 7 = ordered_actions lab_created 7"
    unfolding db' by (simp add: ordered_actions_def actions_of_def)
  ultimately show ?thesis using approval_binds_content[OF r ap p2 l p] p2 by auto
qed

text \<open>
  The latest decision counts at once: after a recorded decision (with a fresh record
  identifier, larger than all before) the plan is approved exactly if that decision was to
  approve; in particular a revocation takes effect whatever was approved before. A refused
  decision changes nothing.
\<close>

theorem decision_takes_effect:
  assumes "record_plan_decision sha256 rid now pid decision db = (db', res)"
    and "\<forall>q\<in>set (approvals db). appr_id q < rid"
  shows "case res of Inl _ \<Rightarrow> db' = db
    | Inr r \<Rightarrow> is_plan_approved sha256 db' pid = Inr (decision = ''approved'')"
proof (cases res)
  case (Inl e)
  from assms(1) show ?thesis using Inl append_error_frame by (cases rule: record_cases) auto
next
  case (Inr r)
  from assms(1) obtain plan where v: "validate_persisted_plan_integrity sha256 db pid = Inr plan"
    and n: "\<not> new_plan db plan" and a: "append_exact_decision rid now plan decision db = (db', Inr r)"
    using Inr by (cases rule: record_cases) auto
  note db' = append_ok(1)[OF a]
  have "validate_persisted_plan_integrity sha256 db' pid = Inr plan" using v integrity_frame[of db' db sha256 pid] db' by simp
  moreover have "\<not> new_plan db' plan" using n db' new_plan_frame[of db' db plan] by simp
  ultimately show ?thesis using latest_after_append[OF a assms(2)] Inr by (simp add: is_plan_approved_def)
qed

theorem decision_takes_effect_witness:
  "is_plan_approved lab_sha lab_decided 7 = Inr (''approved'' = ''approved'')"
proof -
  obtain r where r: "record_plan_decision lab_sha 1 0 7 ''approved'' lab_created = (lab_decided, Inr r)"
    using lab_record by blast
  from decision_takes_effect[OF r] show ?thesis using lab_created_approvals by simp
qed

end
