(* ===== verification/Plan_Protocol.thy ===== *)
theory Plan_Protocol
  imports Plan_Coordination
begin

text \<open>
  The plan execution protocol under concurrency: any number of workers and cancelling clients
  run the coordination transactions of \<open>Plan_Coordination\<close> in any order, with any clock
  readings, with crashes, and with commits whose outcome the client never learns. A worker
  that learned that its \<open>mark_network_started\<close> committed is \<open>Armed\<close>; it may then make its one
  network request (\<open>PolicyEnforcedHTTPExecutor.execute\<close> calls the gateway once, after
  \<open>before_network\<close>) and afterwards persist the canonical result
  (\<open>PlanExecutionService._finish\<close>), both as the holder of a handle. The lemmas establish the
  invariant of every reachable state.
\<close>

subsection \<open>Fencing as an interface\<close>

text \<open>
  What a client of the claim store relies on: acquiring gives a handle of a fresh generation,
  and only a handle of the present generation is current.
\<close>

locale fenced_store =
  fixes acquire :: "'k \<Rightarrow> 'o \<Rightarrow> int \<Rightarrow> datetime \<Rightarrow> 's \<Rightarrow> 's \<times> 'h option"
    and current :: "'s \<Rightarrow> 'h \<Rightarrow> datetime \<Rightarrow> bool"
    and key :: "'h \<Rightarrow> 'k" and gen :: "'h \<Rightarrow> int" and gen_of :: "'s \<Rightarrow> 'k \<Rightarrow> int"
  assumes acquire_fresh: "acquire k own lease now s = (s', Some h) \<Longrightarrow>
      key h = k \<and> gen h = gen_of s k + 1 \<and> gen_of s' k = gen h"
    and current_gen: "current s h now \<Longrightarrow> gen h = gen_of s (key h)"
begin

lemma superseded:
  assumes "acquire k own lease now s = (s', Some h)" and "key h' = k" and "gen h' \<le> gen_of s k"
  shows "\<not> current s' h' t"
  using acquire_fresh[OF assms(1)] current_gen[of s' h' t] assms(2,3) by auto

lemma one_generation_current:
  "current s h t \<Longrightarrow> current s h' t' \<Longrightarrow> key h = key h' \<Longrightarrow> gen h = gen h'"
  using current_gen by metis

end

interpretation claim_store: fenced_store acquire_stmt claim_is_current
  h_execution_plan_id h_fencing_generation generation
  by unfold_locales (simp_all add: acquire_generation current_generation)

subsection \<open>The step relation\<close>

datatype token = NoToken | Armed claim_handle | Finishing claim_handle

record pstate =
  tables :: coord
  token_of :: "nat \<Rightarrow> row_id \<Rightarrow> token"
  sends :: "row_id \<Rightarrow> nat"

definition set_token :: "pstate \<Rightarrow> nat \<Rightarrow> row_id \<Rightarrow> token \<Rightarrow> pstate" where
  "set_token s w pid tok = s\<lparr>token_of := (token_of s)(w := (token_of s w)(pid := tok))\<rparr>"

definition write_canonical :: "coord \<Rightarrow> row_id \<Rightarrow> row_id \<Rightarrow> coord" where
  "write_canonical db pid rid = db\<lparr>canonical_run := (canonical_run db)(pid := Some rid)\<rparr>"

inductive pstep :: "pstate \<Rightarrow> pstate \<Rightarrow> bool" where
  acquire: "acquire_stmt pid own lease now (tables s) = (db', r)
     \<Longrightarrow> pstep s (s\<lparr>tables := db'\<rparr>)"
| renew: "renew_stmt h lease now (tables s) = (db', r2) \<Longrightarrow> pstep s (s\<lparr>tables := db'\<rparr>)"
| release: "release_stmt h now (tables s) = (db', r3) \<Longrightarrow> pstep s (s\<lparr>tables := db'\<rparr>)"
| prepare: "prepare_stmt h now (tables s) = (db', r4) \<Longrightarrow> pstep s (s\<lparr>tables := db'\<rparr>)"
| mark_seen: "mark_txn h now (tables s) = (db', Inr row)
     \<Longrightarrow> pstep s (set_token (s\<lparr>tables := db'\<rparr>) w (h_execution_plan_id h) (Armed h))"
| mark_unseen: "mark_txn h now (tables s) = (db', r5) \<Longrightarrow> pstep s (s\<lparr>tables := db'\<rparr>)"
| cancel: "cancel_txn pid now (tables s) = (db', r6) \<Longrightarrow> pstep s (s\<lparr>tables := db'\<rparr>)"
| send: "token_of s w pid = Armed h
     \<Longrightarrow> pstep s ((set_token s w pid (Finishing h))\<lparr>sends := (sends s)(pid := sends s pid + 1)\<rparr>)"
| no_send: "token_of s w pid = Armed h \<Longrightarrow> pstep s (set_token s w pid (Finishing h))"
| finish: "token_of s w pid = Finishing h \<Longrightarrow> claim_is_current (tables s) h now
     \<Longrightarrow> canonical_run (tables s) pid = None
     \<Longrightarrow> pstep s (set_token (s\<lparr>tables := write_canonical (tables s) pid rid\<rparr>) w pid NoToken)"
| stop: "pstep s (set_token s w pid NoToken)"

definition initial_pstate :: "coord \<Rightarrow> pstate" where
  "initial_pstate db = \<lparr>tables = db, token_of = (\<lambda>_ _. NoToken), sends = (\<lambda>_. 0)\<rparr>"

text \<open>The tables of a platform on which no plan has been executed yet.\<close>

definition fresh_tables :: "coord \<Rightarrow> bool" where
  "fresh_tables db \<longleftrightarrow>
     progress db = (\<lambda>_. None) \<and> canonical_run db = (\<lambda>_. None) \<and> claims db = (\<lambda>_. None)
     \<and> cancellations db = (\<lambda>_. None)"

inductive preach :: "pstate \<Rightarrow> bool" where
  start: "fresh_tables db \<Longrightarrow> preach (initial_pstate db)"
| step: "preach s \<Longrightarrow> pstep s t \<Longrightarrow> preach t"

subsection \<open>The invariant\<close>

text \<open>
  The invariant of one plan, over whether its network phase has started, the number of
  requests sent, the tokens of the workers, its canonical result and whether it is cancelled.
\<close>

definition plan_ok :: "bool \<Rightarrow> nat \<Rightarrow> (nat \<Rightarrow> token) \<Rightarrow> row_id option \<Rightarrow> bool \<Rightarrow> bool" where
  "plan_ok st n tok can canc \<longleftrightarrow>
     (\<not> st \<longrightarrow> n = 0 \<and> tok = (\<lambda>_. NoToken) \<and> can = None)
     \<and> (canc \<longrightarrow> \<not> st)
     \<and> (\<forall>w v. tok w \<noteq> NoToken \<longrightarrow> tok v \<noteq> NoToken \<longrightarrow> w = v)
     \<and> (\<forall>w h. tok w = Armed h \<longrightarrow> n = 0)
     \<and> n \<le> 1"

definition pinv :: "pstate \<Rightarrow> bool" where
  "pinv s \<longleftrightarrow>
     (\<forall>pid. plan_ok (started (tables s) pid) (sends s pid) (\<lambda>w. token_of s w pid)
        (canonical_run (tables s) pid) (cancellations (tables s) pid \<noteq> None))"

lemma pinvD:
  "pinv s \<Longrightarrow> plan_ok (started (tables s) pid) (sends s pid) (\<lambda>w. token_of s w pid)
     (canonical_run (tables s) pid) (cancellations (tables s) pid \<noteq> None)"
  by (simp add: pinv_def)

lemma plan_ok_cancel: "plan_ok st n tok can canc \<Longrightarrow> \<not> st \<Longrightarrow> plan_ok st n tok can canc'"
  by (auto simp: plan_ok_def)

lemma plan_ok_start: "plan_ok False n tok can canc \<Longrightarrow> plan_ok True n tok can False"
  by (auto simp: plan_ok_def)

lemma plan_ok_arm: "plan_ok False n tok can canc \<Longrightarrow> plan_ok True n (tok(w := Armed h)) can False"
  by (auto simp: plan_ok_def)

lemma plan_ok_send:
  assumes "plan_ok st n tok can canc" and "tok w = Armed h"
  shows "plan_ok st (n + 1) (tok(w := Finishing h)) can canc"
    and "plan_ok st n (tok(w := Finishing h)) can canc"
proof -
  have st: "st" and n: "n = 0" and other: "\<And>v. v \<noteq> w \<Longrightarrow> tok v = NoToken"
    using assms unfolding plan_ok_def by (metis token.distinct(1))+
  then show "plan_ok st (n + 1) (tok(w := Finishing h)) can canc"
    "plan_ok st n (tok(w := Finishing h)) can canc"
    using assms(1) unfolding plan_ok_def by auto
qed

lemma plan_ok_finish:
  "plan_ok st n tok can canc \<Longrightarrow> tok w = Finishing h \<Longrightarrow> plan_ok st n (tok(w := NoToken)) can' canc"
  by (auto simp: plan_ok_def)

lemma plan_ok_stop: "plan_ok st n tok can canc \<Longrightarrow> plan_ok st n (tok(w := NoToken)) can canc"
  by (auto simp: plan_ok_def)

lemma set_token_simps [simp]:
  "tables (set_token s w pid tok) = tables s"
  "sends (set_token s w pid tok) = sends s"
  "token_of (set_token s w pid tok) v q = (if v = w \<and> q = pid then tok else token_of s v q)"
  by (simp_all add: set_token_def)

lemma token_view:
  "(\<lambda>v. token_of (set_token s w pid tok) v q)
     = (if q = pid then (\<lambda>v. token_of s v q)(w := tok) else (\<lambda>v. token_of s v q))"
  by (auto simp: fun_eq_iff)

text \<open>A step that changes the tables only, none of the facts the invariant reads.\<close>

lemma pinv_frame:
  assumes "pinv s" and "\<And>pid. started db' pid = started (tables s) pid"
    and "canonical_run db' = canonical_run (tables s)"
    and "cancellations db' = cancellations (tables s)"
  shows "pinv (s\<lparr>tables := db'\<rparr>)"
  using assms by (simp add: pinv_def)

lemma pinv_claims:
  assumes "pinv s" and "progress db' = progress (tables s) \<and> cancellations db' = cancellations (tables s)
    \<and> canonical_run db' = canonical_run (tables s) \<and> plan_rows db' = plan_rows (tables s)"
  shows "pinv (s\<lparr>tables := db'\<rparr>)"
  by (rule pinv_frame) (use assms in \<open>simp_all add: started_def\<close>)

text \<open>The mark transaction on the tables alone, whether or not the worker learns of it.\<close>

lemma mark_view:
  assumes "mark_txn h now db = (db', Inr row)"
  shows "started db' pid \<longleftrightarrow> started db pid \<or> pid = h_execution_plan_id h"
  using mark_ok(2)[OF assms] mark_ok(9)[OF assms, of pid] by (cases "pid = h_execution_plan_id h") auto

lemma pinv_mark:
  assumes "pinv s" and "mark_txn h now (tables s) = (db', r)"
  shows "pinv (s\<lparr>tables := db'\<rparr>)"
proof (cases r)
  case (Inl e)
  then have "db' = tables s" using assms(2) mark_error by blast
  then show ?thesis using assms(1) by simp
next
  case (Inr row)
  note m = mark_ok[OF assms(2)[unfolded Inr]] and v = mark_view[OF assms(2)[unfolded Inr]]
  have "plan_ok (started db' pid) (sends s pid) (\<lambda>w. token_of s w pid)
      (canonical_run (tables s) pid) (cancellations (tables s) pid \<noteq> None)" for pid
  proof (cases "pid = h_execution_plan_id h")
    case True
    then show ?thesis using plan_ok_start pinvD[OF assms(1), of pid] m(1,3) v[of pid] by simp
  qed (use pinvD[OF assms(1), of pid] v[of pid] in simp)
  then show ?thesis using m(5,7) by (simp add: pinv_def)
qed

lemma pinv_token:
  assumes "pinv s"
    and "plan_ok (started (tables s) pid) n ((\<lambda>v. token_of s v pid)(w := tok))
      (canonical_run (tables s) pid) (cancellations (tables s) pid \<noteq> None)"
  shows "pinv ((set_token s w pid tok)\<lparr>sends := (sends s)(pid := n)\<rparr>)"
proof -
  have "plan_ok (started (tables s) q) (((sends s)(pid := n)) q)
      (\<lambda>v. token_of (set_token s w pid tok) v q)
      (canonical_run (tables s) q) (cancellations (tables s) q \<noteq> None)" for q
    using assms(2) pinvD[OF assms(1), of q] unfolding token_view by (cases "q = pid") simp_all
  then show ?thesis unfolding pinv_def by (simp add: set_token_def)
qed

lemma pinv_token0:
  assumes "pinv s"
    and "plan_ok (started (tables s) pid) (sends s pid) ((\<lambda>v. token_of s v pid)(w := tok))
      (canonical_run (tables s) pid) (cancellations (tables s) pid \<noteq> None)"
  shows "pinv (set_token s w pid tok)"
  using pinv_token[OF assms] by (simp add: set_token_def)

lemma pinv_send:
  assumes "pinv s" and "token_of s w pid = Armed h"
  shows "pinv ((set_token s w pid (Finishing h))\<lparr>sends := (sends s)(pid := sends s pid + 1)\<rparr>)"
    and "pinv (set_token s w pid (Finishing h))"
  using plan_ok_send[OF pinvD[OF assms(1), of pid], of w h] assms
  by (auto intro: pinv_token pinv_token0)

lemma pinv_finish:
  assumes "pinv s" and "token_of s w pid = Finishing h"
  shows "pinv (set_token (s\<lparr>tables := write_canonical (tables s) pid rid\<rparr>) w pid NoToken)"
proof -
  let ?d = "write_canonical (tables s) pid rid"
  have st: "started ?d q = started (tables s) q" and ca: "cancellations ?d = cancellations (tables s)"
    and cr: "canonical_run ?d q = (if q = pid then Some rid else canonical_run (tables s) q)" for q
    by (simp_all add: write_canonical_def started_def)
  have "plan_ok (started (tables s) q) (sends s q)
      (\<lambda>v. token_of (set_token s w pid NoToken) v q)
      (canonical_run ?d q) (cancellations (tables s) q \<noteq> None)" for q
    using plan_ok_finish[OF pinvD[OF assms(1), of pid], of w h "Some rid"] assms(2)
      pinvD[OF assms(1), of q] unfolding token_view by (cases "q = pid") (simp_all add: cr)
  then show ?thesis unfolding pinv_def by (simp add: set_token_def st ca)
qed

lemma pinv_cancel:
  assumes "pinv s" and "cancel_txn pid now (tables s) = (db', r)"
  shows "pinv (s\<lparr>tables := db'\<rparr>)"
proof -
  note f = cancel_frame[OF assms(2)]
  have "plan_ok (started (tables s) q) (sends s q) (\<lambda>w. token_of s w q)
      (canonical_run (tables s) q) (cancellations db' q \<noteq> None)" for q
  proof (cases "started (tables s) q")
    case True
    then have "(cancellations db' q \<noteq> None) = (cancellations (tables s) q \<noteq> None)"
      using f by metis
    then show ?thesis using pinvD[OF assms(1), of q] by simp
  qed (use pinvD[OF assms(1), of q] plan_ok_cancel in blast)
  moreover have "started db' q = started (tables s) q" for q using f by (simp add: started_def)
  ultimately show ?thesis using f by (simp add: pinv_def)
qed

lemma pstep_pinv: "pstep s t \<Longrightarrow> pinv s \<Longrightarrow> pinv t"
proof (induction rule: pstep.induct)
  case (acquire pid own lease now s db' r)
  show ?case by (rule pinv_claims[OF acquire.prems acquire_frame[OF acquire.hyps]])
next
  case (renew h lease now s db' r2)
  show ?case by (rule pinv_claims[OF renew.prems renew_frame[OF renew.hyps]])
next
  case (release h now s db' r3)
  show ?case by (rule pinv_claims[OF release.prems release_frame[OF release.hyps]])
next
  case (prepare h now s db' r4)
  then show ?case using prepare_frame[OF prepare.hyps] by (intro pinv_frame) auto
next
  case (mark_seen h now s db' row w)
  let ?p = "h_execution_plan_id h" and ?s = "s\<lparr>tables := db'\<rparr>"
  note m = mark_ok[OF mark_seen.hyps]
  have "plan_ok True (sends s ?p) ((\<lambda>v. token_of s v ?p)(w := Armed h)) (canonical_run (tables s) ?p) False"
    using plan_ok_arm pinvD[OF mark_seen.prems, of ?p] m(1) by simp
  then show ?case
    using m by (intro pinv_token0 pinv_mark[OF mark_seen.prems mark_seen.hyps]) simp
next
  case (mark_unseen h now s db' r5)
  then show ?case by (intro pinv_mark)
next
  case (cancel pid now s db' r6)
  then show ?case by (intro pinv_cancel)
next
  case (stop s w pid)
  then show ?case by (intro pinv_token0 plan_ok_stop pinvD)
qed (simp_all only: pinv_send pinv_finish)

lemma preach_pinv: "preach s \<Longrightarrow> pinv s"
proof (induction rule: preach.induct)
  case (start db)
  then show ?case by (simp add: pinv_def plan_ok_def initial_pstate_def fresh_tables_def started_def)
next
  case (step s t)
  then show ?case by (blast intro: pstep_pinv)
qed

subsection \<open>Decisions are never taken back\<close>

text \<open>
  What one step keeps of a plan: its canonical result, its cancellation, the start of its
  network phase, and a lower bound of its fencing generation.
\<close>

definition keeps :: "coord \<Rightarrow> coord \<Rightarrow> row_id \<Rightarrow> bool" where
  "keeps db db' pid \<longleftrightarrow>
     (\<forall>r. canonical_run db pid = Some r \<longrightarrow> canonical_run db' pid = Some r)
     \<and> (\<forall>c. cancellations db pid = Some c \<longrightarrow> cancellations db' pid = Some c)
     \<and> (started db pid \<longrightarrow> started db' pid)
     \<and> generation db pid \<le> generation db' pid"

lemma keeps_refl [simp]: "keeps db db pid"
  by (simp add: keeps_def)

lemma keeps_trans: "keeps a b pid \<Longrightarrow> keeps b c pid \<Longrightarrow> keeps a c pid"
  unfolding keeps_def by fastforce

lemma acquire_keeps: "acquire_stmt k own lease now db = (db', r) \<Longrightarrow> keeps db db' pid"
  using acquire_frame[of k own lease now db db' r]
  by (auto simp: keeps_def started_def acquire_stmt_def generation_def Let_def
      split: option.splits if_splits)

lemma renew_keeps: "renew_stmt h lease now db = (db', r) \<Longrightarrow> keeps db db' pid"
  using renew_frame[of h lease now db db' r]
  by (auto simp: keeps_def started_def renew_stmt_def generation_def split: option.splits if_splits)

lemma release_keeps: "release_stmt h now db = (db', r) \<Longrightarrow> keeps db db' pid"
  using release_frame[of h now db db' r]
  by (auto simp: keeps_def started_def release_stmt_def generation_def split: option.splits if_splits)

lemma prepare_keeps: "prepare_stmt h now db = (db', r) \<Longrightarrow> keeps db db' pid"
  using prepare_frame[of h now db db' r] by (simp add: keeps_def generation_def)

lemma mark_keeps: "mark_txn h now db = (db', r) \<Longrightarrow> keeps db db' pid"
  using mark_ok(5-7)[of h now db db'] mark_view[of h now db db' _ pid] mark_error[of h now db db']
  by (cases r) (auto simp: keeps_def generation_def)

lemma cancel_keeps: "cancel_txn k now db = (db', r) \<Longrightarrow> keeps db db' pid"
  using cancel_frame[of k now db db' r] by (cases "pid = k") (auto simp: keeps_def generation_def started_def)

lemmas txn_keeps = acquire_keeps renew_keeps release_keeps prepare_keeps mark_keeps cancel_keeps

lemma pstep_keeps: "pstep s t \<Longrightarrow> keeps (tables s) (tables t) pid"
proof (induction rule: pstep.induct)
  case (finish s w q h now rid)
  then show ?case by (auto simp: keeps_def write_canonical_def started_def generation_def)
qed (auto dest: txn_keeps)

lemma psteps_keeps: "pstep\<^sup>*\<^sup>* s t \<Longrightarrow> keeps (tables s) (tables t) pid"
  by (induction rule: rtranclp_induct) (auto intro: keeps_trans pstep_keeps)

lemma preach_psteps: "pstep\<^sup>*\<^sup>* s t \<Longrightarrow> preach s \<Longrightarrow> preach t"
  by (induction rule: rtranclp_induct) (auto intro: preach.step)

subsection \<open>Progress rows of reachable states\<close>

definition prog_ok :: "coord \<Rightarrow> row_id \<Rightarrow> bool" where
  "prog_ok db pid \<longleftrightarrow>
     (case progress db pid of None \<Rightarrow> True
      | Some p \<Rightarrow> prog_phase p \<in> {''pre_network'', ''network_started''}
                  \<and> prog_fencing_generation p \<le> generation db pid)"

lemma prog_ok_grow:
  "prog_ok db pid \<Longrightarrow> progress db' = progress db \<Longrightarrow> generation db pid \<le> generation db' pid
   \<Longrightarrow> prog_ok db' pid"
  by (auto simp: prog_ok_def split: option.splits)

lemma prepare_prog_ok: "prepare_stmt h now db = (db', r) \<Longrightarrow> prog_ok db pid \<Longrightarrow> prog_ok db' pid"
  using current_generation[of db h now]
  by (auto simp: prog_ok_def prepare_stmt_def generation_def Let_def split: option.splits if_splits)

lemma mark_prog_ok: "mark_txn h now db = (db', r) \<Longrightarrow> prog_ok db pid \<Longrightarrow> prog_ok db' pid"
  by (auto simp: prog_ok_def mark_txn_def generation_def Let_def split: option.splits if_splits)

lemma pstep_prog_ok: "pstep s t \<Longrightarrow> prog_ok (tables s) pid \<Longrightarrow> prog_ok (tables t) pid"
proof (induction rule: pstep.induct)
  case (acquire k own lease now s db' r)
  then show ?case using acquire_frame acquire_keeps by (simp add: prog_ok_grow keeps_def)
next
  case (renew h lease now s db' r2)
  then show ?case using renew_frame renew_keeps by (simp add: prog_ok_grow keeps_def)
next
  case (release h now s db' r3)
  then show ?case using release_frame release_keeps by (simp add: prog_ok_grow keeps_def)
next
  case (cancel k now s db' r6)
  then show ?case using cancel_frame cancel_keeps by (simp add: prog_ok_grow keeps_def)
next
  case (finish s w q h now rid)
  then show ?case by (simp add: prog_ok_def write_canonical_def generation_def cong: option.case_cong)
qed (auto intro: prepare_prog_ok mark_prog_ok)

lemma preach_prog_ok: "preach s \<Longrightarrow> prog_ok (tables s) pid"
proof (induction rule: preach.induct)
  case (start db)
  then show ?case by (simp add: prog_ok_def initial_pstate_def fresh_tables_def)
qed (rule pstep_prog_ok)

subsection \<open>Properties of the protocol\<close>

text \<open>A run of one worker: it claims the plan, prepares, marks and sends.\<close>

definition lab_db :: coord where
  "lab_db = \<lparr>claims = (\<lambda>_. None), progress = (\<lambda>_. None), cancellations = (\<lambda>_. None),
     plan_rows = (\<lambda>_. True), canonical_run = (\<lambda>_. None)\<rparr>"

definition lab_handle :: claim_handle where
  "lab_handle = \<lparr>h_execution_plan_id = 7, h_owner_id = ''worker'', h_fencing_generation = 1,
     h_lease_expires_at = 60, h_database_now = 0\<rparr>"

definition lab_claimed :: coord where
  "lab_claimed = fst (acquire_stmt 7 ''worker'' 60 0 lab_db)"

definition lab_prepared :: coord where
  "lab_prepared = fst (prepare_stmt lab_handle 1 lab_claimed)"

definition lab_marked :: coord where
  "lab_marked = fst (mark_txn lab_handle 2 lab_prepared)"

definition lab_sent :: pstate where
  "lab_sent = (set_token (set_token ((initial_pstate lab_db)\<lparr>tables := lab_marked\<rparr>) 0 7 (Armed lab_handle))
     0 7 (Finishing lab_handle))\<lparr>sends := (\<lambda>_. 0)(7 := 1)\<rparr>"

lemmas lab_defs = lab_db_def lab_handle_def lab_claimed_def lab_prepared_def lab_marked_def
  acquire_stmt_def prepare_stmt_def mark_txn_def claim_is_current_def holds_claim_def

lemma lab_mark: "\<exists>row. mark_txn lab_handle 2 lab_prepared = (lab_marked, Inr row)"
  by (simp add: lab_defs Let_def)

lemma lab_sent_reached: "preach lab_sent"
proof -
  let ?i = "initial_pstate lab_db"
  have 0: "preach ?i" by (intro preach.start) (simp add: fresh_tables_def lab_db_def)
  have "pstep ?i (?i\<lparr>tables := lab_claimed\<rparr>)"
    by (rule pstep.acquire[of 7 "''worker''" 60 0 _ _ "snd (acquire_stmt 7 ''worker'' 60 0 lab_db)"])
      (simp add: lab_claimed_def initial_pstate_def)
  then have 1: "preach (?i\<lparr>tables := lab_claimed\<rparr>)" by (rule preach.step[OF 0])
  have "pstep (?i\<lparr>tables := lab_claimed\<rparr>) (?i\<lparr>tables := lab_claimed\<rparr>\<lparr>tables := lab_prepared\<rparr>)"
    by (rule pstep.prepare[of lab_handle 1 _ _ "snd (prepare_stmt lab_handle 1 lab_claimed)"])
      (simp add: lab_prepared_def)
  then have 2: "preach (?i\<lparr>tables := lab_prepared\<rparr>)" using preach.step[OF 1] by simp
  obtain row where row: "mark_txn lab_handle 2 lab_prepared = (lab_marked, Inr row)" using lab_mark by blast
  let ?m = "set_token (?i\<lparr>tables := lab_prepared\<rparr>\<lparr>tables := lab_marked\<rparr>) 0 7 (Armed lab_handle)"
  have "pstep (?i\<lparr>tables := lab_prepared\<rparr>) ?m"
    using pstep.mark_seen[of lab_handle 2 "?i\<lparr>tables := lab_prepared\<rparr>" lab_marked row 0] row
    by (simp add: lab_handle_def)
  then have 3: "preach ?m" by (rule preach.step[OF 2])
  have "pstep ?m ((set_token ?m 0 7 (Finishing lab_handle))\<lparr>sends := (sends ?m)(7 := sends ?m 7 + 1)\<rparr>)"
    by (rule pstep.send) simp
  from preach.step[OF 3 this] show ?thesis by (simp add: lab_sent_def initial_pstate_def)
qed

text \<open>
  C4. However workers, crashes, lost commits and cancellations interleave, a plan is sent to
  the network at most once; a cancelled plan is never sent, nor may any worker send it; at
  most one worker may be about to send; and a canonical result exists only for a plan whose
  network phase was started.
\<close>

theorem single_network_request:
  assumes "preach s"
  shows "sends s pid \<le> 1
    \<and> (cancellations (tables s) pid \<noteq> None \<longrightarrow> sends s pid = 0 \<and> (\<forall>w h. token_of s w pid \<noteq> Armed h))
    \<and> (\<forall>w v h g. token_of s w pid = Armed h \<longrightarrow> token_of s v pid = Armed g \<longrightarrow> w = v \<and> sends s pid = 0)
    \<and> (canonical_run (tables s) pid \<noteq> None \<longrightarrow> started (tables s) pid)"
proof -
  note ok = pinvD[OF preach_pinv[OF assms], of pid, unfolded plan_ok_def]
  have "sends s pid = 0 \<and> (\<forall>w h. token_of s w pid \<noteq> Armed h)"
    if "cancellations (tables s) pid \<noteq> None"
    using ok that by (metis token.distinct(1))
  then show ?thesis using ok by (metis token.distinct(1))
qed

theorem single_network_request_witness:
  "sends lab_sent 7 = 1 \<and> sends lab_sent 7 \<le> 1"
  using single_network_request[OF lab_sent_reached, of 7] by (simp add: lab_sent_def)

text \<open>
  C5. Decisions are permanent: along every run a canonical result is never replaced or removed,
  a cancellation is never withdrawn, a started network phase never reverts, and the fencing
  generation of a plan never decreases.
\<close>

theorem decisions_permanent:
  assumes "pstep\<^sup>*\<^sup>* s t"
  shows "(canonical_run (tables s) pid = Some r \<longrightarrow> canonical_run (tables t) pid = Some r)
    \<and> (cancellations (tables s) pid = Some c \<longrightarrow> cancellations (tables t) pid = Some c)
    \<and> (started (tables s) pid \<longrightarrow> started (tables t) pid)
    \<and> generation (tables s) pid \<le> generation (tables t) pid"
  using psteps_keeps[OF assms, of pid] by (simp add: keeps_def)

theorem decisions_permanent_witness:
  "generation (tables (initial_pstate lab_db)) 7
     \<le> generation (tables ((initial_pstate lab_db)\<lparr>tables := lab_claimed\<rparr>)) 7"
proof -
  have "pstep (initial_pstate lab_db) ((initial_pstate lab_db)\<lparr>tables := lab_claimed\<rparr>)"
    by (rule pstep.acquire[of 7 "''worker''" 60 0 _ _ "snd (acquire_stmt 7 ''worker'' 60 0 lab_db)"])
      (simp add: lab_claimed_def initial_pstate_def)
  then show ?thesis using decisions_permanent[OF r_into_rtranclp] by blast
qed



text \<open>
  A plan whose network phase was started is never prepared, marked or cancelled again: every
  handle is answered with an in-doubt or lost error and every cancellation is refused, with
  the tables left as they are.
\<close>

theorem started_plan_is_final:
  assumes "started db pid" and "h_execution_plan_id h = pid" and "plan_rows db pid"
  shows "prepare_stmt h now db = (db, Inl (if claim_is_current db h now then InDoubt else ProgressLost))
    \<and> (\<exists>e. mark_txn h now db = (db, Inl e))
    \<and> cancel_txn pid now db
        = (db, Inl (if canonical_run db pid = None then CancellationInDoubt else AlreadyCompleted))"
proof -
  have "\<nexists>db' row. mark_txn h now db = (db', Inr row)" using mark_ok(1) assms(1,2) by blast
  then have "\<exists>e. mark_txn h now db = (db, Inl e)"
    using mark_error[of h now db] by (cases "mark_txn h now db") (metis sum.exhaust)
  then show ?thesis
    using prepare_in_doubt[of db h now] assms by (auto simp: cancel_txn_def started_def split: option.splits)
qed

theorem started_plan_is_final_witness:
  "cancel_txn 7 9 lab_marked = (lab_marked, Inl CancellationInDoubt)"
  using started_plan_is_final[of lab_marked 7 lab_handle 9]
  by (simp add: started_def lab_defs Let_def)

text \<open>
  C7. A worker that dies before the network phase does not block the plan: in every reachable
  state, once its lease has run out, another worker can claim, prepare and mark the plan, all
  within its own lease, unless the plan was cancelled or its network phase started.
\<close>

theorem recovery_before_network:
  assumes "preach s" and "\<not> started (tables s) pid" and "cancellations (tables s) pid = None"
    and "\<forall>c. claims (tables s) pid = Some c \<longrightarrow> claim_owner_id c = None \<or> claim_lease_expires_at c \<le> t0"
    and "t0 \<le> t1" and "t1 \<le> t2" and "t2 < t0 + lease"
  shows "\<exists>h db1 db2 db3 p q. acquire_stmt pid own lease t0 (tables s) = (db1, Some h)
    \<and> prepare_stmt h t1 db1 = (db2, Inr p) \<and> mark_txn h t2 db2 = (db3, Inr q) \<and> started db3 pid"
proof -
  obtain db1 h where a: "acquire_stmt pid own lease t0 (tables s) = (db1, Some h)"
    and c: "claims db1 pid = Some \<lparr>claim_owner_id = Some own,
        claim_fencing_generation = generation (tables s) pid + 1, claim_lease_expires_at = t0 + lease\<rparr>"
    using assms(4) by (cases "claims (tables s) pid") (auto simp: acquire_stmt_def generation_def Let_def)
  note g = acquire_generation[OF a] and f = acquire_frame[OF a]
  have cur: "claim_is_current db1 h t1" using c g assms(6,7) by (simp add: claim_defs)
  have "case progress db1 pid of None \<Rightarrow> True
      | Some p \<Rightarrow> prog_phase p = ''pre_network'' \<and> prog_fencing_generation p \<le> h_fencing_generation h"
    using preach_prog_ok[OF assms(1), of pid] assms(2) f g
    by (auto simp: prog_ok_def started_def split: option.splits)
  then obtain db2 p where p: "prepare_stmt h t1 db1 = (db2, Inr p)"
    and row: "progress db2 pid = Some p" "prog_phase p = ''pre_network''"
      "prog_fencing_generation p = h_fencing_generation h"
    using cur g by (auto simp: prepare_stmt_def Let_def split: option.splits)
  have "claim_is_current db2 h t2" and "cancellations db2 pid = None"
    using prepare_frame[OF p] f c g assms(3,7) by (auto simp: claim_defs)
  then obtain db3 q where "mark_txn h t2 db2 = (db3, Inr q)"
    using row g by (simp add: mark_txn_def Let_def)
  then show ?thesis using a p mark_ok(2)[of h t2 db2 db3 q] g by blast
qed

theorem recovery_before_network_witness:
  "\<exists>h db1 db2 db3 p q. acquire_stmt 7 ''w'' 60 0 (tables (initial_pstate lab_db)) = (db1, Some h)
    \<and> prepare_stmt h 1 db1 = (db2, Inr p) \<and> mark_txn h 2 db2 = (db3, Inr q) \<and> started db3 7"
proof -
  have "preach (initial_pstate lab_db)" by (intro preach.start) (simp add: fresh_tables_def lab_db_def)
  then show ?thesis
    by (rule recovery_before_network) (simp_all add: initial_pstate_def lab_db_def started_def)
qed

subsection \<open>The services refine the protocol\<close>

lemma retrying_psteps:
  assumes "\<And>t p. pstep\<^sup>*\<^sup>* p (p\<lparr>tables := fst (f t (tables p))\<rparr>)"
  shows "pstep\<^sup>*\<^sup>* p (p\<lparr>tables := fst (retrying env i n f (tables p))\<rparr>)"
proof (rule retrying_invariant[where I = "\<lambda>db. pstep\<^sup>*\<^sup>* p (p\<lparr>tables := db\<rparr>)"])
  show "pstep\<^sup>*\<^sup>* p (p\<lparr>tables := fst (f t db)\<rparr>)" if "pstep\<^sup>*\<^sup>* p (p\<lparr>tables := db\<rparr>)" for t db
    using rtranclp_trans[OF that assms[of "p\<lparr>tables := db\<rparr>" t]] by simp
qed simp

text \<open>What each service does to the tables is a sequence of protocol steps.\<close>

lemma no_error_fst [simp]: "fst (no_error p) = fst p"
  by (simp add: no_error_def)

lemma stmt_steps:
  "pstep p (p\<lparr>tables := fst (acquire_stmt pid own lease t (tables p))\<rparr>)"
  "pstep p (p\<lparr>tables := fst (renew_stmt h lease t (tables p))\<rparr>)"
  "pstep p (p\<lparr>tables := fst (release_stmt h t (tables p))\<rparr>)"
  "pstep p (p\<lparr>tables := fst (prepare_stmt h t (tables p))\<rparr>)"
  by (rule pstep.acquire pstep.renew pstep.release pstep.prepare, rule prod.collapse[symmetric])+

lemma retry_steps:
  "pstep\<^sup>*\<^sup>* p (p\<lparr>tables := fst (retrying env i n (\<lambda>now s. no_error (acquire_stmt pid own lease now s)) (tables p))\<rparr>)"
  "pstep\<^sup>*\<^sup>* p (p\<lparr>tables := fst (retrying env i n (\<lambda>now s. no_error (renew_stmt h lease now s)) (tables p))\<rparr>)"
  "pstep\<^sup>*\<^sup>* p (p\<lparr>tables := fst (retrying env i n (\<lambda>now s. no_error (release_stmt h now s)) (tables p))\<rparr>)"
  "pstep\<^sup>*\<^sup>* p (p\<lparr>tables := fst (retrying env i n (\<lambda>now s. no_error (prepare_stmt h now s)) (tables p))\<rparr>)"
  "pstep\<^sup>*\<^sup>* p (p\<lparr>tables := fst (retrying env i n (\<lambda>now s. no_error (s, already_released s h)) (tables p))\<rparr>)"
  by (rule retrying_psteps, simp add: stmt_steps r_into_rtranclp)+

lemma service_psteps:
  "pstep\<^sup>*\<^sup>* p (p\<lparr>tables := fst (claim_acquire env n pid own lease_s (tables p))\<rparr>)"
  "pstep\<^sup>*\<^sup>* p (p\<lparr>tables := fst (claim_renew env n h lease_s (tables p))\<rparr>)"
  "pstep\<^sup>*\<^sup>* p (p\<lparr>tables := fst (prepare_attempt env n h (tables p))\<rparr>)"
proof -
  have fst_case: "fst (case x of (d, Inl e) \<Rightarrow> (d, Inl (f e)) | (d, Inr None) \<Rightarrow> (d, g)
      | (d, Inr (Some k)) \<Rightarrow> (d, k' k)) = fst x"
    "fst (case y of (d, Inl e) \<Rightarrow> (d, u e) | (d, Inr (Inl e)) \<Rightarrow> (d, v e) | (d, Inr (Inr k)) \<Rightarrow> (d, k2 k)) = fst y"
    for x :: "coord \<times> ('x + 'y option)" and f g k' and y :: "coord \<times> ('a + ('b + 'c))" and u v k2
    by (auto split: prod.split sum.split option.split)
  show "pstep\<^sup>*\<^sup>* p (p\<lparr>tables := fst (claim_acquire env n pid own lease_s (tables p))\<rparr>)"
    using retry_steps(1)[of p env 0 n pid own] by (simp add: claim_acquire_def fst_case split: sum.split)
  show "pstep\<^sup>*\<^sup>* p (p\<lparr>tables := fst (claim_renew env n h lease_s (tables p))\<rparr>)"
    using retry_steps(2)[of p env 0 n h] by (simp add: claim_renew_def fst_case split: sum.split)
  show "pstep\<^sup>*\<^sup>* p (p\<lparr>tables := fst (prepare_attempt env n h (tables p))\<rparr>)"
    using retry_steps(4)[of p env 0 n h] by (simp add: prepare_attempt_def fst_case)
qed

lemma release_psteps: "pstep\<^sup>*\<^sup>* p (p\<lparr>tables := fst (claim_release env env2 n h (tables p))\<rparr>)"
proof -
  obtain db r where r: "retrying env 0 n (\<lambda>now s. no_error (release_stmt h now s)) (tables p) = (db, r)"
    by fastforce
  have 1: "pstep\<^sup>*\<^sup>* p (p\<lparr>tables := db\<rparr>)" using retry_steps(3)[of p env 0 n h] r by simp
  obtain db2 r2 where r2: "retrying env2 0 n (\<lambda>now s. no_error (s, already_released s h)) db = (db2, r2)"
    by fastforce
  have "pstep\<^sup>*\<^sup>* (p\<lparr>tables := db\<rparr>) (p\<lparr>tables := db2\<rparr>)"
    using retry_steps(5)[of "p\<lparr>tables := db\<rparr>" env2 0 n h] r2 by simp
  from rtranclp_trans[OF 1 this] 1 show ?thesis
    using r r2 by (auto simp: claim_release_def split: sum.split bool.split)
qed

lemma mark_twice:
  assumes "mark_txn h now db = (db1, Inr row)"
  shows "\<exists>e. mark_txn h t db1 = (db1, Inl e)"
proof -
  have "\<nexists>db' row. mark_txn h t db1 = (db', Inr row)" using mark_ok(1) mark_ok(2)[OF assms] by blast
  then show ?thesis using mark_error[of h t db1] by (cases "mark_txn h t db1") (metis sum.exhaust)
qed

lemma retry_after_mark:
  assumes "\<And>t. \<exists>e. mark_txn h t db = (db, Inl e)"
  shows "\<exists>e. retrying env i n (mark_txn h) db = (db, Inl e)"
proof (induction n arbitrary: i)
  case (Suc n)
  obtain fate now where e: "env i = (fate, now)" by (cases "env i")
  then show ?case using assms[of now] Suc[of "i + 1"] by (cases fate) auto
qed simp

lemma mark_service_cases:
  assumes "mark_network_started env retries h db = (db', r)"
  shows "(case r of
      Inr row \<Rightarrow> \<exists>now. mark_txn h now db = (db', Inr row)
    | Inl _ \<Rightarrow> db' = db \<or> (\<exists>now row. mark_txn h now db = (db', Inr row)))"
proof -
  have "case r of Inr row \<Rightarrow> \<exists>now. mark_txn h now db = (db', Inr row)
      | Inl _ \<Rightarrow> db' = db \<or> (\<exists>now row. mark_txn h now db = (db', Inr row))"
    if "retrying env i n (mark_txn h) db = (db', r)" for i n
    using that
  proof (induction n arbitrary: i)
    case (Suc n)
    obtain fate now where e: "env i = (fate, now)" by (cases "env i")
    obtain d1 r1 where m: "mark_txn h now db = (d1, r1)" by (cases "mark_txn h now db")
    show ?case
    proof (cases "fate = CommitLost \<and> \<not> isl r1")
      case True
      then obtain row where row: "r1 = Inr row" by (cases r1) auto
      obtain x where "retrying env (i + 1) n (mark_txn h) d1 = (d1, Inl x)"
        using retry_after_mark[of h d1 env "i + 1" n] mark_twice[OF m[unfolded row]] by blast
      then show ?thesis using Suc.prems e m row True by auto
    next
      case False
      then show ?thesis using Suc.prems Suc.IH[of "i + 1"] e m by (cases fate; cases r1) auto
    qed
  qed auto
  then show ?thesis using assms by (auto simp: mark_network_started_def split: if_splits)
qed

text \<open>
  C8. \<open>mark_network_started\<close> against rollbacks and commits whose outcome is lost: it answers
  success only when exactly its own transaction was committed once and seen; on every error
  the tables are unchanged or the plan was marked once without the worker learning of it, so
  that retrying never lets a worker go to the network on a doubtful commit.
\<close>

theorem mark_service_refines:
  assumes "mark_network_started env retries h db = (db', r)"
  shows "(case r of
      Inr row \<Rightarrow> \<exists>now. mark_txn h now db = (db', Inr row)
    | Inl _ \<Rightarrow> db' = db \<or> (\<exists>now row. mark_txn h now db = (db', Inr row)))"
  using assms by (rule mark_service_cases)

theorem mark_service_refines_witness:
  "\<exists>now row. mark_txn lab_handle now lab_prepared
     = (fst (mark_network_started (\<lambda>i. (if i = 0 then CommitLost else AttemptOk, 2)) 3 lab_handle lab_prepared),
        Inr row)"
proof -
  let ?r = "mark_network_started (\<lambda>i. (if i = 0 then CommitLost else AttemptOk, 2)) 3 lab_handle lab_prepared"
  have r: "?r = (lab_marked, Inl (Domain ProgressLost))"
    by (simp add: mark_network_started_def numeral_3_eq_3 lab_defs Let_def)
  have "lab_marked \<noteq> lab_prepared"
  proof
    assume "lab_marked = lab_prepared"
    then have "progress lab_marked 7 = progress lab_prepared 7" by simp
    then show False by (simp add: lab_defs Let_def)
  qed
  then show ?thesis using mark_service_refines[OF r] r by auto
qed

end
