(* ===== verification/Safety_Audit.thy ===== *)
theory Safety_Audit
  imports Execution_Plan
begin

text \<open>
  The append-only safety audit (\<open>services/safety_audit.py\<close>): the three kinds of records and the
  observer that persists a policy decision in a transaction of its own.
\<close>

subsection \<open>Records\<close>

definition plan_created_record :: "execution_plan \<Rightarrow> plan_action list \<Rightarrow> row_id \<Rightarrow> safety_decision_record" where
  "plan_created_record plan actions test_case_id =
     \<lparr>sdr_stage = ''plan'', sdr_operation = ''testcase_plan'', sdr_outcome = ''created'',
      sdr_target_id = plan_target_id plan,
      sdr_authorization_revision_id = Some (plan_authorization_revision_id plan),
      sdr_execution_plan_id = Some (plan_id plan),
      sdr_plan_action_id = (case actions of [a] \<Rightarrow> Some (act_id a) | _ \<Rightarrow> None),
      sdr_test_case_id = Some test_case_id, sdr_test_run_id = None, sdr_code = None,
      sdr_reason = None, sdr_matched_scope_id = None, sdr_policy_evaluated_at = None\<rparr>"

definition append_plan_created ::
  "execution_plan \<Rightarrow> plan_action list \<Rightarrow> row_id \<Rightarrow> safety_decision_record list
   \<Rightarrow> safety_decision_record list" where
  "append_plan_created plan actions test_case_id audit =
     audit @ [plan_created_record plan actions test_case_id]"

definition append_policy_decision ::
  "string \<Rightarrow> row_id \<Rightarrow> policy_decision \<Rightarrow> row_id option \<Rightarrow> row_id option \<Rightarrow> row_id option
   \<Rightarrow> safety_decision_record list \<Rightarrow> string + safety_decision_record list" where
  "append_policy_decision operation target_id decision test_case_id execution_plan_id plan_action_id audit =
     (if operation \<notin> set [''policy_check'', ''test_execution'', ''openapi_import''] then
        Inl ''unsupported policy audit operation''
      else Inr (audit @ [\<lparr>sdr_stage = ''policy'', sdr_operation = operation,
        sdr_outcome = (if allowed decision then ''allowed'' else ''blocked''),
        sdr_target_id = target_id,
        sdr_authorization_revision_id = authorization_revision_id decision,
        sdr_execution_plan_id = execution_plan_id, sdr_plan_action_id = plan_action_id,
        sdr_test_case_id = test_case_id, sdr_test_run_id = None,
        sdr_code = Some (code decision), sdr_reason = Some (reason decision),
        sdr_matched_scope_id = matched_scope_id decision,
        sdr_policy_evaluated_at = Some (evaluated_at decision)\<rparr>]))"

definition append_execution_outcome ::
  "string \<Rightarrow> row_id \<Rightarrow> row_id option \<Rightarrow> row_id \<Rightarrow> row_id option \<Rightarrow> row_id option \<Rightarrow> row_id option
   \<Rightarrow> string option \<Rightarrow> string option \<Rightarrow> safety_decision_record list
   \<Rightarrow> string + safety_decision_record list" where
  "append_execution_outcome outcome target_id revision_id test_case_id execution_plan_id
     plan_action_id test_run_id cd rsn audit =
     (if outcome \<notin> set [''blocked'', ''succeeded'', ''failed''] then
        Inl ''unsupported execution audit outcome''
      else Inr (audit @ [\<lparr>sdr_stage = ''execution'', sdr_operation = ''test_execution'',
        sdr_outcome = outcome, sdr_target_id = target_id,
        sdr_authorization_revision_id = revision_id,
        sdr_execution_plan_id = execution_plan_id, sdr_plan_action_id = plan_action_id,
        sdr_test_case_id = Some test_case_id, sdr_test_run_id = test_run_id,
        sdr_code = cd, sdr_reason = rsn, sdr_matched_scope_id = None,
        sdr_policy_evaluated_at = None\<rparr>]))"

subsection \<open>Facts\<close>

lemma append_plan_created_row: "safety_decision_record_row_ok (plan_created_record plan actions tc)"
  by (simp add: plan_created_record_def safety_decision_record_row_ok_def)

lemma append_policy_decision_ok:
  assumes "append_policy_decision op tid d tc pid aid audit = Inr audit'"
  shows "\<exists>r. audit' = audit @ [r] \<and> safety_decision_record_row_ok r
    \<and> sdr_outcome r = (if allowed d then ''allowed'' else ''blocked'') \<and> sdr_code r = Some (code d)"
  using assms
  by (auto simp: append_policy_decision_def safety_decision_record_row_ok_def split: if_splits)

lemma append_execution_outcome_ok:
  assumes "append_execution_outcome outc tid rid tc pid aid run cd rsn audit = Inr audit'"
  shows "\<exists>r. audit' = audit @ [r] \<and> safety_decision_record_row_ok r \<and> sdr_outcome r = outc
    \<and> sdr_code r = cd \<and> sdr_execution_plan_id r = pid \<and> sdr_test_run_id r = run"
  using assms
  by (auto simp: append_execution_outcome_def safety_decision_record_row_ok_def split: if_splits)

end
