(* ===== verification/Http_Executor.thy ===== *)
theory Http_Executor
  imports Safety_Audit Gateway
begin

text \<open>
  \<open>PolicyEnforcedHTTPExecutor\<close> (\<open>executors/http.py\<close>) and the loading of the authorization of a
  target (\<open>services/execution_authorization.py\<close>). The callbacks that the caller passes (rate
  limiter, refresh, observer, before-network hook and gateway) are functions on a state of the
  caller's choice, so that what happens between the checks is part of the model. The
  \<open>request_boundary\<close> and \<open>requested_rate_limit\<close> parameters of the research layer are absent.
\<close>

subsection \<open>Loading the authorization\<close>

type_synonym execution_authorization = "target \<times> authorization_revision option \<times> scope list"

definition load_execution_authorization :: "store \<Rightarrow> row_id \<Rightarrow> string + execution_authorization" where
  "load_execution_authorization db target_id =
     (case targets db target_id of
        None \<Rightarrow> Inl ''Target not found.''
      | Some t \<Rightarrow>
         Inr (t, (case tgt_authorization_revision_id t of
                    None \<Rightarrow> None | Some rid \<Rightarrow> revisions db rid),
              filter scope_is_active (scopes_of db target_id)))"

subsection \<open>The executor\<close>

definition AUTO_EXECUTABLE_METHODS :: "string list" where
  "AUTO_EXECUTABLE_METHODS = [''GET'']"

definition MAX_RESPONSE_BYTES :: int where
  "MAX_RESPONSE_BYTES = 1000000"

datatype execution_error =
  Blocked string string
| HttpExecution string
| Unexpected string

record http_execution_result =
  hx_status_code :: int
  hx_body :: string
  hx_content_type :: "string option"
  hx_content_encoding :: "string option"

datatype rate_outcome = RateGranted | RateConfigurationError | RateCoordinationError

text \<open>The observer may raise an \<open>ExecutionBlockedError\<close>, which passes, or anything else.\<close>

datatype observe_outcome = Observed | ObserverBlocked string string | ObserverRaised

record 's executor_env =
  xe_hosts :: "string list"
  xe_clock :: "'s \<Rightarrow> datetime"
  xe_wait :: "string \<Rightarrow> pynum \<Rightarrow> 's \<Rightarrow> 's \<times> rate_outcome"
  xe_refresh :: "('s \<Rightarrow> 's \<times> (execution_error + execution_authorization)) option"
  xe_observer :: "(policy_decision \<Rightarrow> 's \<Rightarrow> 's \<times> observe_outcome) option"
  xe_before_network :: "('s \<Rightarrow> 's \<times> (execution_error + unit)) option"
  xe_gateway :: "row_id \<Rightarrow> string \<Rightarrow> string \<Rightarrow> string \<Rightarrow> (string \<times> string) list \<Rightarrow> int
                 \<Rightarrow> 's \<Rightarrow> 's \<times> (coded_error + gateway_result)"

definition observe_policy_decision ::
  "'s executor_env \<Rightarrow> policy_decision \<Rightarrow> 's \<Rightarrow> 's \<times> (execution_error + unit)" where
  "observe_policy_decision env decision s =
     (case xe_observer env of
        None \<Rightarrow> (s, Inl (Blocked ''safety_audit_observer_missing''
                   ''Required safety audit observer is unavailable.''))
      | Some observer \<Rightarrow>
         (case observer decision s of
            (s', Observed) \<Rightarrow> (s', Inr ())
          | (s', ObserverBlocked cd rsn) \<Rightarrow> (s', Inl (Blocked cd rsn))
          | (s', ObserverRaised) \<Rightarrow>
              (s', Inl (Blocked ''safety_audit_persistence_failed''
                 ''Required safety audit record could not be persisted.''))))"

definition raise_if_denied :: "policy_decision \<Rightarrow> execution_error + unit" where
  "raise_if_denied decision =
     (if allowed decision then Inr () else Inl (Blocked (code decision) (reason decision)))"

text \<open>The first evaluation, on the authorization that the caller passed.\<close>

definition first_decision ::
  "'s executor_env \<Rightarrow> target \<Rightarrow> authorization_revision option \<Rightarrow> scope list \<Rightarrow> string \<Rightarrow> string
   \<Rightarrow> 's \<Rightarrow> 's \<times> (execution_error + policy_decision)" where
  "first_decision env t revision scopes mth url s =
     (case evaluate (xe_hosts env) t revision scopes url mth None (xe_clock env s) of
        Inl _ \<Rightarrow> (s, Inl (Unexpected ''evaluation_time must be timezone-aware''))
      | Inr decision \<Rightarrow>
         (if allowed decision then (s, Inr decision)
          else (case observe_policy_decision env decision s of
              (s', Inl e) \<Rightarrow> (s', Inl e)
            | (s', Inr _) \<Rightarrow> (s', Inl (Blocked (code decision) (reason decision))))))"

text \<open>The second evaluation, on the persisted authorization as it is after the rate limiter.\<close>

definition second_decision ::
  "'s executor_env \<Rightarrow> execution_authorization \<Rightarrow> string \<Rightarrow> string \<Rightarrow> 's
   \<Rightarrow> 's \<times> (execution_error + policy_decision)" where
  "second_decision env auth mth url s =
     (case auth of (t, revision, scopes) \<Rightarrow>
       (case evaluate (xe_hosts env) t revision scopes url mth None (xe_clock env s) of
          Inl _ \<Rightarrow> (s, Inl (Unexpected ''evaluation_time must be timezone-aware''))
        | Inr decision \<Rightarrow>
           (case observe_policy_decision env decision s of
              (s', Inl e) \<Rightarrow> (s', Inl e)
            | (s', Inr _) \<Rightarrow> (s', res_map (\<lambda>_. decision) (raise_if_denied decision)))))"

definition wait_for_rate ::
  "'s executor_env \<Rightarrow> target \<Rightarrow> authorization_revision option \<Rightarrow> 's \<Rightarrow> 's \<times> (execution_error + unit)" where
  "wait_for_rate env t revision s =
     (case revision of
        None \<Rightarrow> (s, Inl (Unexpected ''AttributeError''))
      | Some rv \<Rightarrow>
         (case xe_wait env (''target:'' @ show_int (tgt_id t)) (rev_max_requests_per_second rv) s of
            (s', RateGranted) \<Rightarrow> (s', Inr ())
          | (s', RateConfigurationError) \<Rightarrow>
              (s', Inl (Blocked ''invalid_authorization_rate_limit''
                 ''AuthorizationRevision request rate limit must be finite and greater than zero.''))
          | (s', RateCoordinationError) \<Rightarrow>
              (s', Inl (Blocked ''shared_rate_coordination_failed''
                 ''Shared request rate coordination failed.''))))"

text \<open>
  Everything of \<open>execute\<close> before the gateway is called: the result is the refreshed target on
  which the request may be made.
\<close>

definition execute_gate ::
  "'s executor_env \<Rightarrow> target \<Rightarrow> authorization_revision option \<Rightarrow> scope list \<Rightarrow> string \<Rightarrow> string
   \<Rightarrow> 's \<Rightarrow> 's \<times> (execution_error + target)" where
  "execute_gate env t revision scopes mth url s =
     (let normalized_method = py_upper (py_strip mth) in
      if normalized_method \<notin> set AUTO_EXECUTABLE_METHODS then
        (s, Inl (Blocked ''automatic_method_blocked''
           ''Automatic execution is currently limited to GET requests.''))
      else (case first_decision env t revision scopes normalized_method url s of
        (s1, Inl e) \<Rightarrow> (s1, Inl e)
      | (s1, Inr decision) \<Rightarrow>
      (case xe_refresh env of
        None \<Rightarrow> (s1, Inl (Blocked ''authorization_refresh_missing''
           ''Persisted authorization refresh is required before network execution.''))
      | Some refresh_authorization \<Rightarrow>
      (let selected_revision_id = authorization_revision_id decision in
      case wait_for_rate env t revision s1 of
        (s2, Inl e) \<Rightarrow> (s2, Inl e)
      | (s2, Inr _) \<Rightarrow>
      (case refresh_authorization s2 of
        (s3, Inl e) \<Rightarrow> (s3, Inl e)
      | (s3, Inr (t', revision', scopes')) \<Rightarrow>
      if tgt_authorization_revision_id t' \<noteq> selected_revision_id
         \<or> revision' = None \<or> map_option rev_id revision' \<noteq> selected_revision_id then
        (s3, Inl (Blocked ''authorization_revision_changed''
           ''Target authorization revision changed before execution.''))
      else (case second_decision env (t', revision', scopes') normalized_method url s3 of
        (s4, Inl e) \<Rightarrow> (s4, Inl e)
      | (s4, Inr _) \<Rightarrow>
      if tgt_network_mode t' \<noteq> PRIVATE_LOCAL then
        (s4, Inl (Blocked ''external_network_mode_not_ready''
           (''External/public-authorized network execution is not available until the ''
            @ ''remaining release gates exist.'')))
      else (case xe_before_network env of
        None \<Rightarrow> (s4, Inr t')
      | Some before_network \<Rightarrow>
         (case before_network s4 of
            (s5, Inl e) \<Rightarrow> (s5, Inl e) | (s5, Inr _) \<Rightarrow> (s5, Inr t')))))))))"

definition http_execute ::
  "'s executor_env \<Rightarrow> target \<Rightarrow> authorization_revision option \<Rightarrow> scope list \<Rightarrow> string \<Rightarrow> string
   \<Rightarrow> (string \<times> string) list \<Rightarrow> 's \<Rightarrow> 's \<times> (execution_error + http_execution_result)" where
  "http_execute env t revision scopes mth url headers s =
     (case execute_gate env t revision scopes mth url s of
        (s1, Inl e) \<Rightarrow> (s1, Inl e)
      | (s1, Inr t') \<Rightarrow>
         (case xe_gateway env (tgt_id t') (tgt_network_mode t') (py_upper (py_strip mth)) url headers
                 MAX_RESPONSE_BYTES s1 of
            (s2, Inl e) \<Rightarrow> (s2, Inl (HttpExecution (err_code e @ '': '' @ err_reason e)))
          | (s2, Inr r) \<Rightarrow>
             (s2, Inr \<lparr>hx_status_code = gw_status_code r, hx_body = gw_body r,
                       hx_content_type = gw_content_type r,
                       hx_content_encoding = gw_content_encoding r\<rparr>)))"

subsection \<open>Facts\<close>

lemma second_decision_ok:
  assumes "second_decision env (t, revision, scopes) mth url s = (s', Inr d)"
  shows "request_authorized (xe_hosts env) t revision scopes url mth (xe_clock env s)"
    and "allowed d" and "\<exists>ob. xe_observer env = Some ob \<and> ob d s = (s', Observed)"
proof -
  obtain d' where e: "evaluate (xe_hosts env) t revision scopes url mth None (xe_clock env s) = Inr d'"
    and o: "observe_policy_decision env d' s = (s', Inr ())" and a: "raise_if_denied d' = Inr ()" and d: "d' = d"
    using assms by (auto simp: second_decision_def res_map_def split: sum.splits prod.splits)
  show "allowed d" using a d by (simp add: raise_if_denied_def split: if_splits)
  then show "request_authorized (xe_hosts env) t revision scopes url mth (xe_clock env s)"
    using evaluate_denied[of "xe_hosts env" t revision scopes url mth "xe_clock env s"] e d
      evaluate_now[of "xe_hosts env" t revision scopes url mth "xe_clock env s" "xe_clock env s"] by metis
  show "\<exists>ob. xe_observer env = Some ob \<and> ob d s = (s', Observed)"
    using o d by (auto simp: observe_policy_decision_def split: option.splits prod.splits observe_outcome.splits)
qed

text \<open>What is known when the gate lets a request through.\<close>

definition gate_passed ::
  "'s executor_env \<Rightarrow> target \<Rightarrow> authorization_revision option \<Rightarrow> string \<Rightarrow> string \<Rightarrow> 's \<Rightarrow> target \<Rightarrow> bool" where
  "gate_passed env t revision mth url s' t' \<longleftrightarrow>
     py_upper (py_strip mth) = ''GET'' \<and> tgt_network_mode t' = PRIVATE_LOCAL
     \<and> (\<exists>refresh s2 s3 s4 revision' scopes' d ob. xe_refresh env = Some refresh
          \<and> refresh s2 = (s3, Inr (t', revision', scopes'))
          \<and> map_option rev_id revision' = map_option rev_id revision \<and> revision' \<noteq> None
          \<and> request_authorized (xe_hosts env) t' revision' scopes' url ''GET'' (xe_clock env s3)
          \<and> xe_observer env = Some ob \<and> ob d s3 = (s4, Observed) \<and> allowed d
          \<and> (case xe_before_network env of
               None \<Rightarrow> s' = s4 | Some before \<Rightarrow> before s4 = (s', Inr ())))"

lemma decision_revision_id:
  assumes "evaluate hosts t revision scopes url mth None now = Inr d"
  shows "authorization_revision_id d = map_option rev_id revision"
proof -
  have "case evaluate hosts t revision scopes url mth None now of Inl _ \<Rightarrow> True
      | Inr d \<Rightarrow> authorization_revision_id d = map_option rev_id revision"
    by (simp add: evaluate_def Let_def split: option.split sum.split)
  then show ?thesis using assms by simp
qed

lemma first_decision_ok:
  assumes "first_decision env t revision scopes mth url s = (s', Inr d)"
  shows "authorization_revision_id d = map_option rev_id revision" and "s' = s"
proof -
  have e: "evaluate (xe_hosts env) t revision scopes url mth None (xe_clock env s) = Inr d" and "s' = s"
    using assms by (auto simp: first_decision_def split: sum.splits if_splits prod.splits)
  then show "authorization_revision_id d = map_option rev_id revision" "s' = s"
    using decision_revision_id by auto
qed

lemma gate_ok:
  assumes "execute_gate env t revision scopes mth url s = (s', Inr t')"
  shows "gate_passed env t revision mth url s' t'"
proof -
  have m: "py_upper (py_strip mth) = ''GET''"
    using assms by (auto simp: execute_gate_def AUTO_EXECUTABLE_METHODS_def Let_def split: if_splits)
  obtain s1 d refresh where fd: "first_decision env t revision scopes ''GET'' url s = (s1, Inr d)"
    and rf: "xe_refresh env = Some refresh"
    using assms m by (auto simp: execute_gate_def Let_def split: if_splits prod.splits sum.splits option.splits)
  obtain s2 where w: "wait_for_rate env t revision s1 = (s2, Inr ())"
    using assms m fd rf by (auto simp: execute_gate_def Let_def split: if_splits prod.splits sum.splits)
  obtain s3 t3 revision' scopes' where r: "refresh s2 = (s3, Inr (t3, revision', scopes'))"
    and same: "revision' \<noteq> None" "map_option rev_id revision' = authorization_revision_id d"
    using assms m fd rf w by (auto simp: execute_gate_def Let_def split: if_splits prod.splits sum.splits)
  obtain s4 d' where sd: "second_decision env (t3, revision', scopes') ''GET'' url s3 = (s4, Inr d')"
    using assms m fd rf w r by (auto simp: execute_gate_def Let_def split: if_splits prod.splits sum.splits)
  have last: "t' = t3" "tgt_network_mode t' = PRIVATE_LOCAL"
      "case xe_before_network env of None \<Rightarrow> s' = s4 | Some before \<Rightarrow> before s4 = (s', Inr ())"
    using assms m fd rf w r sd
    by (auto simp: execute_gate_def Let_def split: if_splits prod.splits sum.splits option.splits)
  show ?thesis
    unfolding gate_passed_def
    using m rf r same last first_decision_ok(1)[OF fd] second_decision_ok[OF sd] by metis
qed

text \<open>A relation that every callback respects holds across the gate.\<close>

locale gate_relation =
  fixes env :: "'s executor_env" and R :: "'s \<Rightarrow> 's \<Rightarrow> bool"
  assumes R_refl: "R s s" and R_trans: "R s t \<Longrightarrow> R t u \<Longrightarrow> R s u"
    and R_wait: "R s (fst (xe_wait env k r s))"
    and R_refresh: "xe_refresh env = Some f \<Longrightarrow> R s (fst (f s))"
    and R_observer: "xe_observer env = Some g \<Longrightarrow> R s (fst (g d s))"
    and R_before: "xe_before_network env = Some b \<Longrightarrow> R s (fst (b s))"
    and refresh_not_http: "xe_refresh env = Some f \<Longrightarrow> snd (f s) \<noteq> Inl (HttpExecution m)"
    and before_not_http: "xe_before_network env = Some b \<Longrightarrow> snd (b s) \<noteq> Inl (HttpExecution m)"
begin

lemma observe_R: "R s (fst (observe_policy_decision env d s))"
  using R_refl[of s] R_observer[of _ s d]
  by (auto simp: observe_policy_decision_def split: option.split prod.split observe_outcome.split; metis fst_conv)

lemma first_R: "R s (fst (first_decision env t revision scopes mth url s))"
  using R_refl[of s] observe_R[of s]
  by (auto simp: first_decision_def split: sum.split prod.split) (metis fst_conv)+

lemma second_R: "R s (fst (second_decision env a mth url s))"
  using R_refl[of s] observe_R[of s]
  by (auto simp: second_decision_def split: sum.split prod.split) (metis fst_conv)+

lemma wait_R: "R s (fst (wait_for_rate env t revision s))"
  using R_refl[of s] R_wait[of s]
  by (auto simp: wait_for_rate_def split: option.split prod.split rate_outcome.split) (metis fst_conv)+

lemma decisions_not_http:
  "snd (first_decision env t revision scopes mth url s) \<noteq> Inl (HttpExecution m)"
  "snd (second_decision env a mth url s) \<noteq> Inl (HttpExecution m)"
  "snd (wait_for_rate env t revision s) \<noteq> Inl (HttpExecution m)"
proof -
  have o: "snd (observe_policy_decision env d s) \<noteq> Inl (HttpExecution m)" for d
    by (simp add: observe_policy_decision_def split: option.split prod.split observe_outcome.split)
  show "snd (first_decision env t revision scopes mth url s) \<noteq> Inl (HttpExecution m)"
    using o by (auto simp: first_decision_def split: sum.split prod.split) (metis snd_conv)+
  show "snd (second_decision env a mth url s) \<noteq> Inl (HttpExecution m)"
    using o by (auto simp: second_decision_def raise_if_denied_def split: sum.split prod.split) (metis snd_conv)+
  show "snd (wait_for_rate env t revision s) \<noteq> Inl (HttpExecution m)"
    by (simp add: wait_for_rate_def split: option.split prod.split rate_outcome.split)
qed

lemma gate_R:
  "R s (fst (execute_gate env t revision scopes mth url s))
   \<and> snd (execute_gate env t revision scopes mth url s) \<noteq> Inl (HttpExecution m)"
proof -
  let ?m = "py_upper (py_strip mth)"
  obtain s1 r1 where 1: "first_decision env t revision scopes ?m url s = (s1, r1)" by fastforce
  obtain s2 r2 where 2: "wait_for_rate env t revision s1 = (s2, r2)" by fastforce
  have R1: "R s s1" "r1 \<noteq> Inl (HttpExecution m)"
    using first_R[of s t revision scopes ?m url] decisions_not_http(1)[of t revision scopes ?m url s m] 1 by auto
  have R2: "R s s2" "r2 \<noteq> Inl (HttpExecution m)"
    using R_trans[OF R1(1)] wait_R[of s1 t revision] decisions_not_http(3)[of t revision s1 m] 2 by auto
  have last: "R s (fst (second_decision env a ?m url s3))
      \<and> snd (second_decision env a ?m url s3) \<noteq> Inl (HttpExecution m)
      \<and> R s (fst (b (fst (second_decision env a ?m url s3))))
      \<and> snd (b (fst (second_decision env a ?m url s3))) \<noteq> Inl (HttpExecution m)"
    if "R s s3" "xe_before_network env = Some b" for a s3 b
    using R_trans[OF that(1) second_R[of s3 a ?m url]] R_trans[OF _ R_before[OF that(2)]]
      decisions_not_http(2) before_not_http[OF that(2)] by blast
  have last': "R s (fst (second_decision env a ?m url s3))
      \<and> snd (second_decision env a ?m url s3) \<noteq> Inl (HttpExecution m)" if "R s s3" for a s3
    using R_trans[OF that second_R[of s3 a ?m url]] decisions_not_http(2) by blast
  show ?thesis
  proof (cases "xe_refresh env")
    case None
    then show ?thesis using R1 1 R_refl by (auto simp: execute_gate_def Let_def split: sum.split)
  next
    case (Some f)
    obtain s3 r3 where 3: "f s2 = (s3, r3)" by fastforce
    have R3: "R s s3" "r3 \<noteq> Inl (HttpExecution m)"
      using R_trans[OF R2(1) R_refresh[OF Some, of s2]] refresh_not_http[OF Some, of s2 m] 3 by auto
    note g = execute_gate_def Let_def 1 2 3 Some
    consider d where "r1 = Inr d" "r2 = Inr ()" "\<exists>a. r3 = Inr a"
      | "(\<exists>e. r1 = Inl e) \<or> (\<exists>e. r2 = Inl e) \<or> (\<exists>e. r3 = Inl e)"
      by (cases r1; cases r2; cases r3) auto
    then show ?thesis
    proof cases
      case 1
      obtain t' rv' sc' where a: "r3 = Inr (t', rv', sc')" using 1(3) by auto
      obtain s4 r4 where 4: "second_decision env (t', rv', sc') ?m url s3 = (s4, r4)" by fastforce
      note R4 = last'[OF R3(1), of "(t', rv', sc')", unfolded 4]
      show ?thesis
      proof (cases "xe_before_network env")
        case None
        then show ?thesis using 1 a 4 R4 R3 R_refl[of s] by (cases r4) (simp_all add: g)
      next
        case (Some b)
        obtain s5 r5 where 5: "b s4 = (s5, r5)" by fastforce
        note R5 = last[OF R3(1) Some, of "(t', rv', sc')", unfolded 4]
        show ?thesis using 1 a 4 5 Some R5 R3 R_refl[of s] by (cases r4; cases r5) (simp_all add: g)
      qed
    next
      case 2
      then show ?thesis using R1 R2 R3 R_refl[of s] by (cases r1; cases r2; cases r3) (simp_all add: g)
    qed
  qed
qed

end

subsection \<open>Property\<close>

text \<open>
  C16. The executor calls the network gateway only through the gate: the call is a GET to a
  private/local target; the authorization was read again after the rate limiter waited and names
  the same revision as the first decision; the request is authorised on that fresh data by the
  specification of the scope policy; the allowing decision was recorded by the audit observer;
  and the before-network hook succeeded last. When the gate refuses, the state is what the gate
  left and the gateway is not called.
\<close>

theorem executor_gate_sound:
  "case execute_gate env t revision scopes mth url s of
     (s', Inl e) \<Rightarrow> http_execute env t revision scopes mth url headers s = (s', Inl e)
   | (s', Inr t') \<Rightarrow> gate_passed env t revision mth url s' t'
       \<and> fst (http_execute env t revision scopes mth url headers s)
         = fst (xe_gateway env (tgt_id t') PRIVATE_LOCAL ''GET'' url headers MAX_RESPONSE_BYTES s')"
proof (cases "execute_gate env t revision scopes mth url s")
  case (Pair s' r)
  show ?thesis
  proof (cases r)
    case (Inl e)
    then show ?thesis using Pair by (simp add: http_execute_def)
  next
    case (Inr t')
    then have "gate_passed env t revision mth url s' t'" using gate_ok Pair by metis
    moreover from this have "py_upper (py_strip mth) = ''GET''" "tgt_network_mode t' = PRIVATE_LOCAL"
      by (simp_all add: gate_passed_def)
    ultimately show ?thesis using Pair Inr by (simp add: http_execute_def split: prod.splits sum.splits)
  qed
qed

end
