(* ===== verification/Plan_Execution.thy ===== *)
theory Plan_Execution
  imports Credentials Plan_Approval Plan_Protocol Http_Executor
begin

text \<open>
  \<open>PlanExecutionService\<close> (\<open>services/plan_execution.py\<close>): the whole run of a plan by one worker, from
  the preflight checks through claim, progress, the policy-enforced executor and the network
  gateway to the canonical result, with every error path, for plans of the legacy
  dispatcher (\<open>research=None\<close>).

  The run is a computation on a \<open>world\<close>: the shared database, and what the worker itself keeps.
  Every access to the database is one \<open>interact\<close>, before which the other sessions may do
  anything (\<open>x_others\<close>); the statements that a service retries form one interaction. What the
  outside decides (clocks, failures, fates of transactions, identifiers, the network) is indexed
  by the number of the interaction. The tokens and the count of requests in the \<open>pstate\<close> are
  ghost state. A test run is named by its identifier.
\<close>

subsection \<open>The world of a run\<close>

record shared =
  sh_store :: store
  sh_proto :: pstate
  sh_runs :: "row_id \<Rightarrow> test_run option"
  sh_audit :: "safety_decision_record list"

record world =
  w_shared :: shared
  w_tick :: nat
  w_handle :: "claim_handle option"
  w_connections :: "(ip_address \<times> nat) list"

record exec_env =
  x_others :: "nat \<Rightarrow> shared \<Rightarrow> shared"
  x_attempts :: "nat \<Rightarrow> nat \<Rightarrow> attempt \<times> datetime"
  x_caller :: "nat \<Rightarrow> attempt \<times> datetime"
  x_fails :: "nat \<Rightarrow> bool"
  x_persist :: "nat \<Rightarrow> attempt"
  x_clock :: "nat \<Rightarrow> datetime"
  x_rate :: "nat \<Rightarrow> rate_outcome"
  x_gateway :: "nat \<Rightarrow> gateway_env"
  x_duration :: "nat \<Rightarrow> int"
  x_run_id :: "nat \<Rightarrow> row_id"
  x_sha256 :: "string \<Rightarrow> string"
  x_bearer :: bearer_env
  x_hosts :: "string list"
  x_retries :: nat
  x_lease :: pynum
  x_owner :: string
  x_worker :: nat

datatype exec_error =
  PlanExecutionError string | PlanExecutionNotFound string | ExecutionBlocked string string | OtherError string

text \<open>A computation ends with a value, or leaves the function: by \<open>return run\<close> or by an exception.\<close>

datatype leave = Return row_id | Raise exec_error

type_synonym 'a comp = "world \<Rightarrow> world \<times> (leave + 'a)"

definition ret :: "'a \<Rightarrow> 'a comp" where
  "ret x w = (w, Inr x)"

definition leaving :: "leave \<Rightarrow> 'a comp" where
  "leaving l w = (w, Inl l)"

definition bindc :: "'a comp \<Rightarrow> ('a \<Rightarrow> 'b comp) \<Rightarrow> 'b comp" where
  "bindc m f w = (case m w of (w', Inl l) \<Rightarrow> (w', Inl l) | (w', Inr x) \<Rightarrow> f x w')"

definition lift :: "leave + 'a \<Rightarrow> 'a comp" where
  "lift r w = (w, r)"

definition interact :: "exec_env \<Rightarrow> (nat \<Rightarrow> shared \<Rightarrow> shared \<times> 'a) \<Rightarrow> world \<Rightarrow> world \<times> 'a" where
  "interact env f w =
     (case f (w_tick w) (x_others env (w_tick w) (w_shared w)) of
        (s, r) \<Rightarrow> (w\<lparr>w_shared := s, w_tick := w_tick w + 1\<rparr>, r))"

definition interactc :: "exec_env \<Rightarrow> (nat \<Rightarrow> shared \<Rightarrow> shared \<times> 'a) \<Rightarrow> 'a comp" where
  "interactc env f w = (case interact env f w of (w', r) \<Rightarrow> (w', Inr r))"

abbreviation sh_tables :: "shared \<Rightarrow> coord" where
  "sh_tables s \<equiv> tables (sh_proto s)"

text \<open>A service that works on the coordination tables.\<close>

definition on_tables :: "(coord \<Rightarrow> coord \<times> 'a) \<Rightarrow> shared \<Rightarrow> shared \<times> 'a" where
  "on_tables f s = (case f (sh_tables s) of (db', r) \<Rightarrow> (s\<lparr>sh_proto := (sh_proto s)\<lparr>tables := db'\<rparr>\<rparr>, r))"

subsection \<open>Audit of blocked and failed runs\<close>

record action_ids =
  ai_target :: row_id
  ai_revision :: row_id
  ai_case :: row_id
  ai_plan :: row_id
  ai_action :: row_id

text \<open>One audit transaction; \<open>False\<close> when it raised and was rolled back.\<close>

definition append_outcome ::
  "exec_env \<Rightarrow> action_ids \<Rightarrow> string \<Rightarrow> string \<Rightarrow> string \<Rightarrow> nat \<Rightarrow> shared \<Rightarrow> shared \<times> bool" where
  "append_outcome env ids outcome cd rsn n s =
     (if x_fails env n then (s, False)
      else (case append_execution_outcome outcome (ai_target ids) (Some (ai_revision ids)) (ai_case ids)
              (Some (ai_plan ids)) (Some (ai_action ids)) None (Some cd) (Some rsn) (sh_audit s) of
         Inl _ \<Rightarrow> (s, False)
       | Inr audit \<Rightarrow> (s\<lparr>sh_audit := audit\<rparr>, True)))"

definition raise_preflight_blocked :: "exec_env \<Rightarrow> action_ids \<Rightarrow> string \<Rightarrow> string \<Rightarrow> 'a comp" where
  "raise_preflight_blocked env ids cd rsn =
     bindc (interactc env (append_outcome env ids ''blocked'' cd rsn)) (\<lambda>recorded.
       leaving (Raise (if recorded then ExecutionBlocked cd rsn
         else ExecutionBlocked ''safety_audit_persistence_failed''
                ''Required safety audit record could not be persisted.'')))"

definition raise_post_network_failure :: "exec_env \<Rightarrow> action_ids \<Rightarrow> string \<Rightarrow> string \<Rightarrow> 'a comp" where
  "raise_post_network_failure env ids cd rsn =
     bindc (interactc env (append_outcome env ids ''failed'' cd rsn)) (\<lambda>_.
       leaving (Raise (ExecutionBlocked cd rsn)))"

definition audit_claim_cleanup_failure :: "exec_env \<Rightarrow> action_ids \<Rightarrow> unit comp" where
  "audit_claim_cleanup_failure env ids =
     bindc (interactc env (append_outcome env ids ''failed'' ''execution_plan_claim_cleanup_failed''
              ''ExecutionPlan claim cleanup could not be completed.'')) (\<lambda>_. ret ())"

definition release_claim :: "exec_env \<Rightarrow> action_ids \<Rightarrow> unit comp" where
  "release_claim env ids w =
     (case w_handle w of
        None \<Rightarrow> (w, Inr ())
      | Some h \<Rightarrow>
         bindc (interactc env (\<lambda>n. on_tables (claim_release (x_attempts env n)
                  (\<lambda>i. x_attempts env n (x_retries env + i)) (x_retries env) h)))
           (\<lambda>r. case r of
                  Inl CoordinationError \<Rightarrow> audit_claim_cleanup_failure env ids
                | _ \<Rightarrow> ret ()) w)"

text \<open>\<open>_release_claim\<close> followed by an exit.\<close>

definition released :: "exec_env \<Rightarrow> action_ids \<Rightarrow> 'a comp \<Rightarrow> 'a comp" where
  "released env ids next_step = bindc (release_claim env ids) (\<lambda>_. next_step)"

subsection \<open>Preflight\<close>

text \<open>The checks on the stored plan; a canonical result is returned at once.\<close>

definition checked_plan ::
  "(string \<Rightarrow> string) \<Rightarrow> store \<Rightarrow> row_id option \<Rightarrow> row_id \<Rightarrow> leave + (execution_plan \<times> plan_action)" where
  "checked_plan sha256 db canonical pid =
     (case plans db pid of
        None \<Rightarrow> Inl (Raise (PlanExecutionNotFound ''ExecutionPlan not found.''))
      | Some _ \<Rightarrow>
        (case validate_persisted_plan_integrity sha256 db pid of
           Inl (PlanIntegrity _) \<Rightarrow>
             Inl (Raise (PlanExecutionError ''ExecutionPlan integrity validation failed.''))
         | Inl _ \<Rightarrow> Inl (Raise (OtherError ''PlanValidationError''))
         | Inr plan \<Rightarrow>
           if new_plan db plan then Inl (Raise (PlanExecutionError ''intent_w2_execution_closed''))
           else (case ordered_actions db (plan_id plan) of
             [action] \<Rightarrow>
               (if act_method action \<noteq> ''GET'' then
                  Inl (Raise (PlanExecutionError ''ExecutionPlan action must be GET.''))
                else if act_test_case_id action = None \<or> act_resource_id action = None then
                  Inl (Raise (PlanExecutionError ''ExecutionPlan action provenance is incomplete.''))
                else (case canonical of
                  Some run \<Rightarrow> Inl (Return run)
                | None \<Rightarrow> Inr (plan, action)))
           | _ \<Rightarrow> Inl (Raise (PlanExecutionError
                    ''ExecutionPlan must contain exactly one executable action.'')))))"

definition load_plan :: "exec_env \<Rightarrow> row_id \<Rightarrow> (execution_plan \<times> plan_action) comp" where
  "load_plan env pid =
     bindc (interactc env (\<lambda>n s.
              (s, checked_plan (x_sha256 env) (sh_store s) (canonical_run (sh_tables s) pid) pid))) lift"

text \<open>The identifiers passed before the rows of the provenance are loaded.\<close>

definition plan_ids :: "execution_plan \<Rightarrow> plan_action \<Rightarrow> action_ids" where
  "plan_ids plan action =
     \<lparr>ai_target = plan_target_id plan, ai_revision = plan_authorization_revision_id plan,
      ai_case = (case act_test_case_id action of Some i \<Rightarrow> i | None \<Rightarrow> 0), ai_plan = plan_id plan,
      ai_action = act_id action\<rparr>"

text \<open>The check of the cancellation, before the claim and, with the claim released first, after it.\<close>

definition cancellation_gate :: "exec_env \<Rightarrow> action_ids \<Rightarrow> unit comp \<Rightarrow> unit comp" where
  "cancellation_gate env ids cleanup =
     bindc (interactc env (\<lambda>n s. (s, get_cancellation (x_attempts env n) (x_retries env) (ai_plan ids) (sh_tables s))))
       (\<lambda>r. case r of
          Inl _ \<Rightarrow> bindc cleanup (\<lambda>_. raise_preflight_blocked env ids
             ''execution_plan_cancellation_coordination_failed''
             ''ExecutionPlan cancellation coordination failed.'')
        | Inr (Some _) \<Rightarrow> bindc cleanup (\<lambda>_. raise_preflight_blocked env ids
             ''execution_plan_cancelled'' ''ExecutionPlan was cancelled before network execution.'')
        | Inr None \<Rightarrow> ret ())"

record qualified_plan =
  q_ids :: action_ids
  q_target :: target
  q_revision :: authorization_revision
  q_actor :: test_identity
  q_case :: test_case
  q_resource :: resource
  q_headers :: "(string \<times> string) list"
  q_approved :: bool

datatype unqualified = Unavailable | Refused action_ids string string | Failed string

text \<open>Authorization, provenance, approval and credentials of the plan.\<close>

definition qualify ::
  "(string \<Rightarrow> string) \<Rightarrow> bearer_env \<Rightarrow> store \<Rightarrow> execution_plan \<Rightarrow> plan_action \<Rightarrow> unqualified + qualified_plan" where
  "qualify sha256 bearer db plan action =
     (let case_row = Option.bind (act_test_case_id action) (test_cases db) in
      case (targets db (plan_target_id plan), revisions db (plan_authorization_revision_id plan),
            identities db (plan_actor_identity_id plan), case_row,
            Option.bind (act_resource_id action) (resources db),
            Option.bind case_row (\<lambda>c. endpoints db (tc_endpoint_id c))) of
        (Some t, Some rv, Some actor, Some test_case, Some resource, Some endpoint) \<Rightarrow>
          (let ids = \<lparr>ai_target = tgt_id t, ai_revision = rev_id rv, ai_case = tc_id test_case,
                      ai_plan = plan_id plan, ai_action = act_id action\<rparr> in
           if \<not> tgt_is_enabled t \<or> tgt_authorization_revision_id t \<noteq> Some (rev_id rv)
              \<or> tgt_authorization_profile_id t \<noteq> Some (rev_authorization_profile_id rv)
              \<or> rev_lifecycle_state rv \<noteq> ''active'' then
             Inl (Refused ids ''execution_plan_authorization_invalid''
               ''ExecutionPlan authorization is no longer active and exact.'')
           else if ident_target_id actor \<noteq> tgt_id t \<or> res_target_id resource \<noteq> tgt_id t
              \<or> ep_target_id endpoint \<noteq> tgt_id t \<or> tc_actor_identity_id test_case \<noteq> ident_id actor
              \<or> tc_resource_id test_case \<noteq> res_id resource then
             Inl (Refused ids ''execution_plan_provenance_invalid''
               ''ExecutionPlan provenance is inconsistent.'')
           else
             (case (if rev_require_human_execution_approval rv
                    then is_plan_approved sha256 db (plan_id plan) else Inr False) of
                Inl _ \<Rightarrow> Inl (Failed ''PlanValidationError'')
              | Inr approval_satisfied \<Rightarrow>
                if rev_require_human_execution_approval rv \<and> \<not> approval_satisfied then
                  Inl (Refused ids ''execution_plan_approval_required''
                    ''Exact ExecutionPlan approval is required.'')
                else
                  (case plan_request_headers bearer db actor (plan_credential_binding_id plan) of
                     Inl msg \<Rightarrow> Inl (Refused ids ''execution_plan_credential_invalid'' msg)
                   | Inr hs \<Rightarrow>
                      Inr \<lparr>q_ids = ids, q_target = t, q_revision = rv, q_actor = actor,
                           q_case = test_case, q_resource = resource, q_headers = hs,
                           q_approved = approval_satisfied\<rparr>)))
      | _ \<Rightarrow> Inl Unavailable)"

definition qualify_plan :: "exec_env \<Rightarrow> execution_plan \<Rightarrow> plan_action \<Rightarrow> qualified_plan comp" where
  "qualify_plan env plan action =
     bindc (interactc env (\<lambda>n s. (s, qualify (x_sha256 env) (x_bearer env) (sh_store s) plan action)))
       (\<lambda>r. case r of
          Inl Unavailable \<Rightarrow>
            leaving (Raise (PlanExecutionNotFound ''ExecutionPlan provenance is unavailable.''))
        | Inl (Failed msg) \<Rightarrow> leaving (Raise (OtherError msg))
        | Inl (Refused ids cd rsn) \<Rightarrow> raise_preflight_blocked env ids cd rsn
        | Inr q \<Rightarrow> ret q)"

subsection \<open>Claim, canonical result, progress\<close>

definition load_fresh_canonical :: "exec_env \<Rightarrow> row_id \<Rightarrow> (unit + row_id option) comp" where
  "load_fresh_canonical env pid =
     interactc env (\<lambda>n s. (s, if x_fails env n then Inl () else Inr (canonical_run (sh_tables s) pid)))"

definition set_handle :: "claim_handle \<Rightarrow> unit comp" where
  "set_handle h w = (w\<lparr>w_handle := Some h\<rparr>, Inr ())"

definition result_lookup_failed :: "exec_env \<Rightarrow> action_ids \<Rightarrow> 'a comp" where
  "result_lookup_failed env ids =
     raise_preflight_blocked env ids ''execution_plan_result_lookup_failed''
       ''Canonical ExecutionPlan result lookup failed.''"

definition claim_plan :: "exec_env \<Rightarrow> action_ids \<Rightarrow> unit comp" where
  "claim_plan env ids =
     bindc (interactc env (\<lambda>n. on_tables
              (claim_acquire (x_attempts env n) (x_retries env) (ai_plan ids) (x_owner env) (x_lease env))))
       (\<lambda>r. case r of
          Inr h \<Rightarrow> set_handle h
        | Inl (Domain ClaimUnavailable) \<Rightarrow>
            bindc (load_fresh_canonical env (ai_plan ids)) (\<lambda>canonical. case canonical of
                Inl _ \<Rightarrow> result_lookup_failed env ids
              | Inr (Some run) \<Rightarrow> leaving (Return run)
              | Inr None \<Rightarrow> raise_preflight_blocked env ids ''execution_plan_claim_unavailable''
                  ''ExecutionPlan is already claimed for execution.'')
        | Inl CoordinationError \<Rightarrow>
            raise_preflight_blocked env ids ''execution_plan_claim_coordination_failed''
              ''ExecutionPlan claim coordination failed.''
        | Inl (ValueError msg) \<Rightarrow> leaving (Raise (OtherError msg))
        | Inl _ \<Rightarrow> leaving (Raise (OtherError ''unexpected'')))"

definition canonical_gate :: "exec_env \<Rightarrow> action_ids \<Rightarrow> unit comp" where
  "canonical_gate env ids =
     bindc (load_fresh_canonical env (ai_plan ids)) (\<lambda>canonical. case canonical of
         Inl _ \<Rightarrow> released env ids (result_lookup_failed env ids)
       | Inr (Some run) \<Rightarrow> released env ids (leaving (Return run))
       | Inr None \<Rightarrow> ret ())"

text \<open>A computation that uses the claim handle.\<close>

definition with_handle :: "(claim_handle \<Rightarrow> 'a comp) \<Rightarrow> 'a comp" where
  "with_handle f w =
     (case w_handle w of None \<Rightarrow> (w, Inl (Raise (OtherError ''UnboundLocalError''))) | Some h \<Rightarrow> f h w)"

definition progress_gate :: "exec_env \<Rightarrow> action_ids \<Rightarrow> unit comp" where
  "progress_gate env ids =
     with_handle (\<lambda>h.
     bindc (interactc env (\<lambda>n. on_tables (prepare_attempt (x_attempts env n) (x_retries env) h)))
       (\<lambda>r. case r of
          Inr _ \<Rightarrow> ret ()
        | Inl (Domain InDoubt) \<Rightarrow> released env ids
            (raise_post_network_failure env ids ''execution_plan_in_doubt''
               ''ExecutionPlan may have crossed the network boundary.'')
        | Inl (Domain ProgressLost) \<Rightarrow> released env ids
            (raise_preflight_blocked env ids ''execution_plan_progress_lost''
               ''ExecutionPlan progress fencing was lost.'')
        | Inl _ \<Rightarrow> released env ids
            (raise_preflight_blocked env ids ''execution_plan_progress_coordination_failed''
               ''ExecutionPlan progress coordination failed.'')))"

definition set_case_status :: "row_id \<Rightarrow> string \<Rightarrow> store \<Rightarrow> store" where
  "set_case_status i st db =
     db\<lparr>test_cases := (test_cases db)(i := map_option (\<lambda>c. c\<lparr>tc_status := st\<rparr>) (test_cases db i))\<rparr>"

text \<open>The test case is shown as running; the active scopes are read; commit.\<close>

definition start_running :: "exec_env \<Rightarrow> qualified_plan \<Rightarrow> scope list comp" where
  "start_running env q =
     interactc env (\<lambda>n s.
       (s\<lparr>sh_store := set_case_status (ai_case (q_ids q)) ''running'' (sh_store s)\<rparr>,
        filter scope_is_active (scopes_of (sh_store s) (ai_target (q_ids q)))))"

subsection \<open>The callbacks of the executor\<close>

definition renew_claim :: "exec_env \<Rightarrow> world \<Rightarrow> world \<times> (execution_error + unit)" where
  "renew_claim env w =
     (case w_handle w of
        None \<Rightarrow> (w, Inl (Unexpected ''UnboundLocalError''))
      | Some h \<Rightarrow>
        (case interact env (\<lambda>n. on_tables (claim_renew (x_attempts env n) (x_retries env) h (x_lease env))) w of
           (w', Inr h') \<Rightarrow> (w'\<lparr>w_handle := Some h'\<rparr>, Inr ())
         | (w', Inl (Domain ClaimLost)) \<Rightarrow>
             (w', Inl (Blocked ''execution_plan_claim_lost''
                ''ExecutionPlan execution claim was lost before network.''))
         | (w', Inl CoordinationError) \<Rightarrow>
             (w', Inl (Blocked ''execution_plan_claim_coordination_failed''
                ''ExecutionPlan claim coordination failed.''))
         | (w', Inl _) \<Rightarrow> (w', Inl (Unexpected ''ValueError''))))"

text \<open>What the fresh session of \<open>refresh_authorization\<close> reads and checks.\<close>

definition fresh_authorization ::
  "(string \<Rightarrow> string) \<Rightarrow> qualified_plan \<Rightarrow> store \<Rightarrow> execution_error + execution_authorization" where
  "fresh_authorization sha256 q db =
     (let pid = ai_plan (q_ids q) in
      case validate_persisted_plan_integrity sha256 db pid of
        Inl (PlanIntegrity _) \<Rightarrow>
          Inl (Blocked ''execution_plan_integrity_changed'' ''ExecutionPlan integrity changed before execution.'')
      | Inl _ \<Rightarrow> Inl (Unexpected ''PlanValidationError'')
      | Inr _ \<Rightarrow>
        (case load_execution_authorization db (ai_target (q_ids q)) of
           Inl msg \<Rightarrow> Inl (Unexpected msg)
         | Inr (t, rv, scopes) \<Rightarrow>
           if map_option rev_id rv \<noteq> Some (ai_revision (q_ids q)) then
             Inl (Blocked ''authorization_revision_changed''
               ''Target authorization revision changed before execution.'')
           else if q_approved q then
             (case is_plan_approved sha256 db pid of
                Inl _ \<Rightarrow> Inl (Unexpected ''PlanValidationError'')
              | Inr False \<Rightarrow> Inl (Blocked ''execution_plan_approval_changed''
                  ''ExecutionPlan approval changed before execution.'')
              | Inr True \<Rightarrow> Inr (t, rv, scopes))
           else Inr (t, rv, scopes)))"

definition refresh_authorization ::
  "exec_env \<Rightarrow> qualified_plan \<Rightarrow> world \<Rightarrow> world \<times> (execution_error + execution_authorization)" where
  "refresh_authorization env q w =
     (case renew_claim env w of
        (w', Inl e) \<Rightarrow> (w', Inl e)
      | (w', Inr _) \<Rightarrow> interact env (\<lambda>n s. (s, fresh_authorization (x_sha256 env) q (sh_store s))) w')"

definition observe_decision ::
  "exec_env \<Rightarrow> action_ids \<Rightarrow> policy_decision \<Rightarrow> world \<Rightarrow> world \<times> observe_outcome" where
  "observe_decision env ids decision =
     interact env (\<lambda>n s.
       if x_fails env n then (s, ObserverRaised)
       else (case append_policy_decision ''test_execution'' (ai_target ids) decision (Some (ai_case ids))
                (Some (ai_plan ids)) (Some (ai_action ids)) (sh_audit s) of
          Inl _ \<Rightarrow> (s, ObserverRaised)
        | Inr audit \<Rightarrow> (s\<lparr>sh_audit := audit\<rparr>, Observed)))"

text \<open>The mark; a worker that sees it succeed is armed.\<close>

definition mark_shared ::
  "exec_env \<Rightarrow> claim_handle \<Rightarrow> nat \<Rightarrow> shared \<Rightarrow> shared \<times> (progress_error service_error + execution_plan_progress)" where
  "mark_shared env h n s =
     (case on_tables (mark_network_started (x_attempts env n) (x_retries env) h) s of
        (s', Inr row) \<Rightarrow>
          (s'\<lparr>sh_proto := set_token (sh_proto s') (x_worker env) (h_execution_plan_id h) (Armed h)\<rparr>, Inr row)
      | (s', Inl e) \<Rightarrow> (s', Inl e))"

definition before_network :: "exec_env \<Rightarrow> world \<Rightarrow> world \<times> (execution_error + unit)" where
  "before_network env w =
     (case w_handle w of
        None \<Rightarrow> (w, Inl (Unexpected ''UnboundLocalError''))
      | Some h \<Rightarrow>
        (case interact env (mark_shared env h) w of
           (w', Inr _) \<Rightarrow> (w', Inr ())
         | (w', Inl (Domain ProgressLost)) \<Rightarrow>
             (w', Inl (Blocked ''execution_plan_progress_lost''
                ''ExecutionPlan progress fencing was lost before network.''))
         | (w', Inl (Domain ProgressCancelled)) \<Rightarrow>
             (w', Inl (Blocked ''execution_plan_cancelled''
                ''ExecutionPlan was cancelled before network execution.''))
         | (w', Inl CoordinationError) \<Rightarrow>
             (w', Inl (Blocked ''execution_plan_progress_coordination_failed''
                ''ExecutionPlan progress coordination failed.''))
         | (w', Inl _) \<Rightarrow> (w', Inl (Unexpected ''unexpected''))))"

text \<open>The gateway of the platform; the request counts as sent when it tried to connect.\<close>

definition send_shared :: "nat \<Rightarrow> claim_handle \<Rightarrow> bool \<Rightarrow> shared \<Rightarrow> shared" where
  "send_shared worker h sent s =
     (let p = sh_proto s; pid = h_execution_plan_id h; p' = set_token p worker pid (Finishing h) in
      s\<lparr>sh_proto := (if sent then p'\<lparr>sends := (sends p)(pid := sends p pid + 1)\<rparr> else p')\<rparr>)"

definition call_gateway ::
  "exec_env \<Rightarrow> row_id \<Rightarrow> string \<Rightarrow> string \<Rightarrow> string \<Rightarrow> (string \<times> string) list \<Rightarrow> int
   \<Rightarrow> world \<Rightarrow> world \<times> (coded_error + gateway_result)" where
  "call_gateway env target_id mode mth url headers max_bytes w =
     (case gateway_request (x_gateway env (w_tick w)) target_id mode url headers max_bytes True of
        (r, tr) \<Rightarrow>
          (case w_handle w of
             None \<Rightarrow> (w\<lparr>w_connections := w_connections w @ tr\<rparr>, r)
           | Some h \<Rightarrow>
              (case interact env (\<lambda>n s. (send_shared (x_worker env) h (tr \<noteq> []) s, r)) w of
                 (w', r') \<Rightarrow> (w'\<lparr>w_connections := w_connections w' @ tr\<rparr>, r'))))"

definition wait_rate :: "exec_env \<Rightarrow> string \<Rightarrow> pynum \<Rightarrow> world \<Rightarrow> world \<times> rate_outcome" where
  "wait_rate env key_text rate = interact env (\<lambda>n s. (s, x_rate env n))"

definition plan_executor :: "exec_env \<Rightarrow> qualified_plan \<Rightarrow> world executor_env" where
  "plan_executor env q =
     \<lparr>xe_hosts = x_hosts env, xe_clock = (\<lambda>w. x_clock env (w_tick w)), xe_wait = wait_rate env,
      xe_refresh = Some (refresh_authorization env q),
      xe_observer = Some (observe_decision env (q_ids q)),
      xe_before_network = Some (before_network env), xe_gateway = call_gateway env\<rparr>"

subsection \<open>The result\<close>

definition MAX_STORED_RESPONSE_BYTES :: nat where
  "MAX_STORED_RESPONSE_BYTES = 64000"

definition decode_response_body :: "string \<Rightarrow> string" where
  "decode_response_body body = utf8_replace (take MAX_STORED_RESPONSE_BYTES body)"

record run_result =
  rr_outcome :: string
  rr_status :: "int option"
  rr_body :: "string option"
  rr_duration :: "int option"
  rr_error :: "string option"

definition request_data :: "qualified_plan \<Rightarrow> plan_action \<Rightarrow> json" where
  "request_data q action =
     JObj [(''method'', JStr (act_method action)), (''url'', JStr (act_url action)),
           (''headers'', JObj (map (\<lambda>(n, v). (n, JStr v)) (redact_headers (q_headers q)))),
           (''actor_identity_id'', JInt (ident_id (q_actor q))),
           (''resource_id'', JInt (res_id (q_resource q)))]"

definition new_run ::
  "qualified_plan \<Rightarrow> plan_action \<Rightarrow> run_result \<Rightarrow> row_id \<Rightarrow> datetime \<Rightarrow> test_run" where
  "new_run q action r rid now =
     \<lparr>run_id = rid, run_test_case_id = ai_case (q_ids q), run_request_data = request_data q action,
      run_response_status = rr_status r, run_response_body = rr_body r, run_duration_ms = rr_duration r,
      run_error_message = rr_error r, run_executed_at = now,
      run_authorization_revision_id = Some (ai_revision (q_ids q)),
      run_execution_plan_id = Some (ai_plan (q_ids q))\<rparr>"

text \<open>The rows of a result: the run, its audit record, the status of the test case.\<close>

definition write_result ::
  "exec_env \<Rightarrow> qualified_plan \<Rightarrow> plan_action \<Rightarrow> run_result \<Rightarrow> claim_handle \<Rightarrow> nat \<Rightarrow> shared \<Rightarrow> string + shared" where
  "write_result env q action r h n s =
     (let rid = x_run_id env n; ids = q_ids q; ok = (rr_outcome r = ''succeeded'') in
      res_map (\<lambda>audit.
        s\<lparr>sh_proto := set_token ((sh_proto s)\<lparr>tables := write_canonical (sh_tables s) (ai_plan ids) rid\<rparr>)
                         (x_worker env) (h_execution_plan_id h) NoToken,
          sh_runs := (sh_runs s)(rid := Some (new_run q action r rid (x_clock env n))),
          sh_audit := audit,
          sh_store := set_case_status (ai_case ids) (if ok then ''completed'' else ''failed'') (sh_store s)\<rparr>)
      (append_execution_outcome (rr_outcome r) (ai_target ids) (Some (ai_revision ids)) (ai_case ids)
         (Some (ai_plan ids)) (Some (ai_action ids)) (Some rid)
         (Some (if ok then ''http_execution_succeeded'' else ''http_execution_failed''))
         (Some (if ok then ''HTTP execution completed.'' else ''HTTP execution failed.''))
         (sh_audit s)))"

datatype finish_outcome = WriterLost | WriterUnverified | UniqueConflict | NotPersisted | Persisted row_id

text \<open>
  The transaction of \<open>_finish\<close>: the claim row is locked by \<open>assert_current\<close> until the commit, and the
  unique constraint on \<open>execution_plan_id\<close> is checked when the run is flushed. A commit
  whose outcome is lost has persisted the result although the worker sees an exception.
\<close>

definition finish_txn ::
  "exec_env \<Rightarrow> qualified_plan \<Rightarrow> plan_action \<Rightarrow> run_result \<Rightarrow> claim_handle \<Rightarrow> nat \<Rightarrow> shared
   \<Rightarrow> shared \<times> finish_outcome" where
  "finish_txn env q action r h n s =
     (case claim_assert_current (Some (x_caller env n)) (x_attempts env n) (x_retries env) h (sh_tables s) of
        Inl (Domain ClaimLost) \<Rightarrow> (s, WriterLost)
      | Inl _ \<Rightarrow> (s, WriterUnverified)
      | Inr _ \<Rightarrow>
        if x_persist env n = RolledBack then (s, NotPersisted)
        else if canonical_run (sh_tables s) (ai_plan (q_ids q)) \<noteq> None then (s, UniqueConflict)
        else (case write_result env q action r h n s of
          Inl _ \<Rightarrow> (s, NotPersisted)
        | Inr s' \<Rightarrow> (s', if x_persist env n = CommitLost then NotPersisted else Persisted (x_run_id env n))))"

definition persistence_failed :: "exec_env \<Rightarrow> action_ids \<Rightarrow> 'a comp" where
  "persistence_failed env ids =
     raise_post_network_failure env ids ''execution_plan_result_persistence_failed''
       ''Canonical ExecutionPlan result could not be persisted.''"

definition finish_run ::
  "exec_env \<Rightarrow> qualified_plan \<Rightarrow> plan_action \<Rightarrow> run_result \<Rightarrow> row_id comp" where
  "finish_run env q action r =
     with_handle (\<lambda>h.
     bindc (interactc env (finish_txn env q action r h)) (\<lambda>outcome. case outcome of
         WriterLost \<Rightarrow> raise_post_network_failure env (q_ids q) ''execution_plan_result_fencing_lost''
           ''ExecutionPlan result fencing was lost before persistence.''
       | WriterUnverified \<Rightarrow> raise_post_network_failure env (q_ids q) ''execution_plan_result_fencing_failed''
           ''ExecutionPlan result fencing could not be verified.''
       | UniqueConflict \<Rightarrow>
           bindc (load_fresh_canonical env (ai_plan (q_ids q))) (\<lambda>canonical. case canonical of
               Inr (Some run) \<Rightarrow> ret run
             | _ \<Rightarrow> persistence_failed env (q_ids q))
       | NotPersisted \<Rightarrow> persistence_failed env (q_ids q)
       | Persisted run \<Rightarrow> ret run))"

subsection \<open>The run\<close>

text \<open>An \<open>ExecutionBlockedError\<close> of the executor: the test case is blocked, with an audit record.\<close>

definition record_blocked :: "exec_env \<Rightarrow> action_ids \<Rightarrow> string \<Rightarrow> string \<Rightarrow> 'a comp" where
  "record_blocked env ids cd rsn =
     bindc (interactc env (\<lambda>n s.
         case append_outcome env ids ''blocked'' cd rsn n s of
           (s', True) \<Rightarrow> (s'\<lparr>sh_store := set_case_status (ai_case ids) ''blocked'' (sh_store s')\<rparr>, True)
         | (s', False) \<Rightarrow> (s', False)))
       (\<lambda>recorded. leaving (Raise (if recorded then ExecutionBlocked cd rsn else OtherError ''SQLAlchemyError'')))"

definition network_phase ::
  "exec_env \<Rightarrow> qualified_plan \<Rightarrow> plan_action \<Rightarrow> scope list \<Rightarrow> row_id comp" where
  "network_phase env q action scopes w =
     (case http_execute (plan_executor env q) (q_target q) (Some (q_revision q)) scopes (act_method action)
             (act_url action) (q_headers q) w of
        (w', Inl (Blocked cd rsn)) \<Rightarrow> record_blocked env (q_ids q) cd rsn w'
      | (w', Inl (HttpExecution msg)) \<Rightarrow>
          finish_run env q action \<lparr>rr_outcome = ''failed'', rr_status = None, rr_body = None,
            rr_duration = None, rr_error = Some msg\<rparr> w'
      | (w', Inl (Unexpected msg)) \<Rightarrow> (w', Inl (Raise (OtherError msg)))
      | (w', Inr r) \<Rightarrow>
          finish_run env q action \<lparr>rr_outcome = ''succeeded'', rr_status = Some (hx_status_code r),
            rr_body = Some (decode_response_body (hx_body r)),
            rr_duration = Some (x_duration env (w_tick w')), rr_error = None\<rparr> w')"

text \<open>\<open>try ... finally\<close>: the claim is released however the phase ends.\<close>

definition finally_release :: "exec_env \<Rightarrow> action_ids \<Rightarrow> 'a comp \<Rightarrow> 'a comp" where
  "finally_release env ids m w =
     (case m w of (w', r) \<Rightarrow>
       (case release_claim env ids w' of
          (w'', Inl l) \<Rightarrow> (w'', Inl l) | (w'', Inr _) \<Rightarrow> (w'', r)))"

definition execute_steps :: "exec_env \<Rightarrow> row_id \<Rightarrow> row_id comp" where
  "execute_steps env pid =
     bindc (load_plan env pid) (\<lambda>(plan, action).
     bindc (cancellation_gate env (plan_ids plan action) (ret ())) (\<lambda>_.
     bindc (qualify_plan env plan action) (\<lambda>q.
     bindc (claim_plan env (q_ids q)) (\<lambda>_.
     bindc (canonical_gate env (q_ids q)) (\<lambda>_.
     bindc (cancellation_gate env (q_ids q) (release_claim env (q_ids q))) (\<lambda>_.
     bindc (progress_gate env (q_ids q)) (\<lambda>_.
     bindc (start_running env q) (\<lambda>scopes.
     finally_release env (q_ids q) (network_phase env q action scopes)))))))))"

definition execute_plan :: "exec_env \<Rightarrow> row_id \<Rightarrow> world \<Rightarrow> world \<times> (exec_error + row_id)" where
  "execute_plan env pid w =
     (case execute_steps env pid w of
        (w', Inl (Return run)) \<Rightarrow> (w', Inr run)
      | (w', Inl (Raise e)) \<Rightarrow> (w', Inl e)
      | (w', Inr run) \<Rightarrow> (w', Inr run))"

subsection \<open>What a computation does to the protocol\<close>

abbreviation proto :: "world \<Rightarrow> pstate" where
  "proto w \<equiv> sh_proto (w_shared w)"

text \<open>
  The other sessions take protocol steps only, never as this worker, and keep the identifiers
  of the plan rows.
\<close>

definition plans_wf :: "store \<Rightarrow> bool" where
  "plans_wf db \<longleftrightarrow> (\<forall>pid plan. plans db pid = Some plan \<longrightarrow> plan_id plan = pid)"

definition rely :: "exec_env \<Rightarrow> bool" where
  "rely env \<longleftrightarrow>
     (\<forall>n s. pstep\<^sup>*\<^sup>* (sh_proto s) (sh_proto (x_others env n s))
        \<and> token_of (sh_proto (x_others env n s)) (x_worker env) = token_of (sh_proto s) (x_worker env)
        \<and> (plans_wf (sh_store s) \<longrightarrow> plans_wf (sh_store (x_others env n s))))"

text \<open>Protocol steps, no connection, the same plan claimed.\<close>

definition reaches :: "world \<Rightarrow> world \<Rightarrow> bool" where
  "reaches w w' \<longleftrightarrow> pstep\<^sup>*\<^sup>* (proto w) (proto w') \<and> w_connections w' = w_connections w
     \<and> (plans_wf (sh_store (w_shared w)) \<longrightarrow> plans_wf (sh_store (w_shared w')))"

definition handle_plan :: "world \<Rightarrow> row_id option" where
  "handle_plan w = map_option h_execution_plan_id (w_handle w)"

definition good :: "exec_env \<Rightarrow> row_id \<Rightarrow> 'a comp \<Rightarrow> bool" where
  "good env pid m \<longleftrightarrow> rely env \<longrightarrow>
     (\<forall>w. reaches w (fst (m w)) \<and> handle_plan (fst (m w)) = handle_plan w
        \<and> (\<forall>run. snd (m w) = Inl (Return run) \<longrightarrow> canonical_run (tables (proto (fst (m w)))) pid = Some run))"

lemma plans_wf_cong: "plans db' = plans db \<Longrightarrow> plans_wf db' \<longleftrightarrow> plans_wf db"
  unfolding plans_wf_def by metis

lemma reaches_refl [simp]: "reaches w w"
  by (simp add: reaches_def)

lemma reaches_trans: "reaches w w' \<Longrightarrow> reaches w' w'' \<Longrightarrow> reaches w w''"
  unfolding reaches_def by (metis rtranclp_trans)

lemma reaches_canonical:
  "reaches w w' \<Longrightarrow> canonical_run (tables (proto w)) pid = Some r
   \<Longrightarrow> canonical_run (tables (proto w')) pid = Some r"
  using psteps_keeps[of "proto w" "proto w'" pid] by (simp add: reaches_def keeps_def)

lemma good_simple [simp]:
  "good env pid (ret x)" "good env pid (leaving (Raise e))"
  by (simp_all add: good_def ret_def leaving_def)

lemma good_bindc:
  assumes "good env pid m" and "\<And>x. good env pid (f x)"
  shows "good env pid (bindc m f)"
proof (unfold good_def, intro impI allI)
  fix w
  assume rely: "rely env"
  obtain w1 r1 where 1: "m w = (w1, r1)" by fastforce
  note g1 = assms(1)[unfolded good_def, rule_format, OF rely, of w, unfolded 1]
  show "reaches w (fst (bindc m f w)) \<and> handle_plan (fst (bindc m f w)) = handle_plan w
    \<and> (\<forall>run. snd (bindc m f w) = Inl (Return run) \<longrightarrow>
         canonical_run (tables (proto (fst (bindc m f w)))) pid = Some run)"
  proof (cases r1)
    case (Inl l)
    then show ?thesis using g1 1 by (simp add: bindc_def)
  next
    case (Inr x)
    note g2 = assms(2)[of x, unfolded good_def, rule_format, OF rely, of w1]
    show ?thesis using g1 g2 1 Inr reaches_trans[of w w1] by (simp add: bindc_def)
  qed
qed

lemma interact_world [simp]:
  "w_handle (fst (interact env f w)) = w_handle w"
  "w_connections (fst (interact env f w)) = w_connections w"
  "w_shared (fst (interact env f w)) = fst (f (w_tick w) (x_others env (w_tick w) (w_shared w)))"
  "snd (interact env f w) = snd (f (w_tick w) (x_others env (w_tick w) (w_shared w)))"
  by (simp_all add: interact_def split: prod.split)

text \<open>An access to the database that takes protocol steps.\<close>

definition steps :: "(nat \<Rightarrow> shared \<Rightarrow> shared \<times> 'a) \<Rightarrow> bool" where
  "steps f \<longleftrightarrow> (\<forall>n s. pstep\<^sup>*\<^sup>* (sh_proto s) (sh_proto (fst (f n s)))
     \<and> plans (sh_store (fst (f n s))) = plans (sh_store s))"

lemma interact_reaches:
  assumes "rely env" "steps f"
  shows "reaches w (fst (interact env f w))"
proof -
  let ?s = "x_others env (w_tick w) (w_shared w)"
  have 1: "pstep\<^sup>*\<^sup>* (proto w) (sh_proto ?s)" "plans_wf (sh_store (w_shared w)) \<longrightarrow> plans_wf (sh_store ?s)"
    using assms(1) unfolding rely_def by blast+
  have 2: "pstep\<^sup>*\<^sup>* (sh_proto ?s) (sh_proto (fst (f (w_tick w) ?s)))"
      "plans (sh_store (fst (f (w_tick w) ?s))) = plans (sh_store ?s)"
    using assms(2) unfolding steps_def by blast+
  have "plans_wf (sh_store (w_shared w)) \<longrightarrow> plans_wf (sh_store (fst (f (w_tick w) ?s)))"
    using 1(2) plans_wf_cong[OF 2(2)] by blast
  with rtranclp_trans[OF 1(1) 2(1)] show ?thesis unfolding reaches_def interact_world by blast
qed

lemma interactc_eq: "interactc env f w = (fst (interact env f w), Inr (snd (interact env f w)))"
  by (simp add: interactc_def case_prod_beta)

lemma good_interactc: "steps f \<Longrightarrow> good env pid (interactc env f)"
  by (simp add: good_def interactc_eq handle_plan_def interact_reaches)

lemma steps_read [simp]: "steps (\<lambda>n s. (s, g n s))"
  by (simp add: steps_def)

lemma steps_tables:
  assumes "\<And>n p. pstep\<^sup>*\<^sup>* p (p\<lparr>tables := fst (f n (tables p))\<rparr>)"
  shows "steps (\<lambda>n. on_tables (f n))"
  using assms by (simp add: steps_def on_tables_def split: prod.split) (metis fst_conv)

lemma steps_append [simp]: "steps (append_outcome env ids outc cd rsn)"
  by (simp add: steps_def append_outcome_def split: sum.split)

lemmas good_rules = good_bindc good_interactc steps_read steps_append good_simple

lemma good_raise [simp]:
  "good env pid (raise_preflight_blocked env ids cd rsn)"
  "good env pid (raise_post_network_failure env ids cd rsn)"
  "good env pid (audit_claim_cleanup_failure env ids)"
  unfolding raise_preflight_blocked_def raise_post_network_failure_def audit_claim_cleanup_failure_def
  by (intro good_rules)+

lemma good_result_lookup_failed [simp]: "good env pid (result_lookup_failed env ids)"
  by (simp add: result_lookup_failed_def)

lemma good_persistence_failed [simp]: "good env pid (persistence_failed env ids)"
  by (simp add: persistence_failed_def)

lemma good_at:
  assumes "\<And>w. \<exists>m. good env pid m \<and> f w = m w"
  shows "good env pid f"
  using assms unfolding good_def by metis

lemma good_release [simp]: "good env pid (release_claim env ids)"
proof (rule good_at)
  fix w
  show "\<exists>m. good env pid m \<and> release_claim env ids w = m w"
  proof (cases "w_handle w")
    case None
    then show ?thesis by (intro exI[of _ "ret ()"]) (simp add: release_claim_def ret_def)
  next
    case (Some h)
    let ?m = "bindc (interactc env (\<lambda>n. on_tables (claim_release (x_attempts env n)
                  (\<lambda>i. x_attempts env n (x_retries env + i)) (x_retries env) h)))
           (\<lambda>r. case r of Inl CoordinationError \<Rightarrow> audit_claim_cleanup_failure env ids | _ \<Rightarrow> ret ())"
    have "good env pid ?m"
      by (intro good_bindc good_interactc steps_tables release_psteps)
        (simp split: sum.split service_error.split)
    then show ?thesis unfolding release_claim_def Some option.case by (intro exI[of _ ?m] conjI refl)
  qed
qed

lemma good_handle:
  assumes "\<And>h. good env pid (f h)"
  shows "good env pid (with_handle f)"
proof (rule good_at)
  fix w
  show "\<exists>m. good env pid m \<and> with_handle f w = m w"
  proof (cases "w_handle w")
    case None
    then show ?thesis
      by (intro exI[of _ "leaving (Raise (OtherError ''UnboundLocalError''))"])
        (simp add: with_handle_def leaving_def)
  next
    case (Some h)
    then show ?thesis using assms by (intro exI[of _ "f h"]) (simp add: with_handle_def)
  qed
qed

lemma good_released: "good env pid m \<Longrightarrow> good env pid (released env ids m)"
  unfolding released_def by (intro good_bindc good_release)

subsection \<open>The parts of a run\<close>

lemma checked_plan_return: "checked_plan sha db can pid = Inl (Return run) \<Longrightarrow> can = Some run"
  by (auto simp: checked_plan_def split: option.splits sum.splits plan_error.splits if_splits list.splits)

lemma checked_plan_ok:
  assumes "checked_plan sha db can pid = Inr (plan, action)"
  shows "plans db pid = Some plan" "act_method action = ''GET''" "can = None"
  using assms integrity_ok(1)[of sha db pid plan]
  by (auto simp: checked_plan_def split: option.splits sum.splits plan_error.splits if_splits list.splits)

lemma good_load_plan: "good env pid (load_plan env pid)"
  by (auto simp: good_def load_plan_def bindc_def interactc_eq lift_def handle_plan_def
      intro!: interact_reaches dest: checked_plan_return)

lemma good_fresh_canonical:
  assumes "good env pid (f (Inl ()))" "good env pid (f (Inr None))" "good env pid c"
    and "\<And>run. f (Inr (Some run)) = bindc c (\<lambda>_. leaving (Return run))"
  shows "good env pid (bindc (load_fresh_canonical env pid) f)"
proof (unfold good_def, intro impI allI)
  fix w
  assume rely: "rely env"
  let ?l = "load_fresh_canonical env pid" let ?w1 = "fst (?l w)"
  obtain r where r: "?l w = (?w1, Inr r)" by (simp add: load_fresh_canonical_def interactc_eq)
  have g: "reaches w ?w1" "handle_plan ?w1 = handle_plan w"
    using rely by (simp_all add: load_fresh_canonical_def interactc_eq interact_reaches handle_plan_def)
  have b: "bindc ?l f w = f r ?w1" using r by (metis (mono_tags) bindc_def old.prod.case old.sum.simps(6))
  show "reaches w (fst (bindc ?l f w)) \<and> handle_plan (fst (bindc ?l f w)) = handle_plan w
    \<and> (\<forall>run. snd (bindc ?l f w) = Inl (Return run) \<longrightarrow>
         canonical_run (tables (proto (fst (bindc ?l f w)))) pid = Some run)"
  proof (cases "\<exists>run. r = Inr (Some run)")
    case True
    then obtain run where run: "r = Inr (Some run)" by blast
    then have can: "canonical_run (tables (proto ?w1)) pid = Some run"
      using r by (auto simp: load_fresh_canonical_def interactc_eq split: if_splits)
    note gc = assms(3)[unfolded good_def, rule_format, OF rely, of ?w1]
    show ?thesis
      using g gc can run b reaches_trans[of w ?w1 "fst (c ?w1)"] reaches_canonical[of ?w1 "fst (c ?w1)" pid run]
      by (cases "c ?w1"; cases "snd (c ?w1)") (auto simp: assms(4) bindc_def leaving_def)
  next
    case False
    then have "good env pid (f r)" using assms(1,2) by (cases r; cases "projr r") auto
    then show ?thesis using g b rely reaches_trans[of w ?w1] by (simp add: good_def)
  qed
qed

lemma bindc_ret [simp]: "bindc (ret x) f = f x"
  by (rule ext) (simp add: bindc_def ret_def)

lemma good_canonical_gate: "good env (ai_plan ids) (canonical_gate env ids)"
  unfolding canonical_gate_def
  by (rule good_fresh_canonical[where c = "release_claim env ids"])
    (simp_all add: good_released released_def[symmetric])

lemma good_cancellation_gate:
  assumes "good env pid cleanup"
  shows "good env pid (cancellation_gate env ids cleanup)"
  unfolding cancellation_gate_def
  using assms by (intro good_bindc good_interactc steps_read) (auto intro!: good_bindc split: sum.split option.split)

lemma good_qualify_plan: "good env pid (qualify_plan env plan action)"
  unfolding qualify_plan_def
  by (intro good_bindc good_interactc steps_read) (simp split: sum.split unqualified.split)

lemma good_progress_gate: "good env pid (progress_gate env ids)"
  unfolding progress_gate_def
  by (intro good_handle good_bindc good_interactc steps_tables service_psteps)
    (auto intro!: good_released split: sum.split service_error.split progress_error.split)

lemma good_start_running: "good env pid (start_running env q)"
  unfolding start_running_def
  by (rule good_interactc) (simp add: steps_def set_case_status_def)

lemma good_record_blocked: "good env pid (record_blocked env ids cd rsn)"
  unfolding record_blocked_def
proof (intro good_bindc good_interactc good_simple)
  show "steps (\<lambda>n s. case append_outcome env ids ''blocked'' cd rsn n s of
           (s', True) \<Rightarrow> (s'\<lparr>sh_store := set_case_status (ai_case ids) ''blocked'' (sh_store s')\<rparr>, True)
         | (s', False) \<Rightarrow> (s', False))"
    by (simp add: steps_def append_outcome_def set_case_status_def split: sum.split)
qed

text \<open>Acquiring sets the handle; the other branches leave.\<close>

lemma claim_acquire_plan:
  assumes "claim_acquire env n pid own lease db = (db', Inr h)"
  shows "h_execution_plan_id h = pid"
proof -
  obtain l where run: "retrying env 0 n (\<lambda>now s. no_error (acquire_stmt pid own l now s)) db = (db', Inr (Some h))"
    using assms by (auto simp: claim_acquire_def split: sum.splits if_splits prod.splits option.splits)
  have one: "r = Some h \<longrightarrow> h_execution_plan_id h = pid"
    if "no_error (acquire_stmt pid own l t s) = (s', Inr r)" for t s s' r
    using that acquire_generation(3)[of pid own l t s s' h] by (auto simp: no_error_def prod_eq_iff)
  show ?thesis
    using retrying_result[where P = "\<lambda>r. r = Some h \<longrightarrow> h_execution_plan_id h = pid", OF one run] by simp
qed

lemma claim_renew_plan:
  assumes "claim_renew env n h lease db = (db', Inr h')"
  shows "h_execution_plan_id h' = h_execution_plan_id h"
proof -
  obtain l where run: "retrying env 0 n (\<lambda>now s. no_error (renew_stmt h l now s)) db = (db', Inr (Some h'))"
    using assms by (auto simp: claim_renew_def split: sum.splits if_splits prod.splits option.splits)
  have one: "r = Some h' \<longrightarrow> h_execution_plan_id h' = h_execution_plan_id h"
    if "no_error (renew_stmt h l t s) = (s', Inr r)" for t s s' r
    using that by (auto simp: no_error_def renew_stmt_def split: if_splits)
  show ?thesis
    using retrying_result[where P = "\<lambda>r. r = Some h' \<longrightarrow> h_execution_plan_id h' = h_execution_plan_id h", OF one run]
    by simp
qed

definition leaves :: "'a comp \<Rightarrow> bool" where
  "leaves m \<longleftrightarrow> (\<forall>w x. snd (m w) \<noteq> Inr x)"

lemma leaves_rules [simp]:
  "leaves (leaving l)"
  "leaves (raise_preflight_blocked env ids cd rsn)"
  "leaves (raise_post_network_failure env ids cd rsn)"
  "leaves (result_lookup_failed env ids)"
  by (simp_all add: leaves_def leaving_def raise_preflight_blocked_def raise_post_network_failure_def
      result_lookup_failed_def bindc_def interactc_eq)

lemma leaves_bindc: "(\<And>x. leaves (f x)) \<Longrightarrow> leaves (bindc m f)"
  by (simp add: leaves_def bindc_def split: prod.split sum.split)

lemma on_tables_snd: "snd (on_tables f s) = snd (f (sh_tables s))"
  by (simp add: on_tables_def split: prod.split)

lemma claim_plan_ok:
  assumes rely: "rely env"
  shows "reaches w (fst (claim_plan env ids w))"
    and "snd (claim_plan env ids w) = Inr () \<Longrightarrow> handle_plan (fst (claim_plan env ids w)) = Some (ai_plan ids)"
    and "snd (claim_plan env ids w) = Inl (Return run) \<Longrightarrow>
      canonical_run (tables (proto (fst (claim_plan env ids w)))) (ai_plan ids) = Some run"
proof -
  let ?f = "\<lambda>n. on_tables
              (claim_acquire (x_attempts env n) (x_retries env) (ai_plan ids) (x_owner env) (x_lease env))"
  let ?k = "\<lambda>r. case r of
          Inr h \<Rightarrow> set_handle h
        | Inl (Domain ClaimUnavailable) \<Rightarrow>
            bindc (load_fresh_canonical env (ai_plan ids)) (\<lambda>canonical. case canonical of
                Inl _ \<Rightarrow> result_lookup_failed env ids
              | Inr (Some run) \<Rightarrow> leaving (Return run)
              | Inr None \<Rightarrow> raise_preflight_blocked env ids ''execution_plan_claim_unavailable''
                  ''ExecutionPlan is already claimed for execution.'')
        | Inl CoordinationError \<Rightarrow>
            raise_preflight_blocked env ids ''execution_plan_claim_coordination_failed''
              ''ExecutionPlan claim coordination failed.''
        | Inl (ValueError msg) \<Rightarrow> leaving (Raise (OtherError msg))
        | Inl _ \<Rightarrow> leaving (Raise (OtherError ''unexpected''))"
  let ?w1 = "fst (interact env ?f w)"
  define r where "r = snd (interact env ?f w)"
  have b: "claim_plan env ids w = ?k r ?w1"
    by (simp add: claim_plan_def bindc_def interactc_eq r_def del: interact_world)
  have 1: "reaches w ?w1" by (intro interact_reaches[OF rely] steps_tables service_psteps)
  have g: "good env (ai_plan ids) (?k (Inl e))" for e
    by (cases e) (auto intro!: good_fresh_canonical[where c = "ret ()"] split: claim_error.split)
  have l: "leaves (?k (Inl e))" for e
    by (cases e) (auto intro!: leaves_bindc split: claim_error.split sum.split option.split)
  have inr: "h_execution_plan_id h = ai_plan ids" if "r = Inr h" for h
    using that claim_acquire_plan[of _ _ "ai_plan ids" _ _ _ _ h]
    by (auto simp: r_def on_tables_snd dest: sym[of "Inr h"]) (metis prod.collapse)
  note gw = g[unfolded good_def, rule_format, OF rely] and lw = l[unfolded leaves_def, rule_format]
  show "reaches w (fst (claim_plan env ids w))"
  proof (cases r)
    case (Inl e)
    then show ?thesis using b gw[of ?w1 e] reaches_trans[OF 1] by simp
  next
    case (Inr h)
    then show ?thesis using b 1 by (simp add: set_handle_def reaches_def)
  qed
  show "handle_plan (fst (claim_plan env ids w)) = Some (ai_plan ids)" if "snd (claim_plan env ids w) = Inr ()"
    using that b lw inr by (cases r) (auto simp: set_handle_def handle_plan_def)
  show "canonical_run (tables (proto (fst (claim_plan env ids w)))) (ai_plan ids) = Some run"
    if "snd (claim_plan env ids w) = Inl (Return run)"
    using that b gw by (cases r) (auto simp: set_handle_def)
qed

subsection \<open>The executor within a run\<close>

definition quiet :: "exec_env \<Rightarrow> world \<Rightarrow> world \<Rightarrow> bool" where
  "quiet env w w' \<longleftrightarrow> (rely env \<longrightarrow> reaches w w' \<and> handle_plan w' = handle_plan w)"

lemma quiet_refl [simp]: "quiet env w w"
  by (simp add: quiet_def)

lemma quiet_trans: "quiet env w w' \<Longrightarrow> quiet env w' w'' \<Longrightarrow> quiet env w w''"
  using reaches_trans[of w w' w''] by (auto simp: quiet_def)

lemma quiet_interact: "steps f \<Longrightarrow> quiet env w (fst (interact env f w))"
  by (simp add: quiet_def interact_reaches handle_plan_def)

lemma quiet_renew: "quiet env w (fst (renew_claim env w))"
proof (cases "w_handle w")
  case None
  then show ?thesis by (simp add: renew_claim_def)
next
  case (Some h)
  let ?f = "\<lambda>n. on_tables (claim_renew (x_attempts env n) (x_retries env) h (x_lease env))"
  obtain w1 r where 1: "interact env ?f w = (w1, r)" by fastforce
  have "steps ?f" by (intro steps_tables service_psteps)
  from quiet_interact[OF this, of env w] have q: "quiet env w w1" using 1 by simp
  show ?thesis
  proof (cases r)
    case (Inl e)
    then show ?thesis using q 1 Some
      by (simp add: renew_claim_def split: service_error.split claim_error.split)
  next
    case (Inr h')
    have "r = snd (claim_renew (x_attempts env (w_tick w)) (x_retries env) h (x_lease env)
        (sh_tables (x_others env (w_tick w) (w_shared w))))"
      using interact_world(4)[of env ?f w] 1 by (simp add: on_tables_snd)
    then have "h_execution_plan_id h' = h_execution_plan_id h"
      using Inr by (metis claim_renew_plan prod.collapse)
    then show ?thesis using q 1 Some Inr
      by (simp add: renew_claim_def quiet_def handle_plan_def reaches_def)
  qed
qed

lemma renew_not_http: "snd (renew_claim env w) \<noteq> Inl (HttpExecution m)"
  by (simp add: renew_claim_def split: option.split prod.split sum.split service_error.split claim_error.split)

lemma steps_mark: "steps (mark_shared env h)"
proof (unfold steps_def, intro allI conjI)
  fix n s
  obtain db r where m: "mark_network_started (x_attempts env n) (x_retries env) h (sh_tables s) = (db, r)" by fastforce
  note c = mark_service_cases[OF m]
  show "plans (sh_store (fst (mark_shared env h n s))) = plans (sh_store s)"
    using m by (cases r) (simp_all add: mark_shared_def on_tables_def)
  show "pstep\<^sup>*\<^sup>* (sh_proto s) (sh_proto (fst (mark_shared env h n s)))"
  proof (cases r)
    case (Inr row)
    then obtain now where "mark_txn h now (sh_tables s) = (db, Inr row)" using c by auto
    from pstep.mark_seen[OF this, of "x_worker env"] show ?thesis
      using m Inr by (simp add: mark_shared_def on_tables_def)
  next
    case (Inl e)
    then have "db = sh_tables s \<or> (\<exists>now row. mark_txn h now (sh_tables s) = (db, Inr row))" using c by simp
    then show ?thesis
      using m Inl by (auto simp: mark_shared_def on_tables_def intro: pstep.mark_unseen)
  qed
qed

lemma before_network_fst:
  "fst (before_network env w) = (case w_handle w of None \<Rightarrow> w | Some h \<Rightarrow> fst (interact env (mark_shared env h) w))"
  by (simp add: before_network_def split: option.split prod.split sum.split service_error.split progress_error.split)

lemma before_not_http: "snd (before_network env w) \<noteq> Inl (HttpExecution m)"
  by (simp add: before_network_def split: option.split prod.split sum.split service_error.split progress_error.split)

lemma fresh_not_http: "fresh_authorization sha q db \<noteq> Inl (HttpExecution m)"
  by (simp add: fresh_authorization_def Let_def split: sum.split plan_error.split prod.split bool.split)

lemma refresh_parts:
  "quiet env w (fst (refresh_authorization env q w))"
  "snd (refresh_authorization env q w) \<noteq> Inl (HttpExecution m)"
  "snd (refresh_authorization env q w) = Inr a \<Longrightarrow> \<exists>db. fresh_authorization (x_sha256 env) q db = Inr a"
proof -
  obtain w1 r where 1: "renew_claim env w = (w1, r)" by fastforce
  have q: "quiet env w w1" and n: "r \<noteq> Inl (HttpExecution m)" using quiet_renew[of env w] renew_not_http[of env w m] 1 by auto
  show "quiet env w (fst (refresh_authorization env q w))"
    using q 1 quiet_trans[OF q quiet_interact[OF steps_read]] by (cases r) (simp_all add: refresh_authorization_def)
  show "snd (refresh_authorization env q w) \<noteq> Inl (HttpExecution m)"
    using n 1 fresh_not_http by (cases r) (auto simp: refresh_authorization_def)
  show "\<exists>db. fresh_authorization (x_sha256 env) q db = Inr a"
    if "snd (refresh_authorization env q w) = Inr a"
    using that 1 by (cases r) (auto simp: refresh_authorization_def)
qed

lemma steps_observe:
  "steps (\<lambda>n s.
       if x_fails env n then (s, ObserverRaised)
       else (case append_policy_decision ''test_execution'' (ai_target ids) decision (Some (ai_case ids))
                (Some (ai_plan ids)) (Some (ai_action ids)) (sh_audit s) of
          Inl _ \<Rightarrow> (s, ObserverRaised)
        | Inr audit \<Rightarrow> (s\<lparr>sh_audit := audit\<rparr>, Observed)))"
  by (simp add: steps_def split: sum.split)

interpretation plan_gate: gate_relation "plan_executor env q" "quiet env" for env q
proof (unfold_locales, goal_cases)
  case (6 b s)
  then show ?case using quiet_interact[OF steps_mark, of env s]
    by (auto simp: plan_executor_def before_network_fst split: option.split)
qed (auto simp: plan_executor_def wait_rate_def observe_decision_def refresh_parts before_not_http
    quiet_interact[OF steps_observe] quiet_interact[OF steps_read] intro: quiet_trans)

subsection \<open>The network phase\<close>

lemma call_gateway_at:
  assumes "w_handle w = Some h"
  shows "call_gateway env tid mode mth url hs mx w =
    (let g = gateway_request (x_gateway env (w_tick w)) tid mode url hs mx True;
         w' = fst (interact env (\<lambda>n s. (send_shared (x_worker env) h (snd g \<noteq> []) s, fst g)) w)
     in (w'\<lparr>w_connections := w_connections w @ snd g\<rparr>, fst g))"
  using assms by (simp add: call_gateway_def Let_def case_prod_beta)

lemma armed_after_mark:
  assumes "before_network env w = (w', Inr ())"
  obtains h where "w_handle w' = Some h" "w_handle w = Some h"
    and "token_of (proto w') (x_worker env) (h_execution_plan_id h) = Armed h"
proof -
  from assms obtain h where h: "w_handle w = Some h" by (auto simp: before_network_def split: option.splits)
  have w': "w' = fst (interact env (mark_shared env h) w)" using before_network_fst[of env w] assms h by simp
  let ?m = "mark_shared env h (w_tick w) (x_others env (w_tick w) (w_shared w))"
  obtain w1 r where i: "interact env (mark_shared env h) w = (w1, r)" by fastforce
  have "\<exists>row. r = Inr row"
    using assms h i by (cases r) (auto simp: before_network_def split: service_error.splits progress_error.splits)
  then have "\<exists>row. snd ?m = Inr row" using interact_world(4)[of env "mark_shared env h" w] i by simp
  then have "token_of (sh_proto (fst ?m)) (x_worker env) (h_execution_plan_id h) = Armed h"
    by (auto simp: mark_shared_def split: prod.splits sum.splits)
  then show thesis using that h w' by simp
qed

lemma send_steps:
  assumes "token_of (sh_proto s) wk (h_execution_plan_id h) = Armed h"
  shows "pstep\<^sup>*\<^sup>* (sh_proto s) (sh_proto (send_shared wk h sent s))"
    and "token_of (sh_proto (send_shared wk h sent s)) wk (h_execution_plan_id h) = Finishing h"
    and "sh_store (send_shared wk h sent s) = sh_store s"
  using pstep.send[OF assms] pstep.no_send[OF assms] by (auto simp: send_shared_def Let_def)

text \<open>A token of this worker survives what the others do.\<close>

lemma rely_token:
  "rely env \<Longrightarrow> token_of (sh_proto (x_others env n s)) (x_worker env) pid = token_of (sh_proto s) (x_worker env) pid"
  by (simp add: rely_def)

lemma rely_parts:
  assumes "rely env"
  shows "pstep\<^sup>*\<^sup>* (sh_proto s) (sh_proto (x_others env n s))"
    and "plans_wf (sh_store s) \<Longrightarrow> plans_wf (sh_store (x_others env n s))"
  using assms unfolding rely_def by blast+

lemma after_gateway:
  assumes "rely env" "w_handle w = Some h"
    and "token_of (proto w) (x_worker env) (h_execution_plan_id h) = Armed h"
    and "call_gateway env tid mode mth url hs mx w = (w', r)"
  shows "pstep\<^sup>*\<^sup>* (proto w) (proto w')" "w_handle w' = Some h"
    and "token_of (proto w') (x_worker env) (h_execution_plan_id h) = Finishing h"
    and "w_connections w' = w_connections w @ snd (gateway_request (x_gateway env (w_tick w)) tid mode url hs mx True)"
    and "plans_wf (sh_store (w_shared w)) \<longrightarrow> plans_wf (sh_store (w_shared w'))"
proof -
  let ?s = "x_others env (w_tick w) (w_shared w)"
  have tok: "token_of (sh_proto ?s) (x_worker env) (h_execution_plan_id h) = Armed h"
    using rely_token[OF assms(1)] assms(3) by simp
  note c = assms(4)[unfolded call_gateway_at[OF assms(2)] Let_def, symmetric]
  have sh: "w_shared w' = send_shared (x_worker env) h (snd (gateway_request (x_gateway env (w_tick w)) tid mode url hs mx True) \<noteq> []) ?s"
    "w_handle w' = w_handle w"
    "w_connections w' = w_connections w @ snd (gateway_request (x_gateway env (w_tick w)) tid mode url hs mx True)"
    using c by auto
  note ss = send_steps[OF tok]
  show "pstep\<^sup>*\<^sup>* (proto w) (proto w')"
    using rtranclp_trans[OF rely_parts(1)[OF assms(1)] ss(1)] sh(1) by simp
  show "w_handle w' = Some h" "w_connections w' = w_connections w @ snd (gateway_request (x_gateway env (w_tick w)) tid mode url hs mx True)"
    using sh assms(2) by simp_all
  show "token_of (proto w') (x_worker env) (h_execution_plan_id h) = Finishing h" using ss(2) sh(1) by simp
  show "plans_wf (sh_store (w_shared w)) \<longrightarrow> plans_wf (sh_store (w_shared w'))"
    using rely_parts(2)[OF assms(1)] sh(1) ss(3) by simp
qed

text \<open>What holds of a run that has a result to persist: the request was made behind the gate.\<close>

definition send_authorized :: "exec_env \<Rightarrow> qualified_plan \<Rightarrow> string \<Rightarrow> bool" where
  "send_authorized env q url \<longleftrightarrow>
     (\<exists>db t rv scopes now. fresh_authorization (x_sha256 env) q db = Inr (t, rv, scopes)
        \<and> request_authorized (x_hosts env) t rv scopes url ''GET'' now
        \<and> tgt_network_mode t = PRIVATE_LOCAL)"

lemma http_execute_cases:
  assumes rely: "rely env"
    and ex: "http_execute (plan_executor env q) t rv scopes mth url hs w = (w', r)"
  obtains (quiet) "reaches w w'" "handle_plan w' = handle_plan w" "\<exists>e. r = Inl e \<and> (\<forall>m. e \<noteq> HttpExecution m)"
  | (sent) h tr gw tid where "w_handle w' = Some h" "Some (h_execution_plan_id h) = handle_plan w"
      "pstep\<^sup>*\<^sup>* (proto w) (proto w')" "token_of (proto w') (x_worker env) (h_execution_plan_id h) = Finishing h"
      "w_connections w' = w_connections w @ tr" "send_authorized env q url"
      "tr = snd (gateway_request gw tid PRIVATE_LOCAL url hs MAX_RESPONSE_BYTES True)" "\<exists>n. gw = x_gateway env n"
      "\<forall>e. r = Inl e \<longrightarrow> (\<exists>m. e = HttpExecution m)"
      "plans_wf (sh_store (w_shared w)) \<longrightarrow> plans_wf (sh_store (w_shared w'))"
proof -
  obtain w1 r1 where g: "execute_gate (plan_executor env q) t rv scopes mth url w = (w1, r1)" by fastforce
  note gr = plan_gate.gate_R[of env w q t rv scopes mth url, unfolded g]
  have q1: "reaches w w1" "handle_plan w1 = handle_plan w" using gr rely by (auto simp: quiet_def)
  show thesis
  proof (cases r1)
    case (Inl e)
    then show ?thesis using quiet gr q1 ex g by (auto simp: http_execute_def)
  next
    case (Inr t')
    from gate_ok[OF g[unfolded Inr]] obtain s2 s3 s4 rv' sc' where
      mth: "py_upper (py_strip mth) = ''GET''" "tgt_network_mode t' = PRIVATE_LOCAL"
      and rf: "refresh_authorization env q s2 = (s3, Inr (t', rv', sc'))"
      and au: "request_authorized (x_hosts env) t' rv' sc' url ''GET'' (x_clock env (w_tick s3))"
      and bn: "before_network env s4 = (w1, Inr ())"
      by (auto simp: gate_passed_def plan_executor_def)
    obtain h where h: "w_handle w1 = Some h" "token_of (proto w1) (x_worker env) (h_execution_plan_id h) = Armed h"
      using armed_after_mark[OF bn] by blast
    obtain w2 r2 where c: "call_gateway env (tgt_id t') PRIVATE_LOCAL ''GET'' url hs MAX_RESPONSE_BYTES w1 = (w2, r2)"
      by fastforce
    have "w' = w2" using ex g Inr c mth by (cases r2) (simp_all add: http_execute_def plan_executor_def)
    note ag = after_gateway[OF rely h c]
    have au': "send_authorized env q url"
      using refresh_parts(3)[of env q s2 "(t', rv', sc')"] rf au mth(2) unfolding send_authorized_def by fastforce
    have hp: "Some (h_execution_plan_id h) = handle_plan w" using q1(2) h(1) by (simp add: handle_plan_def)
    have ps: "pstep\<^sup>*\<^sup>* (proto w) (proto w2)" using q1(1) ag(1) unfolding reaches_def by (metis rtranclp_trans)
    have cn: "w_connections w2 = w_connections w
        @ snd (gateway_request (x_gateway env (w_tick w1)) (tgt_id t') PRIVATE_LOCAL url hs MAX_RESPONSE_BYTES True)"
      using q1(1) ag(4) by (simp add: reaches_def)
    have wf: "plans_wf (sh_store (w_shared w)) \<longrightarrow> plans_wf (sh_store (w_shared w2))"
      using q1(1) ag(5) by (simp add: reaches_def)
    have er: "\<forall>e. r = Inl e \<longrightarrow> (\<exists>m. e = HttpExecution m)"
      using ex g Inr c mth by (cases r2) (auto simp: http_execute_def plan_executor_def)
    show ?thesis
      by (rule sent[where h = h, unfolded \<open>w' = w2\<close>, OF ag(2) hp ps ag(3) cn au' refl _ er wf]) blast
  qed
qed

text \<open>The outcome of the result transaction.\<close>

lemma finish_txn_steps:
  assumes "token_of (sh_proto s) (x_worker env) (h_execution_plan_id h) = Finishing h"
    and "h_execution_plan_id h = ai_plan (q_ids q)"
  shows "pstep\<^sup>*\<^sup>* (sh_proto s) (sh_proto (fst (finish_txn env q action r h n s)))"
    and "plans (sh_store (fst (finish_txn env q action r h n s))) = plans (sh_store s)"
    and "snd (finish_txn env q action r h n s) = Persisted run
      \<Longrightarrow> canonical_run (sh_tables (fst (finish_txn env q action r h n s))) (ai_plan (q_ids q)) = Some run"
proof -
  let ?a = "claim_assert_current (Some (x_caller env n)) (x_attempts env n) (x_retries env) h (sh_tables s)"
  let ?t = "finish_txn env q action r h n s"
  consider (refused) "fst (finish_txn env q action r h n s) = s" "\<forall>run. snd (finish_txn env q action r h n s) \<noteq> Persisted run"
    | (written) s' where "?a = Inr ()" "canonical_run (sh_tables s) (ai_plan (q_ids q)) = None"
        "write_result env q action r h n s = Inr s'" "fst (finish_txn env q action r h n s) = s'"
        "snd (finish_txn env q action r h n s) \<in> {NotPersisted, Persisted (x_run_id env n)}"
  proof (cases ?a)
    case (Inl e)
    then have "fst ?t = s \<and> (\<forall>run. snd ?t \<noteq> Persisted run)"
      by (cases e) (simp_all add: finish_txn_def split: claim_error.split)
    then show thesis using that(1) by blast
  next
    case a: (Inr u)
    show thesis
    proof (cases "x_persist env n = RolledBack \<or> canonical_run (sh_tables s) (ai_plan (q_ids q)) \<noteq> None
        \<or> (\<exists>e. write_result env q action r h n s = Inl e)")
      case True
      then have "fst ?t = s \<and> (\<forall>run. snd ?t \<noteq> Persisted run)" using a by (auto simp: finish_txn_def split: sum.splits)
      then show thesis using that(1) by blast
    next
      case False
      then obtain s' where "write_result env q action r h n s = Inr s'" by (cases "write_result env q action r h n s") auto
      then show thesis using that(2)[of s'] a False by (simp add: finish_txn_def)
    qed
  qed
  note cases = this
  have p: "pstep (sh_proto s) (sh_proto s') \<and> plans (sh_store s') = plans (sh_store s)
      \<and> canonical_run (sh_tables s') (ai_plan (q_ids q)) = Some (x_run_id env n)"
    if "?a = Inr ()" "canonical_run (sh_tables s) (ai_plan (q_ids q)) = None"
      "write_result env q action r h n s = Inr s'" for s'
  proof -
    note a = that(1)
    obtain now where "claim_is_current (sh_tables s) h now"
      using a by (cases "x_caller env n") (auto simp: claim_assert_current_def Let_def split: if_splits)
    from pstep.finish[OF assms(1) this] that(2) assms(2)
    have "pstep (sh_proto s) (set_token ((sh_proto s)\<lparr>tables := write_canonical (sh_tables s)
        (ai_plan (q_ids q)) (x_run_id env n)\<rparr>) (x_worker env) (h_execution_plan_id h) NoToken)" by simp
    then show ?thesis using that(3)
      by (auto simp: write_result_def Let_def set_case_status_def write_canonical_def)
  qed
  show "pstep\<^sup>*\<^sup>* (sh_proto s) (sh_proto (fst (finish_txn env q action r h n s)))"
    using p by (cases rule: cases) auto
  show "plans (sh_store (fst (finish_txn env q action r h n s))) = plans (sh_store s)"
    using p by (cases rule: cases) auto
  show "canonical_run (sh_tables (fst (finish_txn env q action r h n s))) (ai_plan (q_ids q)) = Some run"
    if "snd (finish_txn env q action r h n s) = Persisted run"
    using p that by (cases rule: cases) auto
qed

text \<open>What the rest of a run guarantees from a state on.\<close>

definition run_ok :: "exec_env \<Rightarrow> row_id \<Rightarrow> (qualified_plan \<Rightarrow> string \<Rightarrow> bool) \<Rightarrow> row_id comp \<Rightarrow> world \<Rightarrow> bool" where
  "run_ok env pid known m w \<longleftrightarrow>
     pstep\<^sup>*\<^sup>* (proto w) (proto (fst (m w)))
     \<and> (\<forall>run. snd (m w) = Inl (Return run) \<or> snd (m w) = Inr run
          \<longrightarrow> canonical_run (tables (proto (fst (m w)))) pid = Some run)
     \<and> (w_connections (fst (m w)) = w_connections w
        \<or> (\<exists>q url hs tid n. known q url \<and> send_authorized env q url
             \<and> w_connections (fst (m w)) = w_connections w
                 @ snd (gateway_request (x_gateway env n) tid PRIVATE_LOCAL url hs MAX_RESPONSE_BYTES True)))"

lemma run_ok_bindc:
  assumes "reaches w (fst (m w))"
    and "\<And>run. snd (m w) = Inl (Return run) \<Longrightarrow> canonical_run (tables (proto (fst (m w)))) pid = Some run"
    and "\<And>x. snd (m w) = Inr x \<Longrightarrow> run_ok env pid known (f x) (fst (m w))"
  shows "run_ok env pid known (bindc m f) w"
proof -
  obtain w1 r where 1: "m w = (w1, r)" by fastforce
  show ?thesis
  proof (cases r)
    case (Inl l)
    then show ?thesis using assms(1,2) 1 by (simp add: run_ok_def bindc_def reaches_def)
  next
    case (Inr x)
    then have "run_ok env pid known (f x) w1" using assms(3) 1 by simp
    then show ?thesis
      using assms(1) 1 Inr rtranclp_trans[of pstep "proto w" "proto w1"]
      by (simp add: run_ok_def bindc_def reaches_def)
  qed
qed

lemma run_ok_good:
  assumes "rely env" "good env pid m"
    and "\<And>x. snd (m w) = Inr x \<Longrightarrow> reaches w (fst (m w)) \<Longrightarrow> handle_plan (fst (m w)) = handle_plan w
      \<Longrightarrow> run_ok env pid known (f x) (fst (m w))"
  shows "run_ok env pid known (bindc m f) w"
  using assms unfolding good_def by (intro run_ok_bindc) auto

text \<open>A computation that needs no connection.\<close>

lemma run_ok_leaves:
  assumes "rely env" "good env pid m" "leaves m"
  shows "run_ok env pid known m w"
  using assms unfolding good_def leaves_def run_ok_def reaches_def by metis

lemma leaves_persistence_failed [simp]: "leaves (persistence_failed env ids)"
  by (simp add: persistence_failed_def)

lemma fresh_result_ok:
  assumes "rely env"
  shows "run_ok env pid known (bindc (load_fresh_canonical env pid) (\<lambda>canonical. case canonical of
               Inr (Some run) \<Rightarrow> ret run | _ \<Rightarrow> persistence_failed env ids)) w"
proof (rule run_ok_bindc)
  let ?l = "load_fresh_canonical env pid"
  show "reaches w (fst (?l w))"
    by (simp add: load_fresh_canonical_def interactc_eq interact_reaches assms)
  show "canonical_run (tables (proto (fst (?l w)))) pid = Some run" if "snd (?l w) = Inl (Return run)" for run
    using that by (simp add: load_fresh_canonical_def interactc_eq)
  show "run_ok env pid known (case x of Inr (Some run) \<Rightarrow> ret run | _ \<Rightarrow> persistence_failed env ids) (fst (?l w))"
    if x: "snd (?l w) = Inr x" for x
  proof (cases "\<exists>run. x = Inr (Some run)")
    case True
    then obtain run where "x = Inr (Some run)" by blast
    moreover from this x have "canonical_run (tables (proto (fst (?l w)))) pid = Some run"
      by (simp add: load_fresh_canonical_def interactc_eq split: if_splits)
    ultimately show ?thesis by (simp add: run_ok_def ret_def)
  next
    case False
    then show ?thesis using assms by (auto intro!: run_ok_leaves split: sum.split option.split)
  qed
qed

lemma finish_run_ok:
  assumes rely: "rely env" and h: "w_handle w = Some h" "h_execution_plan_id h = ai_plan (q_ids q)"
    and tok: "token_of (proto w) (x_worker env) (h_execution_plan_id h) = Finishing h"
  shows "run_ok env (ai_plan (q_ids q)) known (finish_run env q action r) w"
proof -
  let ?s = "x_others env (w_tick w) (w_shared w)" and ?pid = "ai_plan (q_ids q)"
  let ?k = "\<lambda>outcome. case outcome of
         WriterLost \<Rightarrow> raise_post_network_failure env (q_ids q) ''execution_plan_result_fencing_lost''
           ''ExecutionPlan result fencing was lost before persistence.''
       | WriterUnverified \<Rightarrow> raise_post_network_failure env (q_ids q) ''execution_plan_result_fencing_failed''
           ''ExecutionPlan result fencing could not be verified.''
       | UniqueConflict \<Rightarrow>
           bindc (load_fresh_canonical env ?pid) (\<lambda>canonical. case canonical of
               Inr (Some run) \<Rightarrow> ret run
             | _ \<Rightarrow> persistence_failed env (q_ids q))
       | NotPersisted \<Rightarrow> persistence_failed env (q_ids q)
       | Persisted run \<Rightarrow> ret run"
  have tok': "token_of (sh_proto ?s) (x_worker env) (h_execution_plan_id h) = Finishing h"
    using rely_token[OF rely] tok by simp
  note ft = finish_txn_steps[OF tok' h(2), where n = "w_tick w" and action = action and r = r]
  let ?i = "interactc env (finish_txn env q action r h)"
  have eq: "finish_run env q action r w = bindc ?i ?k w" by (simp add: finish_run_def with_handle_def h(1))
  have "run_ok env ?pid known (bindc ?i ?k) w"
  proof (rule run_ok_bindc)
    show "reaches w (fst (?i w))"
      using rtranclp_trans[OF rely_parts(1)[OF rely] ft(1)] rely_parts(2)[OF rely, of "w_shared w" "w_tick w"]
        plans_wf_cong[OF ft(2)] by (simp add: interactc_eq reaches_def)
    show "canonical_run (tables (proto (fst (?i w)))) ?pid = Some run" if "snd (?i w) = Inl (Return run)" for run
      using that by (simp add: interactc_eq)
    show "run_ok env ?pid known (?k x) (fst (?i w))" if x: "snd (?i w) = Inr x" for x
    proof (cases x)
      case (Persisted run)
      then have "canonical_run (tables (proto (fst (?i w)))) ?pid = Some run"
        using ft(3)[of run] x by (simp add: interactc_eq)
      then show ?thesis using Persisted by (simp add: run_ok_def ret_def)
    qed (simp_all add: rely fresh_result_ok run_ok_leaves)
  qed
  then show ?thesis using eq by (simp add: run_ok_def)
qed

lemma leaves_record_blocked: "leaves (record_blocked env ids cd rsn)"
  unfolding record_blocked_def by (intro leaves_bindc leaves_rules)

lemma run_ok_prefix:
  assumes "reaches w w'" "m w = m' w'" "run_ok env pid known m' w'"
  shows "run_ok env pid known m w"
  using assms rtranclp_trans[of pstep "proto w" "proto w'"] unfolding run_ok_def reaches_def by auto

lemma network_phase_ok:
  assumes rely: "rely env" and hp: "handle_plan w = Some (ai_plan (q_ids q))" and known: "known q (act_url action)"
  shows "run_ok env (ai_plan (q_ids q)) known (network_phase env q action scopes) w"
proof -
  let ?pid = "ai_plan (q_ids q)" and ?n = "network_phase env q action scopes"
  obtain w' r where x: "http_execute (plan_executor env q) (q_target q) (Some (q_revision q)) scopes (act_method action)
             (act_url action) (q_headers q) w = (w', r)" by fastforce
  from rely x show ?thesis
  proof (cases rule: http_execute_cases)
    case quiet
    then obtain e where e: "r = Inl e" "\<forall>m. e \<noteq> HttpExecution m" by blast
    show ?thesis
    proof (cases e)
      case (Blocked cd rsn)
      then have "?n w = record_blocked env (q_ids q) cd rsn w'" using x e by (simp add: network_phase_def)
      then show ?thesis
        by (rule run_ok_prefix[OF quiet(1)]) (rule run_ok_leaves[OF rely good_record_blocked leaves_record_blocked])
    next
      case (Unexpected msg)
      then have "?n w = leaving (Raise (OtherError msg)) w'" using x e by (simp add: network_phase_def leaving_def)
      then show ?thesis by (rule run_ok_prefix[OF quiet(1)]) (simp add: run_ok_leaves[OF rely])
    qed (use e in simp)
  next
    case (sent h tr gw tid)
    have h: "h_execution_plan_id h = ?pid" using sent(2) hp by simp
    obtain n where n: "gw = x_gateway env n" using sent(8) by blast
    have fin: "run_ok env ?pid (\<lambda>_ _. False) (finish_run env q action rr) w'" for rr
      by (rule finish_run_ok[OF rely sent(1) h sent(4)])
    have out: "run_ok env ?pid known ?n w" if "?n w = finish_run env q action rr w'" for rr
    proof -
      have "w_connections (fst (?n w)) = w_connections w @ snd (gateway_request (x_gateway env n) tid PRIVATE_LOCAL
          (act_url action) (q_headers q) MAX_RESPONSE_BYTES True)"
        using fin[of rr] sent(5,7) n that by (simp add: run_ok_def)
      moreover have "pstep\<^sup>*\<^sup>* (proto w) (proto (fst (?n w)))"
        using fin[of rr] rtranclp_trans[OF sent(3)] that by (simp add: run_ok_def)
      moreover have "snd (?n w) = Inl (Return run) \<or> snd (?n w) = Inr run
          \<longrightarrow> canonical_run (tables (proto (fst (?n w)))) ?pid = Some run" for run
        using fin[of rr] that by (simp add: run_ok_def)
      ultimately show ?thesis using sent(6) known unfolding run_ok_def by blast
    qed
    show ?thesis
    proof (cases r)
      case (Inl e)
      then show ?thesis using out x sent(9) by (auto simp: network_phase_def)
    next
      case (Inr a)
      then show ?thesis using out x by (simp add: network_phase_def)
    qed
  qed
qed

lemma finally_release_ok:
  assumes "rely env" "run_ok env pid known m w"
  shows "run_ok env pid known (finally_release env ids m) w"
proof -
  obtain w1 r where 1: "m w = (w1, r)" by fastforce
  obtain w2 r2 where 2: "release_claim env ids w1 = (w2, r2)" by fastforce
  note g = good_release[of env pid ids, unfolded good_def, rule_format, OF assms(1), of w1, unfolded 2]
  have m: "run_ok env pid known m w" by (rule assms(2))
  have ps: "pstep\<^sup>*\<^sup>* (proto w) (proto w2)"
    using m g 1 unfolding run_ok_def reaches_def by (metis fst_conv rtranclp_trans)
  have cn: "w_connections w2 = w_connections w1" using g by (simp add: reaches_def)
  have keep: "canonical_run (tables (proto w1)) pid = Some run \<Longrightarrow> canonical_run (tables (proto w2)) pid = Some run" for run
    using g reaches_canonical by (metis fst_conv)
  have f: "finally_release env ids m w = (w2, case r2 of Inl l \<Rightarrow> Inl l | Inr _ \<Rightarrow> r)"
    using 1 2 by (simp add: finally_release_def split: sum.split)
  show ?thesis
    using m g ps keep cn unfolding run_ok_def f 1 by (cases r2) auto
qed

subsection \<open>Whole runs\<close>

lemma load_plan_ok:
  assumes "snd (load_plan env pid w) = Inr (plan, action)"
  shows "\<exists>db. checked_plan (x_sha256 env) db None pid = Inr (plan, action)
      \<and> sh_store (w_shared (fst (load_plan env pid w))) = db"
proof -
  have "checked_plan (x_sha256 env) (sh_store (w_shared (fst (load_plan env pid w))))
      (canonical_run (tables (proto (fst (load_plan env pid w)))) pid) pid = Inr (plan, action)"
    using assms by (simp add: load_plan_def bindc_def interactc_eq lift_def)
  then show ?thesis using checked_plan_ok(3) by metis
qed

lemma qualify_ids:
  "qualify sha bearer db plan action = Inr q \<Longrightarrow> ai_plan (q_ids q) = plan_id plan
    \<and> (rev_require_human_execution_approval (q_revision q) \<longrightarrow> q_approved q)"
  by (auto simp: qualify_def Let_def split: option.splits if_splits sum.splits)

lemma qualify_plan_ok:
  assumes "snd (qualify_plan env plan action w) = Inr q"
  shows "\<exists>db. qualify (x_sha256 env) (x_bearer env) db plan action = Inr q"
proof -
  let ?f = "\<lambda>n s. (s, qualify (x_sha256 env) (x_bearer env) (sh_store s) plan action)"
  obtain w1 r where 1: "interact env ?f w = (w1, r)" by fastforce
  have "leaves (raise_preflight_blocked env ids cd rsn :: qualified_plan comp)" for ids cd rsn by simp
  then have "snd (raise_preflight_blocked env ids cd rsn w1) \<noteq> Inr q" for ids cd rsn
    by (simp add: leaves_def)
  then have "r = Inr q" using assms 1
    by (cases r) (auto simp: qualify_plan_def bindc_def interactc_def leaving_def ret_def split: unqualified.splits)
  then show ?thesis using interact_world(4)[of env ?f w] 1 by auto
qed

text \<open>What the preflight established of a request: where its action and its headers come from.\<close>

definition preflight_passed :: "exec_env \<Rightarrow> row_id \<Rightarrow> qualified_plan \<Rightarrow> string \<Rightarrow> bool" where
  "preflight_passed env pid q url \<longleftrightarrow>
     (\<exists>db db' plan action. checked_plan (x_sha256 env) db None pid = Inr (plan, action)
        \<and> qualify (x_sha256 env) (x_bearer env) db' plan action = Inr q \<and> ai_plan (q_ids q) = pid
        \<and> url = act_url action)"

lemma execute_steps_ok:
  assumes rely: "rely env" and wf: "plans_wf (sh_store (w_shared w))"
  shows "run_ok env pid (preflight_passed env pid) (execute_steps env pid) w"
  unfolding execute_steps_def
proof (rule run_ok_good[OF rely good_load_plan], clarsimp, goal_cases)
  case (1 plan action)
  let ?w1 = "fst (load_plan env pid w)"
  obtain db where db: "checked_plan (x_sha256 env) db None pid = Inr (plan, action)" "sh_store (w_shared ?w1) = db"
    using load_plan_ok[OF 1(1)] by blast
  have "plans_wf db" using 1(2) wf db(2) by (simp add: reaches_def)
  then have pid: "plan_id plan = pid" using checked_plan_ok(1)[OF db(1)] by (simp add: plans_wf_def)
  show ?case
  proof (rule run_ok_good[OF rely good_cancellation_gate[OF good_simple(1)]],
      rule run_ok_good[OF rely good_qualify_plan], goal_cases)
    case (1 x q)
    have ids: "ai_plan (q_ids q) = pid" and known: "preflight_passed env pid q (act_url action)"
      using qualify_plan_ok[OF 1(4)] qualify_ids pid db(1) unfolding preflight_passed_def by blast+
    let ?w = "fst (qualify_plan env plan action (fst (cancellation_gate env (plan_ids plan action) (ret ()) ?w1)))"
    note c = claim_plan_ok[OF rely, where w = ?w and ids = "q_ids q"]
    show ?case
    proof (rule run_ok_bindc, goal_cases)
      case 1
      show ?case by (rule c(1))
    next
      case (2 run)
      then show ?case using c(3)[of run] ids by simp
    next
      case (3 x)
      then have hp: "handle_plan (fst (claim_plan env (q_ids q) ?w)) = Some pid" using c(2) ids by simp
      show ?case
      proof (rule run_ok_good[OF rely good_canonical_gate[of env "q_ids q", unfolded ids]],
          rule run_ok_good[OF rely good_cancellation_gate[OF good_release]],
          rule run_ok_good[OF rely good_progress_gate],
          rule run_ok_good[OF rely good_start_running], goal_cases)
        case (1 x1 x2 x3 scopes)
        then have "handle_plan (fst (start_running env q (fst (progress_gate env (q_ids q) (fst (cancellation_gate env (q_ids q)
            (release_claim env (q_ids q)) (fst (canonical_gate env (q_ids q) (fst (claim_plan env (q_ids q) ?w))))))))))
            = Some (ai_plan (q_ids q))" using hp ids by simp
        from network_phase_ok[where known = "preflight_passed env pid" and action = action, OF rely this known]
        show ?case unfolding ids by (rule finally_release_ok[OF rely])
      qed
    qed
  qed
qed

lemma execute_plan_fst: "fst (execute_plan env pid w) = fst (execute_steps env pid w)"
  by (simp add: execute_plan_def split: prod.split sum.split leave.split)

lemma execute_plan_run:
  "snd (execute_plan env pid w) = Inr run
   \<Longrightarrow> snd (execute_steps env pid w) = Inl (Return run) \<or> snd (execute_steps env pid w) = Inr run"
  by (auto simp: execute_plan_def split: prod.splits sum.splits leave.splits)

text \<open>A platform on which one worker executes the plan 7.\<close>

definition lab_action_row :: plan_action where
  "lab_action_row = \<lparr>act_id = 70, act_execution_plan_id = 7, act_ordinal = 1, act_method = ''GET'',
     act_url = ''http://lab.test/a'', act_test_case_id = Some 11, act_resource_id = Some 12, act_created_at = 0\<rparr>"

definition lab_plan_row :: execution_plan where
  "lab_plan_row = \<lparr>plan_id = 7, plan_target_id = 1, plan_authorization_revision_id = 2,
     plan_actor_identity_id = 3, plan_credential_binding_id = None, plan_digest_version = ''v1'',
     plan_plan_digest = lab_sha [], plan_action_count = 1, plan_policy_context = JObj [], plan_created_at = 0\<rparr>"

definition exec_store :: store where
  "exec_store = lab_store\<lparr>plans := [7 \<mapsto> lab_plan_row], plan_actions := [lab_action_row],
     test_cases := [11 \<mapsto> \<lparr>tc_id = 11, tc_endpoint_id = 13, tc_actor_identity_id = 3, tc_resource_id = 12,
       tc_test_type = ''bola'', tc_ownership_relation = ''other'', tc_expected_statuses = [403],
       tc_status = ''planned'', tc_created_at = 0\<rparr>],
     resources := [12 \<mapsto> \<lparr>res_id = 12, res_target_id = 1, res_resource_type = ''order'', res_external_id = ''a'',
       res_owner_identity_id = 3, res_created_at = 0, res_updated_at = 0\<rparr>],
     endpoints := [13 \<mapsto> \<lparr>ep_id = 13, ep_target_id = 1, ep_path = ''/a'', ep_method = ''GET'',
       ep_operation_id = None, ep_requires_auth = False, ep_parameters = [], ep_request_body = None,
       ep_security = None, ep_created_at = 0, ep_updated_at = 0\<rparr>],
     approvals := [\<lparr>appr_id = 1, appr_execution_plan_id = 7, appr_digest_version = ''v1'',
       appr_plan_digest = lab_sha [], appr_decision = ''approved'', appr_created_at = 0\<rparr>]\<rparr>"

definition lab_exec :: exec_env where
  "lab_exec = \<lparr>x_others = (\<lambda>_ s. s), x_attempts = (\<lambda>n i. (AttemptOk, int n)),
     x_caller = (\<lambda>n. (AttemptOk, int n)), x_fails = (\<lambda>_. False), x_persist = (\<lambda>_. AttemptOk),
     x_clock = int, x_rate = (\<lambda>_. RateGranted), x_gateway = (\<lambda>_. lab_env), x_duration = (\<lambda>_. 5),
     x_run_id = (\<lambda>_. 90), x_sha256 = lab_sha, x_bearer = lab_bearer, x_hosts = [''lab.test''],
     x_retries = 3, x_lease = PyInt 30, x_owner = ''worker'', x_worker = 0\<rparr>"

definition lab_world :: world where
  "lab_world = \<lparr>w_shared = \<lparr>sh_store = exec_store, sh_proto = initial_pstate lab_db,
     sh_runs = (\<lambda>_. None), sh_audit = []\<rparr>, w_tick = 0, w_handle = None, w_connections = []\<rparr>"

lemma lab_exec_rely: "rely lab_exec"
  by (simp add: rely_def lab_exec_def)

lemma lab_world_wf: "plans_wf (sh_store (w_shared lab_world))"
  by (simp add: plans_wf_def lab_world_def exec_store_def lab_plan_row_def)

lemma lab_run:
  "snd (execute_plan lab_exec 7 lab_world) = Inr 90"
  "length (w_connections (fst (execute_plan lab_exec 7 lab_world))) = 1"
proof -
  have "case execute_plan lab_exec 7 lab_world of (w', r) \<Rightarrow> r = Inr 90 \<and> length (w_connections w') = 1"
    by code_simp
  then show "snd (execute_plan lab_exec 7 lab_world) = Inr 90"
    "length (w_connections (fst (execute_plan lab_exec 7 lab_world))) = 1" by (simp_all split: prod.splits)
qed

lemma gateway_trace_short: "length (snd (gateway_request gw tid mode url hs mx ok)) \<le> 1"
proof -
  have c: "length (snd (connect_tcp gw tid mode lh sel host port)) \<le> Suc 0" for lh sel host port
    using connect_tcp_trace[of gw tid mode lh sel host port] by auto
  have second: "snd (case x of (Inl e, tr) \<Rightarrow> (Inl e, tr) | (Inr p, tr) \<Rightarrow> (f p, tr)) = snd x"
    for x :: "(coded_error + ip_address) \<times> (ip_address \<times> nat) list" and f :: "ip_address \<Rightarrow> coded_error + gateway_result"
    by (simp split: prod.split sum.split)
  have "length (snd (request_admitted gw tid mode url hs m)) \<le> Suc 0" for m
    unfolding request_admitted_def Let_def
    by (simp add: c second split: option.split sum.split list.split)
  then show ?thesis by (simp add: gateway_request_def split: sum.split)
qed

text \<open>With the resolver of the platform, the connection is to a local address.\<close>

lemma gateway_trace_local:
  assumes "env_resolve gw = system_resolve getaddrinfo"
    and "tr = snd (gateway_request gw tid PRIVATE_LOCAL url hs MAX_RESPONSE_BYTES True)"
  shows "tr = [] \<or> (\<exists>ip port. tr = [(ip, port)] \<and> local_address ip)"
proof (cases tr)
  case (Cons p rest)
  have "rest = []" using gateway_trace_short[of gw tid PRIVATE_LOCAL url hs MAX_RESPONSE_BYTES True] assms(2) Cons
    by (metis Suc_le_mono One_nat_def le_zero_eq length_0_conv length_Cons)
  moreover have "p \<in> set (snd (request_admitted gw tid PRIVATE_LOCAL url hs (nat MAX_RESPONSE_BYTES)))"
    using assms(2) Cons list.set_intros(1)[of p rest] by (auto simp: gateway_request_def split: sum.splits if_splits)
  then have "local_address (fst p)" using sysdns.request_trace[OF assms(1), of "fst p" "snd p"] by simp
  ultimately show ?thesis using Cons by (cases p) simp
qed simp

subsection \<open>Properties\<close>

text \<open>
  C17. Executing a plan keeps to the coordination protocol: whatever the other sessions do between its
  database accesses (protocol steps of other workers), and however its own transactions,
  audit records, rate limiter, gateway and commits fail, a run of \<open>execute\<close> is itself a sequence of
  protocol steps. So every state it leaves behind is reachable, the plan has been sent at most once
  by all runs together, and a plan that was cancelled has not been sent.
\<close>

theorem plan_execution_refines_protocol:
  assumes "rely env" "plans_wf (sh_store (w_shared w))" "preach (proto w)"
    and "w' = fst (execute_plan env pid w)"
  shows "pstep\<^sup>*\<^sup>* (proto w) (proto w') \<and> preach (proto w') \<and> sends (proto w') pid \<le> 1
    \<and> (cancellations (tables (proto w')) pid \<noteq> None \<longrightarrow> sends (proto w') pid = 0)"
proof -
  have "pstep\<^sup>*\<^sup>* (proto w) (proto w')"
    using execute_steps_ok[OF assms(1,2)] assms(4) by (simp add: run_ok_def execute_plan_fst)
  moreover from this have "preach (proto w')" using assms(3) by (rule preach_psteps)
  ultimately show ?thesis
    using pinvD[OF preach_pinv, of "proto w'" pid] by (auto simp: plan_ok_def)
qed

theorem plan_execution_refines_protocol_witness:
  "snd (execute_plan lab_exec 7 lab_world) = Inr 90
   \<and> preach (proto (fst (execute_plan lab_exec 7 lab_world)))"
proof -
  have "preach (proto lab_world)"
    by (simp add: lab_world_def) (intro preach.start, simp add: fresh_tables_def lab_db_def)
  then show ?thesis
    using plan_execution_refines_protocol[OF lab_exec_rely lab_world_wf _ refl, of 7] lab_run by blast
qed

text \<open>
  C19. The run that \<open>execute\<close> returns is the canonical result of the plan: whether it persisted the
  result itself, found it before or after the claim, or lost a race for the unique
  constraint, the returned run is the one that the database then holds for this plan.
\<close>

theorem execution_returns_canonical:
  assumes "rely env" "plans_wf (sh_store (w_shared w))" "execute_plan env pid w = (w', Inr run)"
  shows "canonical_run (tables (proto w')) pid = Some run"
  using execute_steps_ok[OF assms(1,2), of pid] execute_plan_run[of env pid w run] assms(3)
    execute_plan_fst[of env pid w] by (auto simp: run_ok_def)

theorem execution_returns_canonical_witness:
  "canonical_run (tables (proto (fst (execute_plan lab_exec 7 lab_world)))) 7 = Some 90"
  by (rule execution_returns_canonical[OF lab_exec_rely lab_world_wf]) (use lab_run in \<open>simp add: prod_eq_iff\<close>)



end
