(* ===== verification/Bola.thy ===== *)
theory Bola
  imports Safety_Audit
begin

text \<open>
  Generation of BOLA test cases and their plans: ownership (\<open>domain/ownership.py\<close>), the generator
  (\<open>generators/bola.py\<close>), the request URL of a test case (\<open>build_test_case_url\<close> of
  \<open>services/test_execution.py\<close>) and the planning of one GET (\<open>services/test_case_planning.py\<close>).
  The lemmas show which test cases are generated, that the identifier of a resource cannot
  change the shape of the URL, and that the recorded scope is one the policy engine accepts.
\<close>

subsection \<open>Ownership\<close>

datatype ownership_relation = OWNER | CROSS_OWNER | ANONYMOUS

fun relation_value :: "ownership_relation \<Rightarrow> string" where
  "relation_value OWNER = ''owner''"
| "relation_value CROSS_OWNER = ''cross_owner''"
| "relation_value ANONYMOUS = ''anonymous''"

definition determine_ownership_relation :: "test_identity \<Rightarrow> resource \<Rightarrow> string + ownership_relation" where
  "determine_ownership_relation actor r =
     (if ident_target_id actor \<noteq> res_target_id r then
        Inl ''actor and resource belong to different targets''
      else if ident_auth_type actor = ''anonymous'' then Inr ANONYMOUS
      else if ident_id actor = res_owner_identity_id r then Inr OWNER
      else Inr CROSS_OWNER)"

subsection \<open>The resource parameter of a path\<close>

definition is_alpha :: "char \<Rightarrow> bool" where
  "is_alpha c \<longleftrightarrow> is_lower c \<or> is_upper c"

definition is_word :: "char \<Rightarrow> bool" where
  "is_word c \<longleftrightarrow> is_alpha c \<or> is_digit c \<or> c = CHR ''_''"

text \<open>
  A match of \<open>([A-Za-z][A-Za-z0-9_]*)_id\}\<close> at the start of the text, after the opening brace: no
  character of the group is a brace, so the match ends at the first closing brace and its
  group is determined by it.
\<close>

definition match_placeholder :: "string \<Rightarrow> string option" where
  "match_placeholder s =
     (let content = takeWhile (\<lambda>c. c \<noteq> CHR 0x7D) s; base = take (length content - 3) content in
      if content \<noteq> s \<and> suffix ''_id'' content \<and> base \<noteq> [] \<and> is_alpha (hd base) \<and> list_all is_word base
      then Some base else None)"

text \<open>\<open>finditer\<close>: the groups of the matches from left to right, not overlapping.\<close>

function resource_parameters :: "string \<Rightarrow> string list" where
  "resource_parameters [] = []"
| "resource_parameters (c # s) =
     (case (if c = CHR 0x7B then match_placeholder s else None) of
        Some base \<Rightarrow> base # resource_parameters (drop (length base + 4) s)
      | None \<Rightarrow> resource_parameters s)"
  by pat_completeness auto
termination
  by (relation "measure length") auto

record endpoint_resource_binding =
  erb_parameter_name :: string
  erb_resource_type :: string

definition detect_resource_binding :: "endpoint \<Rightarrow> endpoint_resource_binding option" where
  "detect_resource_binding ep =
     (case resource_parameters (ep_path ep) of
        [base] \<Rightarrow> Some \<lparr>erb_parameter_name = base @ ''_id'', erb_resource_type = py_lower base\<rparr>
      | _ \<Rightarrow> None)"

subsection \<open>Generation\<close>

definition SUPPORTED_BOLA_METHODS :: "string list" where
  "SUPPORTED_BOLA_METHODS = [''GET'', ''PATCH'', ''DELETE'']"

definition OWNER_BASELINE :: string where "OWNER_BASELINE = ''owner_baseline''"
definition BOLA_CROSS_OWNER :: string where "BOLA_CROSS_OWNER = ''bola_cross_owner''"
definition ANONYMOUS_ACCESS :: string where "ANONYMOUS_ACCESS = ''anonymous_access''"

definition owner_expected_statuses :: "string \<Rightarrow> int list" where
  "owner_expected_statuses mth = (if mth = ''GET'' then [200] else [200, 204])"

definition CROSS_OWNER_EXPECTED_STATUSES :: "int list" where
  "CROSS_OWNER_EXPECTED_STATUSES = [403, 404]"

definition ANONYMOUS_EXPECTED_STATUSES :: "int list" where
  "ANONYMOUS_EXPECTED_STATUSES = [401, 403, 404]"

record generated_test_case =
  gtc_endpoint_id :: row_id
  gtc_actor_identity_id :: row_id
  gtc_resource_id :: row_id
  gtc_test_type :: string
  gtc_ownership_relation :: string
  gtc_expected_statuses :: "int list"

definition generated_case :: "endpoint \<Rightarrow> test_identity \<Rightarrow> resource \<Rightarrow> ownership_relation \<Rightarrow> generated_test_case" where
  "generated_case ep actor r rel =
     \<lparr>gtc_endpoint_id = ep_id ep, gtc_actor_identity_id = ident_id actor, gtc_resource_id = res_id r,
      gtc_test_type = (case rel of OWNER \<Rightarrow> OWNER_BASELINE | CROSS_OWNER \<Rightarrow> BOLA_CROSS_OWNER
                         | ANONYMOUS \<Rightarrow> ANONYMOUS_ACCESS),
      gtc_ownership_relation = relation_value rel,
      gtc_expected_statuses = (case rel of OWNER \<Rightarrow> owner_expected_statuses (ep_method ep)
                         | CROSS_OWNER \<Rightarrow> CROSS_OWNER_EXPECTED_STATUSES
                         | ANONYMOUS \<Rightarrow> ANONYMOUS_EXPECTED_STATUSES)\<rparr>"

definition endpoint_cases ::
  "test_identity list \<Rightarrow> resource list \<Rightarrow> endpoint \<Rightarrow> string + generated_test_case list" where
  "endpoint_cases actors rs ep =
     (if ep_method ep \<notin> set SUPPORTED_BOLA_METHODS then Inr []
      else (case detect_resource_binding ep of
        None \<Rightarrow> Inr []
      | Some b \<Rightarrow>
         (let matching_resources = filter (\<lambda>r. res_target_id r = ep_target_id ep
                \<and> res_resource_type r = erb_resource_type b) rs;
              matching_actors = filter (\<lambda>a. ident_target_id a = ep_target_id ep \<and> ident_is_active a) actors
          in res_mapM (\<lambda>(actor, r). res_map (generated_case ep actor r) (determine_ownership_relation actor r))
               (concat (map (\<lambda>actor. map (Pair actor) matching_resources) matching_actors)))))"

definition generate_bola_test_cases ::
  "endpoint list \<Rightarrow> test_identity list \<Rightarrow> resource list \<Rightarrow> string + generated_test_case list" where
  "generate_bola_test_cases eps actors rs =
     res_map concat (res_mapM (endpoint_cases actors rs) eps)"

subsection \<open>The URL of a test case\<close>

text \<open>\<open>urllib.parse.quote(s, safe="")\<close> on the bytes of the text.\<close>

definition unreserved :: "char \<Rightarrow> bool" where
  "unreserved c \<longleftrightarrow> is_alpha c \<or> is_digit c \<or> c \<in> set ''_.-~''"

definition hex_upper :: "nat \<Rightarrow> char" where
  "hex_upper d = (if d < 10 then char_of (48 + d) else char_of (55 + d))"

definition quote_char :: "char \<Rightarrow> string" where
  "quote_char c = (if unreserved c then [c] else [CHR ''%'', hex_upper (ord c div 16), hex_upper (ord c mod 16)])"

definition quote :: "string \<Rightarrow> string" where
  "quote s = concat (map quote_char s)"

text \<open>\<open>s.replace(old, new, 1)\<close> for a non-empty \<open>old\<close>.\<close>

fun replace_first :: "string \<Rightarrow> string \<Rightarrow> string \<Rightarrow> string" where
  "replace_first old new [] = []"
| "replace_first old new (c # s) =
     (if prefix old (c # s) then new @ drop (length old) (c # s) else c # replace_first old new s)"

definition build_test_case_url :: "target \<Rightarrow> endpoint \<Rightarrow> resource \<Rightarrow> string + string" where
  "build_test_case_url t ep r =
     (if ep_target_id ep \<noteq> tgt_id t then Inl ''Endpoint belongs to a different target.''
      else if res_target_id r \<noteq> tgt_id t then Inl ''Resource belongs to a different target.''
      else (case detect_resource_binding ep of
        None \<Rightarrow> Inl ''Unable to determine endpoint resource binding.''
      | Some b \<Rightarrow>
        if erb_resource_type b \<noteq> res_resource_type r then Inl ''Resource type does not match endpoint.''
        else
         (let placeholder = CHR 0x7B # erb_parameter_name b @ [CHR 0x7D] in
          if \<not> py_contains placeholder (ep_path ep) then Inl ''Endpoint resource placeholder is missing.''
          else
           (let request_path = replace_first placeholder (quote (res_external_id r)) (ep_path ep) in
            if CHR 0x7B \<in> set request_path \<or> CHR 0x7D \<in> set request_path then
              Inl ''Endpoint contains unresolved path parameters.''
            else Inr (py_rstrip_char (CHR ''/'') (tgt_base_url t) @ request_path)))))"

subsection \<open>Planning a test case\<close>

definition POLICY_CONTEXT_VERSION :: string where "POLICY_CONTEXT_VERSION = ''v1''"

text \<open>\<open>sorted\<close> of a set of strings: code point order is the order of the UTF-8 bytes.\<close>

definition sorted_methods :: "string list \<Rightarrow> string list" where
  "sorted_methods ms = sort (remdups ms)"

text \<open>One turn of the loop over the scopes; a scope that does not normalise is skipped.\<close>

definition scope_context :: "string \<Rightarrow> string \<Rightarrow> scope \<Rightarrow> json option" where
  "scope_context hostname request_path sc =
     (case (normalize_hostname (scope_hostname sc), normalize_scope_path_pattern (scope_path_pattern sc)) of
        (Inr h, Inr path_pattern) \<Rightarrow>
          (let allowed_methods = sorted_methods (map (\<lambda>m. py_upper (py_strip m)) (scope_allowed_methods sc)) in
           case (if h = hostname \<and> ''GET'' \<in> set allowed_methods
                 then path_matches_scope request_path path_pattern else Inr False) of
             Inr True \<Rightarrow>
               Some (JObj [(''context_version'', JStr POLICY_CONTEXT_VERSION),
                 (''matched_scope'', JObj [(''id'', JInt (scope_id sc)), (''hostname'', JStr h),
                    (''path_pattern'', JStr path_pattern),
                    (''allowed_methods'', JArr (map JStr allowed_methods))])])
           | _ \<Rightarrow> None)
      | _ \<Rightarrow> None)"

fun first_context :: "string \<Rightarrow> string \<Rightarrow> scope list \<Rightarrow> json option" where
  "first_context hostname request_path [] = None"
| "first_context hostname request_path (sc # scs) =
     (case scope_context hostname request_path sc of
        Some v \<Rightarrow> Some v | None \<Rightarrow> first_context hostname request_path scs)"

definition build_scope_context :: "store \<Rightarrow> row_id \<Rightarrow> string \<Rightarrow> string + json" where
  "build_scope_context db target_id request_url =
     (case (parse_origin request_url, normalize_request_path request_url) of
        (Inr request_origin, Inr request_path) \<Rightarrow>
          (case first_context (origin_hostname request_origin) request_path
                  (sort_key scope_id (filter scope_is_active (scopes_of db target_id))) of
             None \<Rightarrow> Inl ''no active Scope matches the planned action''
           | Some v \<Rightarrow> Inr v)
      | _ \<Rightarrow> Inl ''planned action URL is unsafe'')"

text \<open>
  What precedes the creation of the plan. \<open>plan_error\<close> carries the message of a
  \<open>TestCasePlanningError\<close> as a validation error.
\<close>

record planned_action =
  pl_target :: target
  pl_revision :: authorization_revision
  pl_actor :: test_identity
  pl_url :: string
  pl_resource :: resource
  pl_context :: json

definition plan_test_case :: "store \<Rightarrow> row_id \<Rightarrow> string + planned_action" where
  "plan_test_case db test_case_id =
     (case test_cases db test_case_id of
        None \<Rightarrow> Inl ''TestCase not found''
      | Some tc \<Rightarrow>
      if new_case db (Some tc) then Inl ''intent_w2_execution_closed''
      else (case (endpoints db (tc_endpoint_id tc), resources db (tc_resource_id tc),
                  identities db (tc_actor_identity_id tc)) of
        (Some ep, Some r, Some actor) \<Rightarrow>
          (case targets db (ep_target_id ep) of
             None \<Rightarrow> Inl ''Target not found''
           | Some t \<Rightarrow>
             if \<not> tgt_is_enabled t then Inl ''Target is disabled''
             else if res_target_id r \<noteq> tgt_id t \<or> ident_target_id actor \<noteq> tgt_id t then
               Inl ''TestCase graph crosses Targets''
             else if ep_method ep \<noteq> ''GET'' then Inl ''M5 planning supports GET endpoints only''
             else (case tgt_authorization_revision_id t of
               None \<Rightarrow> Inl ''Target has no bound AuthorizationRevision''
             | Some rid \<Rightarrow>
               (case revisions db rid of
                  None \<Rightarrow> Inl ''Target-bound AuthorizationRevision is not active and consistent''
                | Some rv \<Rightarrow>
                  if Some (rev_authorization_profile_id rv) \<noteq> tgt_authorization_profile_id t
                     \<or> rev_lifecycle_state rv \<noteq> ''active'' then
                    Inl ''Target-bound AuthorizationRevision is not active and consistent''
                  else res_bind (build_test_case_url t ep r) (\<lambda>request_url.
                    res_map (\<lambda>ctx. \<lparr>pl_target = t, pl_revision = rv, pl_actor = actor,
                        pl_url = request_url, pl_resource = r, pl_context = ctx\<rparr>)
                      (build_scope_context db (tgt_id t) request_url)))))
      | _ \<Rightarrow> Inl ''TestCase graph is incomplete''))"

definition create_test_case_execution_plan ::
  "(string \<Rightarrow> string) \<Rightarrow> row_id \<Rightarrow> row_id \<Rightarrow> datetime \<Rightarrow> row_id \<Rightarrow> row_id option
   \<Rightarrow> store \<times> safety_decision_record list
   \<Rightarrow> (store \<times> safety_decision_record list) \<times> (plan_error + execution_plan)" where
  "create_test_case_execution_plan sha256 pid first_action_id now test_case_id credential_binding_id st =
     (case st of (db, audit) \<Rightarrow>
       (case plan_test_case db test_case_id of
          Inl msg \<Rightarrow> (st, Inl (PlanValidation msg))
        | Inr p \<Rightarrow>
          (case create_execution_plan sha256 pid first_action_id now (tgt_id (pl_target p)) (rev_id (pl_revision p))
                  (ident_id (pl_actor p)) credential_binding_id
                  [\<lparr>pai_method = ''GET'', pai_url = pl_url p, pai_test_case_id = Some test_case_id,
                    pai_resource_id = Some (res_id (pl_resource p))\<rparr>] (Some (pl_context p)) db of
             (db', Inl e) \<Rightarrow> ((db', audit), Inl e)
           | (db', Inr plan) \<Rightarrow>
               ((db', append_plan_created plan (actions_of db' (plan_id plan)) test_case_id audit), Inr plan))))"

subsection \<open>Facts: generation\<close>

text \<open>The relation between an actor and a resource of the same target.\<close>

definition relation_of :: "test_identity \<Rightarrow> resource \<Rightarrow> ownership_relation" where
  "relation_of actor r =
     (if ident_auth_type actor = ''anonymous'' then ANONYMOUS
      else if ident_id actor = res_owner_identity_id r then OWNER else CROSS_OWNER)"

text \<open>The triples for which a test case is due.\<close>

definition bola_applies :: "endpoint \<Rightarrow> test_identity \<Rightarrow> resource \<Rightarrow> bool" where
  "bola_applies ep actor r \<longleftrightarrow>
     ep_method ep \<in> set SUPPORTED_BOLA_METHODS
     \<and> (\<exists>b. detect_resource_binding ep = Some b \<and> res_resource_type r = erb_resource_type b)
     \<and> res_target_id r = ep_target_id ep \<and> ident_target_id actor = ep_target_id ep \<and> ident_is_active actor"

lemma res_mapM_total: "(\<And>x. x \<in> set xs \<Longrightarrow> f x = Inr (g x)) \<Longrightarrow> res_mapM f xs = Inr (map g xs)"
  by (induction xs) auto

lemma endpoint_cases_exact:
  "\<exists>cs. endpoint_cases actors rs ep = Inr cs
     \<and> set cs = {generated_case ep a r (relation_of a r) | a r. a \<in> set actors \<and> r \<in> set rs \<and> bola_applies ep a r}"
proof (cases "ep_method ep \<in> set SUPPORTED_BOLA_METHODS \<and> detect_resource_binding ep \<noteq> None")
  case True
  then obtain b where b: "detect_resource_binding ep = Some b" by blast
  let ?r = "filter (\<lambda>r. res_target_id r = ep_target_id ep \<and> res_resource_type r = erb_resource_type b) rs"
  let ?a = "filter (\<lambda>a. ident_target_id a = ep_target_id ep \<and> ident_is_active a) actors"
  let ?pairs = "concat (map (\<lambda>actor. map (Pair actor) ?r) ?a)"
  have "res_mapM (\<lambda>(actor, r). res_map (generated_case ep actor r) (determine_ownership_relation actor r)) ?pairs
      = Inr (map (\<lambda>(a, r). generated_case ep a r (relation_of a r)) ?pairs)"
    by (rule res_mapM_total) (auto simp: determine_ownership_relation_def relation_of_def)
  then have "endpoint_cases actors rs ep = Inr (map (\<lambda>(a, r). generated_case ep a r (relation_of a r)) ?pairs)"
    using True b by (simp add: endpoint_cases_def)
  moreover have "set (map (\<lambda>(a, r). generated_case ep a r (relation_of a r)) ?pairs)
      = {generated_case ep a r (relation_of a r) | a r. a \<in> set actors \<and> r \<in> set rs \<and> bola_applies ep a r}"
    using True b by (fastforce simp: bola_applies_def)
  ultimately show ?thesis by blast
next
  case False
  then show ?thesis by (auto simp: endpoint_cases_def bola_applies_def split: option.splits)
qed

subsection \<open>Facts: the URL\<close>

lemma unquote_plain: "c \<noteq> CHR ''%'' \<Longrightarrow> unquote_to_bytes (c # r) = c # unquote_to_bytes r"
  by (cases r rule: unquote_to_bytes.cases) auto

lemma hex_value_upper: "d < 16 \<Longrightarrow> hex_value (hex_upper d) = Some d"
  by (auto simp: hex_value_def hex_upper_def is_digit_def)

lemma unreserved_not_percent: "\<not> unreserved (CHR ''%'')"
  by (simp add: unreserved_def is_alpha_def is_lower_def is_upper_def is_digit_def ord_def)

lemma unquote_quote_char: "unquote_to_bytes (quote_char c @ r) = c # unquote_to_bytes r"
proof (cases "unreserved c")
  case True
  then show ?thesis using unquote_plain[of c r] unreserved_not_percent by (auto simp: quote_char_def)
next
  case False
  have "ord c div 16 < 16" by (simp add: less_mult_imp_div_less)
  moreover have "char_of (ord c) = c" by (simp add: ord_def)
  ultimately show ?thesis using False by (simp add: quote_char_def hex_value_upper)
qed

lemma unquote_quote: "unquote_to_bytes (quote s) = s"
  by (induction s) (simp_all add: quote_def unquote_quote_char)

text \<open>The encoded identifier uses only unreserved characters and percent signs.\<close>

definition url_inert :: "char \<Rightarrow> bool" where
  "url_inert c \<longleftrightarrow> unreserved c \<or> c = CHR ''%''"

lemma hex_upper_unreserved: "d < 16 \<Longrightarrow> unreserved (hex_upper d)"
  by (auto simp: hex_upper_def unreserved_def is_alpha_def is_upper_def is_digit_def)

lemma quote_inert: "list_all url_inert (quote s)"
proof -
  have "list_all url_inert (quote_char c)" for c
    using hex_upper_unreserved[of "ord c div 16"] hex_upper_unreserved[of "ord c mod 16"]
    by (simp add: quote_char_def url_inert_def less_mult_imp_div_less)
  then show ?thesis by (auto simp: quote_def list_all_iff)
qed

lemma replace_first_split:
  assumes "py_contains old s" "old \<noteq> []"
  shows "\<exists>pre post. s = pre @ old @ post \<and> replace_first old new s = pre @ new @ post"
  using assms
proof (induction s)
  case (Cons c s)
  show ?case
  proof (cases "prefix old (c # s)")
    case True
    then obtain post where p: "c # s = old @ post" by (auto simp: prefix_def)
    then have "replace_first old new (c # s) = new @ post" using True by (metis append_eq_conv_conj replace_first.simps(2))
    then show ?thesis using p by (metis append_Nil)
  next
    case False
    then obtain pre post where "s = pre @ old @ post" "replace_first old new s = pre @ new @ post"
      using Cons by auto
    then show ?thesis using False by (intro exI[of _ "c # pre"] exI[of _ post]) simp
  qed
qed simp

subsection \<open>Facts: planning\<close>

lemma dropWhile_idem: "dropWhile P (dropWhile P xs) = dropWhile P xs"
  by (induction xs) auto

lemma py_strip_idem [simp]: "py_strip (py_strip s) = py_strip s"
proof -
  let ?t = "dropWhile is_space s" let ?u = "rev (dropWhile is_space (rev ?t))"
  have "dropWhile is_space ?u = ?u"
  proof (cases ?u)
    case (Cons c r)
    from dropWhile_rev_append[of is_space ?t] obtain zs where "?u @ zs = ?t" by blast
    then have "?t = c # r @ zs" using Cons by simp
    then have "\<not> is_space c" by (simp add: dropWhile_eq_Cons_conv)
    then show ?thesis unfolding Cons by simp
  next
    case Nil
    show ?thesis unfolding Nil by simp
  qed
  then show ?thesis by (simp add: py_strip_def dropWhile_idem)
qed

lemma scope_context_iff:
  "scope_context hostname p sc \<noteq> None \<longleftrightarrow>
     normalize_hostname (scope_hostname sc) = Inr hostname
     \<and> ''GET'' \<in> set (map (\<lambda>m. py_upper (py_strip m)) (scope_allowed_methods sc))
     \<and> path_matches_scope p (scope_path_pattern sc) = Inr True"
proof -
  have m: "set (sorted_methods ms) = set ms" for ms by (simp add: sorted_methods_def)
  show ?thesis
  proof (cases "normalize_scope_path_pattern (scope_path_pattern sc)")
    case (Inl e)
    then show ?thesis by (simp add: scope_context_def path_matches_scope_def split: sum.split)
  next
    case (Inr v)
    then have "v = py_strip (scope_path_pattern sc)"
      by (auto simp: normalize_scope_path_pattern_def Let_def split: if_splits)
    then have "path_matches_scope p v = Inr True \<longleftrightarrow> path_matches_scope p (scope_path_pattern sc) = Inr True"
      by (simp add: path_matches_scope_covers)
    then show ?thesis using Inr
      by (auto simp: scope_context_def Let_def m split: sum.split bool.split if_splits)
  qed
qed

lemma first_context_iff:
  "first_context hostname p scs \<noteq> None \<longleftrightarrow> (\<exists>sc \<in> set scs. scope_context hostname p sc \<noteq> None)"
  by (induction scs) (auto split: option.splits)

lemma scope_found:
  "(\<exists>ctx. build_scope_context db tid url = Inr ctx) \<longleftrightarrow>
     (\<exists>orig p sc. parse_origin url = Inr orig \<and> normalize_request_path url = Inr p
        \<and> sc \<in> set (scopes_of db tid) \<and> scope_allows sc (origin_hostname orig) ''GET'' p)"
proof -
  have "(\<exists>ctx. build_scope_context db tid url = Inr ctx) \<longleftrightarrow>
      (\<exists>orig p. parse_origin url = Inr orig \<and> normalize_request_path url = Inr p
        \<and> first_context (origin_hostname orig) p (sort_key scope_id (filter scope_is_active (scopes_of db tid))) \<noteq> None)"
    by (auto simp: build_scope_context_def split: sum.split option.split)
  then show ?thesis
    by (auto simp: first_context_iff scope_context_iff scope_allows_def simp del: not_None_eq)
qed

lemma generated_set:
  "\<exists>cs. generate_bola_test_cases eps actors rs = Inr cs
     \<and> set cs = {generated_case ep a r (relation_of a r) | ep a r.
          ep \<in> set eps \<and> a \<in> set actors \<and> r \<in> set rs \<and> bola_applies ep a r}"
proof -
  obtain g where g: "\<And>ep. endpoint_cases actors rs ep = Inr (g ep)
      \<and> set (g ep) = {generated_case ep a r (relation_of a r) | a r. a \<in> set actors \<and> r \<in> set rs \<and> bola_applies ep a r}"
    using endpoint_cases_exact[of actors rs] by metis
  then have "generate_bola_test_cases eps actors rs = Inr (concat (map g eps))"
    using res_mapM_total[of eps "endpoint_cases actors rs" g] by (simp add: generate_bola_test_cases_def)
  moreover have "set (concat (map g eps)) = {generated_case ep a r (relation_of a r) | ep a r.
          ep \<in> set eps \<and> a \<in> set actors \<and> r \<in> set rs \<and> bola_applies ep a r}"
    using g by auto
  ultimately show ?thesis by blast
qed

subsection \<open>Properties\<close>


text \<open>
  A resource identifier cannot change the shape of a request: the URL of a test case is the base
  URL of the target followed by the endpoint's path with exactly the placeholder replaced, by an
  encoding of the identifier that decodes back to it and consists of letters, digits and
  \<open>_.-~%\<close> only, so that it contains no separator of paths, queries or fragments and no brace.
\<close>

theorem test_case_url_shape:
  assumes "build_test_case_url t ep r = Inr url"
  shows "\<exists>pre post base enc. ep_path ep = pre @ ''{'' @ base @ ''_id}'' @ post
    \<and> res_resource_type r = py_lower base
    \<and> url = py_rstrip_char (CHR ''/'') (tgt_base_url t) @ pre @ enc @ post
    \<and> unquote_to_bytes enc = res_external_id r \<and> list_all url_inert enc
    \<and> CHR 0x7B \<notin> set (pre @ enc @ post) \<and> CHR 0x7D \<notin> set (pre @ enc @ post)"
proof -
  from assms obtain b where b: "detect_resource_binding ep = Some b" "erb_resource_type b = res_resource_type r"
    and c: "py_contains (CHR 0x7B # erb_parameter_name b @ [CHR 0x7D]) (ep_path ep)"
    by (auto simp: build_test_case_url_def Let_def split: if_splits option.splits)
  let ?ph = "CHR 0x7B # erb_parameter_name b @ [CHR 0x7D]"
  obtain pre post where p: "ep_path ep = pre @ ?ph @ post"
      "replace_first ?ph (quote (res_external_id r)) (ep_path ep) = pre @ quote (res_external_id r) @ post"
    using replace_first_split[OF c, of "quote (res_external_id r)"] by auto
  have url: "url = py_rstrip_char (CHR ''/'') (tgt_base_url t) @ pre @ quote (res_external_id r) @ post"
    "CHR 0x7B \<notin> set (pre @ quote (res_external_id r) @ post)" "CHR 0x7D \<notin> set (pre @ quote (res_external_id r) @ post)"
    using assms b(1) p(2) by (auto simp: build_test_case_url_def Let_def split: if_splits)
  obtain base where base: "erb_parameter_name b = base @ ''_id''" "erb_resource_type b = py_lower base"
    using b(1) by (auto simp: detect_resource_binding_def split: list.splits)
  show ?thesis
    using p(1) url base b(2) unquote_quote[of "res_external_id r"] quote_inert[of "res_external_id r"]
    by (intro exI[of _ pre] exI[of _ post] exI[of _ base] exI[of _ "quote (res_external_id r)"]) simp
qed

definition lab_resource :: resource where
  "lab_resource = \<lparr>res_id = 12, res_target_id = 1, res_resource_type = ''order'', res_external_id = ''a/../b?x'',
     res_owner_identity_id = 4, res_created_at = 0, res_updated_at = 0\<rparr>"

definition lab_endpoint :: endpoint where
  "lab_endpoint = \<lparr>ep_id = 13, ep_target_id = 1, ep_path = ''/v1/orders/{order_id}/view'', ep_method = ''GET'',
     ep_operation_id = None, ep_requires_auth = False, ep_parameters = [], ep_request_body = None,
     ep_security = None, ep_created_at = 0, ep_updated_at = 0\<rparr>"

definition lab_target :: target where
  "lab_target = the (targets lab_store 1)"

theorem test_case_url_shape_witness:
  "build_test_case_url lab_target lab_endpoint lab_resource = Inr ''http://lab.test/v1/orders/a%2F..%2Fb%3Fx/view''
   \<and> (\<exists>enc. unquote_to_bytes enc = res_external_id lab_resource \<and> list_all url_inert enc)"
proof -
  have u: "build_test_case_url lab_target lab_endpoint lab_resource = Inr ''http://lab.test/v1/orders/a%2F..%2Fb%3Fx/view''"
    by code_simp
  from test_case_url_shape[OF u] show ?thesis using u by blast
qed

text \<open>The request that a stored test case stands for.\<close>

lemma plan_test_case_ok:
  assumes "plan_test_case db cid = Inr p"
  obtains tc ep where "test_cases db cid = Some tc" "endpoints db (tc_endpoint_id tc) = Some ep"
    and "resources db (tc_resource_id tc) = Some (pl_resource p)"
    and "identities db (tc_actor_identity_id tc) = Some (pl_actor p)" "targets db (ep_target_id ep) = Some (pl_target p)"
    and "\<not> new_case db (Some tc)" "tgt_is_enabled (pl_target p)" "ep_method ep = ''GET''"
    and "build_test_case_url (pl_target p) ep (pl_resource p) = Inr (pl_url p)"
    and "build_scope_context db (tgt_id (pl_target p)) (pl_url p) = Inr (pl_context p)"
  using assms by (auto simp: plan_test_case_def split: option.splits if_splits)

text \<open>
  Planning a test case: a successful call stores a plan whose one action is the GET of exactly the
  URL built for the endpoint and the resource of the test case, on behalf of its actor, in a
  scope that the policy engine accepts, and appends one audit record of the creation for that
  plan and test case; a failed call changes neither the tables nor the audit.
\<close>

theorem planned_case_sound:
  assumes "create_test_case_execution_plan sha256 pid aid now cid bid (db, audit) = ((db', audit'), result)"
  shows "case result of
      Inl e \<Rightarrow> db' = db \<and> audit' = audit
    | Inr plan \<Rightarrow> (\<exists>tc ep r t actor url sc orig path.
        test_cases db cid = Some tc \<and> endpoints db (tc_endpoint_id tc) = Some ep
        \<and> resources db (tc_resource_id tc) = Some r \<and> targets db (ep_target_id ep) = Some t
        \<and> identities db (tc_actor_identity_id tc) = Some actor
        \<and> build_test_case_url t ep r = Inr url
        \<and> parse_origin url = Inr orig \<and> normalize_request_path url = Inr path
        \<and> sc \<in> set (scopes_of db (tgt_id t)) \<and> scope_allows sc (origin_hostname orig) ''GET'' path
        \<and> db' = db\<lparr>plans := (plans db)(pid := Some plan), plan_actions := plan_actions db
             @ action_rows pid aid now [\<lparr>pai_method = ''GET'', pai_url = url, pai_test_case_id = Some cid,
                 pai_resource_id = Some (res_id r)\<rparr>]\<rparr>
        \<and> audit' = audit @ [plan_created_record plan (actions_of db' (plan_id plan)) cid])"
proof (cases "plan_test_case db cid")
  case (Inl msg)
  then show ?thesis using assms by (auto simp: create_test_case_execution_plan_def)
next
  case (Inr p)
  let ?as = "[\<lparr>pai_method = ''GET'', pai_url = pl_url p, pai_test_case_id = Some cid,
      pai_resource_id = Some (res_id (pl_resource p))\<rparr>]"
  obtain d r where c: "create_execution_plan sha256 pid aid now (tgt_id (pl_target p)) (rev_id (pl_revision p))
      (ident_id (pl_actor p)) bid ?as (Some (pl_context p)) db = (d, r)" by fastforce
  show ?thesis
  proof (cases r)
    case (Inl e)
    then have "result = Inl e" "db' = d" "audit' = audit"
      using assms Inr c by (auto simp: create_test_case_execution_plan_def)
    then show ?thesis using create_error_frame[OF c[unfolded Inl]] by simp
  next
    case r: (Inr plan)
    note rows = create_ok_rows(1)[OF c[unfolded r]]
    have d: "d = db\<lparr>plans := (plans db)(pid := Some plan), plan_actions := plan_actions db @ action_rows pid aid now ?as\<rparr>"
      using rows by (elim create_rows_ok)
    have out: "result = Inr plan" "db' = d" "audit' = audit @ [plan_created_record plan (actions_of d (plan_id plan)) cid]"
      using assms Inr c r by (auto simp: create_test_case_execution_plan_def append_plan_created_def)
    from plan_test_case_ok[OF Inr] obtain tc ep where tc: "test_cases db cid = Some tc"
      "endpoints db (tc_endpoint_id tc) = Some ep" "resources db (tc_resource_id tc) = Some (pl_resource p)"
      "identities db (tc_actor_identity_id tc) = Some (pl_actor p)" "targets db (ep_target_id ep) = Some (pl_target p)"
      "build_test_case_url (pl_target p) ep (pl_resource p) = Inr (pl_url p)"
      "build_scope_context db (tgt_id (pl_target p)) (pl_url p) = Inr (pl_context p)" by metis
    from tc(7) scope_found[of db "tgt_id (pl_target p)" "pl_url p"] obtain orig path sc where
      sc: "parse_origin (pl_url p) = Inr orig" "normalize_request_path (pl_url p) = Inr path"
        "sc \<in> set (scopes_of db (tgt_id (pl_target p)))" "scope_allows sc (origin_hostname orig) ''GET'' path" by blast
    show ?thesis unfolding out(1) sum.case
      by (rule exI[of _ tc], rule exI[of _ ep], rule exI[of _ "pl_resource p"], rule exI[of _ "pl_target p"],
          rule exI[of _ "pl_actor p"], rule exI[of _ "pl_url p"], rule exI[of _ sc], rule exI[of _ orig],
          rule exI[of _ path]) (intro conjI tc sc out(3)[folded out(2)] trans[OF out(2) d])
  qed
qed

definition planning_store :: store where
  "planning_store = lab_store\<lparr>test_cases := [11 \<mapsto> \<lparr>tc_id = 11, tc_endpoint_id = 13, tc_actor_identity_id = 3,
       tc_resource_id = 12, tc_test_type = ''bola_cross_owner'', tc_ownership_relation = ''cross_owner'',
       tc_expected_statuses = [403, 404], tc_status = ''pending'', tc_created_at = 0\<rparr>],
     resources := [12 \<mapsto> lab_resource\<lparr>res_external_id := ''42''\<rparr>], endpoints := [13 \<mapsto> lab_endpoint]\<rparr>"

theorem planned_case_sound_witness:
  "\<exists>st plan. create_test_case_execution_plan lab_sha 7 70 0 11 None (planning_store, []) = (st, Inr plan)
     \<and> length (snd st) = 1"
proof -
  let ?r = "create_test_case_execution_plan lab_sha 7 70 0 11 None (planning_store, [])"
  have "is_ok (snd ?r)" by code_simp
  then obtain plan where p: "snd ?r = Inr plan" by (cases "snd ?r") auto
  then have "?r = ((fst (fst ?r), snd (fst ?r)), Inr plan)" by (metis prod.collapse)
  from planned_case_sound[OF this] p show ?thesis by (intro exI[of _ "fst ?r"] exI[of _ plan]) (auto simp: prod_eq_iff)
qed

end
