(* ===== verification/Json_Loads.thy ===== *)
theory Json_Loads
  imports Canonical_Json "HOL-Library.AList"
begin

text \<open>
  \<open>json.loads\<close> of the standard library, as \<open>analyzers/bola.py\<close> (\<open>parse_json_body\<close>) and
  \<open>services/execution_plan.py\<close> (\<open>canonicalize_policy_context\<close>) use it: the scanner with its
  white space, escapes and surrogate pairs, numbers with the limit on the digits of an integer,
  the constants outside strict JSON and dictionaries in which the last of equal keys wins. A text
  is the sequence of its UTF-8 bytes; a lone surrogate is kept as the three bytes that its
  code point would have. The conversion of a decimal text to the nearest float and back to its \<open>repr\<close>
  is the parameter \<open>flt\<close>. It is shown that the scanner always ends, and that it reads back what
  \<open>json.dumps\<close> wrote.
\<close>

subsection \<open>Strings\<close>

text \<open>
  \<open>ValueError\<close> without \<open>JSONDecodeError\<close> is what \<open>int\<close> raises on more than 4300 digits.
  \<open>OutOfFuel\<close> is not an error of the program: it is shown never to be returned.
\<close>

datatype loads_error = JSONDecodeError | IntegerTooLong | OutOfFuel

definition json_space :: "char \<Rightarrow> bool" where
  "json_space c \<longleftrightarrow> ord c = 32 \<or> ord c = 9 \<or> ord c = 10 \<or> ord c = 13"

definition skip_space :: "string \<Rightarrow> string" where
  "skip_space s = dropWhile json_space s"

definition utf8_encode :: "nat \<Rightarrow> string" where
  "utf8_encode n =
     (if n < 0x80 then [char_of n]
      else if n < 0x800 then [char_of (0xC0 + n div 64), char_of (0x80 + n mod 64)]
      else if n < 0x10000 then
        [char_of (0xE0 + n div 4096), char_of (0x80 + n div 64 mod 64), char_of (0x80 + n mod 64)]
      else [char_of (0xF0 + n div 262144), char_of (0x80 + n div 4096 mod 64),
            char_of (0x80 + n div 64 mod 64), char_of (0x80 + n mod 64)])"

fun read_u4 :: "string \<Rightarrow> (nat \<times> string) option" where
  "read_u4 (a # b # c # d # r) =
     (if list_all (\<lambda>x. hex_value x \<noteq> None) [a, b, c, d] then Some (read_hex [a, b, c, d], r) else None)"
| "read_u4 _ = None"

text \<open>A high surrogate takes the escape of a low surrogate that follows it.\<close>

definition low_half :: "nat \<Rightarrow> string \<Rightarrow> (nat \<times> string) option" where
  "low_half u s =
     (if 0xD800 \<le> u \<and> u \<le> 0xDBFF \<and> take 2 s = [CHR 0x5C, CHR ''u''] then
        (case read_u4 (drop 2 s) of
           None \<Rightarrow> None
         | Some (v, r) \<Rightarrow>
             if 0xDC00 \<le> v \<and> v \<le> 0xDFFF
             then Some (0x10000 + (u - 0xD800) * 1024 + (v - 0xDC00), r) else Some (u, s))
      else Some (u, s))"

definition unescape :: "char \<Rightarrow> char option" where
  "unescape e =
     (if e = CHR 0x22 \<or> e = CHR 0x5C \<or> e = CHR ''/'' then Some e
      else if e = CHR ''b'' then Some (CHR 0x08) else if e = CHR ''f'' then Some (CHR 0x0C)
      else if e = CHR ''n'' then Some (CHR 0x0A) else if e = CHR ''r'' then Some (CHR 0x0D)
      else if e = CHR ''t'' then Some (CHR 0x09) else None)"

lemma read_u4_length: "read_u4 s = Some (u, r) \<Longrightarrow> length r < length s"
  by (cases s rule: read_u4.cases) (auto split: if_splits)

lemma low_half_length: "low_half u s = Some (v, r) \<Longrightarrow> length r \<le> length s"
  by (auto simp: low_half_def split: if_splits option.splits dest!: read_u4_length)

text \<open>\<open>scanstring\<close>, strict, after the opening quote: the string and what follows its closing quote.\<close>

function scan_string :: "string \<Rightarrow> (string \<times> string) option" where
  "scan_string [] = None"
| "scan_string (c # s) =
     (if c = CHR 0x22 then Some ([], s)
      else if c = CHR 0x5C then
        (case s of
           [] \<Rightarrow> None
         | e # r \<Rightarrow>
            (if e = CHR ''u'' then
               (case read_u4 r of
                  None \<Rightarrow> None
                | Some (u, r1) \<Rightarrow>
                   (case low_half u r1 of
                      None \<Rightarrow> None
                    | Some (n, r2) \<Rightarrow> map_option (\<lambda>(t, x). (utf8_encode n @ t, x)) (scan_string r2)))
             else (case unescape e of
                     None \<Rightarrow> None
                   | Some d \<Rightarrow> map_option (\<lambda>(t, x). (d # t, x)) (scan_string r))))
      else if ord c < 32 then None
      else map_option (\<lambda>(t, x). (c # t, x)) (scan_string s))"
  by pat_completeness auto
termination
  by (relation "measure length") (auto dest!: read_u4_length low_half_length)

subsection \<open>Numbers and constants\<close>

definition int_part :: "string \<Rightarrow> (string \<times> string) option" where
  "int_part s =
     (if s \<noteq> [] \<and> hd s = CHR ''0'' then Some (''0'', tl s)
      else if s \<noteq> [] \<and> is_digit (hd s) then Some (takeWhile is_digit s, dropWhile is_digit s)
      else None)"

definition frac_part :: "string \<Rightarrow> string \<times> string" where
  "frac_part s =
     (if length s \<ge> 2 \<and> hd s = CHR ''.'' \<and> is_digit (hd (tl s))
      then (CHR ''.'' # takeWhile is_digit (tl s), dropWhile is_digit (tl s)) else ([], s))"

definition exp_sign :: "string \<Rightarrow> string" where
  "exp_sign s = (if s \<noteq> [] \<and> (hd s = CHR ''+'' \<or> hd s = CHR ''-'') then [hd s] else [])"

definition exp_part :: "string \<Rightarrow> string \<times> string" where
  "exp_part s =
     (if s \<noteq> [] \<and> (hd s = CHR ''e'' \<or> hd s = CHR ''E'') then
        (let sg = exp_sign (tl s); r = drop (length sg) (tl s); ds = takeWhile is_digit r in
         if ds = [] then ([], s) else (hd s # sg @ ds, dropWhile is_digit r))
      else ([], s))"

text \<open>The longest number at the start: sign, digits, fraction with exponent, rest.\<close>

definition match_number :: "string \<Rightarrow> (bool \<times> string \<times> string \<times> string) option" where
  "match_number s =
     (let neg = s \<noteq> [] \<and> hd s = CHR ''-'' in
      case int_part (if neg then tl s else s) of
        None \<Rightarrow> None
      | Some (i, r) \<Rightarrow>
         (case frac_part r of (f, r1) \<Rightarrow>
         (case exp_part r1 of (e, r2) \<Rightarrow> Some (neg, i, f @ e, r2))))"

definition MAX_STR_DIGITS :: nat where
  "MAX_STR_DIGITS = 4300"

definition float_value :: "(string \<Rightarrow> string) \<Rightarrow> string \<Rightarrow> json" where
  "float_value flt t =
     (let r = flt t in if r = ''inf'' \<or> r = ''-inf'' then JNonFinite r else JFloat r)"

definition scan_number :: "(string \<Rightarrow> string) \<Rightarrow> string \<Rightarrow> loads_error + json \<times> string" where
  "scan_number flt s =
     (case match_number s of
        None \<Rightarrow> Inl JSONDecodeError
      | Some (neg, i, fe, r) \<Rightarrow>
          if fe \<noteq> [] then Inr (float_value flt ((if neg then ''-'' else []) @ i @ fe), r)
          else if length i > MAX_STR_DIGITS then Inl IntegerTooLong
          else Inr (JInt (if neg then - int (read_nat i) else int (read_nat i)), r))"

definition starts_with :: "string \<Rightarrow> string \<Rightarrow> bool" where
  "starts_with p s \<longleftrightarrow> take (length p) s = p"

definition scan_atom :: "(string \<Rightarrow> string) \<Rightarrow> string \<Rightarrow> loads_error + json \<times> string" where
  "scan_atom flt s =
     (if starts_with ''null'' s then Inr (JNull, drop 4 s)
      else if starts_with ''true'' s then Inr (JBool True, drop 4 s)
      else if starts_with ''false'' s then Inr (JBool False, drop 5 s)
      else if starts_with ''NaN'' s then Inr (JNonFinite ''nan'', drop 3 s)
      else if starts_with ''Infinity'' s then Inr (JNonFinite ''inf'', drop 8 s)
      else if starts_with ''-Infinity'' s then Inr (JNonFinite ''-inf'', drop 9 s)
      else scan_number flt s)"

subsection \<open>Values\<close>

definition expect :: "char \<Rightarrow> string \<Rightarrow> string option" where
  "expect c s = (if s \<noteq> [] \<and> hd s = c then Some (tl s) else None)"

text \<open>
  \<open>scan_once\<close>, \<open>JSONObject\<close> after its opening brace at the first key, \<open>JSONArray\<close> after its opening
  bracket at the first element.
\<close>

fun scan_value :: "(string \<Rightarrow> string) \<Rightarrow> nat \<Rightarrow> string \<Rightarrow> loads_error + json \<times> string"
  and scan_members :: "(string \<Rightarrow> string) \<Rightarrow> nat \<Rightarrow> (string \<times> json) list \<Rightarrow> string \<Rightarrow> loads_error + json \<times> string"
  and scan_elements :: "(string \<Rightarrow> string) \<Rightarrow> nat \<Rightarrow> json list \<Rightarrow> string \<Rightarrow> loads_error + json \<times> string"
where
  "scan_value flt 0 s = Inl OutOfFuel"
| "scan_value flt (Suc n) s =
     (case expect (CHR 0x22) s of
        Some r \<Rightarrow> (case scan_string r of None \<Rightarrow> Inl JSONDecodeError | Some (t, r') \<Rightarrow> Inr (JStr t, r'))
      | None \<Rightarrow>
     (case expect (CHR 0x7B) s of
        Some r \<Rightarrow> (case expect (CHR 0x7D) (skip_space r) of
                      Some r' \<Rightarrow> Inr (JObj [], r') | None \<Rightarrow> scan_members flt n [] (skip_space r))
      | None \<Rightarrow>
     (case expect (CHR ''['') s of
        Some r \<Rightarrow> (case expect (CHR '']'') (skip_space r) of
                      Some r' \<Rightarrow> Inr (JArr [], r') | None \<Rightarrow> scan_elements flt n [] (skip_space r))
      | None \<Rightarrow> scan_atom flt s)))"
| "scan_members flt 0 acc s = Inl OutOfFuel"
| "scan_members flt (Suc n) acc s =
     (case expect (CHR 0x22) s of
        None \<Rightarrow> Inl JSONDecodeError
      | Some r \<Rightarrow>
     (case scan_string r of
        None \<Rightarrow> Inl JSONDecodeError
      | Some (k, r1) \<Rightarrow>
     (case expect (CHR '':'') (skip_space r1) of
        None \<Rightarrow> Inl JSONDecodeError
      | Some r2 \<Rightarrow>
     (case scan_value flt n (skip_space r2) of
        Inl e \<Rightarrow> Inl e
      | Inr (v, r3) \<Rightarrow>
     (case expect (CHR 0x7D) (skip_space r3) of
        Some r4 \<Rightarrow> Inr (JObj (AList.update k v acc), r4)
      | None \<Rightarrow>
     (case expect (CHR '','') (skip_space r3) of
        Some r4 \<Rightarrow> scan_members flt n (AList.update k v acc) (skip_space r4)
      | None \<Rightarrow> Inl JSONDecodeError))))))"
| "scan_elements flt 0 acc s = Inl OutOfFuel"
| "scan_elements flt (Suc n) acc s =
     (case scan_value flt n s of
        Inl e \<Rightarrow> Inl e
      | Inr (v, r) \<Rightarrow>
     (case expect (CHR '']'') (skip_space r) of
        Some r' \<Rightarrow> Inr (JArr (acc @ [v]), r')
      | None \<Rightarrow>
     (case expect (CHR '','') (skip_space r) of
        Some r' \<Rightarrow> scan_elements flt n (acc @ [v]) (skip_space r')
      | None \<Rightarrow> Inl JSONDecodeError)))"

definition byte_order_mark :: string where
  "byte_order_mark = [CHR 0xEF, CHR 0xBB, CHR 0xBF]"

definition json_loads :: "(string \<Rightarrow> string) \<Rightarrow> string \<Rightarrow> loads_error + json" where
  "json_loads flt s =
     (if starts_with byte_order_mark s then Inl JSONDecodeError
      else case scan_value flt (2 * length s + 1) (skip_space s) of
             Inl e \<Rightarrow> Inl e
           | Inr (v, r) \<Rightarrow> if skip_space r = [] then Inr v else Inl JSONDecodeError)"

subsection \<open>The scanner ends\<close>

lemma expect_Some [simp]: "expect c s = Some r \<longleftrightarrow> s = c # r"
  by (cases s) (auto simp: expect_def)

lemma expect_Cons [simp]: "expect c (d # r) = (if d = c then Some r else None)" "expect c [] = None"
  by (simp_all add: expect_def)

lemma length_skip_space: "length (skip_space s) \<le> length s"
  by (simp add: skip_space_def length_dropWhile_le)

lemma skip_space_shorter: "skip_space s = c # r \<Longrightarrow> length r < length s"
  using length_skip_space[of s] by simp

lemma match_number_text:
  assumes "match_number t = Some (neg, i, fe, r)"
  shows "t = (if neg then ''-'' else []) @ i @ fe @ r" and "i \<noteq> []" and "is_digit (hd i)"
proof -
  have f: "fst (frac_part s) @ snd (frac_part s) = s" for s by (cases s) (auto simp: frac_part_def)
  have e: "fst (exp_part s) @ snd (exp_part s) = s" for s
    by (cases s; cases "tl s") (auto simp: exp_part_def exp_sign_def Let_def split: if_splits)
  have ip: "s = i' @ r' \<and> i' \<noteq> [] \<and> is_digit (hd i')" if "int_part s = Some (i', r')" for s i' r'
    using that by (cases s) (auto simp: int_part_def is_digit_def ord_def split: if_splits)
  let ?s = "if t \<noteq> [] \<and> hd t = CHR ''-'' then tl t else t"
  obtain r1 where i: "int_part ?s = Some (i, r1)" and neg: "neg \<longleftrightarrow> t \<noteq> [] \<and> hd t = CHR ''-''"
    and fe: "fe = fst (frac_part r1) @ fst (exp_part (snd (frac_part r1)))" "r = snd (exp_part (snd (frac_part r1)))"
    using assms by (auto simp: match_number_def Let_def split: option.splits prod.splits)
  then show "t = (if neg then ''-'' else []) @ i @ fe @ r" "i \<noteq> []" "is_digit (hd i)"
    using ip[OF i] f[of r1] e[of "snd (frac_part r1)"] by (cases t; auto split: if_splits)+
qed

lemma suffix_skip_space: "suffix (skip_space s) s"
  by (simp add: skip_space_def suffix_dropWhile)

lemma suffix_skip: "skip_space s = c # r \<Longrightarrow> suffix r s"
  by (metis suffix_skip_space suffix_ConsD)

lemma strict_suffix_skip: "strict_suffix r (skip_space s) \<Longrightarrow> strict_suffix r s"
  by (rule suffix_order.less_le_trans[OF _ suffix_skip_space])

lemma strict_suffix_Cons: "suffix r s \<Longrightarrow> strict_suffix r (c # s)"
  using suffix_ConsI[of r s c] suffix_length_le[of r s] by (auto simp: strict_suffix_def)

lemma suffix_drop_append: "suffix r (drop n s) \<Longrightarrow> suffix r s"
  by (meson suffix_drop suffix_order.trans)

lemma suffix_read_u4: "read_u4 s = Some (u, r) \<Longrightarrow> suffix r s"
  by (cases s rule: read_u4.cases) (auto split: if_splits simp: suffix_def)

lemma suffix_low_half: "low_half u s = Some (v, r) \<Longrightarrow> suffix r s"
  by (auto simp: low_half_def split: if_splits option.splits dest!: suffix_read_u4 intro: suffix_drop_append)

lemma suffix_scan_string: "scan_string s = Some (t, r) \<Longrightarrow> suffix r s"
proof (induction s arbitrary: t r rule: scan_string.induct)
  case (2 c s)
  show ?case
  proof (cases "c = CHR 0x5C")
    case True
    then obtain e r0 where s: "s = e # r0" using 2(4) by (cases s) auto
    have "suffix r r0"
    proof (cases "e = CHR ''u''")
      case u: True
      then obtain v r1 n r2 where "read_u4 r0 = Some (v, r1)" "low_half v r1 = Some (n, r2)"
        "\<exists>t'. scan_string r2 = Some (t', r)"
        using 2(4) True s by (auto split: option.splits)
      moreover from this have "suffix r r2" using 2(1)[of e r0 "(v, r1)" v r1 "(n, r2)" n r2] True s u by auto
      ultimately show ?thesis using suffix_read_u4 suffix_low_half by (meson suffix_order.trans)
    next
      case False
      then obtain d t' where "unescape e = Some d" "scan_string r0 = Some (t', r)"
        using 2(4) True s by (auto split: option.splits)
      then show ?thesis using 2(2)[of e r0 d] True s False by fastforce
    qed
    then show ?thesis using s by (simp add: suffix_ConsI)
  next
    case False
    then show ?thesis using 2(4) 2(3) by (fastforce split: if_splits intro: suffix_ConsI)
  qed
qed simp

lemma scan_atom_suffix:
  assumes "scan_atom flt s = Inr (v, r)" shows "strict_suffix r s"
proof -
  have d: "strict_suffix (drop k s) s" if "starts_with p s" "p \<noteq> []" "0 < k" for p k
    using that by (cases p; cases s; cases k) (auto simp: starts_with_def intro!: strict_suffix_Cons suffix_drop)
  have n: "strict_suffix r s" if m: "match_number s = Some (neg, i, fe, r)" for neg i fe
    using match_number_text[OF m] by (auto simp: strict_suffix_def suffix_def)
  show ?thesis
    using assms d[of "''null''" 4] d[of "''true''" 4] d[of "''false''" 5] d[of "''NaN''" 3] d[of "''Infinity''" 8]
      d[of "''-Infinity''" 9] n
    by (auto simp: scan_atom_def scan_number_def split: if_splits option.splits)
qed

lemma scan_suffix:
  "(scan_value flt n s = Inr (v, r) \<longrightarrow> strict_suffix r s)
   \<and> (scan_members flt n kvs s = Inr (v, r) \<longrightarrow> strict_suffix r s)
   \<and> (scan_elements flt n xs s = Inr (v, r) \<longrightarrow> strict_suffix r s)"
proof (induction n arbitrary: s v r kvs xs)
  case (Suc n)
  note IH = Suc.IH[THEN conjunct1, rule_format] Suc.IH[THEN conjunct2, THEN conjunct1, rule_format]
    Suc.IH[THEN conjunct2, THEN conjunct2, rule_format]
  note tr = suffix_order.trans suffix_order.less_imp_le[OF strict_suffix_skip]
  have "strict_suffix r s" if h: "scan_value flt (Suc n) s = Inr (v, r)" for s
    using h by (auto split: option.splits if_splits dest!: suffix_scan_string suffix_skip IH(2,3) scan_atom_suffix
        intro!: strict_suffix_Cons dest: strict_suffix_skip)
  moreover have "strict_suffix r s" if h: "scan_elements flt (Suc n) xs s = Inr (v, r)" for s
    using h by (auto split: option.splits sum.splits dest!: IH(1,3) suffix_skip dest: strict_suffix_skip)
      (meson suffix_order.less_trans suffix_order.le_less_trans strict_suffix_skip)+
  moreover have "strict_suffix r s" if h: "scan_members flt (Suc n) kvs s = Inr (v, r)" for s
    using h by (auto split: option.splits sum.splits dest!: IH(1,2) suffix_skip suffix_scan_string strict_suffix_skip
        intro!: strict_suffix_Cons)
      (meson suffix_order.trans suffix_order.less_imp_le)+
  ultimately show ?case by blast
qed simp

lemma scan_string_length: "scan_string s = Some (t, r) \<Longrightarrow> length r \<le> length s"
  by (rule suffix_length_le[OF suffix_scan_string])

lemma scan_length: "scan_value flt n s = Inr (v, r) \<Longrightarrow> length r < length s"
  using scan_suffix[of flt n s v r] by (meson suffix_length_less)

lemma scan_atom_no_fuel: "scan_atom flt s \<noteq> Inl OutOfFuel"
  by (auto simp: scan_atom_def scan_number_def split: option.split)

lemma enough_fuel:
  "(2 * length s < n \<longrightarrow> scan_value flt n s \<noteq> Inl OutOfFuel)
   \<and> (2 * length s + 1 < n \<longrightarrow> scan_members flt n kvs s \<noteq> Inl OutOfFuel)
   \<and> (2 * length s + 1 < n \<longrightarrow> scan_elements flt n xs s \<noteq> Inl OutOfFuel)"
proof (induction n arbitrary: s kvs xs)
  case (Suc n)
  note IH = Suc.IH[THEN conjunct1, rule_format] Suc.IH[THEN conjunct2, THEN conjunct1, rule_format]
    Suc.IH[THEN conjunct2, THEN conjunct2, rule_format]
  note len = scan_length scan_string_length skip_space_shorter
  have "scan_value flt (Suc n) s \<noteq> Inl OutOfFuel" if "2 * length s < Suc n" for s
  proof -
    have "2 * length (skip_space r) + 1 < n" if "s = c # r" for c r
      using \<open>2 * length s < Suc n\<close> that length_skip_space[of r] by simp
    then show ?thesis using IH(2,3) scan_atom_no_fuel by (auto split: option.split)
  qed
  moreover have "scan_elements flt (Suc n) xs s \<noteq> Inl OutOfFuel" if h: "2 * length s + 1 < Suc n" for s
  proof -
    have "2 * length (skip_space r') + 1 < n" if "scan_value flt n s = Inr (v, r)" "skip_space r = c # r'" for v r c r'
      using h len(1)[OF that(1)] len(3)[OF that(2)] length_skip_space[of r'] by simp
    then show ?thesis using IH(1)[of s] IH(3) h by (auto split: option.split sum.split)
  qed
  moreover have "scan_members flt (Suc n) kvs s \<noteq> Inl OutOfFuel" if h: "2 * length s + 1 < Suc n" for s
  proof -
    have a: "2 * length (skip_space r2) < n"
      if "s = c # r" "scan_string r = Some (k, r1)" "skip_space r1 = d # r2" for c r k r1 d r2
      using h that(1) len(2)[OF that(2)] len(3)[OF that(3)] length_skip_space[of r2] by simp
    have "2 * length (skip_space r4) + 1 < n"
      if "s = c # r" "scan_string r = Some (k, r1)" "skip_space r1 = d # r2"
        "scan_value flt n (skip_space r2) = Inr (v, r3)" "skip_space r3 = b # r4" for c r k r1 d r2 v r3 b r4
      using a[OF that(1-3)] len(1)[OF that(4)] len(3)[OF that(5)] length_skip_space[of r4] by simp
    with a show ?thesis using IH(1,2) by (auto split: option.split sum.split)
  qed
  ultimately show ?case by blast
qed simp

subsection \<open>Reading back what was written\<close>

text \<open>What may follow a value inside a text: nothing, a comma or a closing bracket.\<close>

definition closes :: "string \<Rightarrow> bool" where
  "closes x \<longleftrightarrow> x = [] \<or> hd x = CHR '','' \<or> hd x = CHR '']'' \<or> hd x = CHR 0x7D"

lemma closes_simps [simp]: "closes []" "closes (CHR '','' # x)" "closes (CHR '']'' # x)" "closes (CHR 0x7D # x)"
  by (simp_all add: closes_def)

lemma closes_hd:
  assumes "closes x" "x \<noteq> []"
  shows "\<not> is_digit (hd x)" "hd x \<noteq> CHR ''.''" "hd x \<noteq> CHR ''e''" "hd x \<noteq> CHR ''E''" "hd x \<noteq> CHR ''+''" "hd x \<noteq> CHR ''-''"
  using assms by (auto simp: closes_def is_digit_def ord_def)

lemma digits_append:
  assumes "closes x"
  shows "takeWhile is_digit (t @ x) = takeWhile is_digit t" "dropWhile is_digit (t @ x) = dropWhile is_digit t @ x"
proof -
  have "takeWhile is_digit x = []" "dropWhile is_digit x = x" using closes_hd(1)[OF assms] by (cases x; simp)+
  then show "takeWhile is_digit (t @ x) = takeWhile is_digit t" "dropWhile is_digit (t @ x) = dropWhile is_digit t @ x"
    by (induction t) auto
qed

lemma int_part_append: "closes x \<Longrightarrow> int_part t = Some (i, r) \<Longrightarrow> int_part (t @ x) = Some (i, r @ x)"
  by (cases t) (auto simp: int_part_def digits_append split: if_splits)

lemma frac_part_append:
  assumes "closes x" shows "frac_part (t @ x) = (fst (frac_part t), snd (frac_part t) @ x)"
proof (cases t)
  case Nil
  then show ?thesis using closes_hd[OF assms] by (cases x) (auto simp: frac_part_def)
next
  case (Cons c s)
  then show ?thesis using closes_hd[OF assms] digits_append[OF assms, of s]
    by (cases s; cases x) (auto simp: frac_part_def)
qed

lemma exp_part_append:
  assumes "closes x" shows "exp_part (t @ x) = (fst (exp_part t), snd (exp_part t) @ x)"
proof (cases t)
  case Nil
  then show ?thesis using closes_hd[OF assms] by (cases x) (auto simp: exp_part_def)
next
  case (Cons c s)
  have "exp_sign (s @ x) = exp_sign s" using closes_hd[OF assms] by (cases s; cases x) (auto simp: exp_sign_def)
  moreover have "length (exp_sign s) \<le> length s" by (cases s) (auto simp: exp_sign_def)
  then have "drop (length (exp_sign s)) (s @ x) = drop (length (exp_sign s)) s @ x" by simp
  ultimately show ?thesis using Cons by (simp add: exp_part_def Let_def digits_append[OF assms])
qed

lemma match_number_append:
  assumes "closes x" "match_number t = Some (neg, i, fe, r)"
  shows "match_number (t @ x) = Some (neg, i, fe, r @ x)"
proof -
  let ?s = "if t \<noteq> [] \<and> hd t = CHR ''-'' then tl t else t"
  obtain r1 where i: "int_part ?s = Some (i, r1)" and neg: "neg \<longleftrightarrow> t \<noteq> [] \<and> hd t = CHR ''-''"
    and fe: "fe = fst (frac_part r1) @ fst (exp_part (snd (frac_part r1)))" "r = snd (exp_part (snd (frac_part r1)))"
    using assms(2) by (auto simp: match_number_def Let_def split: option.splits prod.splits)
  then have "t \<noteq> []" by (auto simp: int_part_def)
  then show ?thesis using int_part_append[OF assms(1) i] frac_part_append[OF assms(1)] exp_part_append[OF assms(1)] neg fe
    by (auto simp: match_number_def Let_def split: prod.splits if_splits)
qed

text \<open>The values that \<open>json.dumps\<close> can write and \<open>json.loads\<close> reads back.\<close>

definition float_literal :: "string \<Rightarrow> bool" where
  "float_literal r \<longleftrightarrow> (case match_number r of Some (neg, i, fe, x) \<Rightarrow> fe \<noteq> [] \<and> x = [] | None \<Rightarrow> False)"

fun loadable :: "(string \<Rightarrow> string) \<Rightarrow> json \<Rightarrow> bool" where
  "loadable flt (JInt i) \<longleftrightarrow> length (show_nat (nat \<bar>i\<bar>)) \<le> MAX_STR_DIGITS"
| "loadable flt (JFloat r) \<longleftrightarrow> float_literal r \<and> flt r = r"
| "loadable flt (JNonFinite r) \<longleftrightarrow> False"
| "loadable flt (JArr xs) \<longleftrightarrow> list_all (loadable flt) xs"
| "loadable flt (JObj kvs) \<longleftrightarrow> list_all (\<lambda>p. loadable flt (snd p)) kvs \<and> distinct (map fst kvs)"
| "loadable flt v \<longleftrightarrow> True"

lemma scan_string_written: "scan_string (concat (map json_escape t) @ CHR 0x22 # x) = Some (t, x)"
proof (induction t)
  case (Cons c t)
  let ?r = "concat (map json_escape t) @ CHR 0x22 # x"
  show ?case
  proof (cases rule: json_escape_cases[of c])
    case (short l)
    then have "unescape l = Some c \<and> l \<noteq> CHR ''u''"
      using ord_inj[of c "CHR 0x0A"] ord_inj[of c "CHR 0x0D"] ord_inj[of c "CHR 0x09"] ord_inj[of c "CHR 0x0C"] ord_inj[of c "CHR 0x08"]
      by (auto simp: short_escape_def unescape_def ord_def split: if_splits)
    then show ?thesis using short(2) Cons by simp
  next
    case control
    have hv: "hex_value (hex_digit_char d) = Some d" if "d < 16" for d
      using that by (rule hex_value_hex_digit_char)
    have "hex_value (CHR ''0'') = Some 0" by (simp add: hex_value_def is_digit_def ord_def)
    then have "read_hex [CHR ''0'', CHR ''0'', hex_digit_char (ord c div 16), hex_digit_char (ord c mod 16)] = ord c"
      using hv[of "ord c div 16"] hv[of "ord c mod 16"] control(2) by (simp add: read_hex_def)
    moreover have "utf8_encode (ord c) = [c]" using control(2) by (simp add: utf8_encode_def ord_def)
    ultimately show ?thesis using control Cons hv[of "ord c div 16"] hv[of "ord c mod 16"] \<open>hex_value (CHR ''0'') = Some 0\<close>
      by (simp add: low_half_def)
  next
    case plain
    then have "c \<noteq> CHR 0x22 \<and> \<not> ord c < 32"
      by (cases "c = CHR 0x22") (auto simp: json_escape_def Let_def split: if_splits)
    with plain show ?thesis using Cons by simp
  qed
qed simp

lemma not_constant:
  assumes "match_number s = Some m"
  shows "scan_atom flt s = scan_number flt s"
proof -
  obtain neg i fe r where m: "m = (neg, i, fe, r)" by (cases m)
  note n = match_number_text[OF assms[unfolded m]]
  obtain d i' where i: "i = d # i'" "is_digit d" using n(2,3) by (cases i) auto
  have c: "c = hd s \<and> starts_with p (tl s)" if "starts_with (c # p) s" for c p and s :: string
    using that by (cases s) (auto simp: starts_with_def)
  have dig: "d \<noteq> CHR ''n'' \<and> d \<noteq> CHR ''t'' \<and> d \<noteq> CHR ''f'' \<and> d \<noteq> CHR ''N'' \<and> d \<noteq> CHR ''I'' \<and> d \<noteq> CHR ''-''"
    using i(2) by (auto simp: is_digit_def ord_def)
  have h: "hd s = CHR ''-'' \<and> hd (tl s) = d \<or> hd s = d" using n(1) i(1) by simp
  have "\<not> starts_with (a # p) s" if "a \<in> set ''ntfNI''" for a p using c[of a p s] h dig that by auto
  moreover have "\<not> starts_with (CHR ''-'' # CHR ''I'' # p) s" for p
    using c[of "CHR ''-''" "CHR ''I'' # p" s] c[of "CHR ''I''" p "tl s"] h dig by auto
  ultimately show ?thesis by (simp add: scan_atom_def)
qed

lemma match_show_int: "match_number (show_int i) = Some (i < 0, show_nat (nat \<bar>i\<bar>), [], [])"
proof -
  have "int_part (show_nat n) = Some (show_nat n, [])" for n
  proof (cases "n = 0")
    case True
    moreover have "show_nat 0 = ''0''" by code_simp
    ultimately show ?thesis by (simp add: int_part_def)
  next
    case False
    then have "hd (show_nat n) \<noteq> CHR ''0''" using hd_show_nat[of n] by simp
    moreover have "takeWhile is_digit (show_nat n) = show_nat n" "dropWhile is_digit (show_nat n) = []"
      "is_digit (hd (show_nat n))"
      using show_nat_digits[of n] by (auto simp: list_all_iff takeWhile_eq_all_conv dropWhile_eq_Nil_conv)
    ultimately show ?thesis by (simp add: int_part_def)
  qed
  moreover have "hd (show_nat n) \<noteq> CHR ''-''" for n
    using show_nat_digits[of n] show_nat_not_Nil[of n] by (cases "show_nat n") (auto simp: is_digit_def ord_def)
  ultimately show ?thesis by (simp add: match_number_def show_int_def Let_def frac_part_def exp_part_def)
qed

lemma scan_int_written:
  assumes "closes x" "loadable flt (JInt i)"
  shows "scan_atom flt (show_int i @ x) = Inr (JInt i, x)"
proof -
  note m = match_number_append[OF assms(1) match_show_int[of i]]
  show ?thesis unfolding not_constant[OF m] using assms(2) m by (auto simp: scan_number_def)
qed

lemma scan_float_written:
  assumes "closes x" "loadable flt (JFloat r)"
  shows "scan_atom flt (r @ x) = Inr (JFloat r, x)"
proof -
  obtain neg i fe where r: "match_number r = Some (neg, i, fe, [])" "fe \<noteq> []"
    using assms(2) by (auto simp: float_literal_def split: option.splits)
  note m = match_number_append[OF assms(1) r(1)]
  have t: "r = (if neg then ''-'' else []) @ i @ fe" using match_number_text(1)[OF r(1)] by simp
  have "r \<noteq> ''inf''" "r \<noteq> ''-inf''"
    using match_number_text(2,3)[OF r(1)] t by (cases i; auto simp: is_digit_def ord_def split: if_splits)+
  then have "float_value flt r = JFloat r" using assms(2) by (simp add: float_value_def)
  then show ?thesis unfolding not_constant[OF m] using m r(2) t by (simp add: scan_number_def)
qed

text \<open>The first character of a text: never a blank, never the end of a container.\<close>

definition value_head :: "char \<Rightarrow> bool" where
  "value_head c \<longleftrightarrow> is_digit c \<or> c \<in> set ''-ntf['' \<or> c = CHR 0x22 \<or> c = CHR 0x7B"

lemma value_head_other: "value_head c \<Longrightarrow> \<not> json_space c \<and> c \<noteq> CHR '']'' \<and> c \<noteq> CHR 0x7D \<and> c \<noteq> CHR 0xEF"
  by (auto simp: value_head_def json_space_def is_digit_def ord_def)

lemma json_text_head: "loadable flt v \<Longrightarrow> json_text v \<noteq> [] \<and> value_head (hd (json_text v))"
proof (cases v)
  case (JFloat r)
  moreover assume "loadable flt v"
  ultimately obtain neg i fe where "match_number r = Some (neg, i, fe, [])"
    by (auto simp: float_literal_def split: option.splits)
  from match_number_text[OF this] JFloat show ?thesis by (cases i) (auto simp: value_head_def)
next
  case (JInt i)
  then show ?thesis using match_number_text[OF match_show_int[of i]]
    by (cases "show_nat (nat \<bar>i\<bar>)") (auto simp: value_head_def)
qed (auto simp: json_string_def value_head_def)

lemma skip_head: "loadable flt v \<Longrightarrow> skip_space (json_text v @ x) = json_text v @ x"
  using json_text_head[of flt v] value_head_other by (cases "json_text v") (auto simp: skip_space_def)

lemma skip_space_closer [simp]:
  "skip_space (CHR '','' # x) = CHR '','' # x" "skip_space (CHR '']'' # x) = CHR '']'' # x"
  "skip_space (CHR 0x7D # x) = CHR 0x7D # x" "skip_space (CHR 0x22 # x) = CHR 0x22 # x"
  "skip_space (CHR '':'' # x) = CHR '':'' # x" "skip_space [] = []"
  by (simp_all add: skip_space_def json_space_def ord_def)

lemma update_new: "k \<notin> fst ` set al \<Longrightarrow> AList.update k v al = al @ [(k, v)]"
  by (induction al) auto

definition reads_back :: "(string \<Rightarrow> string) \<Rightarrow> json \<Rightarrow> bool" where
  "reads_back flt v \<longleftrightarrow>
     (\<forall>n x. 2 * length (json_text v) < n \<longrightarrow> closes x \<longrightarrow> scan_value flt n (json_text v @ x) = Inr (v, x))"

lemma reads_backI:
  assumes "\<And>m x. 2 * length (json_text v) \<le> m \<Longrightarrow> closes x \<Longrightarrow> scan_value flt (Suc m) (json_text v @ x) = Inr (v, x)"
  shows "reads_back flt v"
  unfolding reads_back_def using assms by (metis less_imp_Suc_add less_Suc_eq_le)

lemma join_cons: "ys \<noteq> [] \<Longrightarrow> join_with sep (y # ys) = y @ sep @ join_with sep ys"
  by (cases ys) auto

lemma elements_written:
  assumes "xs \<noteq> []" "\<forall>v \<in> set xs. loadable flt v \<and> reads_back flt v"
    and "2 * length (join_with '','' (map json_text xs)) + 1 < n"
  shows "scan_elements flt n acc (join_with '','' (map json_text xs) @ CHR '']'' # x) = Inr (JArr (acc @ xs), x)"
  using assms
proof (induction xs arbitrary: n acc)
  case (Cons v xs)
  then obtain m where n: "n = Suc m" by (cases n) auto
  have rb: "loadable flt v" "reads_back flt v" using Cons.prems(2) by auto
  show ?case
  proof (cases "xs = []")
    case True
    have "scan_value flt m (json_text v @ CHR '']'' # x) = Inr (v, CHR '']'' # x)"
      using rb(2) Cons.prems(3) True n by (simp add: reads_back_def)
    then show ?thesis using True n by simp
  next
    case False
    let ?rest = "join_with '','' (map json_text xs)"
    have j: "join_with '','' (map json_text (v # xs)) = json_text v @ CHR '','' # ?rest"
      using False by (simp add: join_cons)
    have len: "2 * (length (json_text v) + length ?rest + 1) + 1 < n" using Cons.prems(3) unfolding j by simp
    have "scan_value flt m (json_text v @ CHR '','' # ?rest @ CHR '']'' # x) = Inr (v, CHR '','' # ?rest @ CHR '']'' # x)"
      using rb(2) len n by (simp add: reads_back_def)
    moreover have "skip_space (?rest @ CHR '']'' # x) = ?rest @ CHR '']'' # x"
      using False Cons.prems(2) skip_head by (cases xs; cases "tl xs") auto
    moreover have "scan_elements flt m (acc @ [v]) (?rest @ CHR '']'' # x) = Inr (JArr ((acc @ [v]) @ xs), x)"
      using Cons.IH[OF False] Cons.prems(2) len n by simp
    ultimately show ?thesis unfolding j n by simp
  qed
qed simp

abbreviation member_text :: "string \<times> json \<Rightarrow> string" where
  "member_text p \<equiv> json_string (fst p) @ '':'' @ json_text (snd p)"

lemma members_written:
  assumes "kvs \<noteq> []" "\<forall>p \<in> set kvs. loadable flt (snd p) \<and> reads_back flt (snd p)"
    and "distinct (map fst kvs)" "fst ` set kvs \<inter> fst ` set acc = {}"
    and "2 * length (join_with '','' (map member_text kvs)) + 1 < n"
  shows "scan_members flt n acc (join_with '','' (map member_text kvs) @ CHR 0x7D # x) = Inr (JObj (acc @ kvs), x)"
  using assms
proof (induction kvs arbitrary: n acc)
  case (Cons p kvs)
  obtain k v where p: "p = (k, v)" by (cases p)
  obtain m where n: "n = Suc m" using Cons.prems(5) by (cases n) auto
  have rb: "loadable flt v" "reads_back flt v" using Cons.prems(2) p by auto
  have up: "AList.update k v acc = acc @ [(k, v)]" using Cons.prems(4) p by (intro update_new) auto
  have st: "scan_string (concat (map json_escape k) @ CHR 0x22 # y) = Some (k, y)" for y
    by (rule scan_string_written)
  have key: "member_text p @ y = CHR 0x22 # concat (map json_escape k) @ CHR 0x22 # CHR '':'' # json_text v @ y" for y
    by (simp add: p json_string_def)
  have val: "scan_value flt m (skip_space (json_text v @ y)) = Inr (v, y)"
    if "closes y" "2 * length (json_text v) < m" for y
    unfolding skip_head[OF rb(1)] using rb(2) that by (simp add: reads_back_def)
  show ?case
  proof (cases "kvs = []")
    case True
    then have "2 * length (json_text v) < m" using Cons.prems(5) n p by simp
    from val[OF _ this, of "CHR 0x7D # x"] key[of "CHR 0x7D # x"] True show ?thesis
      unfolding n by (simp add: st up p)
  next
    case False
    let ?rest = "join_with '','' (map member_text kvs)"
    have j: "join_with '','' (map member_text (p # kvs)) = member_text p @ CHR '','' # ?rest"
      using False by (simp add: join_cons)
    have len: "2 * (length (json_text v) + length ?rest + 1) + 1 < n" using Cons.prems(5) unfolding j by (simp add: p)
    then have "2 * length (json_text v) < m" using n by simp
    note v = val[OF _ this, of "CHR '','' # ?rest @ CHR 0x7D # x"]
    have "skip_space (?rest @ CHR 0x7D # x) = ?rest @ CHR 0x7D # x"
      using False by (cases kvs; cases "tl kvs") (auto simp: json_string_def)
    moreover have "scan_members flt m (acc @ [(k, v)]) (?rest @ CHR 0x7D # x) = Inr (JObj ((acc @ [(k, v)]) @ kvs), x)"
      using Cons.prems(2-4) len n p by (intro Cons.IH[OF False]) auto
    moreover have "join_with '','' (map member_text (p # kvs)) @ CHR 0x7D # x
        = CHR 0x22 # concat (map json_escape k) @ CHR 0x22 # CHR '':'' # json_text v @ CHR '','' # ?rest @ CHR 0x7D # x"
      using key[of "CHR '','' # ?rest @ CHR 0x7D # x"] unfolding j by simp
    ultimately show ?thesis unfolding n using v by (simp add: st up p del: join_with.simps)
  qed
qed simp

lemma loadable_reads_back: "loadable flt v \<Longrightarrow> reads_back flt v"
proof (induction v)
  case JNull
  show ?case by (rule reads_backI) (simp add: scan_atom_def starts_with_def)
next
  case (JBool b)
  show ?case by (rule reads_backI) (simp add: scan_atom_def starts_with_def)
next
  case (JInt i)
  have "json_text (JInt i) \<noteq> [] \<and> hd (json_text (JInt i)) \<notin> {CHR 0x22, CHR 0x7B, CHR ''[''}"
    using match_number_text[OF match_show_int[of i]]
    by (cases "show_nat (nat \<bar>i\<bar>)") (auto simp: is_digit_def ord_def)
  then show ?case using scan_int_written[OF _ JInt]
    by (intro reads_backI) (simp add: expect_def)
next
  case (JFloat r)
  obtain neg i fe where "match_number r = Some (neg, i, fe, [])"
    using JFloat by (auto simp: float_literal_def split: option.splits)
  from match_number_text[OF this] have "r \<noteq> [] \<and> hd r \<notin> {CHR 0x22, CHR 0x7B, CHR ''[''}"
    by (cases i) (auto simp: is_digit_def ord_def)
  then show ?case using scan_float_written[OF _ JFloat]
    by (intro reads_backI) (simp add: expect_def)
next
  case (JStr t)
  show ?case using scan_string_written[of t]
    by (intro reads_backI) (simp add: json_string_def)
next
  case (JArr xs)
  have el: "\<forall>v \<in> set xs. loadable flt v \<and> reads_back flt v" using JArr by (simp add: list_all_iff)
  show ?case
  proof (rule reads_backI)
    fix m x assume n: "2 * length (json_text (JArr xs)) \<le> m"
    show "scan_value flt (Suc m) (json_text (JArr xs) @ x) = Inr (JArr xs, x)"
    proof (cases xs)
      case Nil
      then show ?thesis by simp
    next
      case (Cons v ys)
      let ?j = "join_with '','' (map json_text xs)"
      obtain y where j: "?j = json_text v @ y" using Cons by (cases ys) auto
      then have "skip_space (?j @ CHR '']'' # x) = ?j @ CHR '']'' # x" "expect (CHR '']'') (?j @ CHR '']'' # x) = None"
        using skip_head[of flt v "y @ CHR '']'' # x"] json_text_head[of flt v] value_head_other el Cons
        by (auto simp: expect_def)
      moreover have "scan_elements flt m [] (?j @ CHR '']'' # x) = Inr (JArr xs, x)"
        using elements_written[of xs flt m "[]" x] el Cons n by simp
      ultimately show ?thesis by simp
    qed
  qed
next
  case (JObj kvs)
  have el: "\<forall>p \<in> set kvs. loadable flt (snd p) \<and> reads_back flt (snd p)" and d: "distinct (map fst kvs)"
    using JObj by (auto simp: list_all_iff)
  show ?case
  proof (rule reads_backI)
    fix m x assume n: "2 * length (json_text (JObj kvs)) \<le> m"
    show "scan_value flt (Suc m) (json_text (JObj kvs) @ x) = Inr (JObj kvs, x)"
    proof (cases kvs)
      case Nil
      then show ?thesis by simp
    next
      case (Cons p ys)
      let ?j = "join_with '','' (map member_text kvs)"
      obtain y where "?j = CHR 0x22 # y" using Cons by (cases ys) (auto simp: json_string_def)
      moreover have "scan_members flt m [] (?j @ CHR 0x7D # x) = Inr (JObj kvs, x)"
        using members_written[of kvs flt "[]" m x] el d Cons n by simp
      ultimately show ?thesis by simp
    qed
  qed
qed simp

lemma json_loads_no_fuel: "json_loads flt s \<noteq> Inl OutOfFuel"
proof -
  have "scan_value flt (2 * length s + 1) (skip_space s) \<noteq> Inl OutOfFuel"
    using enough_fuel[of "skip_space s" "2 * length s + 1" flt] length_skip_space[of s] by auto
  then show ?thesis by (auto simp: json_loads_def split: sum.splits prod.splits)
qed

text \<open>An integer is refused only for a run of more than 4300 digits in the text.\<close>

definition long_run :: "string \<Rightarrow> bool" where
  "long_run s \<longleftrightarrow> (\<exists>pre ds r. s = pre @ ds @ r \<and> list_all is_digit ds \<and> MAX_STR_DIGITS < length ds)"

lemma long_run_suffix: "long_run r \<Longrightarrow> suffix r s \<Longrightarrow> long_run s"
  unfolding long_run_def suffix_def by (metis append.assoc)

lemma scan_atom_too_long:
  assumes "scan_atom flt s = Inl IntegerTooLong" shows "long_run s"
proof -
  obtain neg i r where m: "match_number s = Some (neg, i, [], r)" "MAX_STR_DIGITS < length i"
    using assms by (auto simp: scan_atom_def scan_number_def split: if_splits option.splits)
  have "list_all is_digit i'" if "int_part t = Some (i', r')" for t i' r'
    using that by (auto simp: int_part_def list_all_iff is_digit_def ord_def split: if_splits dest: set_takeWhileD)
  then have "list_all is_digit i" using m(1) by (auto simp: match_number_def Let_def split: option.splits prod.splits)
  then show ?thesis using match_number_text(1)[OF m(1)] m(2) unfolding long_run_def by (metis append_Nil)
qed

lemma scan_too_long:
  "(scan_value flt n s = Inl IntegerTooLong \<longrightarrow> long_run s)
   \<and> (scan_members flt n kvs s = Inl IntegerTooLong \<longrightarrow> long_run s)
   \<and> (scan_elements flt n xs s = Inl IntegerTooLong \<longrightarrow> long_run s)"
proof (induction n arbitrary: s kvs xs)
  case (Suc n)
  note IH = Suc.IH[THEN conjunct1, rule_format] Suc.IH[THEN conjunct2, THEN conjunct1, rule_format]
    Suc.IH[THEN conjunct2, THEN conjunct2, rule_format]
  note tr = suffix_order.trans[OF suffix_skip_space] suffix_order.less_imp_le[OF scan_suffix[THEN conjunct1, rule_format]]
  have "long_run s" if h: "scan_value flt (Suc n) s = Inl IntegerTooLong" for s
    using h by (auto split: option.splits if_splits dest!: IH(2,3) scan_atom_too_long
        intro: long_run_suffix[OF _ suffix_ConsI[OF suffix_skip_space]])
  moreover have "long_run s" if h: "scan_elements flt (Suc n) xs s = Inl IntegerTooLong" for s
  proof -
    have sf: "suffix (skip_space r') s" if "scan_value flt n s = Inr (v, r)" "skip_space r = c # r'" for v r c r'
      using tr(2)[OF that(1)] suffix_skip[OF that(2)] by (meson tr(1) suffix_order.trans)
    show ?thesis using h IH(1)[of s] by (auto split: option.splits sum.splits dest!: IH(3) intro: long_run_suffix[OF _ sf])
  qed
  moreover have "long_run s" if h: "scan_members flt (Suc n) kvs s = Inl IntegerTooLong" for s
  proof -
    have a: "suffix (skip_space r2) (c # r)"
      if "scan_string r = Some (k, r1)" "skip_space r1 = d # r2" for c r k r1 d r2
      using suffix_scan_string[OF that(1)] suffix_skip[OF that(2)]
      by (meson tr(1) suffix_order.trans suffix_ConsI)
    have b: "suffix (skip_space r4) (c # r)"
      if "scan_string r = Some (k, r1)" "skip_space r1 = d # r2"
        "scan_value flt n (skip_space r2) = Inr (v, r3)" "skip_space r3 = b # r4" for c r k r1 d r2 v r3 b r4
      using a[OF that(1,2), of c] tr(2)[OF that(3)] suffix_skip[OF that(4)] by (meson tr(1) suffix_order.trans)
    show ?thesis using h
      by (auto split: option.splits sum.splits dest!: IH(1,2)) (meson a b long_run_suffix)+
  qed
  ultimately show ?case by blast
qed simp

lemma json_loads_too_long: "json_loads flt s = Inl IntegerTooLong \<Longrightarrow> long_run s"
  using scan_too_long[of flt "2 * length s + 1" "skip_space s"] long_run_suffix[OF _ suffix_skip_space]
  by (auto simp: json_loads_def split: if_splits sum.splits)

lemma json_loads_written:
  assumes "loadable flt v"
  shows "json_loads flt (json_text v) = Inr v"
proof -
  have "\<not> starts_with byte_order_mark (json_text v)"
    using json_text_head[OF assms] value_head_other
    by (cases "json_text v") (auto simp: starts_with_def byte_order_mark_def)
  moreover have "scan_value flt (2 * length (json_text v) + 1) (skip_space (json_text v)) = Inr (v, [])"
    using loadable_reads_back[OF assms] skip_head[OF assms, of "[]"] closes_simps(1) unfolding reads_back_def
    by (metis append_Nil2 less_add_one)
  ultimately show ?thesis by (simp add: json_loads_def)
qed

lemma distinct_conv_card: "distinct xs \<longleftrightarrow> card (set xs) = length xs"
  by (metis card_distinct distinct_card)

lemma loadable_sort: "loadable flt (json_sort v) = loadable flt v"
proof (induction v rule: json_sort.induct)
  case (2 kvs)
  have "distinct (map fst (sort_key fst (map (\<lambda>p. (fst p, json_sort (snd p))) kvs))) = distinct (map fst kvs)"
    by (simp add: distinct_conv_card image_image)
  then show ?case using 2 by (auto simp: list_all_iff)
qed (auto simp: list_all_iff)

end
