(* ===== verification/Bola_Analysis.thy ===== *)
theory Bola_Analysis
  imports Bola Json_Loads
begin

text \<open>
  The analyzer of \<open>analyzers/bola.py\<close>: the decision whether the responses of an owner and of another
  identity show that a resource was disclosed, the redacted excerpts, fingerprints and similarity that
  are kept as evidence. Parameters of the analysis (\<open>analysis_env\<close>) are what the Python runtime
  provides beyond ASCII and integers: \<open>str.lower\<close> on Unicode text, \<open>repr(float(text))\<close>, the integer
  that equals a float, and the hexadecimal SHA-256 digest.
\<close>

subsection \<open>Data\<close>

datatype analysis_outcome = PASS | POTENTIAL_BOLA | INCONCLUSIVE

record analysis_env =
  ae_lower :: "string \<Rightarrow> string"
  ae_float :: "string \<Rightarrow> string"
  ae_float_int :: "string \<Rightarrow> int option"
  ae_sha256_hex :: "string \<Rightarrow> string"

record structured_evidence =
  se_probe_test_run_id :: row_id
  se_baseline_test_run_id :: row_id
  se_baseline_status_code :: int
  se_probe_status_code :: int
  se_baseline_resource_identifier_present :: bool
  se_probe_resource_identifier_present :: bool
  se_evidence_type :: string
  se_rule_id :: string
  se_rule_version :: string
  se_reason_code :: string

record excerpt_evidence =
  ee_baseline_excerpt :: string
  ee_probe_excerpt :: string
  ee_extractor_id :: string
  ee_extractor_version :: string

record fingerprint_evidence =
  fe_baseline_digest :: string
  fe_probe_digest :: string
  fe_baseline_body_bytes :: int
  fe_probe_body_bytes :: int
  fe_algorithm :: string
  fe_fingerprint_version :: string

record similarity_evidence =
  sv_exact_digest_match :: bool
  sv_length_similarity_bps :: int
  sv_comparator_id :: string
  sv_comparator_version :: string

record bola_analysis_result =
  ar_outcome :: analysis_outcome
  ar_reason :: string
  ar_confidence :: "rat option"
  ar_severity :: "string option"
  ar_evidence :: "structured_evidence option"
  ar_excerpt_evidence :: "excerpt_evidence option"
  ar_fingerprint_evidence :: "fingerprint_evidence option"
  ar_similarity_evidence :: "similarity_evidence option"

definition MATCHED_RESOURCE_IDENTIFIER :: string where
  "MATCHED_RESOURCE_IDENTIFIER = ''[MATCHED_RESOURCE_IDENTIFIER]''"

definition MAX_EXCERPT_LENGTH :: nat where
  "MAX_EXCERPT_LENGTH = 192"

definition MATCHED_IDENTIFIER_FIELD :: string where
  "MATCHED_IDENTIFIER_FIELD = ''[MATCHED_RESOURCE_IDENTIFIER_FIELD]''"

subsection \<open>Fingerprints\<close>

definition compare_response_fingerprints :: "fingerprint_evidence \<Rightarrow> similarity_evidence" where
  "compare_response_fingerprints fp =
     (let shorter = min (fe_baseline_body_bytes fp) (fe_probe_body_bytes fp);
          longer = max (fe_baseline_body_bytes fp) (fe_probe_body_bytes fp) in
      \<lparr>sv_exact_digest_match = (fe_baseline_digest fp = fe_probe_digest fp),
       sv_length_similarity_bps = (if longer \<noteq> 0 then shorter * 10000 div longer else 10000),
       sv_comparator_id = ''sha256_exact_and_length_ratio'', sv_comparator_version = ''1''\<rparr>)"

definition fingerprint_response_pair ::
  "analysis_env \<Rightarrow> string option \<Rightarrow> string option \<Rightarrow> fingerprint_evidence" where
  "fingerprint_response_pair env baseline_body probe_body =
     (let baseline_bytes = (case baseline_body of None \<Rightarrow> [] | Some b \<Rightarrow> b);
          probe_bytes = (case probe_body of None \<Rightarrow> [] | Some b \<Rightarrow> b) in
      \<lparr>fe_baseline_digest = ae_sha256_hex env baseline_bytes, fe_probe_digest = ae_sha256_hex env probe_bytes,
       fe_baseline_body_bytes = int (length baseline_bytes), fe_probe_body_bytes = int (length probe_bytes),
       fe_algorithm = ''sha256'', fe_fingerprint_version = ''1''\<rparr>)"

subsection \<open>The resource identifier in a response\<close>

text \<open>The value of the body; \<open>JNull\<close> is Python's \<open>None\<close>. Only \<open>JSONDecodeError\<close> is caught.\<close>

definition parse_json_body :: "analysis_env \<Rightarrow> string option \<Rightarrow> loads_error + json" where
  "parse_json_body env body =
     (case body of
        None \<Rightarrow> Inr JNull
      | Some b \<Rightarrow> (case json_loads (ae_float env) b of
                       Inl JSONDecodeError \<Rightarrow> Inr JNull | Inl e \<Rightarrow> Inl e | Inr v \<Rightarrow> Inr v))"

fun normalize_scalar :: "json \<Rightarrow> string option" where
  "normalize_scalar (JStr s) = Some s"
| "normalize_scalar (JInt i) = Some (show_int i)"
| "normalize_scalar (JFloat r) = Some r"
| "normalize_scalar (JNonFinite r) = Some r"
| "normalize_scalar _ = None"

definition allowed_key :: "analysis_env \<Rightarrow> resource \<Rightarrow> string \<Rightarrow> bool" where
  "allowed_key env r k \<longleftrightarrow> ae_lower env k = ''id'' \<or> ae_lower env k = res_resource_type r @ ''_id''"

fun json_matching_resource_id_key :: "analysis_env \<Rightarrow> resource \<Rightarrow> json \<Rightarrow> string option"
  and matching_member :: "analysis_env \<Rightarrow> resource \<Rightarrow> (string \<times> json) list \<Rightarrow> string option"
  and matching_element :: "analysis_env \<Rightarrow> resource \<Rightarrow> json list \<Rightarrow> string option"
where
  "json_matching_resource_id_key env r (JObj kvs) = matching_member env r kvs"
| "json_matching_resource_id_key env r (JArr xs) = matching_element env r xs"
| "json_matching_resource_id_key env r _ = None"
| "matching_member env r [] = None"
| "matching_member env r ((key, child) # kvs) =
     (if allowed_key env r key \<and> normalize_scalar child = Some (res_external_id r) then Some key
      else case json_matching_resource_id_key env r child of
             Some matched_key \<Rightarrow> Some matched_key
           | None \<Rightarrow> matching_member env r kvs)"
| "matching_element env r [] = None"
| "matching_element env r (child # xs) =
     (case json_matching_resource_id_key env r child of
        Some matched_key \<Rightarrow> Some matched_key
      | None \<Rightarrow> matching_element env r xs)"

definition redacted_identifier_excerpt :: "string \<Rightarrow> string" where
  "redacted_identifier_excerpt key =
     (let excerpt = json_text (JObj [(key, JStr MATCHED_RESOURCE_IDENTIFIER)]) in
      if py_len excerpt > MAX_EXCERPT_LENGTH
      then json_text (JObj [(MATCHED_IDENTIFIER_FIELD, JStr MATCHED_RESOURCE_IDENTIFIER)]) else excerpt)"

definition is_success_status :: "int \<Rightarrow> bool" where
  "is_success_status status_code \<longleftrightarrow> 200 \<le> status_code \<and> status_code < 300"

text \<open>
  \<open>==\<close> on parsed documents: booleans and integral floats equal integers, dictionaries compare
  without order. \<open>json.loads\<close> uses one NaN object, which equals itself inside a container; the
  analyzer compares containers only.
\<close>

definition integral :: "(string \<Rightarrow> int option) \<Rightarrow> json \<Rightarrow> int option" where
  "integral fi v = (case v of JBool b \<Rightarrow> Some (of_bool b) | JInt i \<Rightarrow> Some i | JFloat r \<Rightarrow> fi r | _ \<Rightarrow> None)"

fun py_eq :: "(string \<Rightarrow> int option) \<Rightarrow> json \<Rightarrow> json \<Rightarrow> bool"
  and py_eq_list :: "(string \<Rightarrow> int option) \<Rightarrow> json list \<Rightarrow> json list \<Rightarrow> bool"
  and py_eq_members :: "(string \<Rightarrow> int option) \<Rightarrow> (string \<times> json) list \<Rightarrow> (string \<times> json) list \<Rightarrow> bool"
where
  "py_eq fi (JArr xs) w = (case w of JArr ys \<Rightarrow> py_eq_list fi xs ys | _ \<Rightarrow> False)"
| "py_eq fi (JObj kvs) w =
     (case w of JObj kws \<Rightarrow> length kvs = length kws \<and> py_eq_members fi kvs kws | _ \<Rightarrow> False)"
| "py_eq fi v w = (v = w \<or> (integral fi v \<noteq> None \<and> integral fi v = integral fi w))"
| "py_eq_list fi [] ys = (ys = [])"
| "py_eq_list fi (x # xs) ys = (case ys of [] \<Rightarrow> False | y # ys' \<Rightarrow> py_eq fi x y \<and> py_eq_list fi xs ys')"
| "py_eq_members fi [] kws = True"
| "py_eq_members fi ((k, v) # kvs) kws =
     (case map_of kws k of None \<Rightarrow> False | Some w \<Rightarrow> py_eq fi v w \<and> py_eq_members fi kvs kws)"

subsection \<open>The classification\<close>

definition no_finding :: "analysis_outcome \<Rightarrow> string \<Rightarrow> bola_analysis_result" where
  "no_finding outcome why =
     \<lparr>ar_outcome = outcome, ar_reason = why, ar_confidence = None, ar_severity = None, ar_evidence = None,
      ar_excerpt_evidence = None, ar_fingerprint_evidence = None, ar_similarity_evidence = None\<rparr>"

definition failed_run :: "test_run \<Rightarrow> bool" where
  "failed_run run \<longleftrightarrow> (case run_error_message run of None \<Rightarrow> False | Some m \<Rightarrow> m \<noteq> [])"

definition structured_evidence_of :: "test_run \<Rightarrow> test_run \<Rightarrow> int \<Rightarrow> int \<Rightarrow> structured_evidence" where
  "structured_evidence_of cross base baseline_status cross_status =
     \<lparr>se_probe_test_run_id = run_id cross, se_baseline_test_run_id = run_id base,
      se_baseline_status_code = baseline_status, se_probe_status_code = cross_status,
      se_baseline_resource_identifier_present = True, se_probe_resource_identifier_present = True,
      se_evidence_type = ''bola_resource_identifier_pair'', se_rule_id = ''bola_resource_identifier_presence'',
      se_rule_version = ''1'', se_reason_code = ''baseline_and_probe_contain_target_resource_identifier''\<rparr>"

definition potential_bola ::
  "analysis_env \<Rightarrow> test_run \<Rightarrow> test_run \<Rightarrow> int \<Rightarrow> int \<Rightarrow> json \<Rightarrow> json \<Rightarrow> string \<Rightarrow> string \<Rightarrow> bola_analysis_result" where
  "potential_bola env cross base baseline_status cross_status baseline_json cross_json baseline_key cross_key =
     \<lparr>ar_outcome = POTENTIAL_BOLA,
      ar_reason = ''The owner baseline succeeded, and a different authenticated identity also received a ''
        @ ''successful response containing the target resource identifier.'',
      ar_confidence = Some (if py_eq (ae_float_int env) baseline_json cross_json then 99 / 100 else 95 / 100),
      ar_severity = Some ''high'',
      ar_evidence = Some (structured_evidence_of cross base baseline_status cross_status),
      ar_excerpt_evidence = Some \<lparr>ee_baseline_excerpt = redacted_identifier_excerpt baseline_key,
        ee_probe_excerpt = redacted_identifier_excerpt cross_key,
        ee_extractor_id = ''bola_matched_identifier_field'', ee_extractor_version = ''1''\<rparr>,
      ar_fingerprint_evidence = None, ar_similarity_evidence = None\<rparr>"

text \<open>The comparison of two successful responses.\<close>

definition compare_bodies ::
  "analysis_env \<Rightarrow> test_run \<Rightarrow> test_run \<Rightarrow> resource \<Rightarrow> int \<Rightarrow> int \<Rightarrow> loads_error + bola_analysis_result" where
  "compare_bodies env cross base r baseline_status cross_status =
     (case parse_json_body env (run_response_body base) of
        Inl e \<Rightarrow> Inl e
      | Inr baseline_json \<Rightarrow>
     (case parse_json_body env (run_response_body cross) of
        Inl e \<Rightarrow> Inl e
      | Inr cross_json \<Rightarrow>
     (if cross_json = JNull then
        Inr (no_finding INCONCLUSIVE (''Cross-owner request returned a successful status, but the body ''
          @ ''cannot be validated as JSON.''))
      else case (json_matching_resource_id_key env r baseline_json, json_matching_resource_id_key env r cross_json) of
        (Some baseline_key, Some cross_key) \<Rightarrow>
          Inr (potential_bola env cross base baseline_status cross_status baseline_json cross_json baseline_key cross_key)
      | _ \<Rightarrow> Inr (no_finding INCONCLUSIVE (''Cross-owner access returned a successful status, but the current ''
                @ ''rules cannot confirm that the target resource was disclosed.'')))))"

definition classify_bola_run ::
  "analysis_env \<Rightarrow> test_case \<Rightarrow> test_run \<Rightarrow> test_run option \<Rightarrow> resource \<Rightarrow> loads_error + bola_analysis_result" where
  "classify_bola_run env tc cross baseline r =
     (if tc_test_type tc \<noteq> BOLA_CROSS_OWNER then
        Inr (no_finding INCONCLUSIVE ''TestCase is not a cross-owner BOLA test.'')
      else if failed_run cross then
        Inr (no_finding INCONCLUSIVE ''Cross-owner request did not complete successfully.'')
      else case run_response_status cross of
        None \<Rightarrow> Inr (no_finding INCONCLUSIVE ''Cross-owner request has no HTTP response status.'')
      | Some cross_status \<Rightarrow>
     (case baseline of
        None \<Rightarrow> Inr (no_finding INCONCLUSIVE ''No owner baseline run is available.'')
      | Some base \<Rightarrow>
     (if failed_run base then Inr (no_finding INCONCLUSIVE ''Owner baseline execution failed.'')
      else case run_response_status base of
        None \<Rightarrow> Inr (no_finding INCONCLUSIVE ''Owner baseline has no HTTP response status.'')
      | Some baseline_status \<Rightarrow>
     (if \<not> is_success_status baseline_status then
        Inr (no_finding INCONCLUSIVE ''Owner baseline did not return a successful response.'')
      else if cross_status \<in> {401, 403, 404} then
        Inr (no_finding PASS ''Cross-owner access was rejected while the owner baseline succeeded.'')
      else if \<not> is_success_status cross_status then
        Inr (no_finding INCONCLUSIVE (''Cross-owner response is neither a normal success nor a standard ''
          @ ''authorization rejection.''))
      else compare_bodies env cross base r baseline_status cross_status))))"

definition analyze_bola_run ::
  "analysis_env \<Rightarrow> test_case \<Rightarrow> test_run \<Rightarrow> test_run option \<Rightarrow> resource \<Rightarrow> loads_error + bola_analysis_result" where
  "analyze_bola_run env tc cross baseline r =
     (case classify_bola_run env tc cross baseline r of
        Inl e \<Rightarrow> Inl e
      | Inr result \<Rightarrow>
     (case baseline of
        None \<Rightarrow> Inr result
      | Some base \<Rightarrow>
         (let fp = fingerprint_response_pair env (run_response_body base) (run_response_body cross) in
          Inr (result\<lparr>ar_fingerprint_evidence := Some fp,
                 ar_similarity_evidence :=
                   (if ar_outcome result = POTENTIAL_BOLA then Some (compare_response_fingerprints fp) else None)\<rparr>))))"

subsection \<open>Where an identifier occurs\<close>

text \<open>All members of a document at any depth, in the order in which the search visits them.\<close>

fun json_members :: "json \<Rightarrow> (string \<times> json) list" where
  "json_members (JObj kvs) = concat (map (\<lambda>p. p # json_members (snd p)) kvs)"
| "json_members (JArr xs) = concat (map json_members xs)"
| "json_members _ = []"

definition identifies :: "analysis_env \<Rightarrow> resource \<Rightarrow> string \<times> json \<Rightarrow> bool" where
  "identifies env r p \<longleftrightarrow> allowed_key env r (fst p) \<and> normalize_scalar (snd p) = Some (res_external_id r)"

lemma find_append_option: "find P (xs @ ys) = (case find P xs of Some x \<Rightarrow> Some x | None \<Rightarrow> find P ys)"
  by (induction xs) auto

lemma matching_key_find:
  "json_matching_resource_id_key env r v = map_option fst (find (identifies env r) (json_members v))"
  "matching_member env r kvs = map_option fst (find (identifies env r) (json_members (JObj kvs)))"
  "matching_element env r xs = map_option fst (find (identifies env r) (json_members (JArr xs)))"
  by (induction env r v and env r kvs and env r xs rule: json_matching_resource_id_key_matching_member_matching_element.induct)
     (auto simp: find_append_option identifies_def split: option.split)

lemma matching_key_exists:
  "json_matching_resource_id_key env r v \<noteq> None \<longleftrightarrow> (\<exists>p \<in> set (json_members v). identifies env r p)"
  by (auto simp: matching_key_find find_None_iff)

subsection \<open>What the analysis decides\<close>

text \<open>A cross-owner test case, both of whose requests completed, with a successful baseline.\<close>

definition comparable :: "test_case \<Rightarrow> test_run \<Rightarrow> test_run \<Rightarrow> int \<Rightarrow> bool" where
  "comparable tc cross base cross_status \<longleftrightarrow>
     tc_test_type tc = BOLA_CROSS_OWNER \<and> \<not> failed_run cross \<and> \<not> failed_run base
     \<and> run_response_status cross = Some cross_status
     \<and> (\<exists>bs. run_response_status base = Some bs \<and> is_success_status bs)"

text \<open>The body is a JSON document that holds the identifier of the resource at some depth.\<close>

definition discloses :: "analysis_env \<Rightarrow> resource \<Rightarrow> test_run \<Rightarrow> bool" where
  "discloses env r run \<longleftrightarrow>
     (\<exists>b v. run_response_body run = Some b \<and> json_loads (ae_float env) b = Inr v
        \<and> (\<exists>p \<in> set (json_members v). identifies env r p))"

definition unreadable :: "analysis_env \<Rightarrow> test_run \<Rightarrow> bool" where
  "unreadable env run \<longleftrightarrow> (\<exists>b. run_response_body run = Some b \<and> json_loads (ae_float env) b = Inl IntegerTooLong)"

lemma parse_body_cases:
  "parse_json_body env body = Inl e \<longleftrightarrow> e = IntegerTooLong \<and> (\<exists>b. body = Some b \<and> json_loads (ae_float env) b = Inl IntegerTooLong)"
  using json_loads_no_fuel[of "ae_float env"]
  by (cases e) (auto simp: parse_json_body_def split: option.splits sum.splits loads_error.splits)

lemma parse_unreadable: "unreadable env run \<Longrightarrow> parse_json_body env (run_response_body run) = Inl IntegerTooLong"
  by (auto simp: unreadable_def parse_json_body_def)

lemma parse_error_unreadable: "parse_json_body env body = Inl e \<Longrightarrow> e = IntegerTooLong"
  by (simp add: parse_body_cases)

lemma parse_body_matching:
  "(\<exists>v. parse_json_body env (run_response_body run) = Inr v \<and> json_matching_resource_id_key env r v \<noteq> None)
     \<longleftrightarrow> discloses env r run"
  by (auto simp: parse_json_body_def discloses_def matching_key_exists simp del: not_None_eq
      split: option.splits sum.splits loads_error.splits)

lemma success_not_rejected: "is_success_status s \<Longrightarrow> s \<notin> {401, 403, 404}"
  by (auto simp: is_success_status_def)

lemma compare_bodies_outcome:
  assumes "\<not> unreadable env base" "\<not> unreadable env cross"
  obtains res where "compare_bodies env cross base r bs cs = Inr res"
    and "ar_outcome res = (if discloses env r base \<and> discloses env r cross then POTENTIAL_BOLA else INCONCLUSIVE)"
proof -
  obtain b c where bc: "parse_json_body env (run_response_body base) = Inr b" "parse_json_body env (run_response_body cross) = Inr c"
    using assms parse_body_cases[of env "run_response_body base"] parse_body_cases[of env "run_response_body cross"]
    by (metis sum.exhaust unreadable_def)
  then have "discloses env r base \<longleftrightarrow> json_matching_resource_id_key env r b \<noteq> None"
    "discloses env r cross \<longleftrightarrow> json_matching_resource_id_key env r c \<noteq> None"
    using parse_body_matching[of env base r] parse_body_matching[of env cross r] by auto
  then have "\<exists>res. compare_bodies env cross base r bs cs = Inr res
      \<and> ar_outcome res = (if discloses env r base \<and> discloses env r cross then POTENTIAL_BOLA else INCONCLUSIVE)"
    using bc by (auto simp: compare_bodies_def no_finding_def potential_bola_def split: option.splits)
  then show ?thesis using that by blast
qed

lemma classify_comparable:
  assumes "comparable tc cross base cs" "is_success_status cs"
  shows "\<exists>bs. classify_bola_run env tc cross (Some base) r = compare_bodies env cross base r bs cs"
  using assms success_not_rejected[of cs] by (auto simp: classify_bola_run_def comparable_def)

lemma classify_outcome:
  assumes "\<And>cs. comparable tc cross base cs \<Longrightarrow> is_success_status cs \<Longrightarrow> \<not> unreadable env base \<and> \<not> unreadable env cross"
  obtains res where "classify_bola_run env tc cross (Some base) r = Inr res"
    and "ar_outcome res = POTENTIAL_BOLA \<longleftrightarrow>
      (\<exists>cs. comparable tc cross base cs \<and> is_success_status cs) \<and> discloses env r base \<and> discloses env r cross"
    and "ar_outcome res = PASS \<longleftrightarrow> (\<exists>cs. comparable tc cross base cs \<and> cs \<in> {401, 403, 404})"
proof (cases "\<exists>cs. comparable tc cross base cs \<and> is_success_status cs")
  case True
  then obtain cs where cs: "comparable tc cross base cs" "is_success_status cs" by blast
  then obtain bs where c: "classify_bola_run env tc cross (Some base) r = compare_bodies env cross base r bs cs"
    using classify_comparable by blast
  obtain res where res: "compare_bodies env cross base r bs cs = Inr res"
    "ar_outcome res = (if discloses env r base \<and> discloses env r cross then POTENTIAL_BOLA else INCONCLUSIVE)"
    using compare_bodies_outcome assms[OF cs] by metis
  have "cs' = cs" if "comparable tc cross base cs'" for cs' using that cs(1) by (simp add: comparable_def)
  then have np: "\<not> (\<exists>cs. comparable tc cross base cs \<and> cs \<in> {401, 403, 404})" using success_not_rejected[OF cs(2)] by blast
  show ?thesis
    by (rule that[of res]) (use c res True np in \<open>simp_all split: if_splits\<close>)
next
  case False
  then show ?thesis
    by (intro that[of "case classify_bola_run env tc cross (Some base) r of Inr res \<Rightarrow> res"])
       (auto simp: classify_bola_run_def comparable_def no_finding_def split: option.splits)
qed

text \<open>
  C25. The analyzer decides by disclosure: it reports a potential BOLA if and only if both requests of
  a cross-owner test case completed with a success status and both bodies are JSON documents that
  hold, at any depth, a member named \<open>id\<close> or \<open><type>_id\<close> (without regard to case) whose scalar value prints as the
  identifier of the resource; it reports a pass if and only if the baseline succeeded and the other identity was answered 401,
  403 or 404; without a baseline it never reports either; and it raises exactly if it has to read a body that
  holds an integer longer than the interpreter converts.
\<close>

theorem analysis_exact:
  "((\<exists>res. analyze_bola_run env tc cross (Some base) r = Inr res \<and> ar_outcome res = POTENTIAL_BOLA) \<longleftrightarrow>
     (\<exists>cs. comparable tc cross base cs \<and> is_success_status cs \<and> discloses env r base \<and> discloses env r cross))
   \<and> ((\<exists>res. analyze_bola_run env tc cross (Some base) r = Inr res \<and> ar_outcome res = PASS) \<longleftrightarrow>
     (\<exists>cs. comparable tc cross base cs \<and> cs \<in> {401, 403, 404}))
   \<and> ((\<exists>e. analyze_bola_run env tc cross (Some base) r = Inl e) \<longleftrightarrow>
     (\<exists>cs. comparable tc cross base cs \<and> is_success_status cs \<and> (unreadable env base \<or> unreadable env cross)))
   \<and> (\<exists>res. analyze_bola_run env tc cross None r = Inr res \<and> ar_outcome res = INCONCLUSIVE)"
proof -
  have none: "\<exists>res. analyze_bola_run env tc cross None r = Inr res \<and> ar_outcome res = INCONCLUSIVE"
    by (auto simp: analyze_bola_run_def classify_bola_run_def no_finding_def split: option.split)
  show ?thesis
  proof (cases "\<exists>cs. comparable tc cross base cs \<and> is_success_status cs \<and> (unreadable env base \<or> unreadable env cross)")
    case True
    then obtain cs where cs: "comparable tc cross base cs" "is_success_status cs" "unreadable env base \<or> unreadable env cross" by blast
    then obtain bs where "classify_bola_run env tc cross (Some base) r = compare_bodies env cross base r bs cs"
      using classify_comparable by blast
    then have "classify_bola_run env tc cross (Some base) r = Inl IntegerTooLong"
      using cs(3) parse_unreadable by (auto simp: compare_bodies_def split: sum.split dest: parse_error_unreadable)
    moreover have "\<not> (discloses env r base \<and> discloses env r cross)" using cs(3) by (auto simp: discloses_def unreadable_def)
    moreover have "cs' = cs" if "comparable tc cross base cs'" for cs' using that cs(1) by (simp add: comparable_def)
    ultimately show ?thesis using True none success_not_rejected[OF cs(2)] by (auto simp: analyze_bola_run_def)
  next
    case False
    then obtain res where "classify_bola_run env tc cross (Some base) r = Inr res"
      "ar_outcome res = POTENTIAL_BOLA \<longleftrightarrow>
        (\<exists>cs. comparable tc cross base cs \<and> is_success_status cs) \<and> discloses env r base \<and> discloses env r cross"
      "ar_outcome res = PASS \<longleftrightarrow> (\<exists>cs. comparable tc cross base cs \<and> cs \<in> {401, 403, 404})"
      using classify_outcome[of tc cross base env r] by blast
    then show ?thesis using False none by (auto simp: analyze_bola_run_def Let_def)
  qed
qed

text \<open>
  Reading a body always ends: \<open>parse_json_body\<close> returns a value for every body, valid JSON or not,
  unless the body holds a run of more than 4300 decimal digits, and then it may raise the \<open>ValueError\<close> of \<open>int\<close>,
  which the analyzer does not catch.
\<close>

theorem parse_body_total:
  "(\<exists>v. parse_json_body env body = Inr v)
   \<or> (\<exists>b. body = Some b \<and> long_run b \<and> parse_json_body env body = Inl IntegerTooLong)"
proof (cases "parse_json_body env body")
  case (Inl e)
  then show ?thesis using parse_body_cases[of env body e] json_loads_too_long by auto
qed simp

lemma similarity_bounds:
  assumes "fe_baseline_body_bytes fp = int m" "fe_probe_body_bytes fp = int n"
  shows "0 \<le> sv_length_similarity_bps (compare_response_fingerprints fp)"
    and "sv_length_similarity_bps (compare_response_fingerprints fp) \<le> 10000"
    and "sv_length_similarity_bps (compare_response_fingerprints fp) = 10000 \<longleftrightarrow> m = n"
proof -
  let ?s = "min (int m) (int n)" let ?l = "max (int m) (int n)"
  have bps: "sv_length_similarity_bps (compare_response_fingerprints fp) = (if ?l \<noteq> 0 then ?s * 10000 div ?l else 10000)"
    using assms by (simp add: compare_response_fingerprints_def Let_def)
  show "0 \<le> sv_length_similarity_bps (compare_response_fingerprints fp)" 
    unfolding bps by (simp add: pos_imp_zdiv_nonneg_iff max.strict_coboundedI1 less_le max.coboundedI1)
  have le: "?s * 10000 div ?l \<le> 10000" if "?l \<noteq> 0"
    using that zdiv_mono1[of "?s * 10000" "10000 * ?l" ?l] by simp
  then show "sv_length_similarity_bps (compare_response_fingerprints fp) \<le> 10000" unfolding bps by simp
  have "?s * 10000 div ?l < 10000" if "m \<noteq> n"
  proof -
    have "?s < ?l" "0 < ?l" using that by auto
    then have "?l * (?s * 10000 div ?l) < ?l * 10000"
      using mult_div_mod_eq[of ?l "?s * 10000"] pos_mod_sign[of ?l "?s * 10000"] by linarith
    then show ?thesis using \<open>0 < ?l\<close> by (rule mult_left_less_imp_less[OF _ less_imp_le])
  qed
  then show "sv_length_similarity_bps (compare_response_fingerprints fp) = 10000 \<longleftrightarrow> m = n"
    unfolding bps by (cases "m = n") auto
qed

lemma excerpt_bound: "py_len (redacted_identifier_excerpt key) \<le> 192"
proof -
  have "py_len (json_text (JObj [(MATCHED_IDENTIFIER_FIELD, JStr MATCHED_RESOURCE_IDENTIFIER)])) \<le> 192" by code_simp
  then show ?thesis by (simp add: redacted_identifier_excerpt_def Let_def MAX_EXCERPT_LENGTH_def)
qed

lemma potential_result:
  assumes "analyze_bola_run env tc cross (Some base) r = Inr res" "ar_outcome res = POTENTIAL_BOLA"
  obtains b c bs cs kb kc where "parse_json_body env (run_response_body base) = Inr b"
    "parse_json_body env (run_response_body cross) = Inr c"
    "json_matching_resource_id_key env r b = Some kb" "json_matching_resource_id_key env r c = Some kc"
    "run_response_status base = Some bs" "run_response_status cross = Some cs"
    "res = (let fp = fingerprint_response_pair env (run_response_body base) (run_response_body cross) in
       (potential_bola env cross base bs cs b c kb kc)\<lparr>ar_fingerprint_evidence := Some fp,
         ar_similarity_evidence := Some (compare_response_fingerprints fp)\<rparr>)"
  using assms
  by (auto simp: analyze_bola_run_def classify_bola_run_def compare_bodies_def no_finding_def Let_def
      split: sum.splits option.splits if_splits)

lemma matching_key_allowed: "json_matching_resource_id_key env r v = Some k \<Longrightarrow> allowed_key env r k"
  by (auto simp: matching_key_find identifies_def find_Some_iff) (metis fst_conv)

definition body_bytes :: "test_run \<Rightarrow> string" where
  "body_bytes run = (case run_response_body run of None \<Rightarrow> [] | Some b \<Rightarrow> b)"

text \<open>
  The evidence of a potential BOLA fits what stores it and shows no value: the excerpts are at most
  192 characters and are made from the name of the matched member alone; the sizes are the numbers of bytes of
  the two bodies; the similarity lies between 0 and 10000 basis points, with 10000 exactly for equal sizes; the
  confidence is 0.95 or 0.99.
\<close>

theorem analysis_evidence_bounds:
  assumes "analyze_bola_run env tc cross (Some base) r = Inr res" "ar_outcome res = POTENTIAL_BOLA"
  shows "\<exists>se ee fp sv kb kc. ar_evidence res = Some se \<and> ar_excerpt_evidence res = Some ee
      \<and> ar_fingerprint_evidence res = Some fp \<and> ar_similarity_evidence res = Some sv
    \<and> py_len (ee_baseline_excerpt ee) \<le> 192 \<and> py_len (ee_probe_excerpt ee) \<le> 192
    \<and> allowed_key env r kb \<and> allowed_key env r kc
    \<and> ee_baseline_excerpt ee = redacted_identifier_excerpt kb \<and> ee_probe_excerpt ee = redacted_identifier_excerpt kc
    \<and> fe_baseline_body_bytes fp = int (length (body_bytes base)) \<and> fe_probe_body_bytes fp = int (length (body_bytes cross))
    \<and> 0 \<le> sv_length_similarity_bps sv \<and> sv_length_similarity_bps sv \<le> 10000
    \<and> (sv_length_similarity_bps sv = 10000 \<longleftrightarrow> length (body_bytes base) = length (body_bytes cross))
    \<and> ar_confidence res \<in> {Some (95 / 100), Some (99 / 100)}"
proof -
  from potential_result[OF assms] obtain b c bs cs kb kc where
    k: "json_matching_resource_id_key env r b = Some kb" "json_matching_resource_id_key env r c = Some kc"
    and res: "res = (let fp = fingerprint_response_pair env (run_response_body base) (run_response_body cross) in
       (potential_bola env cross base bs cs b c kb kc)\<lparr>ar_fingerprint_evidence := Some fp,
         ar_similarity_evidence := Some (compare_response_fingerprints fp)\<rparr>)" by metis
  let ?fp = "fingerprint_response_pair env (run_response_body base) (run_response_body cross)"
  have l: "fe_baseline_body_bytes ?fp = int (length (body_bytes base))" "fe_probe_body_bytes ?fp = int (length (body_bytes cross))"
    by (simp_all add: fingerprint_response_pair_def body_bytes_def Let_def)
  show ?thesis
    using matching_key_allowed[OF k(1)] matching_key_allowed[OF k(2)] l similarity_bounds[OF l] excerpt_bound
    by (intro exI[of _ "structured_evidence_of cross base bs cs"]
          exI[of _ "\<lparr>ee_baseline_excerpt = redacted_identifier_excerpt kb, ee_probe_excerpt = redacted_identifier_excerpt kc,
             ee_extractor_id = ''bola_matched_identifier_field'', ee_extractor_version = ''1''\<rparr>"]
          exI[of _ ?fp] exI[of _ "compare_response_fingerprints ?fp"] exI[of _ kb] exI[of _ kc])
       (simp add: res Let_def potential_bola_def)
qed

definition lab_analysis_env :: analysis_env where
  "lab_analysis_env = \<lparr>ae_lower = py_lower, ae_float = id, ae_float_int = (\<lambda>r. None),
     ae_sha256_hex = (\<lambda>b. replicate 64 (CHR ''a''))\<rparr>"

definition lab_case :: test_case where
  "lab_case = \<lparr>tc_id = 11, tc_endpoint_id = 13, tc_actor_identity_id = 3, tc_resource_id = 12,
     tc_test_type = BOLA_CROSS_OWNER, tc_ownership_relation = ''cross_owner'', tc_expected_statuses = [403, 404],
     tc_status = ''completed'', tc_created_at = 0\<rparr>"

definition lab_run_of :: "row_id \<Rightarrow> row_id \<Rightarrow> string \<Rightarrow> test_run" where
  "lab_run_of i case_id body = \<lparr>run_id = i, run_test_case_id = case_id, run_request_data = JObj [],
     run_response_status = Some 200, run_response_body = Some body, run_duration_ms = Some 5, run_error_message = None,
     run_executed_at = 0, run_authorization_revision_id = Some 1, run_execution_plan_id = Some 7\<rparr>"

definition lab_order :: resource where
  "lab_order = lab_resource\<lparr>res_external_id := ''42''\<rparr>"

definition lab_owner_body :: string where
  "lab_owner_body = json_text (JObj [(''data'', JArr [JObj [(''Order_ID'', JInt 42), (''total'', JInt 7)]])])"

definition lab_other_body :: string where
  "lab_other_body = json_text (JObj [(''id'', JStr ''42'')])"

theorem analysis_evidence_bounds_witness:
  "\<exists>res ee sv. analyze_bola_run lab_analysis_env lab_case (lab_run_of 20 11 lab_other_body) (Some (lab_run_of 21 10 lab_owner_body))
       lab_order = Inr res
     \<and> ar_excerpt_evidence res = Some ee \<and> py_len (ee_baseline_excerpt ee) \<le> 192
     \<and> ar_similarity_evidence res = Some sv \<and> sv_length_similarity_bps sv \<le> 10000"
proof -
  let ?r = "analyze_bola_run lab_analysis_env lab_case (lab_run_of 20 11 lab_other_body) (Some (lab_run_of 21 10 lab_owner_body)) lab_order"
  have "(case ?r of Inr res \<Rightarrow> ar_outcome res = POTENTIAL_BOLA | Inl _ \<Rightarrow> False)" by code_simp
  then obtain res where "?r = Inr res" "ar_outcome res = POTENTIAL_BOLA" by (cases ?r) auto
  from analysis_evidence_bounds[OF this] this(1) show ?thesis by blast
qed

end
