(* ===== verification/Finding_Analysis.thy ===== *)
theory Finding_Analysis
  imports Bola_Analysis
begin

text \<open>
  \<open>FindingAnalysisService\<close> (\<open>services/finding_analysis.py\<close>): the analysis of a stored run against a stored
  baseline, the finding and its five kinds of evidence rows with their unique and check
  constraints, and the nested transaction that appends them. Between the first reads and the nested
  transaction other sessions may commit: \<open>mid\<close> is what they do to the tables of findings. A row is
  inserted with \<open>ON CONFLICT DO NOTHING\<close> and then read back and compared; the five tables share the
  laws of the locale \<open>evidence_table\<close>.
\<close>

subsection \<open>Tables\<close>

record finding =
  f_id :: row_id
  f_target_id :: row_id
  f_endpoint_id :: row_id
  f_test_run_id :: row_id
  f_baseline_test_run_id :: "row_id option"
  f_category :: string
  f_severity :: string
  f_confidence :: rat
  f_status :: string
  f_title :: string
  f_description :: string
  f_review_notes :: "string option"
  f_created_at :: datetime
  f_updated_at :: datetime

text \<open>The column \<open>title\<close> is a \<open>VARCHAR(255)\<close>; the other bounded columns hold constants.\<close>

definition finding_row_ok :: "finding \<Rightarrow> bool" where
  "finding_row_ok f \<longleftrightarrow> py_len (f_title f) \<le> 255"

text \<open>An evidence row: its key, the row it belongs to (unique in its table), the values.\<close>

record 'v evidence_row =
  ev_id :: row_id
  ev_parent :: row_id
  ev_values :: 'v
  ev_created_at :: datetime

record finding_evidence_retention_policy =
  rp_policy_id :: string
  rp_policy_version :: string
  rp_retention_mode :: string
  rp_automatic_deletion_enabled :: bool
  rp_raw_response_body_retained :: bool

definition V1_FINDING_EVIDENCE_RETENTION_POLICY :: finding_evidence_retention_policy where
  "V1_FINDING_EVIDENCE_RETENTION_POLICY =
     \<lparr>rp_policy_id = ''m13_minimized_finding_evidence'', rp_policy_version = ''1'',
      rp_retention_mode = ''explicit_management_only'', rp_automatic_deletion_enabled = False,
      rp_raw_response_body_retained = False\<rparr>"

type_synonym finding_evidence_record = "structured_evidence evidence_row"
type_synonym finding_evidence_excerpt = "excerpt_evidence evidence_row"
type_synonym finding_evidence_fingerprint = "fingerprint_evidence evidence_row"
type_synonym finding_evidence_similarity = "similarity_evidence evidence_row"
type_synonym finding_evidence_retention_binding = "finding_evidence_retention_policy evidence_row"

definition evidence_record_ok :: "structured_evidence \<Rightarrow> bool" where
  "evidence_record_ok e \<longleftrightarrow> se_baseline_test_run_id e \<noteq> se_probe_test_run_id e"

definition evidence_excerpt_ok :: "excerpt_evidence \<Rightarrow> bool" where
  "evidence_excerpt_ok e \<longleftrightarrow> py_len (ee_baseline_excerpt e) \<le> 192 \<and> py_len (ee_probe_excerpt e) \<le> 192"

definition evidence_fingerprint_ok :: "fingerprint_evidence \<Rightarrow> bool" where
  "evidence_fingerprint_ok e \<longleftrightarrow> fe_algorithm e = ''sha256'' \<and> fe_fingerprint_version e = ''1''
     \<and> digest_shape (fe_baseline_digest e) \<and> digest_shape (fe_probe_digest e)
     \<and> fe_baseline_body_bytes e \<ge> 0 \<and> fe_probe_body_bytes e \<ge> 0"

definition evidence_similarity_ok :: "similarity_evidence \<Rightarrow> bool" where
  "evidence_similarity_ok e \<longleftrightarrow> sv_comparator_id e = ''sha256_exact_and_length_ratio''
     \<and> sv_comparator_version e = ''1''
     \<and> 0 \<le> sv_length_similarity_bps e \<and> sv_length_similarity_bps e \<le> 10000"

definition evidence_retention_ok :: "finding_evidence_retention_policy \<Rightarrow> bool" where
  "evidence_retention_ok p \<longleftrightarrow> rp_policy_id p = ''m13_minimized_finding_evidence''
     \<and> rp_policy_version p = ''1'' \<and> rp_retention_mode p = ''explicit_management_only''
     \<and> \<not> rp_automatic_deletion_enabled p \<and> \<not> rp_raw_response_body_retained p"

record finding_db =
  fd_findings :: "finding list"
  fd_records :: "finding_evidence_record list"
  fd_excerpts :: "finding_evidence_excerpt list"
  fd_fingerprints :: "finding_evidence_fingerprint list"
  fd_similarities :: "finding_evidence_similarity list"
  fd_retention :: "finding_evidence_retention_binding list"

text \<open>
  \<open>DataError\<close> is a violated length or check constraint, \<open>AnalyzerValueError\<close> the \<open>ValueError\<close> that the analyzer lets
  through; both leave the service as they are.
\<close>

datatype finding_error =
  FindingAnalysisNotFound string | FindingAnalysis string | AnalyzerValueError | DataError
| FindingRowMissing

subsection \<open>Evidence rows\<close>

definition evidence_of :: "row_id \<Rightarrow> 'v evidence_row list \<Rightarrow> 'v evidence_row option" where
  "evidence_of parent rows = find (\<lambda>r. ev_parent r = parent) rows"

text \<open>\<open>INSERT ... ON CONFLICT DO NOTHING\<close>, then the stored row, which must have the same values.\<close>

definition persist ::
  "('v \<Rightarrow> bool) \<Rightarrow> string \<Rightarrow> row_id \<Rightarrow> datetime \<Rightarrow> row_id \<Rightarrow> 'v \<Rightarrow> 'v evidence_row list
     \<Rightarrow> finding_error + 'v evidence_row list \<times> 'v evidence_row" where
  "persist ok conflict new_id now parent vals rows =
     (if \<not> ok vals then Inl DataError
      else let rows' = (if evidence_of parent rows = None
                        then rows @ [\<lparr>ev_id = new_id, ev_parent = parent, ev_values = vals, ev_created_at = now\<rparr>]
                        else rows) in
        case evidence_of parent rows' of
          None \<Rightarrow> Inl (FindingAnalysis conflict)
        | Some stored \<Rightarrow> if ev_values stored \<noteq> vals then Inl (FindingAnalysis conflict) else Inr (rows', stored))"

definition persist_structured_evidence where
  "persist_structured_evidence = persist evidence_record_ok ''finding_structured_evidence_conflict''"

definition persist_excerpt where
  "persist_excerpt = persist evidence_excerpt_ok ''finding_evidence_excerpt_conflict''"

definition persist_fingerprint where
  "persist_fingerprint = persist evidence_fingerprint_ok ''finding_evidence_fingerprint_conflict''"

definition persist_similarity where
  "persist_similarity = persist evidence_similarity_ok ''finding_evidence_similarity_conflict''"

definition persist_retention_binding where
  "persist_retention_binding = persist evidence_retention_ok ''finding_evidence_retention_policy_conflict''"

definition validate_fingerprint ::
  "finding_evidence_fingerprint \<Rightarrow> fingerprint_evidence option \<Rightarrow> finding_error + unit" where
  "validate_fingerprint stored fp =
     (if fp = Some (ev_values stored) then Inr ()
      else Inl (FindingAnalysis ''finding_evidence_fingerprint_conflict''))"

definition check_existing_fingerprint ::
  "finding_db \<Rightarrow> row_id \<Rightarrow> fingerprint_evidence option \<Rightarrow> finding_error + unit" where
  "check_existing_fingerprint fd finding_id fp =
     (case evidence_of finding_id (fd_records fd) of
        None \<Rightarrow> Inr ()
      | Some evidence \<Rightarrow>
         (case evidence_of (ev_id evidence) (fd_fingerprints fd) of
            None \<Rightarrow> Inr ()
          | Some stored \<Rightarrow> validate_fingerprint stored fp))"

definition validate_baseline_binding :: "finding \<Rightarrow> row_id \<Rightarrow> finding_error + unit" where
  "validate_baseline_binding f baseline_id =
     (if f_baseline_test_run_id f = Some baseline_id then Inr ()
      else Inl (FindingAnalysis ''finding_evidence_pair_conflict''))"

subsection \<open>The service\<close>

record new_ids =
  ni_finding :: row_id
  ni_record :: row_id
  ni_excerpt :: row_id
  ni_fingerprint :: row_id
  ni_similarity :: row_id
  ni_retention :: row_id

definition bola_finding :: "row_id \<Rightarrow> finding list \<Rightarrow> finding option" where
  "bola_finding rid fs = find (\<lambda>f. f_test_run_id f = rid \<and> f_category f = ''BOLA'') fs"

definition finding_title :: "endpoint \<Rightarrow> string" where
  "finding_title ep = ''Potential BOLA in '' @ ep_method ep @ '' '' @ ep_path ep"

definition finding_description :: string where
  "finding_description = ''Cross-owner access to the target resource returned a successful response containing ''
     @ ''evidence of the target resource. Human review is required.''"

definition result_severity :: "bola_analysis_result \<Rightarrow> string" where
  "result_severity res = (case ar_severity res of Some s \<Rightarrow> if s = [] then ''unknown'' else s | None \<Rightarrow> ''unknown'')"

definition result_confidence :: "bola_analysis_result \<Rightarrow> rat" where
  "result_confidence res = (case ar_confidence res of Some c \<Rightarrow> c | None \<Rightarrow> 0)"

definition new_finding ::
  "new_ids \<Rightarrow> datetime \<Rightarrow> endpoint \<Rightarrow> row_id \<Rightarrow> row_id \<Rightarrow> bola_analysis_result \<Rightarrow> finding" where
  "new_finding ids now ep rid bid res =
     \<lparr>f_id = ni_finding ids, f_target_id = ep_target_id ep, f_endpoint_id = ep_id ep, f_test_run_id = rid,
      f_baseline_test_run_id = Some bid, f_category = ''BOLA'', f_severity = result_severity res,
      f_confidence = result_confidence res, f_status = ''potential'', f_title = finding_title ep,
      f_description = finding_description, f_review_notes = None, f_created_at = now, f_updated_at = now\<rparr>"

text \<open>
  The attributes that are set on a finding that existed; \<open>onupdate\<close> sets its time only when the unit of work
  finds a change.
\<close>

definition update_finding :: "datetime \<Rightarrow> endpoint \<Rightarrow> bola_analysis_result \<Rightarrow> finding \<Rightarrow> finding" where
  "update_finding now ep res f =
     (let f' = f\<lparr>f_severity := result_severity res, f_confidence := result_confidence res,
                 f_title := finding_title ep, f_description := finding_description\<rparr> in
      if f' = f then f else f'\<lparr>f_updated_at := now\<rparr>)"

record evidence_bundle =
  eb_evidence :: structured_evidence
  eb_excerpt :: excerpt_evidence
  eb_fingerprint :: fingerprint_evidence
  eb_similarity :: similarity_evidence

text \<open>The checks of the analysis before anything is written.\<close>

definition evidence_bundle_of :: "row_id \<Rightarrow> row_id \<Rightarrow> bola_analysis_result \<Rightarrow> finding_error + evidence_bundle" where
  "evidence_bundle_of rid bid res =
     (case ar_evidence res of
        None \<Rightarrow> Inl (FindingAnalysis ''finding_structured_evidence_conflict'')
      | Some ev \<Rightarrow>
     (if se_probe_test_run_id ev \<noteq> rid \<or> se_baseline_test_run_id ev \<noteq> bid
      then Inl (FindingAnalysis ''finding_structured_evidence_conflict'')
      else case ar_excerpt_evidence res of
        None \<Rightarrow> Inl (FindingAnalysis ''finding_evidence_excerpt_conflict'')
      | Some ex \<Rightarrow>
     (case ar_fingerprint_evidence res of
        None \<Rightarrow> Inl (FindingAnalysis ''finding_evidence_fingerprint_conflict'')
      | Some fp \<Rightarrow>
     (case ar_similarity_evidence res of
        None \<Rightarrow> Inl (FindingAnalysis ''finding_evidence_similarity_conflict'')
      | Some sv \<Rightarrow>
     (if sv_comparator_id sv \<noteq> ''sha256_exact_and_length_ratio'' \<or> sv_comparator_version sv \<noteq> ''1''
      then Inl (FindingAnalysis ''finding_evidence_similarity_conflict'')
      else Inr \<lparr>eb_evidence = ev, eb_excerpt = ex, eb_fingerprint = fp, eb_similarity = sv\<rparr>)))))"

definition persist_evidence ::
  "new_ids \<Rightarrow> datetime \<Rightarrow> row_id \<Rightarrow> evidence_bundle \<Rightarrow> finding_db \<Rightarrow> finding_error + finding_db" where
  "persist_evidence ids now finding_id eb fd =
     res_bind (persist_structured_evidence (ni_record ids) now finding_id (eb_evidence eb) (fd_records fd)) (\<lambda>(recs, rec).
     res_bind (persist_excerpt (ni_excerpt ids) now (ev_id rec) (eb_excerpt eb) (fd_excerpts fd)) (\<lambda>(exs, _).
     res_bind (persist_fingerprint (ni_fingerprint ids) now (ev_id rec) (eb_fingerprint eb) (fd_fingerprints fd)) (\<lambda>(fps, fp).
     res_bind (persist_similarity (ni_similarity ids) now (ev_id fp) (eb_similarity eb) (fd_similarities fd)) (\<lambda>(svs, _).
     res_bind (persist_retention_binding (ni_retention ids) now (ev_id rec) V1_FINDING_EVIDENCE_RETENTION_POLICY (fd_retention fd)) (\<lambda>(rps, _).
       Inr (fd\<lparr>fd_records := recs, fd_excerpts := exs, fd_fingerprints := fps, fd_similarities := svs, fd_retention := rps\<rparr>))))))"

text \<open>The nested transaction.\<close>

definition save_finding ::
  "new_ids \<Rightarrow> datetime \<Rightarrow> endpoint \<Rightarrow> row_id \<Rightarrow> row_id \<Rightarrow> bola_analysis_result \<Rightarrow> evidence_bundle \<Rightarrow> finding_db
     \<Rightarrow> finding_error + finding_db \<times> finding" where
  "save_finding ids now ep rid bid res eb fd =
     (let new = new_finding ids now ep rid bid res; inserted = (bola_finding rid (fd_findings fd) = None) in
      if \<not> finding_row_ok new then Inl DataError
      else let fs = (if inserted then fd_findings fd @ [new] else fd_findings fd) in
        case bola_finding rid fs of
          None \<Rightarrow> Inl FindingRowMissing
        | Some f \<Rightarrow>
           res_bind (validate_baseline_binding f bid) (\<lambda>_.
           res_bind (persist_evidence ids now (f_id f) eb (fd\<lparr>fd_findings := fs\<rparr>)) (\<lambda>fd'.
             if inserted then Inr (fd', f)
             else let f' = update_finding now ep res f in
               Inr (fd'\<lparr>fd_findings := map (\<lambda>g. if f_id g = f_id f then f' else g) fs\<rparr>, f'))))"

text \<open>The rows of the pair: the run, its case, endpoint, resource and baseline, after all checks.\<close>

record analysis_pair =
  pr_case :: test_case
  pr_run :: test_run
  pr_endpoint :: endpoint
  pr_resource :: resource
  pr_baseline :: test_run

definition load_pair ::
  "store \<Rightarrow> (row_id \<Rightarrow> test_run option) \<Rightarrow> test_case \<Rightarrow> test_run \<Rightarrow> row_id \<Rightarrow> finding_error + analysis_pair" where
  "load_pair db runs tc run bid =
     (case endpoints db (tc_endpoint_id tc) of
        None \<Rightarrow> Inl (FindingAnalysisNotFound ''Endpoint not found.'')
      | Some ep \<Rightarrow>
     (case resources db (tc_resource_id tc) of
        None \<Rightarrow> Inl (FindingAnalysisNotFound ''Resource not found.'')
      | Some r \<Rightarrow>
     (if ep_target_id ep \<noteq> res_target_id r
      then Inl (FindingAnalysis ''Endpoint and resource belong to different targets.'')
      else case runs bid of
        None \<Rightarrow> Inl (FindingAnalysisNotFound ''finding_baseline_test_run_not_found'')
      | Some brun \<Rightarrow>
     (let bcase = test_cases db (run_test_case_id brun) in
      if new_case db bcase then Inl (FindingAnalysis ''intent_w2_execution_closed'')
      else case bcase of
        None \<Rightarrow> Inl (FindingAnalysis ''finding_evidence_pair_invalid'')
      | Some bc \<Rightarrow>
          if run_id brun = run_id run \<or> tc_test_type bc \<noteq> OWNER_BASELINE
             \<or> tc_endpoint_id bc \<noteq> tc_endpoint_id tc \<or> tc_resource_id bc \<noteq> tc_resource_id tc
             \<or> tc_actor_identity_id bc = tc_actor_identity_id tc
          then Inl (FindingAnalysis ''finding_evidence_pair_invalid'')
          else Inr \<lparr>pr_case = tc, pr_run = run, pr_endpoint = ep, pr_resource = r, pr_baseline = brun\<rparr>))))"

definition analyze_pair ::
  "analysis_env \<Rightarrow> new_ids \<Rightarrow> datetime \<Rightarrow> (finding_db \<Rightarrow> finding_db) \<Rightarrow> analysis_pair \<Rightarrow> finding_db
     \<Rightarrow> finding_db \<times> (finding_error + bola_analysis_result \<times> finding option)" where
  "analyze_pair env ids now mid pr fd =
     (let rid = run_id (pr_run pr); bid = run_id (pr_baseline pr);
          existing = bola_finding rid (fd_findings fd) in
      case (case existing of None \<Rightarrow> Inr () | Some f \<Rightarrow> validate_baseline_binding f bid) of
        Inl e \<Rightarrow> (fd, Inl e)
      | Inr _ \<Rightarrow>
     (case analyze_bola_run env (pr_case pr) (pr_run pr) (Some (pr_baseline pr)) (pr_resource pr) of
        Inl _ \<Rightarrow> (fd, Inl AnalyzerValueError)
      | Inr res \<Rightarrow>
     (case (case existing of None \<Rightarrow> Inr ()
              | Some f \<Rightarrow> check_existing_fingerprint fd (f_id f) (ar_fingerprint_evidence res)) of
        Inl e \<Rightarrow> (fd, Inl e)
      | Inr _ \<Rightarrow>
     (if ar_outcome res \<noteq> POTENTIAL_BOLA then (fd, Inr (res, None))
      else case evidence_bundle_of rid bid res of
        Inl e \<Rightarrow> (fd, Inl e)
      | Inr eb \<Rightarrow>
     (case save_finding ids now (pr_endpoint pr) rid bid res eb (mid fd) of
        Inl e \<Rightarrow> (mid fd, Inl e)
      | Inr (fd', f) \<Rightarrow> (fd', Inr (res, Some f)))))))"

definition analyze_test_run ::
  "analysis_env \<Rightarrow> new_ids \<Rightarrow> datetime \<Rightarrow> (finding_db \<Rightarrow> finding_db) \<Rightarrow> store \<Rightarrow> (row_id \<Rightarrow> test_run option)
     \<Rightarrow> row_id \<Rightarrow> row_id \<Rightarrow> finding_db \<Rightarrow> finding_db \<times> (finding_error + bola_analysis_result \<times> finding option)" where
  "analyze_test_run env ids now mid db runs test_run_id baseline_test_run_id fd =
     (case runs test_run_id of
        None \<Rightarrow> (fd, Inl (FindingAnalysisNotFound ''TestRun not found.''))
      | Some run \<Rightarrow>
     (case test_cases db (run_test_case_id run) of
        None \<Rightarrow> (fd, Inl (FindingAnalysisNotFound ''TestCase not found.''))
      | Some tc \<Rightarrow>
     (if new_case db (Some tc) then (fd, Inl (FindingAnalysis ''intent_w2_execution_closed''))
      else if tc_test_type tc \<noteq> BOLA_CROSS_OWNER
      then (fd, Inr (no_finding INCONCLUSIVE ''Only cross-owner BOLA runs are analyzed here.'', None))
      else case load_pair db runs tc run baseline_test_run_id of
        Inl e \<Rightarrow> (fd, Inl e)
      | Inr pr \<Rightarrow> analyze_pair env ids now mid pr fd)))"

subsection \<open>What every evidence table promises\<close>

definition unique_parents :: "'v evidence_row list \<Rightarrow> bool" where
  "unique_parents rows \<longleftrightarrow> distinct (map ev_parent rows)"

lemma evidence_of_append: "evidence_of p (rows @ [r]) = (case evidence_of p rows of Some x \<Rightarrow> Some x
    | None \<Rightarrow> if ev_parent r = p then Some r else None)"
  by (auto simp: evidence_of_def find_append_option split: option.split)

lemma evidence_of_None: "evidence_of p rows = None \<longleftrightarrow> p \<notin> ev_parent ` set rows"
  by (auto simp: evidence_of_def find_None_iff)

locale evidence_table =
  fixes store_row :: "row_id \<Rightarrow> datetime \<Rightarrow> row_id \<Rightarrow> 'v \<Rightarrow> 'v evidence_row list
      \<Rightarrow> finding_error + 'v evidence_row list \<times> 'v evidence_row"
    and row_ok :: "'v \<Rightarrow> bool"
  assumes stored: "store_row i now p v rows = Inr (rows', st) \<Longrightarrow>
      row_ok v \<and> evidence_of p rows' = Some st \<and> ev_values st = v"
    and appends: "store_row i now p v rows = Inr (rows', st) \<Longrightarrow> rows' = rows \<or> (evidence_of p rows = None
      \<and> rows' = rows @ [\<lparr>ev_id = i, ev_parent = p, ev_values = v, ev_created_at = now\<rparr>])"
    and present: "row_ok v \<Longrightarrow> evidence_of p rows = Some st \<Longrightarrow> ev_values st = v \<Longrightarrow>
      store_row i now p v rows = Inr (rows, st)"
    and absent: "row_ok v \<Longrightarrow> evidence_of p rows = None \<Longrightarrow>
      \<exists>rows' st. store_row i now p v rows = Inr (rows', st)"
begin

lemma prefix_kept: "store_row i now p v rows = Inr (rows', st) \<Longrightarrow> prefix rows rows'"
  using appends by fastforce

lemma unique_kept: "store_row i now p v rows = Inr (rows', st) \<Longrightarrow> unique_parents rows \<Longrightarrow> unique_parents rows'"
  using appends[of i now p v rows rows' st] by (auto simp: unique_parents_def evidence_of_None)

lemma idempotent: "store_row i now p v rows = Inr (rows', st) \<Longrightarrow> store_row j now' p v rows' = Inr (rows', st)"
  using stored present by metis

end

lemma persist_table: "evidence_table (persist ok conflict) ok"
proof
  fix i now p rows rows' st and v :: 'a
  show "ok v \<and> evidence_of p rows' = Some st \<and> ev_values st = v" if "persist ok conflict i now p v rows = Inr (rows', st)"
    using that by (auto simp: persist_def Let_def split: if_splits option.splits)
  show "rows' = rows \<or> (evidence_of p rows = None \<and> rows' = rows @ [\<lparr>ev_id = i, ev_parent = p, ev_values = v, ev_created_at = now\<rparr>])"
    if "persist ok conflict i now p v rows = Inr (rows', st)"
    using that by (auto simp: persist_def Let_def split: if_splits option.splits)
qed (auto simp: persist_def evidence_of_append)

interpretation structured: evidence_table persist_structured_evidence evidence_record_ok
  unfolding persist_structured_evidence_def by (rule persist_table)

interpretation excerpts: evidence_table persist_excerpt evidence_excerpt_ok
  unfolding persist_excerpt_def by (rule persist_table)

interpretation fingerprints: evidence_table persist_fingerprint evidence_fingerprint_ok
  unfolding persist_fingerprint_def by (rule persist_table)

interpretation similarities: evidence_table persist_similarity evidence_similarity_ok
  unfolding persist_similarity_def by (rule persist_table)

interpretation retention: evidence_table persist_retention_binding evidence_retention_ok
  unfolding persist_retention_binding_def by (rule persist_table)

lemmas evidence_prefixes = structured.prefix_kept excerpts.prefix_kept fingerprints.prefix_kept
  similarities.prefix_kept retention.prefix_kept

lemmas evidence_uniques = structured.unique_kept excerpts.unique_kept fingerprints.unique_kept
  similarities.unique_kept retention.unique_kept

subsection \<open>The nested transaction\<close>

text \<open>The complete evidence of a finding.\<close>

definition has_evidence :: "finding_db \<Rightarrow> row_id \<Rightarrow> evidence_bundle \<Rightarrow> bool" where
  "has_evidence fd fid eb \<longleftrightarrow> (\<exists>rec ex fp sv rp.
     evidence_of fid (fd_records fd) = Some rec \<and> ev_values rec = eb_evidence eb
     \<and> evidence_of (ev_id rec) (fd_excerpts fd) = Some ex \<and> ev_values ex = eb_excerpt eb
     \<and> evidence_of (ev_id rec) (fd_fingerprints fd) = Some fp \<and> ev_values fp = eb_fingerprint eb
     \<and> evidence_of (ev_id fp) (fd_similarities fd) = Some sv \<and> ev_values sv = eb_similarity eb
     \<and> evidence_of (ev_id rec) (fd_retention fd) = Some rp \<and> ev_values rp = V1_FINDING_EVIDENCE_RETENTION_POLICY)"

definition bundle_ok :: "evidence_bundle \<Rightarrow> bool" where
  "bundle_ok eb \<longleftrightarrow> evidence_record_ok (eb_evidence eb) \<and> evidence_excerpt_ok (eb_excerpt eb)
     \<and> evidence_fingerprint_ok (eb_fingerprint eb) \<and> evidence_similarity_ok (eb_similarity eb)"

definition evidence_grows :: "finding_db \<Rightarrow> finding_db \<Rightarrow> bool" where
  "evidence_grows fd fd' \<longleftrightarrow> prefix (fd_records fd) (fd_records fd') \<and> prefix (fd_excerpts fd) (fd_excerpts fd')
     \<and> prefix (fd_fingerprints fd) (fd_fingerprints fd') \<and> prefix (fd_similarities fd) (fd_similarities fd')
     \<and> prefix (fd_retention fd) (fd_retention fd')"

definition evidence_unique :: "finding_db \<Rightarrow> bool" where
  "evidence_unique fd \<longleftrightarrow> unique_parents (fd_records fd) \<and> unique_parents (fd_excerpts fd)
     \<and> unique_parents (fd_fingerprints fd) \<and> unique_parents (fd_similarities fd) \<and> unique_parents (fd_retention fd)"

lemma persist_evidence_ok:
  assumes "persist_evidence ids now fid eb fd = Inr fd'"
  shows "has_evidence fd' fid eb" "bundle_ok eb" "evidence_grows fd fd'" "fd_findings fd' = fd_findings fd"
    and "evidence_unique fd \<Longrightarrow> evidence_unique fd'"
proof -
  from assms obtain recs rec exs ex fps fp svs sv rps rp where
    s: "persist_structured_evidence (ni_record ids) now fid (eb_evidence eb) (fd_records fd) = Inr (recs, rec)"
       "persist_excerpt (ni_excerpt ids) now (ev_id rec) (eb_excerpt eb) (fd_excerpts fd) = Inr (exs, ex)"
       "persist_fingerprint (ni_fingerprint ids) now (ev_id rec) (eb_fingerprint eb) (fd_fingerprints fd) = Inr (fps, fp)"
       "persist_similarity (ni_similarity ids) now (ev_id fp) (eb_similarity eb) (fd_similarities fd) = Inr (svs, sv)"
       "persist_retention_binding (ni_retention ids) now (ev_id rec) V1_FINDING_EVIDENCE_RETENTION_POLICY (fd_retention fd) = Inr (rps, rp)"
    and fd': "fd' = fd\<lparr>fd_records := recs, fd_excerpts := exs, fd_fingerprints := fps, fd_similarities := svs, fd_retention := rps\<rparr>"
    unfolding persist_evidence_def res_bind_eq_Inr by (auto simp: res_bind_eq_Inr split_beta)
  note st = structured.stored[OF s(1)] excerpts.stored[OF s(2)] fingerprints.stored[OF s(3)] similarities.stored[OF s(4)]
    retention.stored[OF s(5)]
  show "has_evidence fd' fid eb" "bundle_ok eb" using st by (auto simp: has_evidence_def bundle_ok_def fd')
  show "evidence_grows fd fd'" "fd_findings fd' = fd_findings fd"
    using evidence_prefixes(1)[OF s(1)] evidence_prefixes(2)[OF s(2)] evidence_prefixes(3)[OF s(3)]
      evidence_prefixes(4)[OF s(4)] evidence_prefixes(5)[OF s(5)] by (auto simp: evidence_grows_def fd')
  show "evidence_unique fd'" if "evidence_unique fd"
    using that evidence_uniques(1)[OF s(1)] evidence_uniques(2)[OF s(2)] evidence_uniques(3)[OF s(3)]
      evidence_uniques(4)[OF s(4)] evidence_uniques(5)[OF s(5)] by (auto simp: evidence_unique_def fd')
qed

lemma persist_evidence_again:
  assumes "has_evidence fd fid eb" "bundle_ok eb"
  shows "persist_evidence ids now fid eb fd = Inr fd"
proof -
  obtain rec ex fp sv rp where
    e: "evidence_of fid (fd_records fd) = Some rec" "ev_values rec = eb_evidence eb"
      "evidence_of (ev_id rec) (fd_excerpts fd) = Some ex" "ev_values ex = eb_excerpt eb"
      "evidence_of (ev_id rec) (fd_fingerprints fd) = Some fp" "ev_values fp = eb_fingerprint eb"
      "evidence_of (ev_id fp) (fd_similarities fd) = Some sv" "ev_values sv = eb_similarity eb"
      "evidence_of (ev_id rec) (fd_retention fd) = Some rp" "ev_values rp = V1_FINDING_EVIDENCE_RETENTION_POLICY"
    using assms(1) unfolding has_evidence_def by metis
  have "evidence_retention_ok V1_FINDING_EVIDENCE_RETENTION_POLICY"
    by (simp add: evidence_retention_ok_def V1_FINDING_EVIDENCE_RETENTION_POLICY_def)
  with assms(2) show ?thesis unfolding bundle_ok_def persist_evidence_def
    using structured.present[OF _ e(1,2)] excerpts.present[OF _ e(3,4)] fingerprints.present[OF _ e(5,6)]
      similarities.present[OF _ e(7,8)] retention.present[OF _ e(9,10)] by (simp add: res_bind_def)
qed

text \<open>The unique constraints of all six tables.\<close>

definition fd_wf :: "finding_db \<Rightarrow> bool" where
  "fd_wf fd \<longleftrightarrow> distinct (map f_id (fd_findings fd))
     \<and> distinct (map (\<lambda>f. (f_test_run_id f, f_category f)) (fd_findings fd)) \<and> evidence_unique fd"

text \<open>What no analysis changes of a finding.\<close>

definition same_finding :: "finding \<Rightarrow> finding \<Rightarrow> bool" where
  "same_finding g g' \<longleftrightarrow> f_id g' = f_id g \<and> f_target_id g' = f_target_id g \<and> f_endpoint_id g' = f_endpoint_id g
     \<and> f_test_run_id g' = f_test_run_id g \<and> f_baseline_test_run_id g' = f_baseline_test_run_id g
     \<and> f_category g' = f_category g \<and> f_status g' = f_status g \<and> f_review_notes g' = f_review_notes g
     \<and> f_created_at g' = f_created_at g"

definition findings_kept :: "finding_db \<Rightarrow> finding_db \<Rightarrow> bool" where
  "findings_kept fd fd' \<longleftrightarrow> (\<exists>new. length new \<le> 1 \<and> list_all2 same_finding (fd_findings fd @ new) (fd_findings fd'))"

lemma same_finding_refl [simp]: "same_finding g g"
  by (simp add: same_finding_def)

lemma update_finding_same: "same_finding f (update_finding now ep res f)"
  by (simp add: same_finding_def update_finding_def Let_def)

lemma update_finding_idem: "update_finding now' ep res (update_finding now ep res f) = update_finding now ep res f"
  by (simp add: update_finding_def Let_def)

lemma update_new_finding: "update_finding now' ep res (new_finding ids now ep rid bid res) = new_finding ids now ep rid bid res"
  by (simp add: update_finding_def new_finding_def Let_def)

lemma bola_finding_Some:
  "bola_finding rid fs = Some f \<Longrightarrow> f \<in> set fs \<and> f_test_run_id f = rid \<and> f_category f = ''BOLA''"
  by (auto simp: bola_finding_def find_Some_iff)

lemma bola_finding_new:
  "bola_finding rid fs = None \<Longrightarrow> bola_finding rid (fs @ [new_finding ids now ep rid bid res]) = Some (new_finding ids now ep rid bid res)"
  by (simp add: bola_finding_def find_append_option new_finding_def)

lemma bola_finding_map:
  assumes "bola_finding rid fs = Some f" "same_finding f f'" "distinct (map f_id fs)"
  shows "bola_finding rid (map (\<lambda>g. if f_id g = f_id f then f' else g) fs) = Some f'"
  using assms
proof (induction fs)
  case (Cons g fs)
  have "f_test_run_id f = rid" "f_category f = ''BOLA''" "f \<in> set (g # fs)" using bola_finding_Some[OF Cons.prems(1)] by auto
  then show ?case using Cons by (auto simp: bola_finding_def same_finding_def split: if_splits)
qed (simp add: bola_finding_def)

lemma map_update_same:
  assumes "same_finding f f'" "f \<in> set fs" "distinct (map f_id fs)"
  shows "list_all2 same_finding fs (map (\<lambda>g. if f_id g = f_id f then f' else g) fs)"
proof -
  have "g = f" if "g \<in> set fs" "f_id g = f_id f" for g using assms(2,3) that by (auto simp: distinct_map dest: inj_onD)
  then show ?thesis using assms(1) by (auto simp: list_all2_map2 list_all2_same)
qed

lemma list_all2_same_ids:
  assumes "list_all2 same_finding fs fs'"
  shows "map f_id fs' = map f_id fs" "map (\<lambda>f. (f_test_run_id f, f_category f)) fs' = map (\<lambda>f. (f_test_run_id f, f_category f)) fs"
  using assms by (induction rule: list_all2_induct) (auto simp: same_finding_def)

lemma save_finding_cases:
  assumes "save_finding ids now ep rid bid res eb fd = Inr (fd', f)"
  obtains (inserted) "bola_finding rid (fd_findings fd) = None" "f = new_finding ids now ep rid bid res"
      "py_len (finding_title ep) \<le> 255"
      "persist_evidence ids now (f_id f) eb (fd\<lparr>fd_findings := fd_findings fd @ [f]\<rparr>) = Inr fd'"
  | (existing) g fd1 where "bola_finding rid (fd_findings fd) = Some g" "f_baseline_test_run_id g = Some bid"
      "py_len (finding_title ep) \<le> 255" "persist_evidence ids now (f_id g) eb fd = Inr fd1"
      "f = update_finding now ep res g"
      "fd' = fd1\<lparr>fd_findings := map (\<lambda>h. if f_id h = f_id g then f else h) (fd_findings fd)\<rparr>"
proof -
  have t: "py_len (finding_title ep) \<le> 255"
    using assms by (auto simp: save_finding_def Let_def finding_row_ok_def new_finding_def split: if_splits)
  show ?thesis
  proof (cases "bola_finding rid (fd_findings fd)")
    case None
    then show ?thesis using assms t bola_finding_new[OF None] inserted
      by (auto simp: save_finding_def Let_def res_bind_eq_Inr split: if_splits)
  next
    case (Some g)
    then show ?thesis using assms t existing
      by (auto simp: save_finding_def Let_def res_bind_eq_Inr validate_baseline_binding_def split: if_splits)
  qed
qed

lemma save_finding_ok:
  assumes "save_finding ids now ep rid bid res eb fd = Inr (fd', f)" "fd_wf fd"
    and "ni_finding ids \<notin> f_id ` set (fd_findings fd)"
  shows "bola_finding rid (fd_findings fd') = Some f" "f_baseline_test_run_id f = Some bid"
    "has_evidence fd' (f_id f) eb" "bundle_ok eb" "evidence_grows fd fd'" "fd_wf fd'" "findings_kept fd fd'"
    "py_len (finding_title ep) \<le> 255" "update_finding now' ep res f = f"
proof -
  have "bola_finding rid (fd_findings fd') = Some f \<and> f_baseline_test_run_id f = Some bid \<and> has_evidence fd' (f_id f) eb
    \<and> bundle_ok eb \<and> evidence_grows fd fd' \<and> fd_wf fd' \<and> findings_kept fd fd' \<and> py_len (finding_title ep) \<le> 255
    \<and> update_finding now' ep res f = f"
    using assms(1)
  proof (cases rule: save_finding_cases)
    case inserted
    note p = persist_evidence_ok[OF inserted(4)]
    have b: "bola_finding rid (fd_findings fd') = Some f" using p(4) bola_finding_new[OF inserted(1)] inserted(2) by simp
    have "(f_test_run_id f, f_category f) \<notin> (\<lambda>f. (f_test_run_id f, f_category f)) ` set (fd_findings fd)"
      using inserted(1,2) by (auto simp: bola_finding_def find_None_iff new_finding_def)
    moreover have "f_id f \<notin> f_id ` set (fd_findings fd)" using assms(3) inserted(2) by (simp add: new_finding_def)
    moreover have "evidence_unique fd'" using p(5) assms(2) by (simp add: fd_wf_def evidence_unique_def)
    ultimately have "fd_wf fd'" using assms(2) p(4) by (simp add: fd_wf_def)
    moreover have "findings_kept fd fd'" unfolding findings_kept_def
      by (rule exI[of _ "[f]"]) (simp add: p(4) list_all2_same)
    moreover have "f_baseline_test_run_id f = Some bid" by (simp add: inserted(2) new_finding_def)
    ultimately show ?thesis
      using b p(1,2,3) inserted(2,3) update_new_finding by (simp add: evidence_grows_def)
  next
    case (existing g fd1)
    note p = persist_evidence_ok[OF existing(4)]
    have same: "same_finding g f" using existing(5) update_finding_same by simp
    have d: "distinct (map f_id (fd_findings fd))" using assms(2) by (simp add: fd_wf_def)
    have all: "list_all2 same_finding (fd_findings fd) (fd_findings fd')"
      using map_update_same[OF same _ d] bola_finding_Some[OF existing(1)] existing(6) by simp
    have "evidence_unique fd'" using p(5) assms(2) existing(6) by (simp add: fd_wf_def evidence_unique_def)
    then have "fd_wf fd'" using assms(2) list_all2_same_ids[OF all] unfolding fd_wf_def by simp
    moreover have "bola_finding rid (fd_findings fd') = Some f" using bola_finding_map[OF existing(1) same d] existing(6) by simp
    moreover have "findings_kept fd fd'" unfolding findings_kept_def using all by (intro exI[of _ "[]"]) simp
    moreover have "has_evidence fd' (f_id f) eb" "evidence_grows fd fd'"
      using p(1,3) same existing(6) by (simp_all add: has_evidence_def evidence_grows_def same_finding_def)
    ultimately show ?thesis
      using p(2) existing(2,3,5) same update_finding_idem by (simp add: same_finding_def)
  qed
  then show "bola_finding rid (fd_findings fd') = Some f" "f_baseline_test_run_id f = Some bid"
    "has_evidence fd' (f_id f) eb" "bundle_ok eb" "evidence_grows fd fd'" "fd_wf fd'" "findings_kept fd fd'"
    "py_len (finding_title ep) \<le> 255" "update_finding now' ep res f = f" by blast+
qed

lemma save_finding_again:
  assumes "bola_finding rid (fd_findings fd) = Some f" "f_baseline_test_run_id f = Some bid"
    "has_evidence fd (f_id f) eb" "bundle_ok eb" "fd_wf fd" "py_len (finding_title ep) \<le> 255"
    "update_finding now ep res f = f"
  shows "save_finding ids now ep rid bid res eb fd = Inr (fd, f)"
proof -
  have "map (\<lambda>g. if f_id g = f_id f then f else g) (fd_findings fd) = fd_findings fd"
    using bola_finding_Some[OF assms(1)] assms(5) by (intro map_idI) (auto simp: fd_wf_def distinct_map dest: inj_onD)
  moreover have "finding_row_ok (new_finding ids now ep rid bid res)"
    using assms(6) by (simp add: finding_row_ok_def new_finding_def)
  ultimately show ?thesis
    using assms(1,2,7) persist_evidence_again[OF assms(3,4)]
    by (simp add: save_finding_def Let_def res_bind_def validate_baseline_binding_def)
qed

subsection \<open>Properties\<close>

text \<open>Rows are found under their own key.\<close>

definition run_keys :: "(row_id \<Rightarrow> test_run option) \<Rightarrow> bool" where
  "run_keys runs \<longleftrightarrow> (\<forall>i r. runs i = Some r \<longrightarrow> run_id r = i)"

lemma load_pair_ok:
  assumes "load_pair db runs tc run bid = Inr pr"
  shows "pr_case pr = tc" "pr_run pr = run" "runs bid = Some (pr_baseline pr)"
  using assms by (auto simp: load_pair_def Let_def split: option.splits if_splits)

lemma evidence_bundle_ok:
  assumes "evidence_bundle_of rid bid res = Inr eb"
  shows "ar_evidence res = Some (eb_evidence eb)" "ar_excerpt_evidence res = Some (eb_excerpt eb)"
    "ar_fingerprint_evidence res = Some (eb_fingerprint eb)" "ar_similarity_evidence res = Some (eb_similarity eb)"
  using assms by (auto simp: evidence_bundle_of_def split: option.splits if_splits)

text \<open>The path of the service to a stored finding.\<close>

lemma analyze_saved:
  assumes "analyze_test_run env ids now mid db runs rid bid fd = (fd', Inr (res, Some f))" "run_keys runs"
  obtains run tc pr eb where "runs rid = Some run" "test_cases db (run_test_case_id run) = Some tc" "\<not> new_case db (Some tc)"
    "tc_test_type tc = BOLA_CROSS_OWNER" "load_pair db runs tc run bid = Inr pr"
    "run_id (pr_run pr) = rid" "run_id (pr_baseline pr) = bid"
    "analyze_bola_run env (pr_case pr) (pr_run pr) (Some (pr_baseline pr)) (pr_resource pr) = Inr res"
    "ar_outcome res = POTENTIAL_BOLA" "evidence_bundle_of rid bid res = Inr eb"
    "save_finding ids now (pr_endpoint pr) rid bid res eb (mid fd) = Inr (fd', f)"
proof -
  from assms(1) obtain run tc pr where
    r: "runs rid = Some run" "test_cases db (run_test_case_id run) = Some tc" "\<not> new_case db (Some tc)"
      "tc_test_type tc = BOLA_CROSS_OWNER" "load_pair db runs tc run bid = Inr pr"
    and a: "analyze_pair env ids now mid pr fd = (fd', Inr (res, Some f))"
    by (auto simp: analyze_test_run_def split: option.splits if_splits sum.splits)
  have k: "run_id (pr_run pr) = rid" "run_id (pr_baseline pr) = bid"
    using load_pair_ok[OF r(5)] r(1) assms(2) by (auto simp: run_keys_def)
  from a obtain eb where
    "analyze_bola_run env (pr_case pr) (pr_run pr) (Some (pr_baseline pr)) (pr_resource pr) = Inr res"
    "ar_outcome res = POTENTIAL_BOLA" "evidence_bundle_of rid bid res = Inr eb"
    "save_finding ids now (pr_endpoint pr) rid bid res eb (mid fd) = Inr (fd', f)"
    unfolding analyze_pair_def Let_def k by (auto split: sum.splits prod.splits if_splits)
  with r k that show ?thesis by metis
qed

text \<open>
  C26. A recorded finding is complete and nothing recorded before is lost: when the service returns
  a finding, the analysis of the pair was a potential BOLA, the tables hold this finding as the one of its run,
  bound to the baseline, with exactly the evidence, excerpts, fingerprint, similarity and retention
  policy of the analysis; every evidence row that was there is still there unchanged, every earlier
  finding keeps its identity, provenance, status and review notes, and the unique constraints hold.
\<close>

theorem finding_recorded:
  assumes "analyze_test_run env ids now mid db runs rid bid fd = (fd', Inr (res, Some f))" "run_keys runs"
    and "fd_wf (mid fd)" "ni_finding ids \<notin> f_id ` set (fd_findings (mid fd))"
  shows "ar_outcome res = POTENTIAL_BOLA \<and> bola_finding rid (fd_findings fd') = Some f \<and> f_baseline_test_run_id f = Some bid
    \<and> (\<exists>eb. ar_evidence res = Some (eb_evidence eb) \<and> ar_excerpt_evidence res = Some (eb_excerpt eb)
         \<and> ar_fingerprint_evidence res = Some (eb_fingerprint eb) \<and> ar_similarity_evidence res = Some (eb_similarity eb)
         \<and> has_evidence fd' (f_id f) eb)
    \<and> evidence_grows (mid fd) fd' \<and> findings_kept (mid fd) fd' \<and> fd_wf fd'"
  using analyze_saved[OF assms(1,2)] save_finding_ok[OF _ assms(3,4)] evidence_bundle_ok by metis

text \<open>
  Analysing again changes nothing: after a run was analysed and its finding stored, a second analysis of the
  same pair, at any time, returns the same result and the same finding and leaves every table as it is.
\<close>

theorem finding_reanalysis_stable:
  assumes "analyze_test_run env ids now mid db runs rid bid fd = (fd', Inr (res, Some f))" "run_keys runs"
    and "fd_wf (mid fd)" "ni_finding ids \<notin> f_id ` set (fd_findings (mid fd))"
  shows "analyze_test_run env ids' now' (\<lambda>x. x) db runs rid bid fd' = (fd', Inr (res, Some f))"
proof -
  from analyze_saved[OF assms(1,2)] obtain run tc pr eb where
    r: "runs rid = Some run" "test_cases db (run_test_case_id run) = Some tc" "\<not> new_case db (Some tc)"
      "tc_test_type tc = BOLA_CROSS_OWNER" "load_pair db runs tc run bid = Inr pr"
    and k: "run_id (pr_run pr) = rid" "run_id (pr_baseline pr) = bid"
    and a: "analyze_bola_run env (pr_case pr) (pr_run pr) (Some (pr_baseline pr)) (pr_resource pr) = Inr res"
      "ar_outcome res = POTENTIAL_BOLA" and eb: "evidence_bundle_of rid bid res = Inr eb"
    and s: "save_finding ids now (pr_endpoint pr) rid bid res eb (mid fd) = Inr (fd', f)" by metis
  note ok = save_finding_ok[OF s assms(3,4)]
  have "check_existing_fingerprint fd' (f_id f) (ar_fingerprint_evidence res) = Inr ()"
    using ok(3) evidence_bundle_ok(3)[OF eb] by (auto simp: has_evidence_def check_existing_fingerprint_def validate_fingerprint_def)
  moreover have "validate_baseline_binding f bid = Inr ()" using ok(2) by (simp add: validate_baseline_binding_def)
  moreover have "save_finding ids' now' (pr_endpoint pr) rid bid res eb fd' = Inr (fd', f)"
    using save_finding_again[OF ok(1-4,6,8)] ok(9) by simp
  ultimately have "analyze_pair env ids' now' (\<lambda>x. x) pr fd' = (fd', Inr (res, Some f))"
    using ok(1) a eb k by (simp add: analyze_pair_def Let_def)
  then show ?thesis using r by (simp add: analyze_test_run_def)
qed

text \<open>
  A changed body is noticed: if a finding of the run has a stored fingerprint that differs from the
  fingerprint of the bodies now stored for the pair, the analysis fails and changes nothing,
  whatever the bodies now say.
\<close>

theorem changed_body_detected:
  assumes "run_keys runs" "runs rid = Some run" "runs bid = Some base"
    and "test_cases db (run_test_case_id run) = Some tc" "tc_test_type tc = BOLA_CROSS_OWNER"
    and "bola_finding rid (fd_findings fd) = Some f" "evidence_of (f_id f) (fd_records fd) = Some rec"
    and "evidence_of (ev_id rec) (fd_fingerprints fd) = Some fp"
    and "ev_values fp \<noteq> fingerprint_response_pair env (run_response_body base) (run_response_body run)"
  shows "\<exists>e. analyze_test_run env ids now mid db runs rid bid fd = (fd, Inl e)"
proof (cases "load_pair db runs tc run bid")
  case (Inl e)
  then show ?thesis using assms(2,4,5) by (auto simp: analyze_test_run_def)
next
  case (Inr pr)
  note l = load_pair_ok[OF Inr]
  have k: "run_id (pr_run pr) = rid" "pr_baseline pr = base" "pr_run pr = run"
    using l assms(1-3) by (auto simp: run_keys_def)
  have "ar_fingerprint_evidence res = Some (fingerprint_response_pair env (run_response_body base) (run_response_body run))"
    if "analyze_bola_run env (pr_case pr) run (Some base) (pr_resource pr) = Inr res" for res
    using that by (auto simp: analyze_bola_run_def Let_def split: sum.splits)
  then have "\<exists>e. analyze_pair env ids now mid pr fd = (fd, Inl e)"
    using assms(6-9) k
    by (auto simp: analyze_pair_def Let_def check_existing_fingerprint_def validate_fingerprint_def split: sum.split)
  then show ?thesis using assms(2,4,5) Inr by (auto simp: analyze_test_run_def)
qed

text \<open>
  A finding whose title exceeds the column is never stored: the potential BOLA is found and the
  service fails with the error of the database.
\<close>

lemma long_title_not_recorded:
  assumes "py_len (finding_title ep) > 255"
  shows "save_finding ids now ep rid bid res eb fd = Inl DataError"
  using assms by (simp add: save_finding_def Let_def finding_row_ok_def new_finding_def)

definition analysis_store :: store where
  "analysis_store = planning_store\<lparr>test_cases := [11 \<mapsto> lab_case,
     10 \<mapsto> lab_case\<lparr>tc_id := 10, tc_actor_identity_id := 4, tc_test_type := OWNER_BASELINE\<rparr>]\<rparr>"

definition lab_runs :: "row_id \<Rightarrow> test_run option" where
  "lab_runs = [20 \<mapsto> lab_run_of 20 11 lab_other_body, 21 \<mapsto> lab_run_of 21 10 lab_owner_body]"

definition no_findings :: finding_db where
  "no_findings = \<lparr>fd_findings = [], fd_records = [], fd_excerpts = [], fd_fingerprints = [], fd_similarities = [], fd_retention = []\<rparr>"

definition lab_ids :: new_ids where
  "lab_ids = \<lparr>ni_finding = 1, ni_record = 1, ni_excerpt = 1, ni_fingerprint = 1, ni_similarity = 1, ni_retention = 1\<rparr>"

lemma lab_analysis:
  obtains fd' res f where
    "analyze_test_run lab_analysis_env lab_ids 0 (\<lambda>x. x) analysis_store lab_runs 20 21 no_findings = (fd', Inr (res, Some f))"
    "run_keys lab_runs" "fd_wf no_findings" "ni_finding lab_ids \<notin> f_id ` set (fd_findings no_findings)"
proof -
  let ?a = "analyze_test_run lab_analysis_env lab_ids 0 (\<lambda>x. x) analysis_store lab_runs 20 21 no_findings"
  have "(case ?a of (_, Inr (_, Some _)) \<Rightarrow> True | _ \<Rightarrow> False)" by code_simp
  then obtain fd' res f where "?a = (fd', Inr (res, Some f))" by (auto split: prod.splits sum.splits option.splits)
  moreover have "run_keys lab_runs" by (auto simp: run_keys_def lab_runs_def lab_run_of_def split: if_splits)
  moreover have "fd_wf no_findings" by (simp add: fd_wf_def no_findings_def evidence_unique_def unique_parents_def)
  ultimately show ?thesis using that by (simp add: no_findings_def)
qed

theorem finding_recorded_witness:
  "\<exists>fd' res f eb. analyze_test_run lab_analysis_env lab_ids 0 (\<lambda>x. x) analysis_store lab_runs 20 21 no_findings
       = (fd', Inr (res, Some f)) \<and> has_evidence fd' (f_id f) eb"
proof -
  obtain fd' res f where a: "analyze_test_run lab_analysis_env lab_ids 0 (\<lambda>x. x) analysis_store lab_runs 20 21 no_findings
      = (fd', Inr (res, Some f))" "run_keys lab_runs" "fd_wf no_findings"
      "ni_finding lab_ids \<notin> f_id ` set (fd_findings no_findings)" by (rule lab_analysis)
  from finding_recorded[OF a] a(1) show ?thesis by blast
qed

theorem finding_reanalysis_stable_witness:
  "\<exists>fd' res f. analyze_test_run lab_analysis_env lab_ids 5 (\<lambda>x. x) analysis_store lab_runs 20 21 fd' = (fd', Inr (res, Some f))"
proof -
  obtain fd' res f where a: "analyze_test_run lab_analysis_env lab_ids 0 (\<lambda>x. x) analysis_store lab_runs 20 21 no_findings
      = (fd', Inr (res, Some f))" "run_keys lab_runs" "fd_wf no_findings"
      "ni_finding lab_ids \<notin> f_id ` set (fd_findings no_findings)" by (rule lab_analysis)
  from finding_reanalysis_stable[OF a, of lab_ids 5] show ?thesis by blast
qed

text \<open>The tables after the analysis above, and the same pair with a changed body.\<close>

definition lab_findings :: finding_db where
  "lab_findings = fst (analyze_test_run lab_analysis_env lab_ids 0 (\<lambda>x. x) analysis_store lab_runs 20 21 no_findings)"

definition changed_runs :: "row_id \<Rightarrow> test_run option" where
  "changed_runs = [20 \<mapsto> lab_run_of 20 11 ''null'', 21 \<mapsto> lab_run_of 21 10 lab_owner_body]"

theorem changed_body_detected_witness:
  "\<exists>e. analyze_test_run lab_analysis_env lab_ids 5 (\<lambda>x. x) analysis_store changed_runs 20 21 lab_findings = (lab_findings, Inl e)"
proof -
  have "(case bola_finding 20 (fd_findings lab_findings) of None \<Rightarrow> False | Some f \<Rightarrow>
      (case evidence_of (f_id f) (fd_records lab_findings) of None \<Rightarrow> False | Some rec \<Rightarrow>
      (case evidence_of (ev_id rec) (fd_fingerprints lab_findings) of None \<Rightarrow> False | Some fp \<Rightarrow>
         fe_probe_body_bytes (ev_values fp) \<noteq> 4)))" by code_simp
  then obtain f rec fp where f: "bola_finding 20 (fd_findings lab_findings) = Some f"
    "evidence_of (f_id f) (fd_records lab_findings) = Some rec"
    "evidence_of (ev_id rec) (fd_fingerprints lab_findings) = Some fp" "fe_probe_body_bytes (ev_values fp) \<noteq> 4"
    by (auto split: option.splits)
  have k: "run_keys changed_runs" by (auto simp: run_keys_def changed_runs_def lab_run_of_def split: if_splits)
  have r: "changed_runs 20 = Some (lab_run_of 20 11 ''null'')" "changed_runs 21 = Some (lab_run_of 21 10 lab_owner_body)"
    "test_cases analysis_store (run_test_case_id (lab_run_of 20 11 ''null'')) = Some lab_case"
    "tc_test_type lab_case = BOLA_CROSS_OWNER"
    by (simp_all add: changed_runs_def lab_run_of_def analysis_store_def lab_case_def)
  have n: "ev_values fp \<noteq> fingerprint_response_pair lab_analysis_env
      (run_response_body (lab_run_of 21 10 lab_owner_body)) (run_response_body (lab_run_of 20 11 ''null''))"
    using f(4) by (auto simp: fingerprint_response_pair_def lab_run_of_def Let_def)
  show ?thesis by (rule changed_body_detected[OF k r f(1-3) n])
qed

end
