(* ===== verification/Bola_Matrix.thy ===== *)
theory Bola_Matrix
  imports Bola
begin

text \<open>
  Offline planning of BOLA tests from explicit access facts: the resolution of verified assertions
  (\<open>services/resource_access_resolution.py\<close>), the pure matrix (\<open>generators/bola_matrix.py\<close>), the selection of a reviewed
  parameter position (\<open>services/bola_binding_selection.py\<close>) and the two previews that compose them
  (\<open>bola_matrix_preview.py\<close>, \<open>bola_binding_matrix_preview.py\<close>). Everything here only reads. Arguments have the
  types that the code declares, so its checks for values of other types do not arise.
\<close>

subsection \<open>Assertions and their resolution\<close>

record resource_access_assertion =
  raa_id :: row_id
  raa_resource_id :: row_id
  raa_test_identity_id :: row_id
  raa_relationship :: string
  raa_expected_access :: string
  raa_provenance :: string
  raa_confidence :: int
  raa_verification_state :: string
  raa_asserted_at :: datetime
  raa_observed_at :: "datetime option"
  raa_valid_from :: "datetime option"
  raa_valid_until :: "datetime option"
  raa_source_test_run_id :: "row_id option"
  raa_reviewed_assertion_id :: "row_id option"

text \<open>The check constraints of the table.\<close>

definition assertion_row_ok :: "resource_access_assertion \<Rightarrow> bool" where
  "assertion_row_ok a \<longleftrightarrow>
     raa_relationship a \<in> {''owner'', ''shared'', ''non_owner'', ''unspecified''}
     \<and> raa_expected_access a \<in> {''allowed'', ''denied'', ''unspecified''}
     \<and> (raa_relationship a \<noteq> ''unspecified'' \<or> raa_expected_access a \<noteq> ''unspecified'')
     \<and> raa_provenance a \<in> {''human_verified'', ''target_fixture'', ''observed_baseline'', ''inferred_candidate''}
     \<and> 0 \<le> raa_confidence a \<and> raa_confidence a \<le> 100
     \<and> raa_verification_state a \<in> {''candidate'', ''verified'', ''rejected''}
     \<and> (case raa_valid_until a of None \<Rightarrow> True
          | Some u \<Rightarrow> (case raa_valid_from a of None \<Rightarrow> False | Some f \<Rightarrow> u > f))
     \<and> (raa_provenance a = ''observed_baseline'' \<longrightarrow> raa_source_test_run_id a \<noteq> None)
     \<and> (raa_reviewed_assertion_id a \<noteq> None \<longrightarrow>
          raa_reviewed_assertion_id a \<noteq> Some (raa_id a) \<and> raa_provenance a = ''human_verified''
          \<and> raa_verification_state a \<in> {''verified'', ''rejected''} \<and> raa_source_test_run_id a = None)"

text \<open>A \<open>datetime\<close>: the instant, and whether it has an offset.\<close>

record py_time =
  pt_instant :: datetime
  pt_aware :: bool

record resource_access_resolution =
  rar_resource_id :: row_id
  rar_test_identity_id :: row_id
  rar_evaluation_time :: py_time
  rar_state :: string
  rar_relationship :: string
  rar_expected_access :: string
  rar_supporting_assertion_ids :: "row_id list"

datatype matrix_error =
  MatrixPlanning string | MatrixPreview string | AccessResolution string int | BindingSelection string
| BindingMatrix string

definition MAX_ASSERTIONS_SCANNED :: nat where
  "MAX_ASSERTIONS_SCANNED = 256"

text \<open>The condition of the query.\<close>

definition eligible :: "row_id \<Rightarrow> row_id \<Rightarrow> datetime \<Rightarrow> resource_access_assertion \<Rightarrow> bool" where
  "eligible rid iid t a \<longleftrightarrow>
     raa_resource_id a = rid \<and> raa_test_identity_id a = iid \<and> raa_verification_state a = ''verified''
     \<and> raa_asserted_at a \<le> t
     \<and> (case raa_valid_from a of None \<Rightarrow> True | Some f \<Rightarrow> f \<le> t)
     \<and> (case raa_valid_until a of None \<Rightarrow> True | Some u \<Rightarrow> u > t)"

definition specified :: "string list \<Rightarrow> string list" where
  "specified vs = remdups (filter (\<lambda>v. v \<noteq> ''unspecified'') vs)"

definition single_value :: "string list \<Rightarrow> string" where
  "single_value vs = (case vs of [v] \<Rightarrow> v | _ \<Rightarrow> ''unspecified'')"

definition resolution_of ::
  "row_id \<Rightarrow> row_id \<Rightarrow> py_time \<Rightarrow> resource_access_assertion list \<Rightarrow> resource_access_resolution" where
  "resolution_of rid iid t assertions =
     (let relationship_values = specified (map raa_relationship assertions);
          access_values = specified (map raa_expected_access assertions);
          rel = single_value relationship_values;
          access = single_value access_values in
      \<lparr>rar_resource_id = rid, rar_test_identity_id = iid, rar_evaluation_time = t,
       rar_state = (if length relationship_values > 1 \<or> length access_values > 1 then ''conflict''
                    else if rel = ''unspecified'' \<and> access = ''unspecified'' then ''insufficient'' else ''resolved''),
       rar_relationship = rel, rar_expected_access = access,
       rar_supporting_assertion_ids = map raa_id (filter (\<lambda>a. raa_relationship a \<noteq> ''unspecified''
         \<or> raa_expected_access a \<noteq> ''unspecified'') assertions)\<rparr>)"

definition resolve_resource_access ::
  "store \<Rightarrow> resource_access_assertion list \<Rightarrow> row_id \<Rightarrow> row_id \<Rightarrow> py_time \<Rightarrow> matrix_error + resource_access_resolution" where
  "resolve_resource_access db table rid iid t =
     (if \<not> pt_aware t then Inl (AccessResolution ''evaluation_time_timezone_required'' 422)
      else case resources db rid of
        None \<Rightarrow> Inl (AccessResolution ''resource_not_found'' 404)
      | Some r \<Rightarrow>
     (case identities db iid of
        None \<Rightarrow> Inl (AccessResolution ''test_identity_not_found'' 404)
      | Some i \<Rightarrow>
     (if res_target_id r \<noteq> ident_target_id i then Inl (AccessResolution ''resource_identity_target_mismatch'' 409)
      else let assertions = take (MAX_ASSERTIONS_SCANNED + 1)
                 (sort_key raa_id (filter (eligible (res_id r) (ident_id i) (pt_instant t)) table)) in
        if length assertions > MAX_ASSERTIONS_SCANNED
        then Inl (AccessResolution ''resource_access_resolution_limit_exceeded'' 409)
        else Inr (resolution_of (res_id r) (ident_id i) t assertions))))"

subsection \<open>The matrix\<close>

definition MAX_BOLA_MATRIX_FACTS :: nat where
  "MAX_BOLA_MATRIX_FACTS = 512"

record bola_matrix_access_fact =
  mf_endpoint_id :: row_id
  mf_resource_id :: row_id
  mf_test_identity_id :: row_id
  mf_identity_auth_type :: string
  mf_resolution_state :: string
  mf_relationship :: string
  mf_expected_access :: string
  mf_supporting_assertion_ids :: "row_id list"

text \<open>\<open>__post_init__\<close>.\<close>

definition access_fact :: "bola_matrix_access_fact \<Rightarrow> matrix_error + bola_matrix_access_fact" where
  "access_fact f =
     (if \<not> (0 < mf_endpoint_id f \<and> 0 < mf_resource_id f \<and> 0 < mf_test_identity_id f)
         \<or> mf_resolution_state f \<notin> {''resolved'', ''insufficient'', ''conflict''}
         \<or> mf_relationship f \<notin> {''owner'', ''shared'', ''non_owner'', ''unspecified''}
         \<or> mf_expected_access f \<notin> {''allowed'', ''denied'', ''unspecified''}
         \<or> \<not> list_all (\<lambda>i. 0 < i) (mf_supporting_assertion_ids f)
      then Inl (MatrixPlanning ''bola_matrix_invalid_access_fact'') else Inr f)"

record bola_matrix_candidate =
  mc_endpoint_id :: row_id
  mc_resource_id :: row_id
  mc_test_identity_id :: row_id
  mc_subject_kind :: string
  mc_candidate_kind :: string
  mc_relationship :: string
  mc_expected_access :: string
  mc_supporting_assertion_ids :: "row_id list"

definition candidate_of :: "bola_matrix_access_fact \<Rightarrow> string \<Rightarrow> string \<Rightarrow> bola_matrix_candidate" where
  "candidate_of f subject_kind candidate_kind =
     \<lparr>mc_endpoint_id = mf_endpoint_id f, mc_resource_id = mf_resource_id f, mc_test_identity_id = mf_test_identity_id f,
      mc_subject_kind = subject_kind, mc_candidate_kind = candidate_kind, mc_relationship = mf_relationship f,
      mc_expected_access = mf_expected_access f, mc_supporting_assertion_ids = mf_supporting_assertion_ids f\<rparr>"

definition fact_candidate :: "bola_matrix_access_fact \<Rightarrow> bola_matrix_candidate option" where
  "fact_candidate f =
     (if mf_resolution_state f \<noteq> ''resolved'' \<or> mf_expected_access f \<notin> {''allowed'', ''denied''} then None
      else if mf_identity_auth_type f = ''anonymous'' then Some (candidate_of f ''anonymous'' ''anonymous_access'')
      else if mf_relationship f = ''owner'' then Some (candidate_of f ''authenticated'' ''owner_access'')
      else if mf_relationship f = ''shared'' then Some (candidate_of f ''authenticated'' ''shared_access'')
      else if mf_relationship f = ''non_owner'' then Some (candidate_of f ''authenticated'' ''cross_subject_access'')
      else None)"

definition fact_key :: "bola_matrix_access_fact \<Rightarrow> row_id \<times> row_id \<times> row_id" where
  "fact_key f = (mf_endpoint_id f, mf_resource_id f, mf_test_identity_id f)"

fun plan_facts ::
  "nat \<Rightarrow> (row_id \<times> row_id \<times> row_id) list \<Rightarrow> bola_matrix_access_fact list \<Rightarrow> matrix_error + bola_matrix_candidate list" where
  "plan_facts index seen [] = Inr []"
| "plan_facts index seen (f # fs) =
     (if index = MAX_BOLA_MATRIX_FACTS then Inl (MatrixPlanning ''bola_matrix_fact_limit_exceeded'')
      else if fact_key f \<in> set seen then Inl (MatrixPlanning ''bola_matrix_duplicate_access_fact'')
      else res_map (\<lambda>cs. case fact_candidate f of None \<Rightarrow> cs | Some c \<Rightarrow> c # cs)
             (plan_facts (Suc index) (fact_key f # seen) fs))"

definition plan_bola_matrix :: "bola_matrix_access_fact list \<Rightarrow> matrix_error + bola_matrix_candidate list" where
  "plan_bola_matrix facts = plan_facts 0 [] facts"

subsection \<open>The preview of one resource\<close>

record bola_matrix_preview =
  mp_endpoint_id :: row_id
  mp_resource_id :: row_id
  mp_evaluation_time :: py_time
  mp_facts :: "bola_matrix_access_fact list"
  mp_candidates :: "bola_matrix_candidate list"

definition validate_id :: "row_id \<Rightarrow> matrix_error + unit" where
  "validate_id i = (if i \<le> 0 then Inl (MatrixPlanning ''bola_matrix_invalid_access_fact'') else Inr ())"

text \<open>The loop over the identities of a preview.\<close>

fun check_identity_ids :: "nat \<Rightarrow> row_id list \<Rightarrow> row_id list \<Rightarrow> matrix_error + unit" where
  "check_identity_ids index seen [] = Inr ()"
| "check_identity_ids index seen (i # is) =
     (if index = MAX_BOLA_MATRIX_FACTS then Inl (MatrixPlanning ''bola_matrix_fact_limit_exceeded'')
      else res_bind (validate_id i) (\<lambda>_.
        if i \<in> set seen then Inl (MatrixPlanning ''bola_matrix_duplicate_access_fact'')
        else check_identity_ids (Suc index) (i # seen) is))"

definition preview_identity :: "store \<Rightarrow> row_id \<Rightarrow> row_id \<Rightarrow> matrix_error + test_identity" where
  "preview_identity db target_id identity_id =
     (case identities db identity_id of
        None \<Rightarrow> Inl (MatrixPreview ''test_identity_not_found'')
      | Some i \<Rightarrow>
         if ident_target_id i \<noteq> target_id then Inl (MatrixPreview ''resource_identity_target_mismatch'')
         else if \<not> ident_is_active i then Inl (MatrixPreview ''bola_matrix_identity_inactive'') else Inr i)"

definition preview_fact ::
  "store \<Rightarrow> resource_access_assertion list \<Rightarrow> row_id \<Rightarrow> row_id \<Rightarrow> py_time \<Rightarrow> test_identity
     \<Rightarrow> matrix_error + bola_matrix_access_fact" where
  "preview_fact db table endpoint_id resource_id t identity =
     res_bind (resolve_resource_access db table resource_id (ident_id identity) t) (\<lambda>res.
       if rar_resource_id res \<noteq> resource_id \<or> rar_test_identity_id res \<noteq> ident_id identity
          \<or> \<not> pt_aware (rar_evaluation_time res) \<or> pt_instant (rar_evaluation_time res) \<noteq> pt_instant t
       then Inl (MatrixPreview ''bola_matrix_resolution_mismatch'')
       else access_fact \<lparr>mf_endpoint_id = endpoint_id, mf_resource_id = resource_id,
              mf_test_identity_id = ident_id identity, mf_identity_auth_type = ident_auth_type identity,
              mf_resolution_state = rar_state res, mf_relationship = rar_relationship res,
              mf_expected_access = rar_expected_access res,
              mf_supporting_assertion_ids = rar_supporting_assertion_ids res\<rparr>)"

definition preview_bola_matrix ::
  "bool \<Rightarrow> store \<Rightarrow> resource_access_assertion list \<Rightarrow> row_id \<Rightarrow> row_id \<Rightarrow> row_id list \<Rightarrow> py_time
     \<Rightarrow> matrix_error + bola_matrix_preview" where
  "preview_bola_matrix session_clean db table endpoint_id resource_id identity_ids t =
     (if \<not> session_clean then Inl (MatrixPreview ''bola_matrix_preview_session_not_clean'')
      else res_bind (validate_id endpoint_id) (\<lambda>_. res_bind (validate_id resource_id) (\<lambda>_.
        if \<not> pt_aware t then Inl (MatrixPreview ''evaluation_time_timezone_required'')
        else res_bind (check_identity_ids 0 [] identity_ids) (\<lambda>_.
          case endpoints db endpoint_id of
            None \<Rightarrow> Inl (MatrixPreview ''endpoint_not_found'')
          | Some ep \<Rightarrow>
         (case resources db resource_id of
            None \<Rightarrow> Inl (MatrixPreview ''resource_not_found'')
          | Some r \<Rightarrow>
             if ep_target_id ep \<noteq> res_target_id r
             then Inl (MatrixPreview ''bola_matrix_endpoint_resource_target_mismatch'')
             else res_bind (res_mapM (preview_identity db (res_target_id r)) identity_ids) (\<lambda>ids.
                  res_bind (res_mapM (preview_fact db table endpoint_id resource_id t) ids) (\<lambda>facts.
                  res_bind (plan_bola_matrix facts) (\<lambda>candidates.
                    Inr \<lparr>mp_endpoint_id = endpoint_id, mp_resource_id = resource_id, mp_evaluation_time = t,
                         mp_facts = facts, mp_candidates = candidates\<rparr>))))))))"

subsection \<open>The selection of a reviewed parameter\<close>

record endpoint_resource_binding_row =
  erbr_id :: row_id
  erbr_endpoint_id :: row_id
  erbr_location :: string
  erbr_selector :: string
  erbr_provenance :: string
  erbr_confidence :: int
  erbr_review_state :: string
  erbr_created_at :: datetime

record bola_reviewed_binding_selection =
  bs_endpoint_id :: row_id
  bs_binding_id :: row_id
  bs_location :: string
  bs_selector :: string
  bs_review_state :: string

text \<open>
  \<open>validate_resource_binding_selector\<close> for a path or query parameter, up to the kind of \<open>ValueError\<close>: a name that
  matches \<open>PARAMETER_NAME\<close> has neither colon nor equals sign, which every alternative of
  \<open>SENSITIVE_MATERIAL\<close> needs.
\<close>

definition parameter_name :: "string \<Rightarrow> bool" where
  "parameter_name v \<longleftrightarrow> v \<noteq> [] \<and> (is_alpha (hd v) \<or> hd v = CHR ''_'')
     \<and> list_all (\<lambda>c. is_alpha c \<or> is_digit c \<or> c \<in> set ''_.-'') (tl v) \<and> length (tl v) \<le> 127"

abbreviation metadata_invalid :: matrix_error where
  "metadata_invalid \<equiv> BindingSelection ''bola_binding_endpoint_metadata_invalid''"

text \<open>The loop over the path: names found so far, the name that is being read.\<close>

fun scan_path :: "string list \<Rightarrow> string option \<Rightarrow> string \<Rightarrow> matrix_error + string list" where
  "scan_path names start [] = (if start \<noteq> None then Inl metadata_invalid else Inr names)"
| "scan_path names start (c # s) =
     (if c = CHR 0x7B then (if start \<noteq> None then Inl metadata_invalid else scan_path names (Some []) s)
      else if c = CHR 0x7D then
        (case start of
           None \<Rightarrow> Inl metadata_invalid
         | Some name \<Rightarrow>
             if \<not> parameter_name name then Inl metadata_invalid
             else if name \<in> set names then Inl (BindingSelection ''bola_binding_selector_ambiguous'')
             else scan_path (names @ [name]) None s)
      else scan_path names (map_option (\<lambda>n. n @ [c]) start) s)"

definition validate_path :: "string \<Rightarrow> string \<Rightarrow> matrix_error + unit" where
  "validate_path template selector =
     (if py_len template > 500 then Inl metadata_invalid
      else res_bind (scan_path [] None template) (\<lambda>names.
        if selector \<notin> set names then Inl (BindingSelection ''bola_binding_selector_not_declared'') else Inr ()))"

definition MAX_BOLA_BINDING_PARAMETERS :: nat where
  "MAX_BOLA_BINDING_PARAMETERS = 256"

text \<open>One declared parameter: an error, or whether it is the selected one.\<close>

definition query_match :: "string \<Rightarrow> json \<Rightarrow> matrix_error + bool" where
  "query_match selector parameter =
     (case parameter of
        JObj kvs \<Rightarrow>
          (case (map_of kvs ''name'', map_of kvs ''in'') of
             (Some (JStr name), Some (JStr location)) \<Rightarrow>
               if name = [] \<or> location \<notin> {''path'', ''query'', ''header'', ''cookie''} then Inl metadata_invalid
               else Inr (location = ''query'' \<and> name = selector)
           | _ \<Rightarrow> Inl metadata_invalid)
      | _ \<Rightarrow> Inl metadata_invalid)"

definition validate_query :: "json list \<Rightarrow> string \<Rightarrow> matrix_error + unit" where
  "validate_query parameters selector =
     (if length parameters > MAX_BOLA_BINDING_PARAMETERS
      then Inl (BindingSelection ''bola_binding_parameter_limit_exceeded'')
      else res_bind (res_mapM (query_match selector) parameters) (\<lambda>ms.
        let matches = length (filter (\<lambda>m. m) ms) in
        if matches = 0 then Inl (BindingSelection ''bola_binding_selector_not_declared'')
        else if matches > 1 then Inl (BindingSelection ''bola_binding_selector_ambiguous'') else Inr ()))"

definition select_bola_binding ::
  "bool \<Rightarrow> store \<Rightarrow> endpoint_resource_binding_row list \<Rightarrow> row_id \<Rightarrow> row_id \<Rightarrow> matrix_error + bola_reviewed_binding_selection" where
  "select_bola_binding session_clean db bindings_table endpoint_id binding_id =
     (if \<not> session_clean then Inl (BindingSelection ''bola_binding_selection_session_not_clean'')
      else if endpoint_id \<le> 0 \<or> binding_id \<le> 0 then Inl (BindingSelection ''bola_binding_selection_invalid_input'')
      else case endpoints db endpoint_id of
        None \<Rightarrow> Inl (BindingSelection ''endpoint_not_found'')
      | Some ep \<Rightarrow>
     (case find (\<lambda>b. erbr_id b = binding_id) bindings_table of
        None \<Rightarrow> Inl (BindingSelection ''bola_binding_not_found'')
      | Some b \<Rightarrow>
     (if erbr_endpoint_id b \<noteq> endpoint_id then Inl (BindingSelection ''bola_binding_endpoint_mismatch'')
      else if erbr_review_state b \<noteq> ''confirmed'' then Inl (BindingSelection ''bola_binding_not_confirmed'')
      else if erbr_location b \<notin> {''path'', ''query''} then Inl (BindingSelection ''bola_binding_location_unsupported'')
      else if \<not> parameter_name (erbr_selector b) then Inl (BindingSelection ''bola_binding_selector_invalid'')
      else res_bind (if erbr_location b = ''path'' then validate_path (ep_path ep) (erbr_selector b)
                     else validate_query (ep_parameters ep) (erbr_selector b)) (\<lambda>_.
             Inr \<lparr>bs_endpoint_id = endpoint_id, bs_binding_id = binding_id, bs_location = erbr_location b,
                  bs_selector = erbr_selector b, bs_review_state = erbr_review_state b\<rparr>))))"

subsection \<open>The preview of several bindings\<close>

definition MAX_BOLA_MATRIX_ASSIGNMENTS :: nat where
  "MAX_BOLA_MATRIX_ASSIGNMENTS = 32"

record bola_resource_slot_assignment =
  sa_binding_id :: row_id
  sa_resource_id :: row_id

record bola_assigned_slot_preview =
  sp_binding :: bola_reviewed_binding_selection
  sp_preview :: bola_matrix_preview

record bola_multi_binding_preview =
  mb_endpoint_id :: row_id
  mb_evaluation_time :: py_time
  mb_test_identity_ids :: "row_id list"
  mb_slots :: "bola_assigned_slot_preview list"

definition check_preview ::
  "bola_matrix_preview \<Rightarrow> row_id \<Rightarrow> row_id \<Rightarrow> row_id list \<Rightarrow> py_time \<Rightarrow> matrix_error + unit" where
  "check_preview p endpoint_id resource_id identity_ids t =
     (if mp_endpoint_id p \<noteq> endpoint_id \<or> mp_resource_id p \<noteq> resource_id
         \<or> \<not> pt_aware (mp_evaluation_time p) \<or> pt_instant (mp_evaluation_time p) \<noteq> pt_instant t
         \<or> \<not> list_all (\<lambda>f. mf_endpoint_id f = endpoint_id \<and> mf_resource_id f = resource_id) (mp_facts p)
         \<or> map mf_test_identity_id (mp_facts p) \<noteq> identity_ids
      then Inl (BindingMatrix ''bola_binding_matrix_dependency_mismatch'') else Inr ())"

fun check_assignments :: "nat \<Rightarrow> row_id list \<Rightarrow> bola_resource_slot_assignment list \<Rightarrow> matrix_error + unit" where
  "check_assignments index seen [] = Inr ()"
| "check_assignments index seen (a # as) =
     (if index = MAX_BOLA_MATRIX_ASSIGNMENTS then Inl (BindingMatrix ''bola_binding_matrix_assignment_limit_exceeded'')
      else if sa_binding_id a \<le> 0 \<or> sa_resource_id a \<le> 0 then Inl (BindingMatrix ''bola_binding_matrix_invalid_input'')
      else if sa_binding_id a \<in> set seen then Inl (BindingMatrix ''bola_binding_matrix_duplicate_binding'')
      else check_assignments (Suc index) (sa_binding_id a # seen) as)"

fun select_slots ::
  "(row_id \<Rightarrow> matrix_error + bola_reviewed_binding_selection) \<Rightarrow> row_id \<Rightarrow> (string \<times> string) list
     \<Rightarrow> bola_resource_slot_assignment list \<Rightarrow> matrix_error + bola_reviewed_binding_selection list" where
  "select_slots select endpoint_id selected [] = Inr []"
| "select_slots select endpoint_id selected (a # as) =
     res_bind (select (sa_binding_id a)) (\<lambda>b.
       if bs_endpoint_id b \<noteq> endpoint_id \<or> bs_binding_id b \<noteq> sa_binding_id a \<or> bs_review_state b \<noteq> ''confirmed''
          \<or> bs_location b \<notin> {''path'', ''query''} \<or> bs_selector b = []
       then Inl (BindingMatrix ''bola_binding_matrix_dependency_mismatch'')
       else if (bs_location b, bs_selector b) \<in> set selected
       then Inl (BindingMatrix ''bola_binding_matrix_duplicate_slot'')
       else res_map (\<lambda>bs. b # bs) (select_slots select endpoint_id ((bs_location b, bs_selector b) # selected) as))"

text \<open>The dictionary of the previews by resource.\<close>

fun resource_previews ::
  "(row_id \<Rightarrow> matrix_error + bola_matrix_preview) \<Rightarrow> (bola_matrix_preview \<Rightarrow> row_id \<Rightarrow> matrix_error + unit)
     \<Rightarrow> (row_id \<rightharpoonup> bola_matrix_preview) \<Rightarrow> bola_resource_slot_assignment list \<Rightarrow> matrix_error + (row_id \<rightharpoonup> bola_matrix_preview)" where
  "resource_previews preview check known [] = Inr known"
| "resource_previews preview check known (a # as) =
     (if known (sa_resource_id a) \<noteq> None then resource_previews preview check known as
      else res_bind (preview (sa_resource_id a)) (\<lambda>p.
           res_bind (check p (sa_resource_id a)) (\<lambda>_.
             resource_previews preview check (known(sa_resource_id a \<mapsto> p)) as)))"

definition preview_bola_binding_matrix ::
  "bool \<Rightarrow> store \<Rightarrow> resource_access_assertion list \<Rightarrow> endpoint_resource_binding_row list \<Rightarrow> row_id
     \<Rightarrow> bola_resource_slot_assignment list \<Rightarrow> row_id list \<Rightarrow> py_time \<Rightarrow> matrix_error + bola_multi_binding_preview" where
  "preview_bola_binding_matrix session_clean db table bindings_table endpoint_id proposed identity_ids t =
     (if \<not> session_clean then Inl (BindingMatrix ''bola_binding_matrix_session_not_clean'')
      else if endpoint_id \<le> 0 then Inl (BindingMatrix ''bola_binding_matrix_invalid_input'')
      else if \<not> pt_aware t then Inl (MatrixPreview ''evaluation_time_timezone_required'')
      else res_bind (check_assignments 0 [] proposed) (\<lambda>_.
        if proposed = [] then Inl (BindingMatrix ''bola_binding_matrix_invalid_input'')
        else res_bind (check_identity_ids 0 [] identity_ids) (\<lambda>_.
          if length proposed * length identity_ids > MAX_BOLA_MATRIX_FACTS
          then Inl (MatrixPlanning ''bola_matrix_fact_limit_exceeded'')
          else res_bind (select_slots (select_bola_binding session_clean db bindings_table endpoint_id) endpoint_id [] proposed) (\<lambda>bs.
               res_bind (resource_previews
                   (\<lambda>r. preview_bola_matrix session_clean db table endpoint_id r identity_ids t)
                   (\<lambda>p r. check_preview p endpoint_id r identity_ids t) Map.empty proposed) (\<lambda>previews.
                 Inr \<lparr>mb_endpoint_id = endpoint_id, mb_evaluation_time = t, mb_test_identity_ids = identity_ids,
                      mb_slots = map (\<lambda>(b, a). \<lparr>sp_binding = b, sp_preview = the (previews (sa_resource_id a))\<rparr>)
                        (zip bs proposed)\<rparr>)))))"

subsection \<open>Path templates\<close>

definition plain_text :: "string \<Rightarrow> bool" where
  "plain_text s \<longleftrightarrow> CHR 0x7B \<notin> set s \<and> CHR 0x7D \<notin> set s"

text \<open>A template: literals without braces, each followed by a parameter in braces, and a last literal.\<close>

definition template_text :: "(string \<times> string) list \<Rightarrow> string \<Rightarrow> string" where
  "template_text parts rest = concat (map (\<lambda>(l, n). l @ CHR 0x7B # n @ [CHR 0x7D]) parts) @ rest"

definition template_ok :: "(string \<times> string) list \<Rightarrow> string \<Rightarrow> bool" where
  "template_ok parts rest \<longleftrightarrow> list_all (\<lambda>(l, n). plain_text l \<and> parameter_name n) parts \<and> plain_text rest"

lemma parameter_name_plain: "parameter_name n \<Longrightarrow> plain_text n"
  by (cases n) (auto simp: parameter_name_def plain_text_def list_all_iff is_alpha_def is_digit_def is_upper_def is_lower_def ord_def)

lemma scan_path_plain:
  "plain_text l \<Longrightarrow> scan_path names None (l @ s) = scan_path names None s"
  "plain_text m \<Longrightarrow> scan_path names (Some n) (m @ s) = scan_path names (Some (n @ m)) s"
  by (induction l) (simp_all add: plain_text_def, induction m arbitrary: n, auto)

lemma scan_path_accepts:
  "template_ok parts rest \<Longrightarrow> distinct (names @ map snd parts) \<Longrightarrow>
     scan_path names None (template_text parts rest) = Inr (names @ map snd parts)"
proof (induction parts arbitrary: names)
  case Nil
  then show ?case using scan_path_plain(1)[of rest names "[]"] by (simp add: template_text_def template_ok_def)
next
  case (Cons p parts)
  obtain l n where p: "p = (l, n)" by (cases p)
  have ok: "plain_text l" "parameter_name n" "template_ok parts rest" using Cons.prems(1) p by (auto simp: template_ok_def)
  have "scan_path names None (template_text (p # parts) rest) = scan_path names (Some []) (n @ CHR 0x7D # template_text parts rest)"
    using scan_path_plain(1)[OF ok(1), of names "CHR 0x7B # n @ CHR 0x7D # template_text parts rest"]
    by (simp add: template_text_def p)
  also have "\<dots> = scan_path names (Some n) (CHR 0x7D # template_text parts rest)"
    using scan_path_plain(2)[OF parameter_name_plain[OF ok(2)], of names "[]"] by simp
  also have "\<dots> = scan_path (names @ [n]) None (template_text parts rest)" using ok(2) Cons.prems(2) p by simp
  also have "\<dots> = Inr ((names @ [n]) @ map snd parts)" using Cons.IH[OF ok(3), of "names @ [n]"] Cons.prems(2) p by simp
  finally show ?case by (simp add: p)
qed

lemma scan_path_name:
  "scan_path names (Some n) s = Inr names' \<Longrightarrow> \<exists>m s'. s = m @ CHR 0x7D # s' \<and> parameter_name (n @ m)
     \<and> n @ m \<notin> set names \<and> scan_path (names @ [n @ m]) None s' = Inr names'"
proof (induction s arbitrary: n)
  case (Cons c s)
  show ?case
  proof (cases "c = CHR 0x7D")
    case True
    then show ?thesis using Cons.prems by (intro exI[of _ "[]"] exI[of _ s]) (auto split: if_splits)
  next
    case False
    then have "scan_path names (Some (n @ [c])) s = Inr names'" using Cons.prems by (simp split: if_splits)
    from Cons.IH[OF this] obtain m s' where "s = m @ CHR 0x7D # s'" "parameter_name ((n @ [c]) @ m)"
      "(n @ [c]) @ m \<notin> set names" "scan_path (names @ [(n @ [c]) @ m]) None s' = Inr names'" by blast
    then show ?thesis by (intro exI[of _ "c # m"] exI[of _ s']) simp
  qed
qed simp

lemma scan_path_template:
  "scan_path names None s = Inr names' \<Longrightarrow> distinct names \<Longrightarrow>
     \<exists>parts rest. s = template_text parts rest \<and> template_ok parts rest \<and> names' = names @ map snd parts \<and> distinct names'"
proof (induction "length s" arbitrary: s names rule: less_induct)
  case less
  let ?l = "takeWhile (\<lambda>c. c \<noteq> CHR 0x7B \<and> c \<noteq> CHR 0x7D) s"
  have l: "plain_text ?l" by (auto simp: plain_text_def dest: set_takeWhileD)
  define s1 where "s1 = dropWhile (\<lambda>c. c \<noteq> CHR 0x7B \<and> c \<noteq> CHR 0x7D) s"
  have s: "s = ?l @ s1" "s1 = [] \<or> hd s1 = CHR 0x7B \<or> hd s1 = CHR 0x7D"
    using hd_dropWhile[of "\<lambda>c. c \<noteq> CHR 0x7B \<and> c \<noteq> CHR 0x7D" s] by (auto simp: s1_def)
  have e: "scan_path names None s1 = Inr names'"
    using less.prems(1) scan_path_plain(1)[OF l, of names s1] s(1) by simp
  show ?case
  proof (cases s1)
    case Nil
    then show ?thesis using e s(1) l less.prems(2)
      by (intro exI[of _ "[]"] exI[of _ ?l]) (simp add: template_text_def template_ok_def)
  next
    case (Cons c s2)
    then have "c = CHR 0x7B" "scan_path names (Some []) s2 = Inr names'" using e s(2) by (auto split: if_splits)
    with scan_path_name[OF this(2)] obtain n s3 where n: "s2 = n @ CHR 0x7D # s3" "parameter_name n" "n \<notin> set names"
      "scan_path (names @ [n]) None s3 = Inr names'" by auto
    have "length s3 < length s" by (subst s(1)) (simp add: Cons n(1))
    from less.hyps[OF this n(4)] n(3) less.prems(2) obtain parts rest where
      "s3 = template_text parts rest" "template_ok parts rest" "names' = (names @ [n]) @ map snd parts" "distinct names'" by auto
    then show ?thesis using s(1) Cons n(1,2) l \<open>c = CHR 0x7B\<close>
      by (intro exI[of _ "(?l, n) # parts"] exI[of _ rest]) (simp add: template_text_def template_ok_def)
  qed
qed

text \<open>
  The path scanner recognises templates: a selector is accepted for a path if and only if the path has at
  most 500 characters and is a sequence of literals without braces and parameters in braces, whose names are
  valid and pairwise distinct and include the selector.
\<close>

theorem path_selector_exact:
  "validate_path p selector = Inr () \<longleftrightarrow>
     py_len p \<le> 500 \<and> (\<exists>parts rest. p = template_text parts rest \<and> template_ok parts rest
       \<and> distinct (map snd parts) \<and> selector \<in> snd ` set parts)"
proof -
  have "(\<exists>names. scan_path [] None p = Inr names \<and> selector \<in> set names) \<longleftrightarrow>
      (\<exists>parts rest. p = template_text parts rest \<and> template_ok parts rest \<and> distinct (map snd parts) \<and> selector \<in> snd ` set parts)"
  proof
    assume "\<exists>names. scan_path [] None p = Inr names \<and> selector \<in> set names"
    then obtain names where n: "scan_path [] None p = Inr names" "selector \<in> set names" by blast
    show "\<exists>parts rest. p = template_text parts rest \<and> template_ok parts rest \<and> distinct (map snd parts) \<and> selector \<in> snd ` set parts"
      using scan_path_template[OF n(1)] n(2) by simp (metis image_set)
  next
    assume "\<exists>parts rest. p = template_text parts rest \<and> template_ok parts rest \<and> distinct (map snd parts) \<and> selector \<in> snd ` set parts"
    then obtain parts rest where t: "p = template_text parts rest" "template_ok parts rest" "distinct (map snd parts)"
      "selector \<in> snd ` set parts" by blast
    show "\<exists>names. scan_path [] None p = Inr names \<and> selector \<in> set names"
      using scan_path_accepts[OF t(2), of "[]"] t by simp
  qed
  then show ?thesis by (auto simp: validate_path_def split: if_splits)
qed

subsection \<open>What a resolution says\<close>

lemma set_specified: "set (specified vs) = {v \<in> set vs. v \<noteq> ''unspecified''}"
  by (auto simp: specified_def)

lemma specified_conflict:
  "1 < length (specified vs) \<longleftrightarrow> (\<exists>v \<in> set vs. \<exists>w \<in> set vs. v \<noteq> ''unspecified'' \<and> w \<noteq> ''unspecified'' \<and> v \<noteq> w)"
proof -
  have "length (specified vs) = card {v \<in> set vs. v \<noteq> ''unspecified''}"
    using distinct_card[of "specified vs"] by (simp add: set_specified specified_def)
  then show ?thesis using card_le_Suc0_iff_eq[of "{v \<in> set vs. v \<noteq> ''unspecified''}"] by auto
qed

lemma single_value_iff:
  assumes "v \<noteq> ''unspecified''"
  shows "single_value (specified vs) = v \<longleftrightarrow> v \<in> set vs \<and> (\<forall>w \<in> set vs. w = v \<or> w = ''unspecified'')"
proof -
  have d: "distinct (specified vs)" by (simp add: specified_def)
  have "single_value xs = v \<longleftrightarrow> set xs = {v}" if "distinct xs" "''unspecified'' \<notin> set xs" for xs
    using that assms by (cases xs rule: remdups_adj.cases) (auto simp: single_value_def)
  from this[OF d] have "single_value (specified vs) = v \<longleftrightarrow> {w \<in> set vs. w \<noteq> ''unspecified''} = {v}"
    by (simp add: set_specified)
  then show ?thesis using assms by auto
qed

lemma single_value_unspecified:
  "single_value (specified vs) = ''unspecified'' \<Longrightarrow> \<not> 1 < length (specified vs) \<Longrightarrow> w \<in> set vs \<Longrightarrow> w = ''unspecified''"
  using set_specified[of vs] by (cases "specified vs" rule: remdups_adj.cases) (auto simp: single_value_def)

text \<open>
  C27. The resolution of an identity's access to a resource depends only on the set of verified
  assertions that hold at the time: it reports a conflict exactly if two of them disagree, a relationship or
  an expected access exactly if one asserts it and none asserts another, insufficiency exactly if none
  asserts anything, and as support the sorted ids of all that assert something; no assertion wins over
  another, and at most 256 are considered.
\<close>

theorem resolution_exact:
  assumes "resolve_resource_access db table rid iid t = Inr res"
  shows "\<exists>as. set as = {a \<in> set table. eligible (rar_resource_id res) (rar_test_identity_id res) (pt_instant t) a}
      \<and> length as \<le> 256
    \<and> (rar_state res = ''conflict'' \<longleftrightarrow> (\<exists>a \<in> set as. \<exists>b \<in> set as.
         (raa_relationship a \<noteq> ''unspecified'' \<and> raa_relationship b \<noteq> ''unspecified'' \<and> raa_relationship a \<noteq> raa_relationship b)
         \<or> (raa_expected_access a \<noteq> ''unspecified'' \<and> raa_expected_access b \<noteq> ''unspecified''
            \<and> raa_expected_access a \<noteq> raa_expected_access b)))
    \<and> (rar_state res = ''insufficient'' \<longleftrightarrow>
         (\<forall>a \<in> set as. raa_relationship a = ''unspecified'' \<and> raa_expected_access a = ''unspecified''))
    \<and> (\<forall>v. v \<noteq> ''unspecified'' \<longrightarrow> (rar_relationship res = v \<longleftrightarrow>
         v \<in> raa_relationship ` set as \<and> (\<forall>a \<in> set as. raa_relationship a \<in> {v, ''unspecified''})))
    \<and> (\<forall>v. v \<noteq> ''unspecified'' \<longrightarrow> (rar_expected_access res = v \<longleftrightarrow>
         v \<in> raa_expected_access ` set as \<and> (\<forall>a \<in> set as. raa_expected_access a \<in> {v, ''unspecified''})))
    \<and> sorted (rar_supporting_assertion_ids res)
    \<and> set (rar_supporting_assertion_ids res) = raa_id ` {a \<in> set as. raa_relationship a \<noteq> ''unspecified''
         \<or> raa_expected_access a \<noteq> ''unspecified''}"
proof -
  obtain r i where r: "resources db rid = Some r" "identities db iid = Some i"
    using assms by (auto simp: resolve_resource_access_def split: if_splits option.splits)
  let ?all = "sort_key raa_id (filter (eligible (res_id r) (ident_id i) (pt_instant t)) table)"
  have n: "length (take 257 ?all) \<le> 256" and res: "res = resolution_of (res_id r) (ident_id i) t (take 257 ?all)"
    using assms r by (auto simp: resolve_resource_access_def MAX_ASSERTIONS_SCANNED_def Let_def split: if_splits)
  define as where "as = ?all"
  have t: "take 257 ?all = as" and sa: "set as = {a \<in> set table. eligible (res_id r) (ident_id i) (pt_instant t) a}"
    and so: "sorted (map raa_id as)" and le: "length as \<le> 256"
    using n by (auto simp: as_def)
  let ?rels = "map raa_relationship as" and ?accs = "map raa_expected_access as"
  have out: "rar_state res = (if 1 < length (specified ?rels) \<or> 1 < length (specified ?accs) then ''conflict''
        else if single_value (specified ?rels) = ''unspecified'' \<and> single_value (specified ?accs) = ''unspecified''
        then ''insufficient'' else ''resolved'')"
    "rar_relationship res = single_value (specified ?rels)" "rar_expected_access res = single_value (specified ?accs)"
    "rar_supporting_assertion_ids res = map raa_id (filter (\<lambda>a. raa_relationship a \<noteq> ''unspecified''
         \<or> raa_expected_access a \<noteq> ''unspecified'') as)"
    "rar_resource_id res = res_id r" "rar_test_identity_id res = ident_id i"
    unfolding res t by (simp_all add: resolution_of_def Let_def)
  have conflict: "1 < length (specified ?rels) \<or> 1 < length (specified ?accs) \<longleftrightarrow> (\<exists>a \<in> set as. \<exists>b \<in> set as.
         (raa_relationship a \<noteq> ''unspecified'' \<and> raa_relationship b \<noteq> ''unspecified'' \<and> raa_relationship a \<noteq> raa_relationship b)
         \<or> (raa_expected_access a \<noteq> ''unspecified'' \<and> raa_expected_access b \<noteq> ''unspecified''
            \<and> raa_expected_access a \<noteq> raa_expected_access b))"
    unfolding specified_conflict by auto
  have none: "(\<not> (1 < length (specified ?rels) \<or> 1 < length (specified ?accs)) \<and> single_value (specified ?rels) = ''unspecified''
        \<and> single_value (specified ?accs) = ''unspecified'')
      \<longleftrightarrow> (\<forall>a \<in> set as. raa_relationship a = ''unspecified'' \<and> raa_expected_access a = ''unspecified'')"
  proof
    assume "\<forall>a \<in> set as. raa_relationship a = ''unspecified'' \<and> raa_expected_access a = ''unspecified''"
    then have "specified ?rels = []" "specified ?accs = []" by (auto simp: specified_def filter_empty_conv)
    then show "\<not> (1 < length (specified ?rels) \<or> 1 < length (specified ?accs)) \<and> single_value (specified ?rels) = ''unspecified''
        \<and> single_value (specified ?accs) = ''unspecified''" by (simp add: single_value_def)
  next
    assume a: "\<not> (1 < length (specified ?rels) \<or> 1 < length (specified ?accs)) \<and> single_value (specified ?rels) = ''unspecified''
        \<and> single_value (specified ?accs) = ''unspecified''"
    have "w = ''unspecified''" if "w \<in> set ?rels \<or> w \<in> set ?accs" for w
      using single_value_unspecified[of ?rels w] single_value_unspecified[of ?accs w] a that by blast
    then show "\<forall>a \<in> set as. raa_relationship a = ''unspecified'' \<and> raa_expected_access a = ''unspecified''"
      by simp
  qed
  have st: "rar_state res = ''conflict'' \<longleftrightarrow> 1 < length (specified ?rels) \<or> 1 < length (specified ?accs)"
    "rar_state res = ''insufficient'' \<longleftrightarrow> \<not> (1 < length (specified ?rels) \<or> 1 < length (specified ?accs))
        \<and> single_value (specified ?rels) = ''unspecified'' \<and> single_value (specified ?accs) = ''unspecified''"
    unfolding out(1) by auto
  have v: "rar_relationship res = v \<longleftrightarrow> v \<in> raa_relationship ` set as \<and> (\<forall>a \<in> set as. raa_relationship a \<in> {v, ''unspecified''})"
    "rar_expected_access res = v \<longleftrightarrow> v \<in> raa_expected_access ` set as \<and> (\<forall>a \<in> set as. raa_expected_access a \<in> {v, ''unspecified''})"
    if "v \<noteq> ''unspecified''" for v
    unfolding out(2,3) single_value_iff[OF that] by auto
  have support: "sorted (rar_supporting_assertion_ids res)" "set (rar_supporting_assertion_ids res)
      = raa_id ` {a \<in> set as. raa_relationship a \<noteq> ''unspecified'' \<or> raa_expected_access a \<noteq> ''unspecified''}"
    unfolding out(4) using sorted_filter[OF so] by auto
  show ?thesis
    by (intro exI[of _ as] conjI allI impI)
       (rule sa[folded out(5,6)] le trans[OF st(1) conflict] trans[OF st(2) none] v support | assumption)+
qed

subsection \<open>What a preview contains\<close>

lemma plan_facts_ok:
  "plan_facts index seen fs = Inr cs \<Longrightarrow> cs = List.map_filter fact_candidate fs"
  by (induction fs arbitrary: index seen cs) (auto simp: List.map_filter_simps res_map_def split: if_splits option.splits sum.splits)

lemma check_identity_ids_ok:
  "check_identity_ids index seen is = Inr () \<Longrightarrow> distinct is \<and> set is \<inter> set seen = {} \<and> list_all (\<lambda>i. 0 < i) is"
proof (induction "is" arbitrary: index seen)
  case (Cons i "is")
  then have "check_identity_ids (Suc index) (i # seen) is = Inr ()" "i \<notin> set seen" "0 < i"
    by (auto simp: validate_id_def split: if_splits)
  with Cons.IH[OF this(1)] show ?case by auto
qed simp

lemma check_assignments_ok:
  "check_assignments index seen as = Inr () \<Longrightarrow> index \<le> 32 \<Longrightarrow>
     distinct (map sa_binding_id as) \<and> sa_binding_id ` set as \<inter> set seen = {} \<and> index + length as \<le> 32"
proof (induction "as" arbitrary: index seen)
  case (Cons a as)
  then have "check_assignments (Suc index) (sa_binding_id a # seen) as = Inr ()" "Suc index \<le> 32" "sa_binding_id a \<notin> set seen"
    by (auto simp: MAX_BOLA_MATRIX_ASSIGNMENTS_def split: if_splits)
  with Cons.IH[OF this(1,2)] show ?case by auto
qed simp

lemma select_slots_ok:
  "select_slots select endpoint_id selected as = Inr bs \<Longrightarrow>
     list_all2 (\<lambda>a b. select (sa_binding_id a) = Inr b \<and> bs_review_state b = ''confirmed'') as bs
     \<and> distinct (map (\<lambda>b. (bs_location b, bs_selector b)) bs)
     \<and> (\<lambda>b. (bs_location b, bs_selector b)) ` set bs \<inter> set selected = {}"
proof (induction "as" arbitrary: selected bs)
  case (Cons a as)
  then obtain b bs' where "select (sa_binding_id a) = Inr b" "bs_review_state b = ''confirmed''" "bs = b # bs'"
    "(bs_location b, bs_selector b) \<notin> set selected"
    "select_slots select endpoint_id ((bs_location b, bs_selector b) # selected) as = Inr bs'"
    by (auto simp: res_map_def split: if_splits sum.splits)
  with Cons.IH[OF this(5)] show ?case by auto
qed simp

lemma resource_previews_ok:
  assumes "resource_previews preview check known as = Inr m"
    and "\<And>r p. known r = Some p \<Longrightarrow> preview r = Inr p \<and> check p r = Inr ()"
  shows "(\<forall>r p. m r = Some p \<longrightarrow> preview r = Inr p \<and> check p r = Inr ()) \<and> known \<subseteq>\<^sub>m m \<and> sa_resource_id ` set as \<subseteq> dom m"
  using assms
proof (induction "as" arbitrary: known)
  case (Cons a as)
  show ?case
  proof (cases "known (sa_resource_id a)")
    case (Some p)
    then have r: "resource_previews preview check known as = Inr m" using Cons.prems(1) by simp
    note ih = Cons.IH[OF r Cons.prems(2)]
    then have "sa_resource_id a \<in> dom m" using Some by (auto simp: map_le_def dom_def)
    with ih show ?thesis by simp
  next
    case None
    then obtain p where p: "preview (sa_resource_id a) = Inr p" "check p (sa_resource_id a) = Inr ()"
      "resource_previews preview check (known(sa_resource_id a \<mapsto> p)) as = Inr m"
      using Cons.prems(1) by auto
    have "preview r = Inr q \<and> check q r = Inr ()" if "(known(sa_resource_id a \<mapsto> p)) r = Some q" for r q
      using that Cons.prems(2) p(1,2) by (auto split: if_splits)
    note ih = Cons.IH[OF p(3) this]
    then have "known(sa_resource_id a \<mapsto> p) \<subseteq>\<^sub>m m" by blast
    then have "known \<subseteq>\<^sub>m m" "sa_resource_id a \<in> dom m" using None
      by (auto simp: map_le_def dom_def split: if_splits)
    with ih show ?thesis by simp
  qed
qed auto

text \<open>A fact carries the resolution of its identity's access.\<close>

definition fact_resolved ::
  "store \<Rightarrow> resource_access_assertion list \<Rightarrow> row_id \<Rightarrow> py_time \<Rightarrow> bola_matrix_access_fact \<Rightarrow> bool" where
  "fact_resolved db table rid t f \<longleftrightarrow>
     (\<exists>res. resolve_resource_access db table rid (mf_test_identity_id f) t = Inr res
        \<and> mf_resolution_state f = rar_state res \<and> mf_relationship f = rar_relationship res
        \<and> mf_expected_access f = rar_expected_access res
        \<and> mf_supporting_assertion_ids f = rar_supporting_assertion_ids res)"

lemma preview_fact_ok: "preview_fact db table e r t i = Inr f \<Longrightarrow> fact_resolved db table r t f"
  by (auto simp: preview_fact_def access_fact_def fact_resolved_def split: if_splits)

lemma preview_bola_matrix_ok:
  assumes "preview_bola_matrix clean db table e r ids t = Inr p"
  shows "list_all (fact_resolved db table r t) (mp_facts p)" "mp_candidates p = List.map_filter fact_candidate (mp_facts p)"
proof -
  obtain actors facts cs where f: "res_mapM (preview_fact db table e r t) actors = Inr facts" "plan_bola_matrix facts = Inr cs"
    "mp_facts p = facts" "mp_candidates p = cs"
    using assms by (auto simp: preview_bola_matrix_def split: if_splits option.splits)
  then show "list_all (fact_resolved db table r t) (mp_facts p)" "mp_candidates p = List.map_filter fact_candidate (mp_facts p)"
    using plan_facts_ok[of 0 "[]" facts cs] preview_fact_ok[OF res_mapM_nth[OF f(1)]] res_mapM_length[OF f(1)]
    by (auto simp: plan_bola_matrix_def list_all_length)
qed

text \<open>
  C28. A preview of several bindings is bounded, complete and says only what was resolved: it has one slot per
  assignment, in order, each for a confirmed binding that the selection accepts, with pairwise distinct positions;
  every slot has one fact for each of the distinct identities, in order, that carries the
  resolution of that identity's access to the resource assigned to the slot, and exactly the candidates that its facts
  give; there are at most 32 slots and 512 facts.
\<close>

theorem binding_matrix_sound:
  assumes "preview_bola_binding_matrix clean db table bindings_table e proposed identity_ids t = Inr mb"
  shows "0 < length proposed \<and> length proposed \<le> 32 \<and> distinct (map sa_binding_id proposed) \<and> distinct identity_ids
    \<and> length proposed * length identity_ids \<le> 512
    \<and> distinct (map (\<lambda>s. (bs_location (sp_binding s), bs_selector (sp_binding s))) (mb_slots mb))
    \<and> list_all2 (\<lambda>a s. select_bola_binding clean db bindings_table e (sa_binding_id a) = Inr (sp_binding s)
         \<and> bs_review_state (sp_binding s) = ''confirmed''
         \<and> map mf_test_identity_id (mp_facts (sp_preview s)) = identity_ids
         \<and> list_all (fact_resolved db table (sa_resource_id a) t) (mp_facts (sp_preview s))
         \<and> mp_candidates (sp_preview s) = List.map_filter fact_candidate (mp_facts (sp_preview s))) proposed (mb_slots mb)"
proof -
  let ?pv = "\<lambda>r. preview_bola_matrix clean db table e r identity_ids t" and ?ck = "\<lambda>p r. check_preview p e r identity_ids t"
  obtain bs m where c: "check_assignments 0 [] proposed = Inr ()" "proposed \<noteq> []" "check_identity_ids 0 [] identity_ids = Inr ()"
    "length proposed * length identity_ids \<le> 512"
    and sl: "select_slots (select_bola_binding clean db bindings_table e) e [] proposed = Inr bs"
    and pv: "resource_previews ?pv ?ck Map.empty proposed = Inr m"
    and mb: "mb_slots mb = map (\<lambda>(b, a). \<lparr>sp_binding = b, sp_preview = the (m (sa_resource_id a))\<rparr>) (zip bs proposed)"
    using assms by (auto simp: preview_bola_binding_matrix_def MAX_BOLA_MATRIX_FACTS_def split: if_splits)
  note s = select_slots_ok[OF sl]
  have len: "length bs = length proposed" using s by (auto dest: list_all2_lengthD)
  have p: "map mf_test_identity_id (mp_facts (the (m (sa_resource_id a)))) = identity_ids
      \<and> list_all (fact_resolved db table (sa_resource_id a) t) (mp_facts (the (m (sa_resource_id a))))
      \<and> mp_candidates (the (m (sa_resource_id a))) = List.map_filter fact_candidate (mp_facts (the (m (sa_resource_id a))))"
    if "a \<in> set proposed" for a
  proof -
    have "?pv r = Inr p \<and> ?ck p r = Inr ()" if "Map.empty r = Some p" for r p using that by simp
    from resource_previews_ok[OF pv this] obtain q where q: "m (sa_resource_id a) = Some q" "?pv (sa_resource_id a) = Inr q" "?ck q (sa_resource_id a) = Inr ()"
      using \<open>a \<in> set proposed\<close> by blast
    have "map mf_test_identity_id (mp_facts q) = identity_ids" using q(3) by (simp add: check_preview_def split: if_splits)
    then show ?thesis using preview_bola_matrix_ok[OF q(2)] q(1) by simp
  qed
  have "map (\<lambda>s. (bs_location (sp_binding s), bs_selector (sp_binding s))) (mb_slots mb)
      = map (\<lambda>b. (bs_location b, bs_selector b)) (map fst (zip bs proposed))" by (simp add: mb split_def)
  then have "distinct (map (\<lambda>s. (bs_location (sp_binding s), bs_selector (sp_binding s))) (mb_slots mb))"
    using s len by simp
  moreover have "list_all2 (\<lambda>a s. select_bola_binding clean db bindings_table e (sa_binding_id a) = Inr (sp_binding s)
         \<and> bs_review_state (sp_binding s) = ''confirmed''
         \<and> map mf_test_identity_id (mp_facts (sp_preview s)) = identity_ids
         \<and> list_all (fact_resolved db table (sa_resource_id a) t) (mp_facts (sp_preview s))
         \<and> mp_candidates (sp_preview s) = List.map_filter fact_candidate (mp_facts (sp_preview s))) proposed (mb_slots mb)"
    using s p len unfolding mb list_all2_conv_all_nth by auto
  ultimately show ?thesis using c check_assignments_ok[OF c(1)] check_identity_ids_ok[OF c(3)] by simp
qed

definition lab_assertion :: "row_id \<Rightarrow> string \<Rightarrow> string \<Rightarrow> resource_access_assertion" where
  "lab_assertion i rel access = \<lparr>raa_id = i, raa_resource_id = 12, raa_test_identity_id = 3, raa_relationship = rel,
     raa_expected_access = access, raa_provenance = ''human_verified'', raa_confidence = 90,
     raa_verification_state = ''verified'', raa_asserted_at = 0, raa_observed_at = None, raa_valid_from = None,
     raa_valid_until = None, raa_source_test_run_id = None, raa_reviewed_assertion_id = None\<rparr>"

definition lab_time :: py_time where
  "lab_time = \<lparr>pt_instant = 5, pt_aware = True\<rparr>"

theorem resolution_exact_witness:
  "\<exists>res. resolve_resource_access planning_store [lab_assertion 2 ''non_owner'' ''denied'', lab_assertion 1 ''unspecified'' ''denied'']
       12 3 lab_time = Inr res \<and> sorted (rar_supporting_assertion_ids res)"
proof -
  let ?r = "resolve_resource_access planning_store [lab_assertion 2 ''non_owner'' ''denied'', lab_assertion 1 ''unspecified'' ''denied'']
       12 3 lab_time"
  have "is_ok ?r" by code_simp
  then obtain res where res: "?r = Inr res" by (cases ?r) auto
  from resolution_exact[OF res] have "sorted (rar_supporting_assertion_ids res)" by (elim exE conjE)
  with res show ?thesis by (intro exI[of _ res] conjI)
qed

definition lab_binding :: endpoint_resource_binding_row where
  "lab_binding = \<lparr>erbr_id = 40, erbr_endpoint_id = 13, erbr_location = ''path'', erbr_selector = ''order_id'',
     erbr_provenance = ''operator_supplied'', erbr_confidence = 100, erbr_review_state = ''confirmed'', erbr_created_at = 0\<rparr>"

theorem binding_matrix_sound_witness:
  "\<exists>mb. preview_bola_binding_matrix True planning_store [lab_assertion 2 ''non_owner'' ''denied''] [lab_binding] 13
       [\<lparr>sa_binding_id = 40, sa_resource_id = 12\<rparr>] [3] lab_time = Inr mb
     \<and> distinct (map (\<lambda>s. (bs_location (sp_binding s), bs_selector (sp_binding s))) (mb_slots mb))"
proof -
  let ?r = "preview_bola_binding_matrix True planning_store [lab_assertion 2 ''non_owner'' ''denied''] [lab_binding] 13
       [\<lparr>sa_binding_id = 40, sa_resource_id = 12\<rparr>] [3] lab_time"
  have "(case ?r of Inr mb \<Rightarrow> map (\<lambda>s. map mc_candidate_kind (mp_candidates (sp_preview s))) (mb_slots mb) = [[''cross_subject_access'']]
      | Inl _ \<Rightarrow> False)" by code_simp
  then obtain mb where mb: "?r = Inr mb" by (cases ?r) auto
  from binding_matrix_sound[OF mb] have "distinct (map (\<lambda>s. (bs_location (sp_binding s), bs_selector (sp_binding s))) (mb_slots mb))"
    by (elim conjE)
  with mb show ?thesis by (intro exI[of _ mb] conjI)
qed

end
