(* ===== verification/Hostname_Rules.thy ===== *)
theory Hostname_Rules
  imports Destination Db_Models "HOL-Library.Product_Lexorder"
begin

text \<open>
  Asset hostname rules and DNS classification of asset candidates
  (\<open>src/backend/app/services/asset_hostname_rule.py\<close>, \<open>asset_candidate_dns.py\<close>): the normalisation
  of hostnames and patterns, the choice of the matching include and exclude rules, and
  the loop that follows CNAME records before the addresses of a name are classified.

  The parameter \<open>idna\<close> is \<open>str.lower\<close> followed by \<open>encode("idna")\<close> on texts that are not
  ASCII. A resolver is a record of two functions. During one classification every name is asked
  for its CNAME at most once and one name is asked for its addresses, so that a function
  of the name covers every behaviour of a resolver whose answers change over time. The CNAME loop is a
  partial function, so that returning at all is a theorem.
\<close>

subsection \<open>Hostnames and patterns\<close>

datatype hostname_rule_error =
  AssetHostnameRuleNotFoundError
| AssetHostnameRuleImmutableError
| AssetHostnameRuleValidationError
| AssetHostnameRuleIntegrityError

record asset_hostname_rule =
  ahr_id :: row_id
  ahr_authorization_revision_id :: row_id
  ahr_rule_type :: string
  ahr_hostname_pattern :: string
  ahr_created_at :: datetime

record asset_candidate_rule_decision =
  acr_eligible :: bool
  acr_code :: string
  acr_normalized_hostname :: "string option"
  acr_matched_include_rule_id :: "row_id option"
  acr_matched_exclude_rule_id :: "row_id option"

text \<open>The characters beyond ASCII for which \<open>str.isspace\<close> holds, in UTF-8.\<close>

definition unicode_spaces :: "string list" where
  "unicode_spaces =
     [[CHR 0xC2, CHR 0x85], [CHR 0xC2, CHR 0xA0], [CHR 0xE1, CHR 0x9A, CHR 0x80],
      [CHR 0xE2, CHR 0x81, CHR 0x9F], [CHR 0xE3, CHR 0x80, CHR 0x80]]
     @ map (\<lambda>c. [CHR 0xE2, CHR 0x80, c])
         [CHR 0x80, CHR 0x81, CHR 0x82, CHR 0x83, CHR 0x84, CHR 0x85, CHR 0x86, CHR 0x87,
          CHR 0x88, CHR 0x89, CHR 0x8A, CHR 0xA8, CHR 0xA9, CHR 0xAF]"

definition any_isspace :: "string \<Rightarrow> bool" where
  "any_isspace s \<longleftrightarrow> list_ex is_space s \<or> list_ex (\<lambda>u. py_contains u s) unicode_spaces"

definition normalize_dns_hostname :: "idna_codec \<Rightarrow> string \<Rightarrow> hostname_rule_error + string" where
  "normalize_dns_hostname idna val =
     (if val = [] \<or> any_isspace val \<or> list_ex (\<lambda>c. c \<in> set val) (''/?#@:'' @ [CHR 0x5C] @ ''[]'') then
        Inl AssetHostnameRuleValidationError
      else
        (let raw = (if suffix ''.'' val then butlast val else val) in
         if raw = [] \<or> suffix ''.'' raw \<or> CHR ''*'' \<in> set raw then
           Inl AssetHostnameRuleValidationError
         else (case ip_address_of raw of
           Some _ \<Rightarrow> Inl AssetHostnameRuleValidationError
         | None \<Rightarrow>
           (case encode_idna idna (py_lower raw) of
             None \<Rightarrow> Inl AssetHostnameRuleValidationError
           | Some hostname \<Rightarrow>
             if length hostname > 253 \<or> \<not> list_all label_ok (py_split (CHR ''.'') hostname) then
               Inl AssetHostnameRuleValidationError
             else Inr hostname))))"

definition normalize_hostname_pattern ::
  "idna_codec \<Rightarrow> string \<Rightarrow> string \<Rightarrow> hostname_rule_error + string" where
  "normalize_hostname_pattern idna rule_type val =
     (if rule_type \<notin> {''include'', ''exclude''} then Inl AssetHostnameRuleValidationError
      else
        (let wildcard = prefix ''*.'' val in
         if CHR ''*'' \<in> set val \<and> \<not> wildcard then Inl AssetHostnameRuleValidationError
         else if wildcard \<and> py_count (CHR ''*'') val \<noteq> 1 then Inl AssetHostnameRuleValidationError
         else if rule_type = ''include'' \<and> \<not> wildcard then Inl AssetHostnameRuleValidationError
         else
           res_bind (normalize_dns_hostname idna (if wildcard then drop 2 val else val)) (\<lambda>normalized.
             if wildcard \<and> length (py_split (CHR ''.'') normalized) < 2 then
               Inl AssetHostnameRuleValidationError
             else Inr (if wildcard then ''*.'' @ normalized else normalized))))"

definition normalize_candidate_hostname :: "idna_codec \<Rightarrow> string \<Rightarrow> hostname_rule_error + string" where
  "normalize_candidate_hostname idna val = normalize_dns_hostname idna val"

subsection \<open>Matching\<close>

definition pattern_matches :: "string \<Rightarrow> string \<Rightarrow> bool" where
  "pattern_matches pattern hostname \<longleftrightarrow>
     (if prefix ''*.'' pattern
      then hostname \<noteq> drop 2 pattern \<and> suffix (CHR ''.'' # drop 2 pattern) hostname
      else hostname = pattern)"

text \<open>The key of \<open>max\<close>, compared lexicographically; \<open>max\<close> returns the first of several maxima.\<close>

definition rule_key :: "asset_hostname_rule \<Rightarrow> nat \<times> nat \<times> int" where
  "rule_key r =
     (py_count (CHR ''.'') (ahr_hostname_pattern r), py_len (ahr_hostname_pattern r), - ahr_id r)"

fun max_rule :: "asset_hostname_rule \<Rightarrow> asset_hostname_rule list \<Rightarrow> asset_hostname_rule" where
  "max_rule best [] = best"
| "max_rule best (r # rs) = max_rule (if rule_key best < rule_key r then r else best) rs"

fun select_rule :: "asset_hostname_rule list \<Rightarrow> asset_hostname_rule option" where
  "select_rule [] = None"
| "select_rule (r # rs) = Some (max_rule r rs)"

definition relevant_rules ::
  "row_id \<Rightarrow> string \<Rightarrow> asset_hostname_rule list \<Rightarrow> asset_hostname_rule list" where
  "relevant_rules revision_id hostname rules =
     filter (\<lambda>r. ahr_authorization_revision_id r = revision_id
       \<and> ahr_rule_type r \<in> {''include'', ''exclude''}
       \<and> pattern_matches (ahr_hostname_pattern r) hostname) rules"

definition match_asset_candidate ::
  "idna_codec \<Rightarrow> row_id \<Rightarrow> string \<Rightarrow> asset_hostname_rule list \<Rightarrow> asset_candidate_rule_decision" where
  "match_asset_candidate idna revision_id candidate rules =
     (case normalize_candidate_hostname idna candidate of
        Inl _ \<Rightarrow> \<lparr>acr_eligible = False, acr_code = ''asset_candidate_invalid'',
                 acr_normalized_hostname = None, acr_matched_include_rule_id = None,
                 acr_matched_exclude_rule_id = None\<rparr>
      | Inr hostname \<Rightarrow>
        (let relevant = relevant_rules revision_id hostname rules;
             included = select_rule (filter (\<lambda>r. ahr_rule_type r = ''include'') relevant);
             excluded = select_rule (filter (\<lambda>r. ahr_rule_type r = ''exclude'') relevant) in
         case excluded of
           Some x \<Rightarrow> \<lparr>acr_eligible = False, acr_code = ''asset_candidate_excluded'',
                     acr_normalized_hostname = Some hostname,
                     acr_matched_include_rule_id = map_option ahr_id included,
                     acr_matched_exclude_rule_id = Some (ahr_id x)\<rparr>
         | None \<Rightarrow>
           (case included of
              None \<Rightarrow> \<lparr>acr_eligible = False, acr_code = ''asset_candidate_not_included'',
                       acr_normalized_hostname = Some hostname, acr_matched_include_rule_id = None,
                       acr_matched_exclude_rule_id = None\<rparr>
            | Some i \<Rightarrow> \<lparr>acr_eligible = True, acr_code = ''asset_candidate_included'',
                        acr_normalized_hostname = Some hostname,
                        acr_matched_include_rule_id = Some (ahr_id i),
                        acr_matched_exclude_rule_id = None\<rparr>)))"

subsection \<open>DNS classification\<close>

definition MAX_CNAME_HOPS :: nat where
  "MAX_CNAME_HOPS = 8"

definition MAX_RESOLVED_ADDRESSES :: nat where
  "MAX_RESOLVED_ADDRESSES = 16"

text \<open>What \<open>lookup_cname\<close> does: raise, return \<open>None\<close> or return a name.\<close>

datatype cname_answer = CnameRaised | NoCname | Cname string

record asset_candidate_dns_resolver =
  lookup_cname :: "string \<Rightarrow> cname_answer"
  resolve_addresses :: resolver

record asset_candidate_dns_decision =
  dnsd_code :: string
  dnsd_normalized_hostname :: "string option"
  dnsd_cname_chain :: "string list"
  dnsd_terminal_hostname :: "string option"
  dnsd_resolved_addresses :: "string list"
  dnsd_address_categories :: "address_category list"

text \<open>The loop ends at a name without a CNAME, or with the code of a final decision.\<close>

datatype cname_end =
  CnameTerminal (end_chain: "string list") (end_current: string)
| CnameStopped (end_code: string) (end_chain: "string list") (end_current: string)

partial_function (option) cname_loop ::
  "idna_codec \<Rightarrow> asset_candidate_dns_resolver \<Rightarrow> string \<Rightarrow> string list \<Rightarrow> string list \<Rightarrow> cname_end option" where
  "cname_loop idna rsv current chain observed =
     (case lookup_cname rsv current of
        CnameRaised \<Rightarrow> Some (CnameStopped ''asset_candidate_dns_resolution_failed'' chain current)
      | NoCname \<Rightarrow> Some (CnameTerminal chain current)
      | Cname target \<Rightarrow>
        if length chain = MAX_CNAME_HOPS then
          Some (CnameStopped ''asset_candidate_dns_cname_limit_exceeded'' chain current)
        else
          (case normalize_candidate_hostname idna target of
             Inl _ \<Rightarrow> Some (CnameStopped ''asset_candidate_dns_invalid'' chain current)
           | Inr canonical_target \<Rightarrow>
             if canonical_target \<in> set observed then
               Some (CnameStopped ''asset_candidate_dns_cname_cycle'' (chain @ [canonical_target]) current)
             else
               cname_loop idna rsv canonical_target (chain @ [canonical_target])
                 (canonical_target # observed)))"

declare cname_loop.simps [code]

fun resolver_address :: "resolver_value \<Rightarrow> ip_address option" where
  "resolver_address (RIp ip) = Some ip"
| "resolver_address (RText s) = ip_address_of s"
| "resolver_address RMalformed = None"

text \<open>\<open>unique_addresses\<close> grows value by value; \<open>Inl\<close> is the code of a final decision.\<close>

fun collect_addresses :: "resolver_value list \<Rightarrow> ip_address list \<Rightarrow> string + ip_address list" where
  "collect_addresses [] unique = Inr unique"
| "collect_addresses (v # vs) unique =
     (case resolver_address v of
        None \<Rightarrow> Inl ''asset_candidate_dns_resolution_failed''
      | Some ip \<Rightarrow>
        (let unique' = (if ip \<in> set unique then unique else unique @ [ip]) in
         if length unique' > MAX_RESOLVED_ADDRESSES then
           Inl ''asset_candidate_dns_address_limit_exceeded''
         else collect_addresses vs unique'))"

definition candidate_addresses :: "asset_candidate_dns_resolver \<Rightarrow> string \<Rightarrow> string + ip_address list" where
  "candidate_addresses rsv current =
     (case resolve_addresses rsv current of
        None \<Rightarrow> Inl ''asset_candidate_dns_resolution_failed''
      | Some RBareString \<Rightarrow> Inl ''asset_candidate_dns_resolution_failed''
      | Some (RIterable vs) \<Rightarrow> res_map (sort_key ip_key) (collect_addresses vs []))"

definition dns_code :: "address_category list \<Rightarrow> string" where
  "dns_code categories =
     (if list_all (\<lambda>c. c = PUBLIC) categories then ''asset_candidate_dns_public_only''
      else if list_all (\<lambda>c. c \<in> {LOOPBACK, PRIVATE}) categories then
        ''asset_candidate_dns_private_local_only''
      else ''asset_candidate_dns_prohibited'')"

definition dns_decision ::
  "string \<Rightarrow> string option \<Rightarrow> string list \<Rightarrow> string option \<Rightarrow> ip_address list \<Rightarrow> asset_candidate_dns_decision" where
  "dns_decision cd normalized chain terminal addresses =
     \<lparr>dnsd_code = cd, dnsd_normalized_hostname = normalized, dnsd_cname_chain = chain,
      dnsd_terminal_hostname = terminal, dnsd_resolved_addresses = map compressed addresses,
      dnsd_address_categories = map classify_address addresses\<rparr>"

definition classify_terminal ::
  "asset_candidate_dns_resolver \<Rightarrow> string \<Rightarrow> cname_end \<Rightarrow> asset_candidate_dns_decision" where
  "classify_terminal rsv normalized e =
     (case e of
        CnameStopped cd chain current \<Rightarrow> dns_decision cd (Some normalized) chain (Some current) []
      | CnameTerminal chain current \<Rightarrow>
        (case candidate_addresses rsv current of
           Inl cd \<Rightarrow> dns_decision cd (Some normalized) chain (Some current) []
         | Inr addresses \<Rightarrow>
           if addresses = [] then
             dns_decision ''asset_candidate_dns_resolution_failed'' (Some normalized) chain (Some current) []
           else
             dns_decision (dns_code (map classify_address addresses)) (Some normalized) chain
               (Some current) addresses))"

text \<open>\<open>None\<close> would be a call that does not return.\<close>

definition classify_asset_candidate_dns ::
  "idna_codec \<Rightarrow> asset_candidate_dns_resolver \<Rightarrow> string \<Rightarrow> asset_candidate_dns_decision option" where
  "classify_asset_candidate_dns idna rsv hostname =
     (case normalize_candidate_hostname idna hostname of
        Inl _ \<Rightarrow> Some (dns_decision ''asset_candidate_dns_invalid'' None [] None [])
      | Inr normalized \<Rightarrow>
        map_option (classify_terminal rsv normalized) (cname_loop idna rsv normalized [] [normalized]))"

subsection \<open>The dnspython adapter\<close>

text \<open>
  What a query of \<open>dns.resolver.Resolver.resolve\<close> does: \<open>NoAnswer\<close>, another exception the adapter
  catches, or an answer. A record is given by its \<open>target.to_text()\<close> or its \<open>address\<close>, \<open>None\<close> when
  reading it raises one of the exceptions the adapter catches. \<open>from_text\<close> is
  \<open>dns.name.from_text\<close>, \<open>None\<close> on a \<open>DNSException\<close>, with the name and whether it is absolute.
\<close>

datatype dns_answer = DnsNoAnswer | DnsRaised | DnsAnswer "string option list"

type_synonym dns_from_text = "string \<Rightarrow> (string \<times> bool) option"
type_synonym dns_query = "string \<Rightarrow> string \<Rightarrow> dns_answer"

definition absolute_name :: "idna_codec \<Rightarrow> dns_from_text \<Rightarrow> string \<Rightarrow> string option" where
  "absolute_name idna from_text hostname =
     (case normalize_candidate_hostname idna hostname of
        Inl _ \<Rightarrow> None
      | Inr normalized \<Rightarrow>
        (case from_text (normalized @ ''.'') of
           None \<Rightarrow> None
         | Some (name, is_absolute) \<Rightarrow> if \<not> is_absolute then None else Some name))"

definition dnspython_resolve ::
  "idna_codec \<Rightarrow> dns_from_text \<Rightarrow> dns_query \<Rightarrow> string \<Rightarrow> string \<Rightarrow> dns_answer" where
  "dnspython_resolve idna from_text ask hostname record_type =
     (case absolute_name idna from_text hostname of
        None \<Rightarrow> DnsRaised
      | Some name \<Rightarrow> ask name record_type)"

definition dnspython_lookup_cname ::
  "idna_codec \<Rightarrow> dns_from_text \<Rightarrow> dns_query \<Rightarrow> string \<Rightarrow> cname_answer" where
  "dnspython_lookup_cname idna from_text ask hostname =
     (case dnspython_resolve idna from_text ask hostname ''CNAME'' of
        DnsRaised \<Rightarrow> CnameRaised
      | DnsNoAnswer \<Rightarrow> NoCname
      | DnsAnswer [Some t] \<Rightarrow> Cname t
      | DnsAnswer _ \<Rightarrow> CnameRaised)"

fun dnspython_records :: "dns_answer \<Rightarrow> string list option" where
  "dnspython_records DnsRaised = None"
| "dnspython_records DnsNoAnswer = Some []"
| "dnspython_records (DnsAnswer rs) = (if None \<in> set rs then None else Some (map the rs))"

definition dnspython_resolve_addresses ::
  "idna_codec \<Rightarrow> dns_from_text \<Rightarrow> dns_query \<Rightarrow> resolver" where
  "dnspython_resolve_addresses idna from_text ask hostname =
     (case dnspython_records (dnspython_resolve idna from_text ask hostname ''A'') of
        None \<Rightarrow> None
      | Some v4 \<Rightarrow>
        (case dnspython_records (dnspython_resolve idna from_text ask hostname ''AAAA'') of
           None \<Rightarrow> None
         | Some v6 \<Rightarrow> Some (RIterable (map RText (v4 @ v6)))))"

definition dnspython_resolver ::
  "idna_codec \<Rightarrow> dns_from_text \<Rightarrow> dns_query \<Rightarrow> asset_candidate_dns_resolver" where
  "dnspython_resolver idna from_text ask =
     \<lparr>lookup_cname = dnspython_lookup_cname idna from_text ask,
      resolve_addresses = dnspython_resolve_addresses idna from_text ask\<rparr>"

subsection \<open>Normalised names\<close>

text \<open>The form of a normalised name: at most 253 characters in non-empty DNS labels.\<close>

definition dns_name :: "string \<Rightarrow> bool" where
  "dns_name h \<longleftrightarrow> length h \<le> 253 \<and> list_all label_ok (py_split (CHR ''.'') h)"

lemma normalize_dns_name: "normalize_dns_hostname idna v = Inr h \<Longrightarrow> dns_name h"
  by (auto simp: normalize_dns_hostname_def dns_name_def Let_def split: if_splits option.splits)

lemma chars_of_split: "\<forall>l \<in> set (py_split c s). list_all P l \<Longrightarrow> x \<in> set s \<Longrightarrow> x = c \<or> P x"
proof (induction s)
  case (Cons y s)
  then show ?case by (cases "py_split c s") (auto split: if_splits)
qed simp

lemma last_py_split: "s = [] \<or> last s = c \<Longrightarrow> last (py_split c s) = []"
  using py_split_append[of c "butlast s" "[]"] by (cases "s = []") (auto simp: append_butlast_last_id)

lemma dns_name_chars: "dns_name h \<Longrightarrow> x \<in> set h \<Longrightarrow> x = CHR ''.'' \<or> label_char x"
  by (rule chars_of_split[of "CHR ''.''" h]) (auto simp: dns_name_def label_ok_def list_all_iff)

lemma label_char_ord: "label_char x \<longleftrightarrow> (97 \<le> ord x \<and> ord x \<le> 122) \<or> (48 \<le> ord x \<and> ord x \<le> 57) \<or> ord x = 45"
proof -
  have "x = CHR ''-'' \<longleftrightarrow> ord x = 45" using ord_inject[of x "CHR ''-''"] by (simp add: ord_def)
  then show ?thesis by (simp add: label_char_def is_lower_def is_digit_def)
qed

lemma dns_name_ord:
  assumes "dns_name h" "x \<in> set h"
  shows "ord x = 46 \<or> (97 \<le> ord x \<and> ord x \<le> 122) \<or> (48 \<le> ord x \<and> ord x \<le> 57) \<or> ord x = 45"
  using dns_name_chars[OF assms] label_char_ord[of x] by (auto simp: ord_def[of "CHR ''.''"])

lemma dns_name_avoids:
  assumes "dns_name h" "ord c \<notin> {45, 46} \<union> {48..57} \<union> {97..122}"
  shows "c \<notin> set h"
  using dns_name_ord[OF assms(1), of c] assms(2) by auto

lemma dns_name_lower: "dns_name h \<Longrightarrow> py_lower h = h"
  unfolding py_lower_def
  by (rule map_idI) (use dns_name_ord in \<open>fastforce simp: lower_char_def is_upper_def\<close>)

lemma dns_name_ascii: "dns_name h \<Longrightarrow> list_all is_ascii h"
  using dns_name_ord by (fastforce simp: list_all_iff is_ascii_def)

lemma dns_name_isspace:
  assumes "dns_name h"
  shows "\<not> any_isspace h"
proof -
  have "\<not> list_ex is_space h"
    using dns_name_ord[OF assms] by (fastforce simp: list_ex_iff is_space_def)
  moreover have "\<not> sublist u h" if "u \<in> set unicode_spaces" for u
  proof
    assume "sublist u h"
    then have "hd u \<in> set h"
      using that by (auto simp: unicode_spaces_def dest: set_mono_sublist)
    then show False
      using dns_name_ord[OF assms, of "hd u"] that by (auto simp: unicode_spaces_def ord_def)
  qed
  ultimately show ?thesis by (auto simp: any_isspace_def py_contains_iff list_ex_iff)
qed

lemma dns_name_last: "dns_name h \<Longrightarrow> h \<noteq> [] \<and> last h \<noteq> CHR ''.''"
  using last_py_split[of h "CHR ''.''"] last_in_set[OF py_split_not_Nil[of "CHR ''.''" h]]
  by (auto simp: dns_name_def list_all_iff label_ok_def)

lemma dns_name_encode:
  assumes "dns_name h"
  shows "encode_idna idna h = Some h"
proof -
  have "0 < length l \<and> length l < 64" if "l \<in> set (py_split (CHR ''.'') h)" for l
    using that assms by (force simp: dns_name_def list_all_iff label_ok_def)
  then have "list_all (\<lambda>l. 0 < length l \<and> length l < 64) (butlast (py_split (CHR ''.'') h))"
    "length (last (py_split (CHR ''.'') h)) < 64"
    using last_in_set[OF py_split_not_Nil[of "CHR ''.''" h]] by (auto simp: list_all_iff dest: in_set_butlastD)
  then show ?thesis using dns_name_ascii[OF assms] by (simp add: encode_idna_def Let_def)
qed

lemma normalize_dns_fixed:
  assumes "dns_name h"
  shows "normalize_dns_hostname idna h = Inr h \<longleftrightarrow> ip_address_of h = None"
proof -
  note av = dns_name_avoids[OF assms]
  have "\<not> list_ex (\<lambda>c. c \<in> set h) (''/?#@:'' @ [CHR 0x5C] @ ''[]'')" "CHR ''*'' \<notin> set h"
    by (simp_all add: av ord_def)
  moreover have "\<not> suffix ''.'' h"
    using dns_name_last[OF assms] by (auto simp: suffix_def)
  moreover have "\<not> length h > 253" "list_all label_ok (py_split (CHR ''.'') h)"
    using assms by (auto simp: dns_name_def)
  ultimately show ?thesis
    using dns_name_last[OF assms] dns_name_isspace[OF assms] dns_name_lower[OF assms]
      dns_name_encode[OF assms, of idna]
    by (simp add: normalize_dns_hostname_def split: option.splits)
qed

text \<open>On ASCII texts lower-casing cannot make an address literal out of a name.\<close>

lemma parse_octets_digits: "parse_octets ps = Some ns \<Longrightarrow> p \<in> set ps \<Longrightarrow> list_all is_digit p"
  by (induction ps arbitrary: ns) (auto simp: parse_octet_def split: option.splits if_splits)

lemma lower_digit: "is_digit (lower_char c) \<Longrightarrow> lower_char c = c"
  by (auto simp: is_digit_def lower_char_def is_upper_def)

lemma ip_no_colon: "CHR '':'' \<notin> set s \<Longrightarrow> ip_address_of s = map_option IPv4Address (parse_ipv4 s)"
proof -
  assume s: "CHR '':'' \<notin> set s"
  obtain a f b where p: "py_partition (CHR ''%'') s = (a, f, b)" by (metis prod_cases3)
  have "set a \<subseteq> set s" using set_py_partition[of "CHR ''%''" s] p by auto
  then have "py_split (CHR '':'') a = [a]" using s by (intro py_split_no_sep) blast
  then have "parse_ipv6_int a = None" by (simp add: parse_ipv6_int_def Let_def)
  then have "parse_ipv6 s = None" using p by (simp add: parse_ipv6_def)
  then show ?thesis by (simp add: ip_address_of_def split: option.splits)
qed

lemma ip_lower_ascii:
  assumes "CHR '':'' \<notin> set s" "ip_address_of s = None"
  shows "ip_address_of (py_lower s) = None"
proof (rule ccontr)
  assume "ip_address_of (py_lower s) \<noteq> None"
  moreover have "CHR '':'' \<notin> set (py_lower s)"
  proof
    assume "CHR '':'' \<in> set (py_lower s)"
    then obtain c where c: "c \<in> set s" "lower_char c = CHR '':''" by (auto simp: py_lower_def)
    then have "ord (lower_char c) = 58" by (simp add: ord_def)
    then have "\<not> is_upper c" by (auto simp: lower_char_def is_upper_def)
    then show False using c assms(1) by (simp add: lower_char_def)
  qed
  ultimately have "parse_ipv4 (py_lower s) \<noteq> None" by (simp add: ip_no_colon)
  then obtain ns where "parse_octets (py_split (CHR ''.'') (py_lower s)) = Some ns"
    by (auto simp: parse_ipv4_def Let_def split: if_splits)
  then have ch: "x = CHR ''.'' \<or> is_digit x" if "x \<in> set (py_lower s)" for x
    using parse_octets_digits chars_of_split[OF _ that] by metis
  have "py_lower s = s"
    unfolding py_lower_def
  proof (rule map_idI)
    fix c assume "c \<in> set s"
    then have "lower_char c = CHR ''.'' \<or> is_digit (lower_char c)" using ch[of "lower_char c"] by (auto simp: py_lower_def)
    then show "lower_char c = c" using lower_digit[of c] by auto
  qed
  with assms(2) \<open>ip_address_of (py_lower s) \<noteq> None\<close> show False by simp
qed

lemma normalize_ascii_no_ip:
  assumes "normalize_dns_hostname idna v = Inr h" "list_all is_ascii v"
  shows "ip_address_of h = None"
proof -
  let ?raw = "if suffix ''.'' v then butlast v else v"
  have raw: "ip_address_of ?raw = None" "encode_idna idna (py_lower ?raw) = Some h" "CHR '':'' \<notin> set v"
    using assms(1) by (auto simp: normalize_dns_hostname_def Let_def split: if_splits option.splits)
  have sub: "set ?raw \<subseteq> set v" by (auto dest: in_set_butlastD)
  then have "list_all is_ascii (py_lower ?raw)" using assms(2) by (auto simp: list_all_iff py_lower_def)
  then have "h = py_lower ?raw" using raw(2) by (simp add: encode_idna_def Let_def split: if_splits)
  then show ?thesis using ip_lower_ascii[OF _ raw(1)] raw(3) sub by (metis subsetD)
qed

subsection \<open>What a pattern covers\<close>

text \<open>
  The meaning of a pattern, by labels: \<open>*.s\<close> covers the names with at least one label in front
  of those of \<open>s\<close>, any other pattern itself.
\<close>

definition pattern_covers :: "string \<Rightarrow> string \<Rightarrow> bool" where
  "pattern_covers pattern h \<longleftrightarrow>
     (case py_split (CHR ''.'') pattern of
        ''*'' # labels \<Rightarrow> (\<exists>ls. ls \<noteq> [] \<and> labels \<noteq> [] \<and> py_split (CHR ''.'') h = ls @ labels)
                        \<or> labels = [] \<and> h = pattern
      | _ \<Rightarrow> h = pattern)"

lemma join_split: "join_with [c] (py_split c s) = s"
proof (induction s)
  case (Cons x s)
  obtain p ps where "py_split c s = p # ps" using py_split_not_Nil by (cases "py_split c s") auto
  with Cons show ?case by (cases ps) auto
qed simp

lemma split_inject: "py_split c s = py_split c t \<Longrightarrow> s = t"
  by (metis join_split)

lemma join_append: "xs \<noteq> [] \<Longrightarrow> ys \<noteq> [] \<Longrightarrow> join_with sep (xs @ ys) = join_with sep xs @ sep @ join_with sep ys"
proof (induction xs)
  case (Cons x xs)
  then show ?case by (cases "xs = []"; cases ys) (auto simp: neq_Nil_conv)
qed simp

lemma suffix_labels:
  "suffix (c # s) h \<longleftrightarrow> (\<exists>ls. ls \<noteq> [] \<and> py_split c h = ls @ py_split c s)"
proof
  assume "suffix (c # s) h"
  then show "\<exists>ls. ls \<noteq> [] \<and> py_split c h = ls @ py_split c s"
    by (auto simp: suffix_def py_split_append py_split_not_Nil)
next
  assume "\<exists>ls. ls \<noteq> [] \<and> py_split c h = ls @ py_split c s"
  then obtain ls where "ls \<noteq> []" "py_split c h = ls @ py_split c s" by blast
  then have "h = join_with [c] ls @ [c] @ s"
    using join_append[of ls "py_split c s" "[c]"] join_split[of c h] join_split[of c s] py_split_not_Nil[of c s] by simp
  then show "suffix (c # s) h" by (auto simp: suffix_def)
qed

lemma star_labels: "(\<exists>ls. py_split (CHR ''.'') p = ''*'' # ls \<and> ls \<noteq> []) \<longleftrightarrow> prefix ''*.'' p"
proof
  assume "\<exists>ls. py_split (CHR ''.'') p = ''*'' # ls \<and> ls \<noteq> []"
  then obtain ls where "py_split (CHR ''.'') p = ''*'' # ls" "ls \<noteq> []" by blast
  then have "p = ''*'' @ ''.'' @ join_with ''.'' ls"
    using join_append[of "[''*'']" ls "''.''"] join_split[of "CHR ''.''" p] by simp
  then show "prefix ''*.'' p" by simp
next
  assume "prefix ''*.'' p"
  then obtain r where "p = ''*'' @ CHR ''.'' # r" by (auto simp: prefix_def)
  then show "\<exists>ls. py_split (CHR ''.'') p = ''*'' # ls \<and> ls \<noteq> []"
    using py_split_append[of "CHR ''.''" "''*''" r] by (simp add: py_split_not_Nil)
qed

lemma pattern_matches_covers: "pattern_matches pattern h \<longleftrightarrow> pattern_covers pattern h"
proof (cases "prefix ''*.'' pattern")
  case True
  then obtain r where p: "pattern = CHR ''*'' # CHR ''.'' # r" by (auto simp: prefix_def)
  then have sp: "py_split (CHR ''.'') pattern = ''*'' # py_split (CHR ''.'') r"
    using py_split_append[of "CHR ''.''" "''*''" r] by simp
  have "h \<noteq> r" if "suffix (CHR ''.'' # r) h" using that suffix_length_le by fastforce
  then show ?thesis
    using p sp suffix_labels[of "CHR ''.''" r h] py_split_not_Nil[of "CHR ''.''" r]
    by (auto simp: pattern_matches_def pattern_covers_def)
next
  case False
  then show ?thesis
    using star_labels[of pattern]
    by (auto simp: pattern_matches_def pattern_covers_def split: list.splits char.splits bool.splits)
qed

subsection \<open>The selected rules\<close>

definition rule_covers :: "row_id \<Rightarrow> string \<Rightarrow> string \<Rightarrow> asset_hostname_rule \<Rightarrow> bool" where
  "rule_covers revision_id kind h r \<longleftrightarrow>
     ahr_authorization_revision_id r = revision_id \<and> ahr_rule_type r = kind
     \<and> pattern_covers (ahr_hostname_pattern r) h"

lemma max_rule_spec:
  "max_rule b rs \<in> set (b # rs) \<and> (\<forall>r \<in> set (b # rs). rule_key r \<le> rule_key (max_rule b rs))"
proof (induction rs arbitrary: b)
  case (Cons r rs)
  show ?case
    using Cons.IH[of r] Cons.IH[of b] by (auto intro: order_trans[OF less_imp_le] simp: not_less)
qed simp

lemma select_rule_Some:
  "select_rule rs = Some r \<Longrightarrow> r \<in> set rs \<and> (\<forall>r' \<in> set rs. rule_key r' \<le> rule_key r)"
  by (cases rs) (use max_rule_spec in auto)

lemma select_rule_None: "select_rule rs = None \<longleftrightarrow> rs = []"
  by (cases rs) auto

lemma relevant_kind:
  assumes "kind \<in> {''include'', ''exclude''}"
  shows "r \<in> set (filter (\<lambda>r. ahr_rule_type r = kind) (relevant_rules rid h rules))
     \<longleftrightarrow> r \<in> set rules \<and> rule_covers rid kind h r"
  using assms by (auto simp: relevant_rules_def rule_covers_def pattern_matches_covers)

text \<open>The most specific covering rule of a kind, as a decision reports it.\<close>

definition reports_rule :: "row_id \<Rightarrow> string \<Rightarrow> string \<Rightarrow> asset_hostname_rule list \<Rightarrow> row_id option \<Rightarrow> bool" where
  "reports_rule rid kind h rules i \<longleftrightarrow>
     (case i of
        None \<Rightarrow> \<not> (\<exists>r \<in> set rules. rule_covers rid kind h r)
      | Some n \<Rightarrow> (\<exists>r \<in> set rules. ahr_id r = n \<and> rule_covers rid kind h r
                  \<and> (\<forall>r' \<in> set rules. rule_covers rid kind h r' \<longrightarrow> rule_key r' \<le> rule_key r)))"

lemma select_reports:
  assumes "kind \<in> {''include'', ''exclude''}"
  shows "reports_rule rid kind h rules
    (map_option ahr_id (select_rule (filter (\<lambda>r. ahr_rule_type r = kind) (relevant_rules rid h rules))))"
proof -
  let ?fs = "filter (\<lambda>r. ahr_rule_type r = kind) (relevant_rules rid h rules)"
  note k = relevant_kind[OF assms, of _ rid h rules]
  show ?thesis
  proof (cases "select_rule ?fs")
    case None
    then have "?fs = []" by (simp add: select_rule_None)
    then have "\<not> (r \<in> set rules \<and> rule_covers rid kind h r)" for r using k[of r] by simp
    then show ?thesis using None by (auto simp: reports_rule_def)
  next
    case (Some r)
    then show ?thesis using select_rule_Some[OF Some] k by (auto simp: reports_rule_def)
  qed
qed

lemma match_invalid: "normalize_candidate_hostname idna c = Inl e \<Longrightarrow>
  acr_code (match_asset_candidate idna rid c rules) = ''asset_candidate_invalid''"
  by (simp add: match_asset_candidate_def)

lemma match_valid:
  fixes rid :: row_id and rules :: "asset_hostname_rule list"
  assumes "normalize_candidate_hostname idna c = Inr h"
  defines "d \<equiv> match_asset_candidate idna rid c rules"
  defines "excl \<equiv> \<exists>r \<in> set rules. rule_covers rid ''exclude'' h r"
  defines "incl \<equiv> \<exists>r \<in> set rules. rule_covers rid ''include'' h r"
  shows "acr_eligible d \<longleftrightarrow> incl \<and> \<not> excl"
    and "acr_code d = (if excl then ''asset_candidate_excluded''
          else if incl then ''asset_candidate_included'' else ''asset_candidate_not_included'')"
    and "acr_normalized_hostname d = Some h"
    and "reports_rule rid ''include'' h rules (acr_matched_include_rule_id d)"
    and "reports_rule rid ''exclude'' h rules (acr_matched_exclude_rule_id d)"
proof -
  define i where "i = select_rule (filter (\<lambda>r. ahr_rule_type r = ''include'') (relevant_rules rid h rules))"
  define x where "x = select_rule (filter (\<lambda>r. ahr_rule_type r = ''exclude'') (relevant_rules rid h rules))"
  have ri: "reports_rule rid ''include'' h rules (map_option ahr_id i)"
    and rx: "reports_rule rid ''exclude'' h rules (map_option ahr_id x)"
    unfolding i_def x_def by (rule select_reports; simp)+
  have "i = None \<longleftrightarrow> \<not> incl" "x = None \<longleftrightarrow> \<not> excl"
    using ri rx by (cases i; cases x; auto simp: reports_rule_def incl_def excl_def)+
  note ix = this ri rx
  have d: "d = match_asset_candidate idna rid c rules" by (simp add: d_def)
  note d = d[unfolded match_asset_candidate_def, simplified assms(1) sum.case Let_def, folded i_def x_def]
  show "acr_eligible d \<longleftrightarrow> incl \<and> \<not> excl"
    and "acr_code d = (if excl then ''asset_candidate_excluded''
          else if incl then ''asset_candidate_included'' else ''asset_candidate_not_included'')"
    and "acr_normalized_hostname d = Some h"
    and "reports_rule rid ''include'' h rules (acr_matched_include_rule_id d)"
    and "reports_rule rid ''exclude'' h rules (acr_matched_exclude_rule_id d)"
    using d ix by (cases i; cases x; simp)+
qed

subsection \<open>Following CNAME records\<close>

fun cname_path :: "idna_codec \<Rightarrow> asset_candidate_dns_resolver \<Rightarrow> string \<Rightarrow> string list \<Rightarrow> bool" where
  "cname_path idna rsv h [] \<longleftrightarrow> True"
| "cname_path idna rsv h (c # cs) \<longleftrightarrow>
     (\<exists>t. lookup_cname rsv h = Cname t \<and> normalize_candidate_hostname idna t = Inr c) \<and> cname_path idna rsv c cs"

lemma cname_path_snoc:
  "cname_path idna rsv h (cs @ [c]) \<longleftrightarrow>
     cname_path idna rsv h cs
     \<and> (\<exists>t. lookup_cname rsv (last (h # cs)) = Cname t \<and> normalize_candidate_hostname idna t = Inr c)"
  by (induction idna rsv h cs rule: cname_path.induct) auto

lemma cname_path_names: "cname_path idna rsv h cs \<Longrightarrow> c \<in> set cs \<Longrightarrow> dns_name c"
  by (induction idna rsv h cs rule: cname_path.induct)
    (auto simp: normalize_candidate_hostname_def dest: normalize_dns_name)

definition stop_codes :: "string list" where
  "stop_codes = [''asset_candidate_dns_resolution_failed'', ''asset_candidate_dns_cname_limit_exceeded'',
     ''asset_candidate_dns_invalid'', ''asset_candidate_dns_cname_cycle'']"

text \<open>How the loop can end when it starts at \<open>h\<close>.\<close>

definition cname_end_ok :: "idna_codec \<Rightarrow> asset_candidate_dns_resolver \<Rightarrow> string \<Rightarrow> cname_end \<Rightarrow> bool" where
  "cname_end_ok idna rsv h e \<longleftrightarrow>
     length (end_chain e) \<le> MAX_CNAME_HOPS \<and> cname_path idna rsv h (end_chain e)
     \<and> end_current e \<in> set (h # end_chain e)
     \<and> (case e of
          CnameTerminal chain current \<Rightarrow>
            distinct (h # chain) \<and> current = last (h # chain) \<and> lookup_cname rsv current = NoCname
        | CnameStopped cd chain current \<Rightarrow> cd \<in> set stop_codes)"

lemma cname_loop_ends:
  assumes "length chain \<le> MAX_CNAME_HOPS" "set observed = set (h # chain)" "distinct (h # chain)"
    and "cname_path idna rsv h chain"
  shows "\<exists>e. cname_loop idna rsv (last (h # chain)) chain observed = Some e \<and> cname_end_ok idna rsv h e"
  using assms
proof (induction "MAX_CNAME_HOPS - length chain" arbitrary: chain observed rule: less_induct)
  case less
  let ?cur = "last (h # chain)"
  have cur: "?cur \<in> set (h # chain)" by (rule last_in_set) simp
  show ?case
  proof (cases "lookup_cname rsv ?cur")
    case CnameRaised
    then show ?thesis using less.prems cur
      by (subst cname_loop.simps) (simp add: cname_end_ok_def stop_codes_def del: last.simps)
  next
    case NoCname
    then show ?thesis using less.prems cur
      by (subst cname_loop.simps) (simp add: cname_end_ok_def del: last.simps)
  next
    case (Cname t)
    show ?thesis
    proof (cases "length chain = MAX_CNAME_HOPS")
      case True
      with Cname show ?thesis using less.prems cur
        by (subst cname_loop.simps) (simp add: cname_end_ok_def stop_codes_def del: last.simps)
    next
      case False
      then have less8: "length (chain @ [c]) \<le> MAX_CNAME_HOPS" for c using less.prems by simp
      show ?thesis
      proof (cases "normalize_candidate_hostname idna t")
        case (Inl er)
        with Cname False show ?thesis using less.prems cur
          by (subst cname_loop.simps) (simp add: cname_end_ok_def stop_codes_def del: last.simps)
      next
        case (Inr c)
        then have path: "cname_path idna rsv h (chain @ [c])" using Cname less.prems by (simp add: cname_path_snoc del: last.simps)
        show ?thesis
        proof (cases "c \<in> set observed")
          case True
          with Cname False Inr show ?thesis using cur path less8[of c]
            by (subst cname_loop.simps) (auto simp: cname_end_ok_def stop_codes_def simp del: last.simps)
        next
          case new: False
          then have dist: "distinct (h # (chain @ [c]))" using less.prems by auto
          have "\<exists>e. cname_loop idna rsv (last (h # chain @ [c])) (chain @ [c]) (c # observed) = Some e
              \<and> cname_end_ok idna rsv h e"
            using less.prems False
            by (intro less.hyps[OF _ less8 _ dist path]) (auto simp del: last.simps)
          then show ?thesis using Cname False Inr new by (subst cname_loop.simps) (simp del: last.simps add: last_snoc[of "h # chain", simplified])
        qed
      qed
    qed
  qed
qed

lemma cname_loop_follows:
  assumes "cname_path idna rsv cur rest" "length chain + length rest \<le> MAX_CNAME_HOPS"
    and "distinct rest" "set rest \<inter> set observed = {}" "lookup_cname rsv (last (cur # rest)) = NoCname"
  shows "cname_loop idna rsv cur chain observed = Some (CnameTerminal (chain @ rest) (last (cur # rest)))"
  using assms
proof (induction rest arbitrary: cur chain observed)
  case Nil
  then show ?case by (subst cname_loop.simps) simp
next
  case (Cons c rest)
  then obtain t where t: "lookup_cname rsv cur = Cname t" "normalize_candidate_hostname idna t = Inr c" by auto
  have "cname_loop idna rsv c (chain @ [c]) (c # observed)
      = Some (CnameTerminal ((chain @ [c]) @ rest) (last (c # rest)))"
    using Cons.prems by (intro Cons.IH) auto
  then show ?case using Cons.prems t by (subst cname_loop.simps) simp
qed

subsection \<open>Collecting addresses\<close>

lemma collect_ok:
  assumes "collect_addresses vs u = Inr a" "distinct u" "length u \<le> MAX_RESOLVED_ADDRESSES"
  shows "distinct a \<and> length a \<le> MAX_RESOLVED_ADDRESSES
    \<and> (\<exists>ips. map resolver_address vs = map Some ips \<and> set a = set u \<union> set ips)"
  using assms
proof (induction vs arbitrary: u)
  case (Cons v vs)
  then obtain ip where ip: "resolver_address v = Some ip" by (auto split: option.splits)
  let ?u = "if ip \<in> set u then u else u @ [ip]"
  have "collect_addresses vs ?u = Inr a" "length ?u \<le> MAX_RESOLVED_ADDRESSES" "distinct ?u"
    using Cons.prems ip by (auto simp: Let_def split: if_splits)
  from Cons.IH[OF this(1,3,2)] obtain ips where
    "distinct a" "length a \<le> MAX_RESOLVED_ADDRESSES" "map resolver_address vs = map Some ips" "set a = set ?u \<union> set ips"
    by blast
  then show ?case using ip by (intro conjI exI[of _ "ip # ips"]) (auto split: if_splits)
qed simp

lemma collect_complete:
  assumes "map resolver_address vs = map Some ips" "card (set u \<union> set ips) \<le> MAX_RESOLVED_ADDRESSES" "distinct u"
  shows "\<exists>a. collect_addresses vs u = Inr a"
  using assms
proof (induction vs arbitrary: u ips)
  case (Cons v vs)
  then obtain ip ips' where ips: "ips = ip # ips'" "resolver_address v = Some ip" "map resolver_address vs = map Some ips'"
    by (cases ips) auto
  let ?u = "if ip \<in> set u then u else u @ [ip]"
  have set: "set ?u \<union> set ips' = set u \<union> set ips" using ips by auto
  have d: "distinct ?u" using Cons.prems by simp
  have "length ?u = card (set ?u)" using d by (simp add: distinct_card)
  also have "\<dots> \<le> card (set u \<union> set ips)" using ips(1) by (intro card_mono) auto
  finally have "length ?u \<le> MAX_RESOLVED_ADDRESSES" using Cons.prems(2) by simp
  moreover have "\<exists>a. collect_addresses vs ?u = Inr a"
    using Cons.prems(2) set by (intro Cons.IH[OF ips(3) _ d]) simp
  ultimately show ?case using ips by (auto simp: Let_def)
qed simp

lemma collect_codes:
  "collect_addresses vs u = Inl cd \<Longrightarrow>
   cd \<in> {''asset_candidate_dns_resolution_failed'', ''asset_candidate_dns_address_limit_exceeded''}"
  by (induction vs arbitrary: u) (auto simp: Let_def split: option.splits if_splits)

subsection \<open>Printed addresses fit their column\<close>

definition unscoped :: "ip_address \<Rightarrow> bool" where
  "unscoped ip \<longleftrightarrow> (case ip of IPv4Address a \<Rightarrow> True | IPv6Address a sc \<Rightarrow> sc = None)"

lemma length_join_with:
  "\<forall>p \<in> set ps. length p \<le> k \<Longrightarrow> length (join_with sep ps) \<le> length ps * (k + length sep)"
  by (induction sep ps rule: join_with.induct) auto

lemma length_compressed: "unscoped ip \<Longrightarrow> length (compressed ip) \<le> 45"
proof (cases ip)
  case (IPv4Address a)
  have "length (show_nat n) \<le> 3" if "n \<in> set (ipv4_octets a)" for n
    using that by (intro length_show_nat) (auto simp: ipv4_octets_def intro: order_less_trans)
  then have "length (join_with ''.'' (map show_nat (ipv4_octets a))) \<le> length (map show_nat (ipv4_octets a)) * (3 + length ''.'')"
    by (intro length_join_with) auto
  then show ?thesis using IPv4Address by (simp add: ipv4_octets_def)
next
  case (IPv6Address a sc)
  assume "unscoped ip"
  obtain s l where sl: "best_zero_run 0 (ipv6_hextets a) 0 (0, 0) = (s, l)"
    by (cases "best_zero_run 0 (ipv6_hextets a) 0 (0, 0)")
  have "length p \<le> 4" if "p \<in> set (compress_hextets (ipv6_hextets a))" for p
  proof -
    have "p = [] \<or> p \<in> set (map show_hex (ipv6_hextets a))"
      using sl that by (auto simp: compress_hextets_def Let_def split: if_splits dest!: in_set_takeD in_set_dropD)
    then show ?thesis using ipv6_hextets_range(2)[of a] by (auto intro!: length_show_hex)
  qed
  then have "length (join_with '':'' (compress_hextets (ipv6_hextets a))) \<le> length (compress_hextets (ipv6_hextets a)) * (4 + length '':'')"
    by (intro length_join_with) auto
  then show ?thesis
    using IPv6Address \<open>unscoped ip\<close> compress_hextets_parts(2)[OF ipv6_hextets_range(1)[of a]]
    by (simp add: unscoped_def)
qed

subsection \<open>The classification\<close>

lemma candidate_addresses_ok:
  assumes "candidate_addresses rsv t = Inr a"
  obtains vs ips where "resolve_addresses rsv t = Some (RIterable vs)" "map resolver_address vs = map Some ips"
    "set a = set ips" "distinct a" "length a \<le> MAX_RESOLVED_ADDRESSES" "sorted (map ip_key a)"
proof -
  from assms obtain vs b where v: "resolve_addresses rsv t = Some (RIterable vs)" "collect_addresses vs [] = Inr b" "a = sort_key ip_key b"
    by (auto simp: candidate_addresses_def split: option.splits resolver_result.splits)
  with collect_ok[OF v(2)] that show thesis by auto
qed

lemma candidate_addresses_codes:
  "candidate_addresses rsv t = Inl cd \<Longrightarrow>
   cd \<in> {''asset_candidate_dns_resolution_failed'', ''asset_candidate_dns_address_limit_exceeded''}"
  using collect_codes
  by (fastforce simp: candidate_addresses_def res_map_def split: option.splits resolver_result.splits sum.splits)

text \<open>
  The meaning of a successful resolution: from the normalised name a chain of at most
  eight CNAME records over distinct names leads to a name without one, whose answer consists
  of one to sixteen different addresses.
\<close>

definition dns_resolves ::
  "idna_codec \<Rightarrow> asset_candidate_dns_resolver \<Rightarrow> string \<Rightarrow> string list \<Rightarrow> ip_address list \<Rightarrow> bool" where
  "dns_resolves idna rsv h chain ips \<longleftrightarrow>
     length chain \<le> MAX_CNAME_HOPS \<and> distinct (h # chain) \<and> cname_path idna rsv h chain
     \<and> lookup_cname rsv (last (h # chain)) = NoCname
     \<and> (\<exists>vs. resolve_addresses rsv (last (h # chain)) = Some (RIterable vs) \<and> map resolver_address vs = map Some ips)
     \<and> ips \<noteq> [] \<and> card (set ips) \<le> MAX_RESOLVED_ADDRESSES"

definition verdict_codes :: "string list" where
  "verdict_codes = [''asset_candidate_dns_public_only'', ''asset_candidate_dns_private_local_only'',
     ''asset_candidate_dns_prohibited'']"

definition dns_decision_codes :: "string list" where
  "dns_decision_codes = verdict_codes @ stop_codes @ [''asset_candidate_dns_address_limit_exceeded'']"

lemma dns_code_verdict: "dns_code cs \<in> set verdict_codes"
  by (simp add: dns_code_def verdict_codes_def)

text \<open>What every decision on a normalised name \<open>h\<close> satisfies.\<close>

definition dns_decision_ok ::
  "idna_codec \<Rightarrow> asset_candidate_dns_resolver \<Rightarrow> string \<Rightarrow> asset_candidate_dns_decision \<Rightarrow> bool" where
  "dns_decision_ok idna rsv h d \<longleftrightarrow>
     dnsd_normalized_hostname d = Some h \<and> length (dnsd_cname_chain d) \<le> MAX_CNAME_HOPS
     \<and> cname_path idna rsv h (dnsd_cname_chain d)
     \<and> (\<exists>t. dnsd_terminal_hostname d = Some t \<and> t \<in> set (h # dnsd_cname_chain d))
     \<and> dnsd_code d \<in> set dns_decision_codes
     \<and> (\<exists>ips. dnsd_resolved_addresses d = map compressed ips
          \<and> dnsd_address_categories d = map classify_address ips
          \<and> distinct ips \<and> sorted (map ip_key ips) \<and> length ips \<le> MAX_RESOLVED_ADDRESSES
          \<and> (if dnsd_code d \<in> set verdict_codes
             then dnsd_code d = dns_code (map classify_address ips)
               \<and> (\<exists>ips'. dns_resolves idna rsv h (dnsd_cname_chain d) ips' \<and> set ips' = set ips)
             else ips = []))"

lemma classify_terminal_ok:
  assumes "cname_end_ok idna rsv h e"
  shows "dns_decision_ok idna rsv h (classify_terminal rsv h e)"
proof (cases e)
  case (CnameStopped cd chain cur)
  then show ?thesis using assms
    by (auto simp: dns_decision_ok_def classify_terminal_def dns_decision_def cname_end_ok_def
        dns_decision_codes_def stop_codes_def verdict_codes_def)
next
  case (CnameTerminal chain cur)
  then have e: "length chain \<le> MAX_CNAME_HOPS" "cname_path idna rsv h chain" "distinct (h # chain)"
    "cur = last (h # chain)" "lookup_cname rsv cur = NoCname" "cur \<in> set (h # chain)"
    using assms unfolding cname_end_ok_def by (auto simp del: last.simps)
  show ?thesis
  proof (cases "candidate_addresses rsv cur")
    case (Inl cd)
    then show ?thesis using e candidate_addresses_codes[OF Inl] CnameTerminal
      by (auto simp: dns_decision_ok_def classify_terminal_def dns_decision_def
          dns_decision_codes_def stop_codes_def verdict_codes_def simp del: last.simps)
  next
    case (Inr a)
    show ?thesis
    proof (cases "a = []")
      case True
      then show ?thesis using e Inr CnameTerminal
        by (auto simp: dns_decision_ok_def classify_terminal_def dns_decision_def
            dns_decision_codes_def stop_codes_def verdict_codes_def simp del: last.simps)
    next
      case False
      from candidate_addresses_ok[OF Inr] obtain vs ips where v: "resolve_addresses rsv cur = Some (RIterable vs)"
        "map resolver_address vs = map Some ips" "set a = set ips" "distinct a"
        "length a \<le> MAX_RESOLVED_ADDRESSES" "sorted (map ip_key a)" by blast
      have "card (set ips) = length a" using v by (metis distinct_card)
      then have "dns_resolves idna rsv h chain ips"
        using e v False unfolding dns_resolves_def by (auto simp del: last.simps)
      then have "\<exists>ips'. dns_resolves idna rsv h chain ips' \<and> set ips' = set a" using v(3) by blast
      then have "dns_decision_ok idna rsv h (dns_decision (dns_code (map classify_address a)) (Some h) chain (Some cur) a)"
        using e v dns_code_verdict[of "map classify_address a"]
        unfolding dns_decision_ok_def dns_decision_def
        by (intro conjI exI[of _ a] exI[of _ cur]) (simp_all add: dns_decision_codes_def del: last.simps)
      then show ?thesis using Inr False CnameTerminal by (simp add: classify_terminal_def)
    qed
  qed
qed

lemma classify_returns:
  assumes "normalize_candidate_hostname idna v = Inr h"
  obtains d where "classify_asset_candidate_dns idna rsv v = Some d" "dns_decision_ok idna rsv h d"
proof -
  obtain e where "cname_loop idna rsv h [] [h] = Some e" "cname_end_ok idna rsv h e"
    using cname_loop_ends[of "[]" "[h]" h idna rsv] by auto
  with classify_terminal_ok[OF this(2)] assms that show thesis
    by (auto simp: classify_asset_candidate_dns_def)
qed

lemma classify_resolved:
  assumes "normalize_candidate_hostname idna v = Inr h" "dns_resolves idna rsv h chain ips"
  shows "\<exists>a. set a = set ips \<and> classify_asset_candidate_dns idna rsv v
    = Some (dns_decision (dns_code (map classify_address a)) (Some h) chain (Some (last (h # chain))) a)"
proof -
  have loop: "cname_loop idna rsv h [] [h] = Some (CnameTerminal chain (last (h # chain)))"
    using cname_loop_follows[of idna rsv h chain "[]" "[h]"] assms(2) by (auto simp: dns_resolves_def)
  from assms(2) obtain vs where vs: "resolve_addresses rsv (last (h # chain)) = Some (RIterable vs)"
    "map resolver_address vs = map Some ips" by (auto simp: dns_resolves_def simp del: last.simps)
  then obtain b where b: "collect_addresses vs [] = Inr b"
    using collect_complete[OF vs(2), of "[]"] assms(2) by (auto simp: dns_resolves_def)
  from collect_ok[OF b] vs have "set b = set ips"
    by (auto dest!: map_injective simp: inj_def)
  moreover from this have "sort_key ip_key b \<noteq> []"
    using assms(2) by (metis dns_resolves_def set_empty set_sort)
  ultimately show ?thesis using b vs loop assms(1)
    by (intro exI[of _ "sort_key ip_key b"])
      (auto simp: classify_asset_candidate_dns_def classify_terminal_def candidate_addresses_def simp del: last.simps)
qed

subsection \<open>Properties\<close>

text \<open>
  C34. A candidate hostname is eligible under a revision exactly if, after normalisation, an include rule of
  this revision covers it by whole labels and no exclude rule of the revision does; rules of other
  revisions have no say. The decision's code says which case holds, and the reported rules are the covering
  include and exclude rules of the highest precedence, present exactly if there are any.
\<close>

theorem candidate_match_exact:
  assumes "normalize_candidate_hostname idna c = Inr h"
  shows "(acr_eligible (match_asset_candidate idna rid c rules)
          \<longleftrightarrow> list_ex (rule_covers rid ''include'' h) rules \<and> \<not> list_ex (rule_covers rid ''exclude'' h) rules)
       \<and> acr_code (match_asset_candidate idna rid c rules)
         = (if list_ex (rule_covers rid ''exclude'' h) rules then ''asset_candidate_excluded''
            else if list_ex (rule_covers rid ''include'' h) rules then ''asset_candidate_included''
            else ''asset_candidate_not_included'')
       \<and> acr_normalized_hostname (match_asset_candidate idna rid c rules) = Some h
       \<and> reports_rule rid ''include'' h rules (acr_matched_include_rule_id (match_asset_candidate idna rid c rules))
       \<and> reports_rule rid ''exclude'' h rules (acr_matched_exclude_rule_id (match_asset_candidate idna rid c rules))"
  using match_valid[OF assms, of rid rules] by (simp add: list_ex_iff)

definition lab_rule :: "row_id \<Rightarrow> row_id \<Rightarrow> string \<Rightarrow> string \<Rightarrow> asset_hostname_rule" where
  "lab_rule i rid kind pat = \<lparr>ahr_id = i, ahr_authorization_revision_id = rid, ahr_rule_type = kind,
     ahr_hostname_pattern = pat, ahr_created_at = 0\<rparr>"

definition lab_rules :: "asset_hostname_rule list" where
  "lab_rules = [lab_rule 1 7 ''include'' ''*.example.com'', lab_rule 2 7 ''include'' ''*.api.example.com'',
     lab_rule 3 7 ''exclude'' ''old.api.example.com'', lab_rule 4 8 ''exclude'' ''*.example.com'']"

theorem candidate_match_exact_witness:
  "acr_code (match_asset_candidate (\<lambda>_. None) 7 ''V1.Api.example.com.'' lab_rules) = ''asset_candidate_included''
   \<and> acr_matched_include_rule_id (match_asset_candidate (\<lambda>_. None) 7 ''V1.Api.example.com.'' lab_rules) = Some 2
   \<and> list_ex (rule_covers 7 ''include'' ''v1.api.example.com'') lab_rules
   \<and> acr_code (match_asset_candidate (\<lambda>_. None) 7 ''old.api.example.com'' lab_rules) = ''asset_candidate_excluded''
   \<and> acr_code (match_asset_candidate (\<lambda>_. None) 7 ''example.com'' lab_rules) = ''asset_candidate_not_included''"
proof -
  have n: "normalize_candidate_hostname (\<lambda>_. None) ''V1.Api.example.com.'' = Inr ''v1.api.example.com''" by code_simp
  have "acr_eligible (match_asset_candidate (\<lambda>_. None) 7 ''V1.Api.example.com.'' lab_rules)" by code_simp
  then have "list_ex (rule_covers 7 ''include'' ''v1.api.example.com'') lab_rules"
    using candidate_match_exact[OF n, of 7 lab_rules] by blast
  moreover have "acr_code (match_asset_candidate (\<lambda>_. None) 7 ''V1.Api.example.com.'' lab_rules) = ''asset_candidate_included''"
    "acr_matched_include_rule_id (match_asset_candidate (\<lambda>_. None) 7 ''V1.Api.example.com.'' lab_rules) = Some 2"
    "acr_code (match_asset_candidate (\<lambda>_. None) 7 ''old.api.example.com'' lab_rules) = ''asset_candidate_excluded''"
    "acr_code (match_asset_candidate (\<lambda>_. None) 7 ''example.com'' lab_rules) = ''asset_candidate_not_included''"
    by code_simp+
  ultimately show ?thesis by blast
qed

text \<open>
  C40. A normalised hostname consists of at most 253 characters in DNS labels, and normalising it again, with
  whatever codec, gives it back exactly if it is not an IP address literal. From an ASCII text no literal
  results. From other texts one can: the check for literals precedes the IDNA conversion, which maps
  for example full-width digits to ASCII digits.
\<close>

theorem hostname_normalization_stable:
  assumes "normalize_candidate_hostname idna v = Inr h"
  shows "dns_name h \<and> (normalize_candidate_hostname idna' h = Inr h \<longleftrightarrow> ip_address_of h = None)
    \<and> (list_all is_ascii v \<longrightarrow> ip_address_of h = None)"
  using assms normalize_dns_name[of idna v h] normalize_dns_fixed[of h idna'] normalize_ascii_no_ip[of idna v h]
  by (simp add: normalize_candidate_hostname_def)

text \<open>Full-width \<open>127.0.0.1\<close>, and what the codec makes of it.\<close>

definition full_width_loopback :: string where
  "full_width_loopback =
     [CHR 0xEF, CHR 0xBC, CHR 0x91, CHR 0xEF, CHR 0xBC, CHR 0x92, CHR 0xEF, CHR 0xBC, CHR 0x97] @ ''.''
     @ [CHR 0xEF, CHR 0xBC, CHR 0x90] @ ''.'' @ [CHR 0xEF, CHR 0xBC, CHR 0x90] @ ''.''
     @ [CHR 0xEF, CHR 0xBC, CHR 0x91]"

definition lab_idna :: idna_codec where
  "lab_idna s = (if s = full_width_loopback then Some ''127.0.0.1'' else None)"

theorem hostname_normalization_stable_witness:
  "normalize_candidate_hostname lab_idna ''API.example.com.'' = Inr ''api.example.com''
   \<and> normalize_candidate_hostname lab_idna ''api.example.com'' = Inr ''api.example.com''
   \<and> normalize_candidate_hostname lab_idna full_width_loopback = Inr ''127.0.0.1''
   \<and> normalize_candidate_hostname lab_idna ''127.0.0.1'' \<noteq> Inr ''127.0.0.1''"
proof -
  have a: "normalize_candidate_hostname lab_idna ''API.example.com.'' = Inr ''api.example.com''" by code_simp
  have b: "normalize_candidate_hostname lab_idna full_width_loopback = Inr ''127.0.0.1''" by code_simp
  have c: "ip_address_of ''127.0.0.1'' \<noteq> None" "list_all is_ascii ''API.example.com.''" by code_simp+
  show ?thesis
    using hostname_normalization_stable[OF a, of lab_idna] hostname_normalization_stable[OF b, of lab_idna] a b c by simp
qed

lemma dns_code_public:
  "dns_code (map classify_address a) = ''asset_candidate_dns_public_only''
   \<longleftrightarrow> list_all (\<lambda>ip. classify_address ip = PUBLIC) a"
  by (simp add: dns_code_def list_all_iff)

lemma dns_code_local:
  assumes "a \<noteq> []"
  shows "dns_code (map classify_address a) = ''asset_candidate_dns_private_local_only'' \<longleftrightarrow> list_all local_address a"
proof -
  have "list_all local_address a \<longleftrightarrow> (\<forall>ip \<in> set a. classify_address ip \<in> {LOOPBACK, PRIVATE})"
    using classify_local_iff by (simp add: list_all_iff)
  moreover have "hd a \<in> set a" using assms by simp
  ultimately show ?thesis by (auto simp: dns_code_def list_all_iff)
qed

lemma dns_code_exact:
  assumes norm: "normalize_candidate_hostname idna v = Inr h" and cl: "classify_asset_candidate_dns idna rsv v = Some d"
    and ok: "dns_decision_ok idna rsv h d" and code: "code \<in> set verdict_codes"
    and iff: "\<And>a. a \<noteq> [] \<Longrightarrow> dns_code (map classify_address a) = code \<longleftrightarrow> list_all P a"
  shows "dnsd_code d = code \<longleftrightarrow> (\<exists>chain ips. dns_resolves idna rsv h chain ips \<and> list_all P ips)"
proof
  assume d: "dnsd_code d = code"
  with ok code obtain ips ips' where i: "dnsd_code d = dns_code (map classify_address ips)"
    "dns_resolves idna rsv h (dnsd_cname_chain d) ips'" "set ips' = set ips" by (auto simp: dns_decision_ok_def)
  then have "ips \<noteq> []" by (auto simp: dns_resolves_def)
  then have "list_all P ips'" using iff[of ips] i d by (simp add: list_all_iff)
  then show "\<exists>chain ips. dns_resolves idna rsv h chain ips \<and> list_all P ips" using i(2) by blast
next
  assume "\<exists>chain ips. dns_resolves idna rsv h chain ips \<and> list_all P ips"
  then obtain chain ips where r: "dns_resolves idna rsv h chain ips" "list_all P ips" by blast
  from classify_resolved[OF norm r(1)] cl obtain a where
    a: "set a = set ips" "dnsd_code d = dns_code (map classify_address a)" by (auto simp: dns_decision_def)
  moreover from this have "a \<noteq> []" using r(1) by (auto simp: dns_resolves_def)
  ultimately show "dnsd_code d = code" using iff[of a] r(2) by (simp add: list_all_iff)
qed

text \<open>
  C35. The classification of a candidate returns, whatever the resolver answers, CNAME cycles and unbounded chains
  included. Its decision has one of the enumerated codes, at most eight CNAME hops, each of them a DNS name, and at most
  sixteen addresses, each with its category. It is private exactly if at most eight CNAME records over distinct
  names lead from the candidate to a name whose answer consists of one to sixteen addresses that are all loopback or
  private, and public exactly if all of them are public: a single address of another category, an
  unreadable answer or an answer of more than sixteen addresses prevents both.
\<close>

theorem dns_classification_exact:
  assumes "normalize_candidate_hostname idna v = Inr h"
  shows "\<exists>d. classify_asset_candidate_dns idna rsv v = Some d
     \<and> dnsd_code d \<in> set dns_decision_codes
     \<and> length (dnsd_cname_chain d) \<le> MAX_CNAME_HOPS \<and> list_all dns_name (dnsd_cname_chain d)
     \<and> length (dnsd_resolved_addresses d) \<le> MAX_RESOLVED_ADDRESSES
     \<and> length (dnsd_address_categories d) = length (dnsd_resolved_addresses d)
     \<and> (dnsd_code d = ''asset_candidate_dns_private_local_only''
          \<longleftrightarrow> (\<exists>chain ips. dns_resolves idna rsv h chain ips \<and> list_all local_address ips))
     \<and> (dnsd_code d = ''asset_candidate_dns_public_only''
          \<longleftrightarrow> (\<exists>chain ips. dns_resolves idna rsv h chain ips \<and> list_all (\<lambda>ip. classify_address ip = PUBLIC) ips))"
proof -
  obtain d where d: "classify_asset_candidate_dns idna rsv v = Some d" "dns_decision_ok idna rsv h d"
    by (rule classify_returns[OF assms])
  moreover from d(2) have "list_all dns_name (dnsd_cname_chain d)"
    using cname_path_names by (auto simp: dns_decision_ok_def list_all_iff)
  moreover have "dnsd_code d = ''asset_candidate_dns_private_local_only''
      \<longleftrightarrow> (\<exists>chain ips. dns_resolves idna rsv h chain ips \<and> list_all local_address ips)"
    by (rule dns_code_exact[OF assms d]) (simp_all add: verdict_codes_def dns_code_local)
  moreover have "dnsd_code d = ''asset_candidate_dns_public_only''
      \<longleftrightarrow> (\<exists>chain ips. dns_resolves idna rsv h chain ips \<and> list_all (\<lambda>ip. classify_address ip = PUBLIC) ips)"
    by (rule dns_code_exact[OF assms d]) (simp_all add: verdict_codes_def dns_code_public)
  ultimately show ?thesis by (auto simp: dns_decision_ok_def)
qed

definition lab_dns :: asset_candidate_dns_resolver where
  "lab_dns =
     \<lparr>lookup_cname = (\<lambda>n. if n = ''www.example.com'' then Cname ''Edge.example.net.'' else NoCname),
      resolve_addresses = (\<lambda>n. if n = ''edge.example.net'' then Some (RIterable [RText ''10.0.0.7'', RText ''::1'', RText ''10.0.0.7'']) else None)\<rparr>"

theorem dns_classification_exact_witness:
  "\<exists>d chain ips. classify_asset_candidate_dns lab_idna lab_dns ''www.example.com'' = Some d
     \<and> dnsd_resolved_addresses d = [''10.0.0.7'', ''::1'']
     \<and> dns_resolves lab_idna lab_dns ''www.example.com'' chain ips \<and> list_all local_address ips"
proof -
  have n: "normalize_candidate_hostname lab_idna ''www.example.com'' = Inr ''www.example.com''" by code_simp
  have "map_option (\<lambda>d. (dnsd_code d, dnsd_resolved_addresses d)) (classify_asset_candidate_dns lab_idna lab_dns ''www.example.com'')
      = Some (''asset_candidate_dns_private_local_only'', [''10.0.0.7'', ''::1''])" by code_simp
  then show ?thesis using dns_classification_exact[OF n, of lab_dns] by fastforce
qed

end
