(* ===== verification/Enrollment.thy ===== *)
theory Enrollment
  imports Hostname_Rules
begin

text \<open>
  Authorization profiles, their revisions, and the enrollment of assets as targets
  (\<open>src/backend/app/services/authorization_revision.py\<close>, \<open>asset_hostname_rule.py\<close>,
  \<open>asset_candidate_evaluation.py\<close>, \<open>asset_candidate_dns_validation.py\<close>,
  \<open>asset_enrollment_decision.py\<close>, \<open>asset_enrollment_note.py\<close>, \<open>approved_enrollment_target.py\<close>, and the
  routes that write the same tables).

  The tables are lists of rows. An operation is a transaction: a function from the tables to an
  exception (the transaction rolls back) or to the new tables and the result. Each of them runs under the
  row lock of its profile or revision, so that concurrent transactions are interleaved as wholes;
  the DNS validation consists of two transactions, with anything in between. New identifiers
  and timestamps come from \<open>insert_env\<close>: a PostgreSQL sequence never returns an identifier twice, which the steps
  below assume of it. The unique constraint on revision numbers and the partial unique index
  on active revisions are not assumed: an invariant shows that the code never violates them.
  The decorator \<open>w2_lifecycle_writer\<close> calls the function unchanged when no lifecycle controller is
  attached to the engine, which is the default and the case modelled here.
\<close>

subsection \<open>Rows\<close>

text \<open>The writable fields of a profile, and its row.\<close>

record profile_values =
  prof_name :: string
  prof_program_name :: string
  prof_program_url :: "string option"
  prof_authorization_type :: string
  prof_authorization_reference :: "string option"
  prof_valid_from :: "datetime option"
  prof_valid_until :: "datetime option"
  prof_automation_allowed :: bool
  prof_max_requests_per_second :: pynum
  prof_allow_get :: bool
  prof_allow_post :: bool
  prof_allow_patch :: bool
  prof_allow_put :: bool
  prof_allow_delete :: bool
  prof_require_human_execution_approval :: bool
  prof_notes :: "string option"

record authorization_profile = profile_values +
  prof_id :: row_id
  prof_created_at :: datetime
  prof_updated_at :: datetime

record asset_candidate_evaluation =
  ace_id :: row_id
  ace_authorization_revision_id :: row_id
  ace_normalized_hostname :: string
  ace_decision_code :: string
  ace_matched_include_rule_id :: "row_id option"
  ace_matched_exclude_rule_id :: "row_id option"
  ace_source_type :: string
  ace_created_at :: datetime

record asset_candidate_dns_validation =
  acv_id :: row_id
  acv_asset_candidate_evaluation_id :: row_id
  acv_authorization_revision_id :: row_id
  acv_decision_code :: string
  acv_normalized_hostname :: string
  acv_terminal_hostname :: "string option"
  acv_created_at :: datetime

record asset_candidate_dns_cname_hop =
  hop_id :: row_id
  hop_dns_validation_id :: row_id
  hop_ordinal :: nat
  hop_hostname :: string

record asset_candidate_dns_address =
  adr_id :: row_id
  adr_dns_validation_id :: row_id
  adr_ordinal :: nat
  adr_address :: string
  adr_category :: string

record asset_enrollment_decision =
  aed_id :: row_id
  aed_asset_candidate_dns_validation_id :: row_id
  aed_authorization_revision_id :: row_id
  aed_decision :: string
  aed_normalized_hostname :: string
  aed_reason_code :: "string option"
  aed_note :: "string option"
  aed_created_at :: datetime

text \<open>The check constraints of the tables, as far as the code does not establish them by construction.\<close>

definition authorization_profile_row_ok :: "'a profile_values_scheme \<Rightarrow> bool" where
  "authorization_profile_row_ok p \<longleftrightarrow>
     (case prof_max_requests_per_second p of
        PyFloat q \<Rightarrow> q > 0 | PyInf \<Rightarrow> True | PyNan \<Rightarrow> True | _ \<Rightarrow> False)
     \<and> (case (prof_valid_from p, prof_valid_until p) of (Some a, Some b) \<Rightarrow> b > a | _ \<Rightarrow> True)"

definition ENROLLMENT_REASON_CODES :: "string list" where
  "ENROLLMENT_REASON_CODES =
     [''ownership_confirmed'', ''scope_confirmed'', ''out_of_scope'', ''dns_risk'', ''manual_review'', ''other'']"

definition asset_enrollment_decision_row_ok :: "asset_enrollment_decision \<Rightarrow> bool" where
  "asset_enrollment_decision_row_ok d \<longleftrightarrow>
     aed_decision d \<in> {''approved'', ''rejected''}
     \<and> (case aed_reason_code d of None \<Rightarrow> True | Some c \<Rightarrow> c \<in> set ENROLLMENT_REASON_CODES)
     \<and> (case aed_note d of None \<Rightarrow> True | Some n \<Rightarrow> py_len n \<le> 500)"

definition cname_hop_row_ok :: "asset_candidate_dns_cname_hop \<Rightarrow> bool" where
  "cname_hop_row_ok r \<longleftrightarrow> 1 \<le> hop_ordinal r \<and> hop_ordinal r \<le> 8 \<and> length (hop_hostname r) \<le> 253"

definition DNS_ADDRESS_CATEGORIES :: "string list" where
  "DNS_ADDRESS_CATEGORIES =
     [''loopback'', ''private'', ''link_local'', ''unspecified'', ''multicast'', ''special'', ''public'']"

definition dns_address_row_ok :: "asset_candidate_dns_address \<Rightarrow> bool" where
  "dns_address_row_ok r \<longleftrightarrow>
     1 \<le> adr_ordinal r \<and> adr_ordinal r \<le> 16 \<and> length (adr_address r) \<le> 45
     \<and> adr_category r \<in> set DNS_ADDRESS_CATEGORIES"

definition target_columns_ok :: "target \<Rightarrow> bool" where
  "target_columns_ok t \<longleftrightarrow>
     py_len (tgt_name t) \<le> 120 \<and> py_len (tgt_base_url t) \<le> 500 \<and> py_len (tgt_environment t) \<le> 50
     \<and> target_row_ok t"

record enrollment_db =
  e_profiles :: "authorization_profile list"
  e_revisions :: "authorization_revision list"
  e_rules :: "asset_hostname_rule list"
  e_evaluations :: "asset_candidate_evaluation list"
  e_validations :: "asset_candidate_dns_validation list"
  e_hops :: "asset_candidate_dns_cname_hop list"
  e_addresses :: "asset_candidate_dns_address list"
  e_decisions :: "asset_enrollment_decision list"
  e_targets :: "target list"

record insert_env =
  in_id :: row_id
  in_child_id :: "nat \<Rightarrow> row_id"
  in_now :: datetime

type_synonym ('e, 'a) txn = "enrollment_db \<Rightarrow> 'e + enrollment_db \<times> 'a"

subsection \<open>Revisions\<close>

datatype revision_error = RevisionNotFoundError | InvalidRevisionTransitionError

definition lock_profile :: "enrollment_db \<Rightarrow> row_id \<Rightarrow> authorization_profile option" where
  "lock_profile db profile_id = find (\<lambda>p. prof_id p = profile_id) (e_profiles db)"

text \<open>\<open>select(AuthorizationRevision).where(id == ..., authorization_profile_id == ...)\<close>\<close>

definition select_revision :: "enrollment_db \<Rightarrow> row_id \<Rightarrow> row_id \<Rightarrow> authorization_revision option" where
  "select_revision db profile_id revision_id =
     find (\<lambda>r. rev_id r = revision_id \<and> rev_authorization_profile_id r = profile_id) (e_revisions db)"

definition revision_snapshot :: "insert_env \<Rightarrow> authorization_profile \<Rightarrow> int \<Rightarrow> authorization_revision" where
  "revision_snapshot env p n =
     \<lparr>rev_id = in_id env, rev_authorization_profile_id = prof_id p, rev_revision_number = n,
      rev_lifecycle_state = ''draft'', rev_name = prof_name p, rev_program_name = prof_program_name p,
      rev_program_url = prof_program_url p, rev_authorization_type = prof_authorization_type p,
      rev_authorization_reference = prof_authorization_reference p, rev_valid_from = prof_valid_from p,
      rev_valid_until = prof_valid_until p, rev_automation_allowed = prof_automation_allowed p,
      rev_max_requests_per_second = prof_max_requests_per_second p, rev_allow_get = prof_allow_get p,
      rev_allow_post = prof_allow_post p, rev_allow_patch = prof_allow_patch p, rev_allow_put = prof_allow_put p,
      rev_allow_delete = prof_allow_delete p,
      rev_require_human_execution_approval = prof_require_human_execution_approval p,
      rev_notes = prof_notes p, rev_created_at = in_now env\<rparr>"

definition profile_revisions :: "enrollment_db \<Rightarrow> row_id \<Rightarrow> authorization_revision list" where
  "profile_revisions db profile_id =
     filter (\<lambda>r. rev_authorization_profile_id r = profile_id) (e_revisions db)"

definition create_revision :: "insert_env \<Rightarrow> row_id \<Rightarrow> (revision_error, authorization_revision) txn" where
  "create_revision env profile_id db =
     (case lock_profile db profile_id of
        None \<Rightarrow> Inl RevisionNotFoundError
      | Some p \<Rightarrow>
        (let current_max = fold max (map rev_revision_number (profile_revisions db profile_id)) 0;
             revision = revision_snapshot env p (current_max + 1) in
         Inr (db\<lparr>e_revisions := e_revisions db @ [revision]\<rparr>, revision)))"

definition activate_in :: "row_id \<Rightarrow> row_id \<Rightarrow> authorization_revision \<Rightarrow> authorization_revision" where
  "activate_in profile_id revision_id r =
     (if rev_authorization_profile_id r \<noteq> profile_id then r
      else if rev_id r = revision_id then r\<lparr>rev_lifecycle_state := ''active''\<rparr>
      else if rev_lifecycle_state r = ''active'' then r\<lparr>rev_lifecycle_state := ''superseded''\<rparr>
      else r)"

definition revoke_in :: "row_id \<Rightarrow> row_id \<Rightarrow> authorization_revision \<Rightarrow> authorization_revision" where
  "revoke_in profile_id revision_id r =
     (if rev_authorization_profile_id r = profile_id \<and> rev_id r = revision_id
      then r\<lparr>rev_lifecycle_state := ''revoked''\<rparr> else r)"

definition transition_revision ::
  "row_id \<Rightarrow> row_id \<Rightarrow> string \<Rightarrow> (revision_error, authorization_revision) txn" where
  "transition_revision profile_id revision_id destination db =
     (case lock_profile db profile_id of
        None \<Rightarrow> Inl RevisionNotFoundError
      | Some _ \<Rightarrow>
        (case find (\<lambda>r. rev_id r = revision_id) (sort_key rev_id (profile_revisions db profile_id)) of
           None \<Rightarrow> Inl RevisionNotFoundError
         | Some selected \<Rightarrow>
           if destination = ''active'' then
             (if rev_lifecycle_state selected \<noteq> ''draft'' then Inl InvalidRevisionTransitionError
              else Inr (db\<lparr>e_revisions := map (activate_in profile_id revision_id) (e_revisions db)\<rparr>,
                        activate_in profile_id revision_id selected))
           else if destination = ''revoked'' then
             (if rev_lifecycle_state selected \<notin> {''draft'', ''active''} then Inl InvalidRevisionTransitionError
              else Inr (db\<lparr>e_revisions := map (revoke_in profile_id revision_id) (e_revisions db)\<rparr>,
                        revoke_in profile_id revision_id selected))
           else Inl InvalidRevisionTransitionError))"

subsection \<open>Hostname rules\<close>

definition lock_draft_revision ::
  "enrollment_db \<Rightarrow> row_id \<Rightarrow> row_id \<Rightarrow> hostname_rule_error + authorization_revision" where
  "lock_draft_revision db profile_id revision_id =
     (case select_revision db profile_id revision_id of
        None \<Rightarrow> Inl AssetHostnameRuleNotFoundError
      | Some r \<Rightarrow> if rev_lifecycle_state r \<noteq> ''draft'' then Inl AssetHostnameRuleImmutableError else Inr r)"

definition create_asset_hostname_rule ::
  "idna_codec \<Rightarrow> insert_env \<Rightarrow> row_id \<Rightarrow> row_id \<Rightarrow> string \<Rightarrow> string
   \<Rightarrow> (hostname_rule_error, asset_hostname_rule) txn" where
  "create_asset_hostname_rule idna env profile_id revision_id rule_type hostname_pattern db =
     res_bind (lock_draft_revision db profile_id revision_id) (\<lambda>_.
     res_bind (normalize_hostname_pattern idna rule_type hostname_pattern) (\<lambda>pattern.
       (let rule = \<lparr>ahr_id = in_id env, ahr_authorization_revision_id = revision_id, ahr_rule_type = rule_type,
                    ahr_hostname_pattern = pattern, ahr_created_at = in_now env\<rparr> in
        if list_ex (\<lambda>r. ahr_authorization_revision_id r = revision_id \<and> ahr_rule_type r = rule_type
                        \<and> ahr_hostname_pattern r = pattern) (e_rules db)
        then Inl AssetHostnameRuleIntegrityError
        else Inr (db\<lparr>e_rules := e_rules db @ [rule]\<rparr>, rule))))"

text \<open>A rule that an evaluation references is protected by \<open>ondelete="RESTRICT"\<close>.\<close>

definition rule_referenced :: "enrollment_db \<Rightarrow> row_id \<Rightarrow> bool" where
  "rule_referenced db rule_id \<longleftrightarrow>
     list_ex (\<lambda>e. ace_matched_include_rule_id e = Some rule_id \<or> ace_matched_exclude_rule_id e = Some rule_id)
       (e_evaluations db)"

definition delete_asset_hostname_rule ::
  "row_id \<Rightarrow> row_id \<Rightarrow> row_id \<Rightarrow> (hostname_rule_error, unit) txn" where
  "delete_asset_hostname_rule profile_id revision_id rule_id db =
     res_bind (lock_draft_revision db profile_id revision_id) (\<lambda>_.
       (case find (\<lambda>r. ahr_id r = rule_id \<and> ahr_authorization_revision_id r = revision_id) (e_rules db) of
          None \<Rightarrow> Inl AssetHostnameRuleNotFoundError
        | Some rule \<Rightarrow>
          if rule_referenced db rule_id then Inl AssetHostnameRuleIntegrityError
          else Inr (db\<lparr>e_rules := filter (\<lambda>r. ahr_id r \<noteq> rule_id) (e_rules db)\<rparr>, ())))"

subsection \<open>Candidate evaluations\<close>

datatype evaluation_error =
  AssetCandidateEvaluationNotFoundError | AssetCandidateEvaluationInactiveError | AssetCandidateEvaluationInvalidError

definition revision_rules :: "enrollment_db \<Rightarrow> row_id \<Rightarrow> asset_hostname_rule list" where
  "revision_rules db revision_id =
     filter (\<lambda>r. ahr_authorization_revision_id r = revision_id) (e_rules db)"

definition rule_known :: "asset_hostname_rule list \<Rightarrow> row_id option \<Rightarrow> bool" where
  "rule_known rules i \<longleftrightarrow> (case i of None \<Rightarrow> True | Some n \<Rightarrow> n \<in> set (map ahr_id rules))"

definition create_asset_candidate_evaluation ::
  "idna_codec \<Rightarrow> insert_env \<Rightarrow> row_id \<Rightarrow> row_id \<Rightarrow> string \<Rightarrow> (evaluation_error, asset_candidate_evaluation) txn" where
  "create_asset_candidate_evaluation idna env profile_id revision_id hostname db =
     (case lock_profile db profile_id of
        None \<Rightarrow> Inl AssetCandidateEvaluationNotFoundError
      | Some _ \<Rightarrow>
     (case select_revision db profile_id revision_id of
        None \<Rightarrow> Inl AssetCandidateEvaluationNotFoundError
      | Some revision \<Rightarrow>
        if rev_lifecycle_state revision \<noteq> ''active'' then Inl AssetCandidateEvaluationInactiveError
        else
          (let rules = sort_key ahr_id (revision_rules db revision_id);
               decision = match_asset_candidate idna revision_id hostname rules in
           if acr_code decision = ''asset_candidate_invalid'' then Inl AssetCandidateEvaluationInvalidError
           else if \<not> rule_known rules (acr_matched_include_rule_id decision)
                   \<or> \<not> rule_known rules (acr_matched_exclude_rule_id decision) then
             Inl AssetCandidateEvaluationInvalidError
           else
             (let evaluation =
                \<lparr>ace_id = in_id env, ace_authorization_revision_id = revision_id,
                 ace_normalized_hostname = the (acr_normalized_hostname decision),
                 ace_decision_code = acr_code decision,
                 ace_matched_include_rule_id = acr_matched_include_rule_id decision,
                 ace_matched_exclude_rule_id = acr_matched_exclude_rule_id decision,
                 ace_source_type = ''operator_supplied'', ace_created_at = in_now env\<rparr> in
              Inr (db\<lparr>e_evaluations := e_evaluations db @ [evaluation]\<rparr>, evaluation)))))"

subsection \<open>DNS validations\<close>

datatype validation_error =
  AssetCandidateDNSValidationNotFoundError
| AssetCandidateDNSValidationInactiveError
| AssetCandidateDNSValidationIneligibleError
| AssetCandidateDNSValidationIntegrityError

definition select_evaluation :: "enrollment_db \<Rightarrow> row_id \<Rightarrow> row_id \<Rightarrow> asset_candidate_evaluation option" where
  "select_evaluation db revision_id evaluation_id =
     find (\<lambda>e. ace_id e = evaluation_id \<and> ace_authorization_revision_id e = revision_id) (e_evaluations db)"

definition load_exact ::
  "enrollment_db \<Rightarrow> row_id \<Rightarrow> row_id \<Rightarrow> row_id
   \<Rightarrow> validation_error + authorization_revision \<times> asset_candidate_evaluation" where
  "load_exact db profile_id revision_id evaluation_id =
     (case (select_revision db profile_id revision_id, select_evaluation db revision_id evaluation_id) of
        (Some revision, Some evaluation) \<Rightarrow>
          if rev_lifecycle_state revision \<noteq> ''active'' then Inl AssetCandidateDNSValidationInactiveError
          else if ace_decision_code evaluation \<noteq> ''asset_candidate_included''
                  \<or> ace_normalized_hostname evaluation = [] then
            Inl AssetCandidateDNSValidationIneligibleError
          else Inr (revision, evaluation)
      | _ \<Rightarrow> Inl AssetCandidateDNSValidationNotFoundError)"

text \<open>\<open>AddressCategory.value\<close>\<close>

fun category_value :: "address_category \<Rightarrow> string" where
  "category_value LOOPBACK = ''loopback''"
| "category_value PRIVATE = ''private''"
| "category_value LINK_LOCAL = ''link_local''"
| "category_value UNSPECIFIED = ''unspecified''"
| "category_value MULTICAST = ''multicast''"
| "category_value SPECIAL = ''special''"
| "category_value PUBLIC = ''public''"

definition validation_row ::
  "insert_env \<Rightarrow> row_id \<Rightarrow> row_id \<Rightarrow> string \<Rightarrow> asset_candidate_dns_decision \<Rightarrow> asset_candidate_dns_validation" where
  "validation_row env revision_id evaluation_id captured d =
     \<lparr>acv_id = in_id env, acv_asset_candidate_evaluation_id = evaluation_id,
      acv_authorization_revision_id = revision_id, acv_decision_code = dnsd_code d,
      acv_normalized_hostname = captured, acv_terminal_hostname = dnsd_terminal_hostname d,
      acv_created_at = in_now env\<rparr>"

definition hop_rows :: "insert_env \<Rightarrow> asset_candidate_dns_decision \<Rightarrow> asset_candidate_dns_cname_hop list" where
  "hop_rows env d =
     map (\<lambda>(ordinal, hostname).
            \<lparr>hop_id = in_child_id env ordinal, hop_dns_validation_id = in_id env, hop_ordinal = ordinal,
             hop_hostname = hostname\<rparr>)
       (enumerate 1 (dnsd_cname_chain d))"

definition address_rows :: "insert_env \<Rightarrow> asset_candidate_dns_decision \<Rightarrow> asset_candidate_dns_address list" where
  "address_rows env d =
     map (\<lambda>(ordinal, address, category).
            \<lparr>adr_id = in_child_id env ordinal, adr_dns_validation_id = in_id env, adr_ordinal = ordinal,
             adr_address = address, adr_category = category_value category\<rparr>)
       (enumerate 1 (zip (dnsd_resolved_addresses d) (dnsd_address_categories d)))"

text \<open>The second transaction. The constraints of the child tables can reject the rows.\<close>

definition final_revalidation ::
  "insert_env \<Rightarrow> row_id \<Rightarrow> row_id \<Rightarrow> row_id \<Rightarrow> string \<Rightarrow> asset_candidate_dns_decision
   \<Rightarrow> (validation_error, asset_candidate_dns_validation) txn" where
  "final_revalidation env profile_id revision_id evaluation_id captured decision db =
     (case lock_profile db profile_id of
        None \<Rightarrow> Inl AssetCandidateDNSValidationNotFoundError
      | Some _ \<Rightarrow>
        res_bind (load_exact db profile_id revision_id evaluation_id) (\<lambda>(_, evaluation).
          if ace_normalized_hostname evaluation \<noteq> captured then
            Inl AssetCandidateDNSValidationIneligibleError
          else if dnsd_normalized_hostname decision \<noteq> Some captured then
            Inl AssetCandidateDNSValidationIneligibleError
          else if \<not> list_all cname_hop_row_ok (hop_rows env decision)
                  \<or> \<not> list_all dns_address_row_ok (address_rows env decision) then
            Inl AssetCandidateDNSValidationIntegrityError
          else
            (let validation = validation_row env revision_id evaluation_id captured decision in
             Inr (db\<lparr>e_validations := e_validations db @ [validation],
                     e_hops := e_hops db @ hop_rows env decision,
                     e_addresses := e_addresses db @ address_rows env decision\<rparr>, validation))))"

record persisted_asset_candidate_dns_validation =
  pdv_validation :: asset_candidate_dns_validation
  pdv_cname_hops :: "asset_candidate_dns_cname_hop list"
  pdv_addresses :: "asset_candidate_dns_address list"

text \<open>
  The operation: the first transaction captures the hostname, then the DNS is asked without a
  connection, other sessions do what they do (\<open>others\<close>), and the second transaction starts from there.
\<close>

definition create_asset_candidate_dns_validation ::
  "idna_codec \<Rightarrow> asset_candidate_dns_resolver \<Rightarrow> insert_env \<Rightarrow> (enrollment_db \<Rightarrow> enrollment_db)
   \<Rightarrow> row_id \<Rightarrow> row_id \<Rightarrow> row_id \<Rightarrow> enrollment_db
   \<Rightarrow> (enrollment_db \<times> (validation_error + persisted_asset_candidate_dns_validation)) option" where
  "create_asset_candidate_dns_validation idna rsv env others profile_id revision_id evaluation_id db =
     (case load_exact db profile_id revision_id evaluation_id of
        Inl e \<Rightarrow> Some (db, Inl e)
      | Inr (_, evaluation) \<Rightarrow>
        map_option (\<lambda>decision.
            case final_revalidation env profile_id revision_id evaluation_id
                   (ace_normalized_hostname evaluation) decision (others db) of
              Inl e \<Rightarrow> (others db, Inl e)
            | Inr (db', validation) \<Rightarrow>
                (db', Inr \<lparr>pdv_validation = validation, pdv_cname_hops = hop_rows env decision,
                           pdv_addresses = address_rows env decision\<rparr>))
          (classify_asset_candidate_dns idna rsv (ace_normalized_hostname evaluation)))"

subsection \<open>Notes of enrollment decisions\<close>

text \<open>
  The regular expression that rejects authentication material, and what \<open>re.search\<close> does with it: \<open>rx_rests\<close>
  lists the texts that can remain after a match at the front. All alternatives start with a
  letter, so that \<open>\b\<close> asks for a preceding character that is not a word character; whether a
  character beyond ASCII is one is the parameter \<open>uni_word\<close>. \<open>IGNORECASE\<close> identifies the cases of ASCII
  letters and U+0130, U+0131 with i, U+212A with k, U+017F with s.
\<close>

datatype rx = RLit string | ROne string | RSeq rx rx | RAlt rx rx | ROpt rx | RSpaces | RSpaces1 | RNonSpace

definition take_space :: "string \<Rightarrow> string option" where
  "take_space s =
     (if s \<noteq> [] \<and> is_space (hd s) then Some (tl s)
      else map_option (\<lambda>u. drop (length u) s) (find (\<lambda>u. prefix u s) unicode_spaces))"

lemma take_space_shorter: "take_space s = Some r \<Longrightarrow> length r < length s"
  by (auto simp: take_space_def unicode_spaces_def prefix_def split: if_splits)

function space_rests :: "string \<Rightarrow> string list" where
  "space_rests s = s # (case take_space s of None \<Rightarrow> [] | Some r \<Rightarrow> space_rests r)"
  by auto
termination by (relation "measure length") (auto dest: take_space_shorter)

declare space_rests.simps [simp del]

fun rx_rests :: "rx \<Rightarrow> string \<Rightarrow> string list" where
  "rx_rests (RLit w) s = (if prefix w s then [drop (length w) s] else [])"
| "rx_rests (ROne cs) s = (case s of [] \<Rightarrow> [] | c # r \<Rightarrow> if c \<in> set cs then [r] else [])"
| "rx_rests (RSeq a b) s = concat (map (rx_rests b) (rx_rests a s))"
| "rx_rests (RAlt a b) s = rx_rests a s @ rx_rests b s"
| "rx_rests (ROpt a) s = rx_rests a s @ [s]"
| "rx_rests RSpaces s = space_rests s"
| "rx_rests RSpaces1 s = (case take_space s of None \<Rightarrow> [] | Some r \<Rightarrow> space_rests r)"
| "rx_rests RNonSpace s = (if s \<noteq> [] \<and> take_space s = None then [tl s] else [])"

definition rx_assign :: rx where
  "rx_assign = RSeq RSpaces (ROne '':='')"

definition rx_sep :: rx where
  "rx_sep = ROpt (ROne ''-_ '')"

definition PROHIBITED_NOTE_AUTH_MATERIAL :: "rx list" where
  "PROHIBITED_NOTE_AUTH_MATERIAL =
     [RSeq (RLit ''authorization'') rx_assign,
      RSeq (RLit ''bearer'') (RSeq RSpaces1 RNonSpace),
      RSeq (ROpt (RLit ''set-'')) (RSeq (RLit ''cookie'') rx_assign),
      RSeq (ROpt (RSeq (RLit ''x'') rx_sep)) (RSeq (RLit ''api'') (RSeq rx_sep (RSeq (RLit ''key'') rx_assign))),
      RSeq (RAlt (RLit ''access'') (RLit ''refresh'')) (RSeq rx_sep (RSeq (RLit ''token'') rx_assign)),
      RSeq (RAlt (RLit ''credential'') (RAlt (RLit ''credentials'')
              (RAlt (RSeq (ROpt (RSeq (RLit ''db'') rx_sep)) (RAlt (RLit ''password'') (RLit ''passwd'')))
                    (RSeq (ROpt (RSeq (RLit ''client'') rx_sep)) (RLit ''secret'')))))
           rx_assign]"

definition ignore_case_forms :: "(string \<times> char) list" where
  "ignore_case_forms =
     [([CHR 0xC4, CHR 0xB0], CHR ''i''), ([CHR 0xC4, CHR 0xB1], CHR ''i''),
      ([CHR 0xE2, CHR 0x84, CHR 0xAA], CHR ''k''), ([CHR 0xC5, CHR 0xBF], CHR ''s'')]"

function ignore_case :: "string \<Rightarrow> string" where
  "ignore_case [] = []"
| "ignore_case (c # s) =
     (case find (\<lambda>(u, _). prefix u (c # s)) ignore_case_forms of
        Some (u, l) \<Rightarrow> l # ignore_case (drop (length u - 1) s)
      | None \<Rightarrow> lower_char c # ignore_case s)"
  by pat_completeness auto
termination by (relation "measure length") (auto simp: ignore_case_forms_def)

text \<open>Whether the character that ends the reversed text \<open>pre\<close> is a word character.\<close>

definition word_before :: "(string \<Rightarrow> bool) \<Rightarrow> string \<Rightarrow> bool" where
  "word_before uni_word pre =
     (case pre of [] \<Rightarrow> False
      | c # r \<Rightarrow>
        if is_ascii c then is_digit c \<or> is_lower c \<or> is_upper c \<or> c = CHR ''_''
        else uni_word (rev (take (Suc (length (takeWhile (\<lambda>x. utf8_cont (ord x)) pre))) pre)))"

fun note_search :: "(string \<Rightarrow> bool) \<Rightarrow> string \<Rightarrow> string \<Rightarrow> bool" where
  "note_search uni_word pre s =
     ((\<not> word_before uni_word pre \<and> list_ex (\<lambda>r. rx_rests r s \<noteq> []) PROHIBITED_NOTE_AUTH_MATERIAL)
      \<or> (case s of [] \<Rightarrow> False | c # r \<Rightarrow> note_search uni_word (c # pre) r))"

declare note_search.simps [simp del]

datatype decision_error =
  AssetEnrollmentNoteAuthMaterialError
| AssetEnrollmentDecisionNotFoundError
| AssetEnrollmentDecisionProvenanceError
| AssetEnrollmentDecisionIntegrityError

definition validate_non_secret_enrollment_note :: "(string \<Rightarrow> bool) \<Rightarrow> string \<Rightarrow> decision_error + string" where
  "validate_non_secret_enrollment_note uni_word note =
     (if note_search uni_word [] (ignore_case note) then Inl AssetEnrollmentNoteAuthMaterialError else Inr note)"

subsection \<open>Enrollment decisions\<close>

definition select_validation ::
  "enrollment_db \<Rightarrow> row_id \<Rightarrow> row_id \<Rightarrow> row_id \<Rightarrow> asset_candidate_dns_validation option" where
  "select_validation db revision_id evaluation_id validation_id =
     find (\<lambda>v. acv_id v = validation_id \<and> acv_asset_candidate_evaluation_id v = evaluation_id
               \<and> acv_authorization_revision_id v = revision_id) (e_validations db)"

definition load_exact_dns_validation ::
  "enrollment_db \<Rightarrow> row_id \<Rightarrow> row_id \<Rightarrow> row_id \<Rightarrow> row_id
   \<Rightarrow> decision_error + asset_candidate_evaluation \<times> asset_candidate_dns_validation" where
  "load_exact_dns_validation db profile_id revision_id evaluation_id validation_id =
     (case (select_revision db profile_id revision_id, select_evaluation db revision_id evaluation_id,
            select_validation db revision_id evaluation_id validation_id) of
        (Some _, Some evaluation, Some validation) \<Rightarrow>
          if acv_normalized_hostname validation \<noteq> ace_normalized_hostname evaluation then
            Inl AssetEnrollmentDecisionProvenanceError
          else Inr (evaluation, validation)
      | _ \<Rightarrow> Inl AssetEnrollmentDecisionNotFoundError)"

definition create_asset_enrollment_decision ::
  "(string \<Rightarrow> bool) \<Rightarrow> insert_env \<Rightarrow> row_id \<Rightarrow> row_id \<Rightarrow> row_id \<Rightarrow> row_id \<Rightarrow> string \<Rightarrow> string option
   \<Rightarrow> string option \<Rightarrow> (decision_error, asset_enrollment_decision) txn" where
  "create_asset_enrollment_decision uni_word env profile_id revision_id evaluation_id validation_id
     decision reason_code note db =
     res_bind (case note of None \<Rightarrow> Inr None
               | Some n \<Rightarrow> res_map Some (validate_non_secret_enrollment_note uni_word n)) (\<lambda>note'.
     res_bind (load_exact_dns_validation db profile_id revision_id evaluation_id validation_id)
       (\<lambda>(_, validation).
       (let enrollment =
          \<lparr>aed_id = in_id env, aed_asset_candidate_dns_validation_id = validation_id,
           aed_authorization_revision_id = revision_id, aed_decision = decision,
           aed_normalized_hostname = acv_normalized_hostname validation,
           aed_reason_code = reason_code, aed_note = note', aed_created_at = in_now env\<rparr> in
        if \<not> asset_enrollment_decision_row_ok enrollment then Inl AssetEnrollmentDecisionIntegrityError
        else Inr (db\<lparr>e_decisions := e_decisions db @ [enrollment]\<rparr>, enrollment))))"

subsection \<open>Targets from approved enrollments\<close>

datatype enrollment_target_error =
  ApprovedEnrollmentTargetNotFoundError
| ApprovedEnrollmentTargetInactiveRevisionError
| ApprovedEnrollmentTargetRejectedError
| ApprovedEnrollmentTargetProvenanceError
| ApprovedEnrollmentTargetDNSOutcomeError
| ApprovedEnrollmentTargetNetworkModeError
| ApprovedEnrollmentTargetConflictError
| ApprovedEnrollmentTargetConfigurationError

definition DNS_NETWORK_MODES :: "(string \<times> string) list" where
  "DNS_NETWORK_MODES =
     [(''asset_candidate_dns_private_local_only'', ''private_local''),
      (''asset_candidate_dns_public_only'', ''external_public_authorized'')]"

definition default_port :: "string \<Rightarrow> int" where
  "default_port schm = (if schm = ''http'' then 80 else 443)"

definition canonical_enrollment_origin :: "string \<Rightarrow> string \<Rightarrow> int option \<Rightarrow> string" where
  "canonical_enrollment_origin schm hostname port =
     schm @ ''://'' @ hostname
       @ (case port of None \<Rightarrow> [] | Some p \<Rightarrow> if p = default_port schm then [] else '':'' @ show_int p)"

definition equivalent_origin_representations ::
  "string \<Rightarrow> string \<Rightarrow> int option \<Rightarrow> string \<Rightarrow> string list" where
  "equivalent_origin_representations schm hostname port canonical =
     [canonical, canonical @ ''/'']
     @ (if port = None \<or> port = Some (default_port schm) then
          (let explicit_default = schm @ ''://'' @ hostname @ '':'' @ show_int (default_port schm) in
           [explicit_default, explicit_default @ ''/''])
        else [])"

definition select_decision :: "enrollment_db \<Rightarrow> row_id \<Rightarrow> row_id \<Rightarrow> row_id \<Rightarrow> asset_enrollment_decision option" where
  "select_decision db revision_id validation_id decision_id =
     find (\<lambda>d. aed_id d = decision_id \<and> aed_asset_candidate_dns_validation_id d = validation_id
               \<and> aed_authorization_revision_id d = revision_id) (e_decisions db)"

record target_request =
  trq_name :: string
  trq_environment :: string
  trq_scheme :: string
  trq_port :: "int option"
  trq_network_mode :: string

definition configuration_ok :: "target_request \<Rightarrow> bool" where
  "configuration_ok q \<longleftrightarrow>
     trq_scheme q \<in> {''http'', ''https''}
     \<and> (case trq_port q of None \<Rightarrow> True | Some p \<Rightarrow> 1 \<le> p \<and> p \<le> 65535)
     \<and> 1 \<le> py_len (trq_name q) \<and> py_len (trq_name q) \<le> 120
     \<and> 1 \<le> py_len (trq_environment q) \<and> py_len (trq_environment q) \<le> 50
     \<and> trq_network_mode q \<in> {''private_local'', ''external_public_authorized''}"

definition enrolled_target ::
  "insert_env \<Rightarrow> row_id \<Rightarrow> row_id \<Rightarrow> row_id \<Rightarrow> target_request \<Rightarrow> string \<Rightarrow> target" where
  "enrolled_target env profile_id revision_id decision_id q base_url =
     \<lparr>tgt_id = in_id env, tgt_asset_enrollment_decision_id = Some decision_id,
      tgt_authorization_profile_id = Some profile_id, tgt_authorization_revision_id = Some revision_id,
      tgt_name = trq_name q, tgt_base_url = base_url, tgt_environment = trq_environment q,
      tgt_network_mode = trq_network_mode q, tgt_is_enabled = True, tgt_created_at = in_now env\<rparr>"

text \<open>\<open>existing_state == requested_state\<close>\<close>

definition same_requested_state ::
  "row_id \<Rightarrow> row_id \<Rightarrow> target_request \<Rightarrow> string \<Rightarrow> target \<Rightarrow> bool" where
  "same_requested_state profile_id revision_id q base_url t \<longleftrightarrow>
     tgt_name t = trq_name q \<and> tgt_environment t = trq_environment q \<and> tgt_base_url t = base_url
     \<and> tgt_network_mode t = trq_network_mode q \<and> tgt_authorization_profile_id t = Some profile_id
     \<and> tgt_authorization_revision_id t = Some revision_id"

definition place_target ::
  "insert_env \<Rightarrow> row_id \<Rightarrow> row_id \<Rightarrow> target_request \<Rightarrow> asset_enrollment_decision
   \<Rightarrow> (enrollment_target_error, target) txn" where
  "place_target env profile_id revision_id q decision db =
     (let base_url = canonical_enrollment_origin (trq_scheme q) (aed_normalized_hostname decision) (trq_port q) in
      case find (\<lambda>t. tgt_asset_enrollment_decision_id t = Some (aed_id decision)) (e_targets db) of
        Some existing \<Rightarrow>
          if same_requested_state profile_id revision_id q base_url existing then Inr (db, existing)
          else Inl ApprovedEnrollmentTargetConflictError
      | None \<Rightarrow>
        if list_ex (\<lambda>t. tgt_base_url t \<in> set (equivalent_origin_representations (trq_scheme q)
              (aed_normalized_hostname decision) (trq_port q) base_url)) (e_targets db) then
          Inl ApprovedEnrollmentTargetConflictError
        else
          (let t = enrolled_target env profile_id revision_id (aed_id decision) q base_url in
           Inr (db\<lparr>e_targets := e_targets db @ [t]\<rparr>, t)))"

definition create_target_from_approved_enrollment ::
  "insert_env \<Rightarrow> row_id \<Rightarrow> row_id \<Rightarrow> row_id \<Rightarrow> row_id \<Rightarrow> row_id \<Rightarrow> target_request
   \<Rightarrow> (enrollment_target_error, target) txn" where
  "create_target_from_approved_enrollment env profile_id revision_id evaluation_id validation_id decision_id q db =
     (if \<not> configuration_ok q then Inl ApprovedEnrollmentTargetConfigurationError
      else (case lock_profile db profile_id of
        None \<Rightarrow> Inl ApprovedEnrollmentTargetNotFoundError
      | Some _ \<Rightarrow>
      (case select_revision db profile_id revision_id of
        None \<Rightarrow> Inl ApprovedEnrollmentTargetNotFoundError
      | Some revision \<Rightarrow>
        if rev_lifecycle_state revision \<noteq> ''active'' then Inl ApprovedEnrollmentTargetInactiveRevisionError
        else
      (case (select_evaluation db revision_id evaluation_id,
             select_validation db revision_id evaluation_id validation_id,
             select_decision db revision_id validation_id decision_id) of
        (Some evaluation, Some validation, Some decision) \<Rightarrow>
          if aed_decision decision \<noteq> ''approved'' then Inl ApprovedEnrollmentTargetRejectedError
          else if \<not> (aed_normalized_hostname decision = acv_normalized_hostname validation
                     \<and> acv_normalized_hostname validation = ace_normalized_hostname evaluation) then
            Inl ApprovedEnrollmentTargetProvenanceError
          else (case map_of DNS_NETWORK_MODES (acv_decision_code validation) of
            None \<Rightarrow> Inl ApprovedEnrollmentTargetDNSOutcomeError
          | Some required_mode \<Rightarrow>
            if trq_network_mode q \<noteq> required_mode then Inl ApprovedEnrollmentTargetNetworkModeError
            else place_target env profile_id revision_id q decision db)
      | _ \<Rightarrow> Inl ApprovedEnrollmentTargetNotFoundError))))"

subsection \<open>The target routes\<close>

text \<open>
  \<open>api/routes/targets.py\<close>. A rejection is the status code of the \<open>HTTPException\<close>, 500 for a column
  that the database refuses. \<open>payload.base_url\<close> is the text of the validated URL.
\<close>

record target_create =
  tcr_name :: string
  tcr_base_url :: string
  tcr_environment :: string
  tcr_network_mode :: string

definition create_target :: "insert_env \<Rightarrow> target_create \<Rightarrow> (nat, target) txn" where
  "create_target env payload db =
     (let t = \<lparr>tgt_id = in_id env, tgt_asset_enrollment_decision_id = None,
               tgt_authorization_profile_id = None, tgt_authorization_revision_id = None,
               tgt_name = tcr_name payload, tgt_base_url = tcr_base_url payload,
               tgt_environment = tcr_environment payload, tgt_network_mode = tcr_network_mode payload,
               tgt_is_enabled = True, tgt_created_at = in_now env\<rparr> in
      if target_columns_ok t then Inr (db\<lparr>e_targets := e_targets db @ [t]\<rparr>, t) else Inl 500)"

text \<open>The row of \<open>select(Target).where(Target.id == target_id).with_for_update()\<close> replaced.\<close>

definition set_target :: "row_id \<Rightarrow> (target \<Rightarrow> target) \<Rightarrow> enrollment_db \<Rightarrow> enrollment_db" where
  "set_target target_id f db =
     db\<lparr>e_targets := map (\<lambda>t. if tgt_id t = target_id then f t else t) (e_targets db)\<rparr>"

definition select_unbound_target :: "enrollment_db \<Rightarrow> row_id \<Rightarrow> nat + target" where
  "select_unbound_target db target_id =
     (case find (\<lambda>t. tgt_id t = target_id) (e_targets db) of
        None \<Rightarrow> Inl 404
      | Some t \<Rightarrow> if tgt_asset_enrollment_decision_id t \<noteq> None then Inl 409 else Inr t)"

definition update_target_network_mode :: "row_id \<Rightarrow> string \<Rightarrow> (nat, target) txn" where
  "update_target_network_mode target_id mode db =
     res_bind (select_unbound_target db target_id) (\<lambda>t.
       Inr (set_target target_id (\<lambda>t. t\<lparr>tgt_network_mode := mode\<rparr>) db, t\<lparr>tgt_network_mode := mode\<rparr>))"

definition update_target_authorization_profile :: "row_id \<Rightarrow> row_id option \<Rightarrow> (nat, target) txn" where
  "update_target_authorization_profile target_id profile_id db =
     res_bind (select_unbound_target db target_id) (\<lambda>t.
       if tgt_authorization_revision_id t \<noteq> None \<and> profile_id \<noteq> tgt_authorization_profile_id t then Inl 409
       else if (case profile_id of None \<Rightarrow> False | Some p \<Rightarrow> lock_profile db p = None) then Inl 404
       else Inr (set_target target_id (\<lambda>t. t\<lparr>tgt_authorization_profile_id := profile_id\<rparr>) db,
                 t\<lparr>tgt_authorization_profile_id := profile_id\<rparr>))"

definition check_bindable_revision :: "enrollment_db \<Rightarrow> target \<Rightarrow> row_id \<Rightarrow> nat + unit" where
  "check_bindable_revision db t revision_id =
     (case find (\<lambda>r. rev_id r = revision_id) (e_revisions db) of
        None \<Rightarrow> Inl 404
      | Some revision \<Rightarrow>
        if tgt_authorization_profile_id t = None then Inl 409
        else if Some (rev_authorization_profile_id revision) \<noteq> tgt_authorization_profile_id t then Inl 409
        else if rev_lifecycle_state revision \<noteq> ''active'' then Inl 409
        else Inr ())"

definition update_target_authorization_revision :: "row_id \<Rightarrow> row_id option \<Rightarrow> (nat, target) txn" where
  "update_target_authorization_revision target_id revision_id db =
     res_bind (select_unbound_target db target_id) (\<lambda>t.
     res_bind (case revision_id of None \<Rightarrow> Inr () | Some rid \<Rightarrow> check_bindable_revision db t rid) (\<lambda>_.
       Inr (set_target target_id (\<lambda>t. t\<lparr>tgt_authorization_revision_id := revision_id\<rparr>) db,
            t\<lparr>tgt_authorization_revision_id := revision_id\<rparr>)))"

subsection \<open>The profile routes\<close>

text \<open>
  Writing routes of \<open>api/routes/authorization_profiles.py\<close> with the validators of
  \<open>schemas/authorization_profile.py\<close>. A supplied field of an update is a constructor with its value, \<open>None\<close>
  for an explicit null, which the validation of the merged state refuses for required fields. Without a
  change no \<open>UPDATE\<close> is sent and \<open>updated_at\<close> stays.
\<close>

definition validate_required_string :: "string \<Rightarrow> string option" where
  "validate_required_string v = (if py_strip v = [] then None else Some (py_strip v))"

definition opt_len_ok :: "nat \<Rightarrow> string option \<Rightarrow> bool" where
  "opt_len_ok n v \<longleftrightarrow> (case v of None \<Rightarrow> True | Some s \<Rightarrow> py_len s \<le> n)"

definition rate_positive :: "pynum \<Rightarrow> bool" where
  "rate_positive r \<longleftrightarrow> (case r of PyFloat q \<Rightarrow> q > 0 | PyInf \<Rightarrow> True | _ \<Rightarrow> False)"

definition validity_window_ok :: "datetime option \<Rightarrow> datetime option \<Rightarrow> bool" where
  "validity_window_ok a b \<longleftrightarrow> (case (a, b) of (Some x, Some y) \<Rightarrow> \<not> y \<le> x | _ \<Rightarrow> True)"

definition validate_profile_create :: "profile_values \<Rightarrow> profile_values option" where
  "validate_profile_create v =
     (if py_len (prof_name v) \<le> 120 \<and> py_len (prof_program_name v) \<le> 200
         \<and> opt_len_ok 500 (prof_program_url v) \<and> py_len (prof_authorization_type v) \<le> 50
         \<and> opt_len_ok 500 (prof_authorization_reference v) \<and> rate_positive (prof_max_requests_per_second v)
         \<and> validity_window_ok (prof_valid_from v) (prof_valid_until v) then
        (case (validate_required_string (prof_name v), validate_required_string (prof_program_name v),
               validate_required_string (prof_authorization_type v)) of
           (Some n, Some p, Some t) \<Rightarrow>
             Some (v\<lparr>prof_name := n, prof_program_name := p, prof_authorization_type := t\<rparr>)
         | _ \<Rightarrow> None)
      else None)"

definition create_authorization_profile ::
  "insert_env \<Rightarrow> profile_values \<Rightarrow> (nat, authorization_profile) txn" where
  "create_authorization_profile env payload db =
     (case validate_profile_create payload of
        None \<Rightarrow> Inl 422
      | Some v \<Rightarrow>
        (let p = profile_values.extend v (authorization_profile.fields (in_id env) (in_now env) (in_now env)) in
         Inr (db\<lparr>e_profiles := e_profiles db @ [p]\<rparr>, p)))"

datatype profile_field =
  FName "string option"
| FProgramName "string option"
| FProgramUrl "string option"
| FAuthorizationType "string option"
| FAuthorizationReference "string option"
| FValidFrom "datetime option"
| FValidUntil "datetime option"
| FAutomationAllowed "bool option"
| FMaxRequestsPerSecond "pynum option"
| FAllowGet "bool option"
| FAllowPost "bool option"
| FAllowPatch "bool option"
| FAllowPut "bool option"
| FAllowDelete "bool option"
| FRequireHumanExecutionApproval "bool option"
| FNotes "string option"

text \<open>The validators of \<open>AuthorizationProfileUpdate\<close>.\<close>

definition validate_optional_string :: "nat \<Rightarrow> string option \<Rightarrow> string option option" where
  "validate_optional_string n v =
     (case v of None \<Rightarrow> Some None
      | Some s \<Rightarrow> if py_len s \<le> n then map_option Some (validate_required_string s) else None)"

fun validate_profile_field :: "profile_field \<Rightarrow> profile_field option" where
  "validate_profile_field (FName v) = map_option FName (validate_optional_string 120 v)"
| "validate_profile_field (FProgramName v) = map_option FProgramName (validate_optional_string 200 v)"
| "validate_profile_field (FAuthorizationType v) = map_option FAuthorizationType (validate_optional_string 50 v)"
| "validate_profile_field (FProgramUrl v) = (if opt_len_ok 500 v then Some (FProgramUrl v) else None)"
| "validate_profile_field (FAuthorizationReference v) =
     (if opt_len_ok 500 v then Some (FAuthorizationReference v) else None)"
| "validate_profile_field (FMaxRequestsPerSecond v) =
     (if (case v of None \<Rightarrow> True | Some r \<Rightarrow> rate_positive r) then Some (FMaxRequestsPerSecond v) else None)"
| "validate_profile_field f = Some f"

text \<open>\<open>merged_values.update(supplied_values)\<close>, \<open>None\<close> when a required field becomes null.\<close>

fun merge_field :: "profile_field \<Rightarrow> profile_values \<Rightarrow> profile_values option" where
  "merge_field (FName v) p = map_option (\<lambda>x. p\<lparr>prof_name := x\<rparr>) v"
| "merge_field (FProgramName v) p = map_option (\<lambda>x. p\<lparr>prof_program_name := x\<rparr>) v"
| "merge_field (FProgramUrl v) p = Some (p\<lparr>prof_program_url := v\<rparr>)"
| "merge_field (FAuthorizationType v) p = map_option (\<lambda>x. p\<lparr>prof_authorization_type := x\<rparr>) v"
| "merge_field (FAuthorizationReference v) p = Some (p\<lparr>prof_authorization_reference := v\<rparr>)"
| "merge_field (FValidFrom v) p = Some (p\<lparr>prof_valid_from := v\<rparr>)"
| "merge_field (FValidUntil v) p = Some (p\<lparr>prof_valid_until := v\<rparr>)"
| "merge_field (FAutomationAllowed v) p = map_option (\<lambda>x. p\<lparr>prof_automation_allowed := x\<rparr>) v"
| "merge_field (FMaxRequestsPerSecond v) p = map_option (\<lambda>x. p\<lparr>prof_max_requests_per_second := x\<rparr>) v"
| "merge_field (FAllowGet v) p = map_option (\<lambda>x. p\<lparr>prof_allow_get := x\<rparr>) v"
| "merge_field (FAllowPost v) p = map_option (\<lambda>x. p\<lparr>prof_allow_post := x\<rparr>) v"
| "merge_field (FAllowPatch v) p = map_option (\<lambda>x. p\<lparr>prof_allow_patch := x\<rparr>) v"
| "merge_field (FAllowPut v) p = map_option (\<lambda>x. p\<lparr>prof_allow_put := x\<rparr>) v"
| "merge_field (FAllowDelete v) p = map_option (\<lambda>x. p\<lparr>prof_allow_delete := x\<rparr>) v"
| "merge_field (FRequireHumanExecutionApproval v) p =
     map_option (\<lambda>x. p\<lparr>prof_require_human_execution_approval := x\<rparr>) v"
| "merge_field (FNotes v) p = Some (p\<lparr>prof_notes := v\<rparr>)"

fun merge_fields :: "profile_field list \<Rightarrow> profile_values \<Rightarrow> profile_values option" where
  "merge_fields [] p = Some p"
| "merge_fields (f # fs) p = (case merge_field f p of None \<Rightarrow> None | Some p' \<Rightarrow> merge_fields fs p')"

text \<open>\<open>setattr(profile, field_name, normalized_values[field_name])\<close>\<close>

fun copy_field :: "profile_values \<Rightarrow> profile_field \<Rightarrow> authorization_profile \<Rightarrow> authorization_profile" where
  "copy_field v (FName _) p = p\<lparr>prof_name := prof_name v\<rparr>"
| "copy_field v (FProgramName _) p = p\<lparr>prof_program_name := prof_program_name v\<rparr>"
| "copy_field v (FProgramUrl _) p = p\<lparr>prof_program_url := prof_program_url v\<rparr>"
| "copy_field v (FAuthorizationType _) p = p\<lparr>prof_authorization_type := prof_authorization_type v\<rparr>"
| "copy_field v (FAuthorizationReference _) p = p\<lparr>prof_authorization_reference := prof_authorization_reference v\<rparr>"
| "copy_field v (FValidFrom _) p = p\<lparr>prof_valid_from := prof_valid_from v\<rparr>"
| "copy_field v (FValidUntil _) p = p\<lparr>prof_valid_until := prof_valid_until v\<rparr>"
| "copy_field v (FAutomationAllowed _) p = p\<lparr>prof_automation_allowed := prof_automation_allowed v\<rparr>"
| "copy_field v (FMaxRequestsPerSecond _) p = p\<lparr>prof_max_requests_per_second := prof_max_requests_per_second v\<rparr>"
| "copy_field v (FAllowGet _) p = p\<lparr>prof_allow_get := prof_allow_get v\<rparr>"
| "copy_field v (FAllowPost _) p = p\<lparr>prof_allow_post := prof_allow_post v\<rparr>"
| "copy_field v (FAllowPatch _) p = p\<lparr>prof_allow_patch := prof_allow_patch v\<rparr>"
| "copy_field v (FAllowPut _) p = p\<lparr>prof_allow_put := prof_allow_put v\<rparr>"
| "copy_field v (FAllowDelete _) p = p\<lparr>prof_allow_delete := prof_allow_delete v\<rparr>"
| "copy_field v (FRequireHumanExecutionApproval _) p =
     p\<lparr>prof_require_human_execution_approval := prof_require_human_execution_approval v\<rparr>"
| "copy_field v (FNotes _) p = p\<lparr>prof_notes := prof_notes v\<rparr>"

definition update_authorization_profile ::
  "insert_env \<Rightarrow> row_id \<Rightarrow> profile_field list \<Rightarrow> (nat, authorization_profile) txn" where
  "update_authorization_profile env profile_id payload db =
     (if list_ex (\<lambda>f. validate_profile_field f = None) payload then Inl 422
      else
        (let supplied = map (\<lambda>f. the (validate_profile_field f)) payload in
         case lock_profile db profile_id of
           None \<Rightarrow> Inl 404
         | Some profile \<Rightarrow>
           (case Option.bind (merge_fields supplied (profile_values.truncate profile)) validate_profile_create of
              None \<Rightarrow> Inl 422
            | Some v \<Rightarrow>
              (let q = fold (copy_field v) supplied profile;
                   p = (if q = profile then profile else q\<lparr>prof_updated_at := in_now env\<rparr>) in
               Inr (db\<lparr>e_profiles := map (\<lambda>q. if prof_id q = profile_id then p else q) (e_profiles db)\<rparr>, p)))))"

text \<open>Revisions and targets that refer to the profile restrict its deletion.\<close>

definition delete_authorization_profile :: "row_id \<Rightarrow> (nat, unit) txn" where
  "delete_authorization_profile profile_id db =
     (case lock_profile db profile_id of
        None \<Rightarrow> Inl 404
      | Some _ \<Rightarrow>
        if profile_revisions db profile_id \<noteq> []
           \<or> list_ex (\<lambda>t. tgt_authorization_profile_id t = Some profile_id) (e_targets db) then Inl 409
        else Inr (db\<lparr>e_profiles := filter (\<lambda>p. prof_id p \<noteq> profile_id) (e_profiles db)\<rparr>, ()))"

end
