(* ===== verification/Enrollment_Safety.thy ===== *)
theory Enrollment_Safety
  imports Enrollment
begin

text \<open>
  What the enrollment services guarantee together: every writing operation on the tables of
  profiles, revisions, hostname rules, evaluations, DNS validations, decisions and targets is
  a step, in any order and by any number of sessions; the history that the steps keep; the invariant
  of all reachable tables; and the provenance of enrolled targets that follows from it.
\<close>

subsection \<open>Steps\<close>

inductive estep :: "idna_codec \<Rightarrow> (string \<Rightarrow> bool) \<Rightarrow> enrollment_db \<Rightarrow> enrollment_db \<Rightarrow> bool"
  for idna uni_word where
  profile_create: "create_authorization_profile env payload db = Inr (db', p) \<Longrightarrow>
    in_id env \<notin> prof_id ` set (e_profiles db) \<Longrightarrow> estep idna uni_word db db'"
| profile_update: "update_authorization_profile env pid supplied db = Inr (db', p) \<Longrightarrow> estep idna uni_word db db'"
| profile_delete: "delete_authorization_profile pid db = Inr (db', u) \<Longrightarrow> estep idna uni_word db db'"
| revision_create: "create_revision env pid db = Inr (db', r) \<Longrightarrow>
    in_id env \<notin> rev_id ` set (e_revisions db) \<Longrightarrow> estep idna uni_word db db'"
| revision_transition: "transition_revision pid rid destination db = Inr (db', r) \<Longrightarrow> estep idna uni_word db db'"
| rule_create: "create_asset_hostname_rule idna env pid rid kind pattern db = Inr (db', rule) \<Longrightarrow>
    in_id env \<notin> ahr_id ` set (e_rules db) \<Longrightarrow> estep idna uni_word db db'"
| rule_delete: "delete_asset_hostname_rule pid rid rule_id db = Inr (db', u) \<Longrightarrow> estep idna uni_word db db'"
| candidate_evaluate: "create_asset_candidate_evaluation idna env pid rid hostname db = Inr (db', e) \<Longrightarrow>
    in_id env \<notin> ace_id ` set (e_evaluations db) \<Longrightarrow> estep idna uni_word db db'"
| dns_validate: "final_revalidation env pid rid eid captured decision db = Inr (db', v) \<Longrightarrow>
    classify_asset_candidate_dns idna rsv captured = Some decision \<Longrightarrow>
    in_id env \<notin> acv_id ` set (e_validations db) \<Longrightarrow> estep idna uni_word db db'"
| enrollment_decide: "create_asset_enrollment_decision uni_word env pid rid eid vid decided reason note db = Inr (db', d) \<Longrightarrow>
    in_id env \<notin> aed_id ` set (e_decisions db) \<Longrightarrow> estep idna uni_word db db'"
| target_enroll: "create_target_from_approved_enrollment env pid rid eid vid did q db = Inr (db', t) \<Longrightarrow>
    in_id env \<notin> tgt_id ` set (e_targets db) \<Longrightarrow> estep idna uni_word db db'"
| target_create: "create_target env payload db = Inr (db', t) \<Longrightarrow>
    in_id env \<notin> tgt_id ` set (e_targets db) \<Longrightarrow> estep idna uni_word db db'"
| target_mode: "update_target_network_mode tid mode db = Inr (db', t) \<Longrightarrow> estep idna uni_word db db'"
| target_profile: "update_target_authorization_profile tid pid' db = Inr (db', t) \<Longrightarrow> estep idna uni_word db db'"
| target_revision: "update_target_authorization_revision tid rid' db = Inr (db', t) \<Longrightarrow> estep idna uni_word db db'"

definition empty_db :: enrollment_db where
  "empty_db = \<lparr>e_profiles = [], e_revisions = [], e_rules = [], e_evaluations = [], e_validations = [], e_hops = [],
     e_addresses = [], e_decisions = [], e_targets = []\<rparr>"

definition esteps :: "idna_codec \<Rightarrow> (string \<Rightarrow> bool) \<Rightarrow> enrollment_db \<Rightarrow> enrollment_db \<Rightarrow> bool" where
  "esteps idna uni_word = (estep idna uni_word)\<^sup>*\<^sup>*"

definition ereach :: "idna_codec \<Rightarrow> (string \<Rightarrow> bool) \<Rightarrow> enrollment_db \<Rightarrow> bool" where
  "ereach idna uni_word db \<longleftrightarrow> esteps idna uni_word empty_db db"

subsection \<open>The history that is kept\<close>

text \<open>The lifecycle of a revision: a draft is activated or revoked, an active one superseded or revoked.\<close>

definition lifecycle_le :: "string \<Rightarrow> string \<Rightarrow> bool" where
  "lifecycle_le a b \<longleftrightarrow>
     a = b \<or> a = ''draft'' \<and> b \<in> {''active'', ''superseded'', ''revoked''}
     \<or> a = ''active'' \<and> b \<in> {''superseded'', ''revoked''}"

definition revision_moves :: "authorization_revision \<Rightarrow> authorization_revision \<Rightarrow> bool" where
  "revision_moves r r' \<longleftrightarrow>
     (\<exists>s. r' = r\<lparr>rev_lifecycle_state := s\<rparr> \<and> lifecycle_le (rev_lifecycle_state r) s)"

definition nondraft :: "enrollment_db \<Rightarrow> row_id \<Rightarrow> bool" where
  "nondraft db rid \<longleftrightarrow> (\<exists>r \<in> set (e_revisions db). rev_id r = rid \<and> rev_lifecycle_state r \<noteq> ''draft'')"

definition validation_addresses :: "enrollment_db \<Rightarrow> row_id \<Rightarrow> asset_candidate_dns_address list" where
  "validation_addresses db vid = filter (\<lambda>a. adr_dns_validation_id a = vid) (e_addresses db)"

definition validation_hops :: "enrollment_db \<Rightarrow> row_id \<Rightarrow> asset_candidate_dns_cname_hop list" where
  "validation_hops db vid = filter (\<lambda>a. hop_dns_validation_id a = vid) (e_hops db)"

definition enrolled :: "target \<Rightarrow> bool" where
  "enrolled t \<longleftrightarrow> tgt_asset_enrollment_decision_id t \<noteq> None"

definition history_kept :: "enrollment_db \<Rightarrow> enrollment_db \<Rightarrow> bool" where
  "history_kept db db' \<longleftrightarrow>
     (\<forall>r \<in> set (e_revisions db). \<exists>r' \<in> set (e_revisions db'). revision_moves r r')
     \<and> (\<forall>rid. nondraft db rid \<longrightarrow> revision_rules db' rid = revision_rules db rid)
     \<and> prefix (e_evaluations db) (e_evaluations db') \<and> prefix (e_validations db) (e_validations db')
     \<and> prefix (e_decisions db) (e_decisions db')
     \<and> (\<forall>v \<in> set (e_validations db).
          validation_addresses db' (acv_id v) = validation_addresses db (acv_id v)
          \<and> validation_hops db' (acv_id v) = validation_hops db (acv_id v))
     \<and> (\<forall>t \<in> set (e_targets db). enrolled t \<longrightarrow> t \<in> set (e_targets db'))"

lemma lifecycle_le_trans: "lifecycle_le a b \<Longrightarrow> lifecycle_le b c \<Longrightarrow> lifecycle_le a c"
  by (auto simp: lifecycle_le_def)

lemma revision_moves_refl [simp]: "revision_moves r r"
  by (auto simp: revision_moves_def lifecycle_le_def intro: exI[of _ "rev_lifecycle_state r"])

lemma revision_moves_set: "lifecycle_le (rev_lifecycle_state r) s \<Longrightarrow> revision_moves r (r\<lparr>rev_lifecycle_state := s\<rparr>)"
  by (auto simp: revision_moves_def)

lemma revision_moves_trans: "revision_moves a b \<Longrightarrow> revision_moves b c \<Longrightarrow> revision_moves a c"
  unfolding revision_moves_def by (elim exE conjE) (auto dest: lifecycle_le_trans intro!: exI[of _ "rev_lifecycle_state c"])

lemma revision_moves_id: "revision_moves r r' \<Longrightarrow> rev_id r' = rev_id r"
  and revision_moves_profile: "revision_moves r r' \<Longrightarrow> rev_authorization_profile_id r' = rev_authorization_profile_id r"
  and revision_moves_number: "revision_moves r r' \<Longrightarrow> rev_revision_number r' = rev_revision_number r"
  and revision_moves_state: "revision_moves r r' \<Longrightarrow> lifecycle_le (rev_lifecycle_state r) (rev_lifecycle_state r')"
  by (auto simp: revision_moves_def)

lemmas revision_moves_facts = revision_moves_id revision_moves_profile revision_moves_number revision_moves_state

lemma history_refl [simp]: "history_kept db db"
  unfolding history_kept_def by (intro conjI ballI allI impI) (blast intro: revision_moves_refl | simp)+

lemma nondraft_kept:
  assumes "history_kept db db'" "nondraft db rid"
  shows "nondraft db' rid"
proof -
  from assms(2) obtain r where r: "r \<in> set (e_revisions db)" "rev_id r = rid" "rev_lifecycle_state r \<noteq> ''draft''"
    by (auto simp: nondraft_def)
  with assms(1) obtain r' where "r' \<in> set (e_revisions db')" "revision_moves r r'" by (auto simp: history_kept_def)
  then show ?thesis using r revision_moves_facts[of r r'] by (auto simp: nondraft_def lifecycle_le_def)
qed

lemma history_trans:
  assumes "history_kept a b" "history_kept b c"
  shows "history_kept a c"
proof -
  have "\<exists>r' \<in> set (e_revisions c). revision_moves r r'" if "r \<in> set (e_revisions a)" for r
    using assms that revision_moves_trans unfolding history_kept_def by meson
  moreover have "revision_rules c rid = revision_rules a rid" if "nondraft a rid" for rid
    using assms that nondraft_kept[OF assms(1)] unfolding history_kept_def by metis
  moreover have "validation_addresses c (acv_id v) = validation_addresses a (acv_id v)
      \<and> validation_hops c (acv_id v) = validation_hops a (acv_id v)" if "v \<in> set (e_validations a)" for v
    using assms that set_mono_prefix unfolding history_kept_def by (metis subsetD)
  moreover have "t \<in> set (e_targets c)" if "t \<in> set (e_targets a)" "enrolled t" for t
    using assms that unfolding history_kept_def by blast
  moreover have "prefix (e_evaluations a) (e_evaluations c)" "prefix (e_validations a) (e_validations c)"
    "prefix (e_decisions a) (e_decisions c)"
    using assms unfolding history_kept_def by (meson prefix_order.trans)+
  ultimately show ?thesis unfolding history_kept_def by blast
qed

subsection \<open>The invariant\<close>

definition keys_inv :: "enrollment_db \<Rightarrow> bool" where
  "keys_inv db \<longleftrightarrow>
     distinct (map prof_id (e_profiles db)) \<and> distinct (map rev_id (e_revisions db))
     \<and> distinct (map ahr_id (e_rules db)) \<and> distinct (map ace_id (e_evaluations db))
     \<and> distinct (map acv_id (e_validations db)) \<and> distinct (map aed_id (e_decisions db))
     \<and> distinct (map tgt_id (e_targets db))"

definition profile_inv :: "enrollment_db \<Rightarrow> bool" where
  "profile_inv db \<longleftrightarrow>
     (\<forall>p \<in> set (e_profiles db). authorization_profile_row_ok p)
     \<and> (\<forall>r \<in> set (e_revisions db). rev_authorization_profile_id r \<in> prof_id ` set (e_profiles db))"

text \<open>The constraints of the table of revisions, its partial unique index on active revisions included.\<close>

definition one_active_per_profile :: "authorization_revision list \<Rightarrow> bool" where
  "one_active_per_profile revisions \<longleftrightarrow>
     distinct (map rev_authorization_profile_id (filter (\<lambda>r. rev_lifecycle_state r = ''active'') revisions))"

definition revision_inv :: "authorization_revision list \<Rightarrow> bool" where
  "revision_inv revisions \<longleftrightarrow>
     list_all authorization_revision_row_ok revisions \<and> one_active_per_profile revisions
     \<and> distinct (map (\<lambda>r. (rev_authorization_profile_id r, rev_revision_number r)) revisions)"

text \<open>What the stored rows say is true, of the rules and addresses that are stored now.\<close>

definition evaluation_ok :: "enrollment_db \<Rightarrow> asset_candidate_evaluation \<Rightarrow> bool" where
  "evaluation_ok db e \<longleftrightarrow>
     (let rid = ace_authorization_revision_id e; h = ace_normalized_hostname e; rules = revision_rules db rid in
      nondraft db rid \<and> dns_name h
      \<and> ace_decision_code e
        = (if list_ex (rule_covers rid ''exclude'' h) rules then ''asset_candidate_excluded''
           else if list_ex (rule_covers rid ''include'' h) rules then ''asset_candidate_included''
           else ''asset_candidate_not_included'')
      \<and> reports_rule rid ''include'' h rules (ace_matched_include_rule_id e)
      \<and> reports_rule rid ''exclude'' h rules (ace_matched_exclude_rule_id e))"

definition addresses_ok :: "string \<Rightarrow> asset_candidate_dns_address list \<Rightarrow> bool" where
  "addresses_ok code rows \<longleftrightarrow>
     (\<exists>ips. map adr_address rows = map compressed ips
        \<and> map adr_category rows = map (category_value \<circ> classify_address) ips
        \<and> (code = ''asset_candidate_dns_private_local_only'' \<longrightarrow> ips \<noteq> [] \<and> list_all local_address ips)
        \<and> (code = ''asset_candidate_dns_public_only'' \<longrightarrow>
             ips \<noteq> [] \<and> list_all (\<lambda>ip. classify_address ip = PUBLIC) ips))"

definition validation_ok :: "enrollment_db \<Rightarrow> asset_candidate_dns_validation \<Rightarrow> bool" where
  "validation_ok db v \<longleftrightarrow>
     (\<exists>e \<in> set (e_evaluations db). ace_id e = acv_asset_candidate_evaluation_id v
        \<and> ace_authorization_revision_id e = acv_authorization_revision_id v
        \<and> ace_decision_code e = ''asset_candidate_included''
        \<and> ace_normalized_hostname e = acv_normalized_hostname v)
     \<and> ip_address_of (acv_normalized_hostname v) = None
     \<and> addresses_ok (acv_decision_code v) (validation_addresses db (acv_id v))"

definition decision_ok :: "enrollment_db \<Rightarrow> asset_enrollment_decision \<Rightarrow> bool" where
  "decision_ok db d \<longleftrightarrow>
     (\<exists>v \<in> set (e_validations db). acv_id v = aed_asset_candidate_dns_validation_id d
        \<and> acv_authorization_revision_id v = aed_authorization_revision_id d
        \<and> acv_normalized_hostname v = aed_normalized_hostname d)"

definition port_ok :: "int option \<Rightarrow> bool" where
  "port_ok port \<longleftrightarrow> (case port of None \<Rightarrow> True | Some p \<Rightarrow> 1 \<le> p \<and> p \<le> 65535)"

definition target_ok :: "enrollment_db \<Rightarrow> target \<Rightarrow> bool" where
  "target_ok db t \<longleftrightarrow>
     (\<exists>d \<in> set (e_decisions db). \<exists>v \<in> set (e_validations db). \<exists>r \<in> set (e_revisions db). \<exists>schm port.
        tgt_asset_enrollment_decision_id t = Some (aed_id d) \<and> aed_decision d = ''approved''
        \<and> acv_id v = aed_asset_candidate_dns_validation_id d
        \<and> acv_authorization_revision_id v = rev_id r \<and> acv_normalized_hostname v = aed_normalized_hostname d
        \<and> rev_id r = aed_authorization_revision_id d
        \<and> tgt_authorization_revision_id t = Some (rev_id r)
        \<and> tgt_authorization_profile_id t = Some (rev_authorization_profile_id r)
        \<and> schm \<in> {''http'', ''https''} \<and> port_ok port
        \<and> tgt_base_url t = canonical_enrollment_origin schm (aed_normalized_hostname d) port
        \<and> map_of DNS_NETWORK_MODES (acv_decision_code v) = Some (tgt_network_mode t))"

definition rows_inv :: "enrollment_db \<Rightarrow> bool" where
  "rows_inv db \<longleftrightarrow>
     (\<forall>e \<in> set (e_evaluations db). evaluation_ok db e) \<and> (\<forall>v \<in> set (e_validations db). validation_ok db v)
     \<and> (\<forall>d \<in> set (e_decisions db). decision_ok db d)
     \<and> (\<forall>t \<in> set (e_targets db). enrolled t \<longrightarrow> target_ok db t)"

text \<open>Children belong to stored validations; a bound revision belongs to the bound profile.\<close>

definition refs_inv :: "enrollment_db \<Rightarrow> bool" where
  "refs_inv db \<longleftrightarrow>
     (\<forall>a \<in> set (e_addresses db). adr_dns_validation_id a \<in> acv_id ` set (e_validations db))
     \<and> (\<forall>a \<in> set (e_hops db). hop_dns_validation_id a \<in> acv_id ` set (e_validations db))
     \<and> (\<forall>t \<in> set (e_targets db). \<forall>rid. tgt_authorization_revision_id t = Some rid \<longrightarrow>
          (\<exists>r \<in> set (e_revisions db). rev_id r = rid
             \<and> tgt_authorization_profile_id t = Some (rev_authorization_profile_id r)))"

definition enrolled_inv :: "target list \<Rightarrow> bool" where
  "enrolled_inv targets \<longleftrightarrow>
     distinct (map tgt_asset_enrollment_decision_id (filter enrolled targets))
     \<and> distinct (map tgt_base_url (filter enrolled targets))"

definition einv :: "enrollment_db \<Rightarrow> bool" where
  "einv db \<longleftrightarrow> keys_inv db \<and> profile_inv db \<and> revision_inv (e_revisions db) \<and> rows_inv db \<and> refs_inv db
     \<and> enrolled_inv (e_targets db)"

lemma evaluation_ok_kept: "history_kept db db' \<Longrightarrow> evaluation_ok db e \<Longrightarrow> evaluation_ok db' e"
  using nondraft_kept[of db db' "ace_authorization_revision_id e"]
  by (simp add: evaluation_ok_def history_kept_def Let_def)

lemma validation_ok_kept:
  assumes "history_kept db db'" "v \<in> set (e_validations db)" "validation_ok db v"
  shows "validation_ok db' v"
proof -
  have "set (e_evaluations db) \<subseteq> set (e_evaluations db')"
    "validation_addresses db' (acv_id v) = validation_addresses db (acv_id v)"
    using assms(1,2) set_mono_prefix by (auto simp: history_kept_def)
  then show ?thesis using assms(3) unfolding validation_ok_def by (metis subsetD)
qed

lemma decision_ok_kept:
  assumes "history_kept db db'" "decision_ok db d"
  shows "decision_ok db' d"
proof -
  have "set (e_validations db) \<subseteq> set (e_validations db')"
    using assms(1) set_mono_prefix by (auto simp: history_kept_def)
  then show ?thesis using assms(2) unfolding decision_ok_def by blast
qed

lemma target_okE:
  assumes "target_ok db t"
  obtains d v r schm port where "d \<in> set (e_decisions db)" "v \<in> set (e_validations db)" "r \<in> set (e_revisions db)"
    "tgt_asset_enrollment_decision_id t = Some (aed_id d)" "aed_decision d = ''approved''"
    "acv_id v = aed_asset_candidate_dns_validation_id d"
    "acv_authorization_revision_id v = rev_id r" "acv_normalized_hostname v = aed_normalized_hostname d"
    "rev_id r = aed_authorization_revision_id d"
    "tgt_authorization_revision_id t = Some (rev_id r)"
    "tgt_authorization_profile_id t = Some (rev_authorization_profile_id r)"
    "schm \<in> {''http'', ''https''}" "port_ok port"
    "tgt_base_url t = canonical_enrollment_origin schm (aed_normalized_hostname d) port"
    "map_of DNS_NETWORK_MODES (acv_decision_code v) = Some (tgt_network_mode t)"
  using assms unfolding target_ok_def by blast

lemma target_ok_kept:
  assumes "history_kept db db'" "target_ok db t"
  shows "target_ok db' t"
proof -
  have sub: "set (e_validations db) \<subseteq> set (e_validations db')" "set (e_decisions db) \<subseteq> set (e_decisions db')"
    using assms(1) set_mono_prefix by (auto simp: history_kept_def)
  obtain d v r schm port where *: "d \<in> set (e_decisions db)" "v \<in> set (e_validations db)" "r \<in> set (e_revisions db)"
    "tgt_asset_enrollment_decision_id t = Some (aed_id d)" "aed_decision d = ''approved''"
    "acv_id v = aed_asset_candidate_dns_validation_id d"
    "acv_authorization_revision_id v = rev_id r" "acv_normalized_hostname v = aed_normalized_hostname d"
    "rev_id r = aed_authorization_revision_id d"
    "tgt_authorization_revision_id t = Some (rev_id r)"
    "tgt_authorization_profile_id t = Some (rev_authorization_profile_id r)"
    "schm \<in> {''http'', ''https''}" "port_ok port"
    "tgt_base_url t = canonical_enrollment_origin schm (aed_normalized_hostname d) port"
    "map_of DNS_NETWORK_MODES (acv_decision_code v) = Some (tgt_network_mode t)"
    by (rule target_okE[OF assms(2)])
  from *(3) assms(1) obtain r' where r': "r' \<in> set (e_revisions db')" "revision_moves r r'"
    by (auto simp: history_kept_def)
  show ?thesis
    unfolding target_ok_def
    using * sub r' revision_moves_facts[OF r'(2)]
    by (intro bexI[of _ d] bexI[of _ v] bexI[of _ r'] exI[of _ schm] exI[of _ port] conjI) auto
qed

lemma rows_inv_grow:
  assumes "history_kept db db'" "rows_inv db"
    and "\<And>e. e \<in> set (e_evaluations db') \<Longrightarrow> e \<in> set (e_evaluations db) \<or> evaluation_ok db' e"
    and "\<And>v. v \<in> set (e_validations db') \<Longrightarrow> v \<in> set (e_validations db) \<or> validation_ok db' v"
    and "\<And>d. d \<in> set (e_decisions db') \<Longrightarrow> d \<in> set (e_decisions db) \<or> decision_ok db' d"
    and "\<And>t. t \<in> set (e_targets db') \<Longrightarrow> enrolled t \<Longrightarrow> t \<in> set (e_targets db) \<or> target_ok db' t"
  shows "rows_inv db'"
proof -
  note old = assms(2)[unfolded rows_inv_def]
  show ?thesis
    unfolding rows_inv_def
  proof (intro conjI ballI impI)
    fix e assume "e \<in> set (e_evaluations db')"
    then show "evaluation_ok db' e" using assms(3) old evaluation_ok_kept[OF assms(1)] by blast
  next
    fix v assume "v \<in> set (e_validations db')"
    then show "validation_ok db' v" using assms(4) old validation_ok_kept[OF assms(1)] by blast
  next
    fix d assume "d \<in> set (e_decisions db')"
    then show "decision_ok db' d" using assms(5) old decision_ok_kept[OF assms(1)] by blast
  next
    fix t assume "t \<in> set (e_targets db')" "enrolled t"
    then show "target_ok db' t" using assms(6) old target_ok_kept[OF assms(1)] by blast
  qed
qed

subsection \<open>Profiles keep the invariant\<close>

lemma lock_profile_Some: "lock_profile db pid = Some p \<Longrightarrow> p \<in> set (e_profiles db) \<and> prof_id p = pid"
  unfolding lock_profile_def by (drule find_Some_in) simp

lemma select_revision_Some:
  "select_revision db pid rid = Some r \<Longrightarrow> r \<in> set (e_revisions db) \<and> rev_id r = rid \<and> rev_authorization_profile_id r = pid"
  unfolding select_revision_def by (drule find_Some_in) simp

text \<open>Only profiles or targets change, and enrolled targets stay.\<close>

lemma history_outer:
  assumes "e_revisions db' = e_revisions db" "e_rules db' = e_rules db" "e_evaluations db' = e_evaluations db"
    "e_validations db' = e_validations db" "e_hops db' = e_hops db" "e_addresses db' = e_addresses db"
    "e_decisions db' = e_decisions db" "\<And>t. t \<in> set (e_targets db) \<Longrightarrow> enrolled t \<Longrightarrow> t \<in> set (e_targets db')"
  shows "history_kept db db'"
proof -
  have "\<exists>r' \<in> set (e_revisions db'). revision_moves r r'" if "r \<in> set (e_revisions db)" for r
    using that assms(1) by (intro bexI[of _ r]) simp_all
  then show ?thesis
    unfolding history_kept_def using assms by (simp add: revision_rules_def validation_addresses_def validation_hops_def)
qed

lemma einv_profiles:
  assumes "einv db" "distinct (map prof_id ps)" "\<forall>p \<in> set ps. authorization_profile_row_ok p"
    and "\<forall>r \<in> set (e_revisions db). rev_authorization_profile_id r \<in> prof_id ` set ps"
  shows "history_kept db (db\<lparr>e_profiles := ps\<rparr>) \<and> einv (db\<lparr>e_profiles := ps\<rparr>)"
proof -
  have h: "history_kept db (db\<lparr>e_profiles := ps\<rparr>)" by (rule history_outer) auto
  moreover have "rows_inv (db\<lparr>e_profiles := ps\<rparr>)" using assms(1) by (intro rows_inv_grow[OF h]) (auto simp: einv_def)
  ultimately show ?thesis
    using assms by (simp add: einv_def keys_inv_def profile_inv_def refs_inv_def)
qed

lemma rate_row_ok: "rate_positive r \<Longrightarrow> (case r of PyFloat q \<Rightarrow> q > 0 | PyInf \<Rightarrow> True | PyNan \<Rightarrow> True | _ \<Rightarrow> False)"
  by (auto simp: rate_positive_def split: pynum.splits)

lemma window_row_ok:
  "validity_window_ok a b \<longleftrightarrow> (case (a, b) of (Some x, Some y) \<Rightarrow> y > x | _ \<Rightarrow> True)"
  by (auto simp: validity_window_ok_def split: option.splits)

lemma validate_profile_ok:
  assumes "validate_profile_create v = Some w"
  shows "authorization_profile_row_ok w" "prof_valid_from w = prof_valid_from v" "prof_valid_until w = prof_valid_until v"
    "prof_max_requests_per_second w = prof_max_requests_per_second v"
  using assms rate_row_ok[of "prof_max_requests_per_second v"] window_row_ok[of "prof_valid_from v" "prof_valid_until v"]
  by (auto simp: validate_profile_create_def authorization_profile_row_ok_def split: if_splits option.splits)

lemma profile_create_kept:
  assumes "create_authorization_profile env payload db = Inr (db', p)" "einv db" "in_id env \<notin> prof_id ` set (e_profiles db)"
  shows "history_kept db db' \<and> einv db'"
proof -
  from assms(1) obtain v where v: "validate_profile_create payload = Some v"
    and p: "p = profile_values.extend v (authorization_profile.fields (in_id env) (in_now env) (in_now env))"
    and db': "db' = db\<lparr>e_profiles := e_profiles db @ [p]\<rparr>"
    by (auto simp: create_authorization_profile_def Let_def split: option.splits)
  have "authorization_profile_row_ok p" "prof_id p = in_id env"
    using validate_profile_ok(1)[OF v] p
    by (auto simp: authorization_profile_row_ok_def profile_values.defs authorization_profile.defs)
  then show ?thesis
    unfolding db' using assms(2,3) by (intro einv_profiles) (auto simp: einv_def keys_inv_def profile_inv_def)
qed

lemma merge_field_keeps:
  assumes "merge_field f p = Some p'"
  shows "(case f of FValidFrom _ \<Rightarrow> True | _ \<Rightarrow> prof_valid_from p' = prof_valid_from p)"
    "(case f of FValidUntil _ \<Rightarrow> True | _ \<Rightarrow> prof_valid_until p' = prof_valid_until p)"
    "(case f of FMaxRequestsPerSecond _ \<Rightarrow> True | _ \<Rightarrow> prof_max_requests_per_second p' = prof_max_requests_per_second p)"
  using assms by (cases f; auto)+

text \<open>Copying supplied fields of the validated state gives a row with the validated window and rate.\<close>

lemma copied_fields:
  "prof_valid_from (fold (copy_field v) fs q)
      = (if \<exists>x. FValidFrom x \<in> set fs then prof_valid_from v else prof_valid_from q)
   \<and> prof_valid_until (fold (copy_field v) fs q)
      = (if \<exists>x. FValidUntil x \<in> set fs then prof_valid_until v else prof_valid_until q)
   \<and> prof_max_requests_per_second (fold (copy_field v) fs q)
      = (if \<exists>x. FMaxRequestsPerSecond x \<in> set fs then prof_max_requests_per_second v else prof_max_requests_per_second q)
   \<and> prof_id (fold (copy_field v) fs q) = prof_id q"
proof (induction fs arbitrary: q)
  case (Cons f fs)
  show ?case by (cases f) (auto simp: Cons.IH)
qed simp

lemma merged_fields:
  assumes "merge_fields fs p = Some m"
  shows "(\<not> (\<exists>x. FValidFrom x \<in> set fs) \<longrightarrow> prof_valid_from m = prof_valid_from p)
      \<and> (\<not> (\<exists>x. FValidUntil x \<in> set fs) \<longrightarrow> prof_valid_until m = prof_valid_until p)
      \<and> (\<not> (\<exists>x. FMaxRequestsPerSecond x \<in> set fs) \<longrightarrow> prof_max_requests_per_second m = prof_max_requests_per_second p)"
  using assms
proof (induction fs arbitrary: p)
  case (Cons f fs)
  then obtain p' where p': "merge_field f p = Some p'" "merge_fields fs p' = Some m" by (auto split: option.splits)
  show ?case using Cons.IH[OF p'(2)] merge_field_keeps[OF p'(1)] by (cases f) auto
qed simp

lemma row_ok_updated: "authorization_profile_row_ok (q\<lparr>prof_updated_at := x\<rparr>) \<longleftrightarrow> authorization_profile_row_ok q"
  by (simp add: authorization_profile_row_ok_def cong: option.case_cong)

lemma update_profile_ok:
  assumes "update_authorization_profile env pid payload db = Inr (db', p)"
  obtains profile fs m v where "lock_profile db pid = Some profile"
    and "merge_fields fs (profile_values.truncate profile) = Some m" and "validate_profile_create m = Some v"
    and "p = (let q = fold (copy_field v) fs profile in if q = profile then profile else q\<lparr>prof_updated_at := in_now env\<rparr>)"
    and "db' = db\<lparr>e_profiles := map (\<lambda>q. if prof_id q = pid then p else q) (e_profiles db)\<rparr>"
proof -
  let ?fs = "map (\<lambda>f. the (validate_profile_field f)) payload"
  from assms obtain profile m v where pr: "lock_profile db pid = Some profile"
    and m: "merge_fields ?fs (profile_values.truncate profile) = Some m" and v: "validate_profile_create m = Some v"
    by (simp add: update_authorization_profile_def Let_def bind_eq_Some_conv split: if_split_asm option.split_asm)
  show thesis
    using assms pr m v
    by (intro that[OF pr m v]) (auto simp: update_authorization_profile_def Let_def split: if_split_asm)
qed

lemma profile_update_kept:
  assumes "update_authorization_profile env pid payload db = Inr (db', p)" "einv db"
  shows "history_kept db db' \<and> einv db'"
proof -
  obtain profile fs m v where pr: "lock_profile db pid = Some profile"
    and m: "merge_fields fs (profile_values.truncate profile) = Some m" and v: "validate_profile_create m = Some v"
    and p: "p = (let q = fold (copy_field v) fs profile in if q = profile then profile else q\<lparr>prof_updated_at := in_now env\<rparr>)"
    and db': "db' = db\<lparr>e_profiles := map (\<lambda>q. if prof_id q = pid then p else q) (e_profiles db)\<rparr>"
    by (rule update_profile_ok[OF assms(1)])
  let ?q = "fold (copy_field v) fs profile"
  have q: "prof_valid_from ?q = prof_valid_from m" "prof_valid_until ?q = prof_valid_until m"
    "prof_max_requests_per_second ?q = prof_max_requests_per_second m" "prof_id ?q = pid"
    using copied_fields[of v fs profile] merged_fields[OF m] validate_profile_ok(2,3,4)[OF v] lock_profile_Some[OF pr]
    by (auto simp: profile_values.defs)
  then have "authorization_profile_row_ok ?q"
    using validate_profile_ok[OF v] by (simp add: authorization_profile_row_ok_def)
  then have p_ok: "authorization_profile_row_ok p" "prof_id p = pid"
    using p q(4) row_ok_updated[of "in_now env" ?q] by (auto simp: Let_def split: if_splits)
  let ?ps = "map (\<lambda>q. if prof_id q = pid then p else q) (e_profiles db)"
  have ids: "map prof_id ?ps = map prof_id (e_profiles db)" using p_ok(2) by simp
  then have "prof_id ` set ?ps = prof_id ` set (e_profiles db)" by (metis set_map)
  moreover have "distinct (map prof_id ?ps)" unfolding ids using assms(2) by (simp add: einv_def keys_inv_def)
  moreover have "\<forall>q \<in> set ?ps. authorization_profile_row_ok q"
    using assms(2) p_ok(1) by (auto simp: einv_def profile_inv_def)
  ultimately show ?thesis
    unfolding db' using assms(2) by (intro einv_profiles) (auto simp: einv_def profile_inv_def)
qed

lemma profile_delete_kept:
  assumes "delete_authorization_profile pid db = Inr (db', u)" "einv db"
  shows "history_kept db db' \<and> einv db'"
proof -
  have db': "db' = db\<lparr>e_profiles := filter (\<lambda>p. prof_id p \<noteq> pid) (e_profiles db)\<rparr>"
    and free: "\<forall>r \<in> set (e_revisions db). rev_authorization_profile_id r \<noteq> pid"
    using assms(1)
    by (auto simp: delete_authorization_profile_def profile_revisions_def filter_empty_conv split: option.splits if_splits)
  have "\<forall>r \<in> set (e_revisions db). rev_authorization_profile_id r \<in> prof_id ` set (filter (\<lambda>p. prof_id p \<noteq> pid) (e_profiles db))"
    using assms(2) free by (fastforce simp: einv_def profile_inv_def)
  then show ?thesis
    unfolding db' using assms(2)
    by (intro einv_profiles) (auto simp: einv_def keys_inv_def profile_inv_def distinct_map_filter)
qed

subsection \<open>Revisions keep the invariant\<close>

lemma one_active_iff:
  assumes "distinct (map rev_id revs)"
  shows "one_active_per_profile revs \<longleftrightarrow>
    (\<forall>r \<in> set revs. \<forall>r' \<in> set revs. rev_lifecycle_state r = ''active'' \<and> rev_lifecycle_state r' = ''active''
       \<and> rev_authorization_profile_id r = rev_authorization_profile_id r' \<longrightarrow> rev_id r = rev_id r')"
proof -
  have "distinct revs" "inj_on rev_id (set revs)" using assms by (simp_all add: distinct_map)
  then show ?thesis unfolding one_active_per_profile_def distinct_map inj_on_def by auto
qed

text \<open>Only revisions change, existing ones by moves of their lifecycle.\<close>

lemma history_revisions:
  assumes "\<And>r. r \<in> set (e_revisions db) \<Longrightarrow> \<exists>r' \<in> set revs. revision_moves r r'"
  shows "history_kept db (db\<lparr>e_revisions := revs\<rparr>)"
  using assms unfolding history_kept_def by (simp add: revision_rules_def validation_addresses_def validation_hops_def)

lemma einv_revisions:
  assumes "einv db" "\<And>r. r \<in> set (e_revisions db) \<Longrightarrow> \<exists>r' \<in> set revs. revision_moves r r'"
    and "revision_inv revs" "distinct (map rev_id revs)"
    and "\<forall>r \<in> set revs. rev_authorization_profile_id r \<in> prof_id ` set (e_profiles db)"
  shows "history_kept db (db\<lparr>e_revisions := revs\<rparr>) \<and> einv (db\<lparr>e_revisions := revs\<rparr>)"
proof -
  note h = history_revisions[of db revs, OF assms(2)]
  have "rows_inv (db\<lparr>e_revisions := revs\<rparr>)" using assms(1) by (intro rows_inv_grow[OF h]) (auto simp: einv_def)
  moreover have "refs_inv (db\<lparr>e_revisions := revs\<rparr>)"
    unfolding refs_inv_def
  proof (intro conjI ballI allI impI)
    fix t rid assume "t \<in> set (e_targets (db\<lparr>e_revisions := revs\<rparr>))" "tgt_authorization_revision_id t = Some rid"
    then obtain r where r: "r \<in> set (e_revisions db)" "rev_id r = rid"
      "tgt_authorization_profile_id t = Some (rev_authorization_profile_id r)"
      using assms(1) unfolding einv_def refs_inv_def by auto metis
    from assms(2)[OF r(1)] obtain r' where "r' \<in> set revs" "revision_moves r r'" by blast
    then show "\<exists>r \<in> set (e_revisions (db\<lparr>e_revisions := revs\<rparr>)). rev_id r = rid
        \<and> tgt_authorization_profile_id t = Some (rev_authorization_profile_id r)"
      using r revision_moves_facts[of r r'] by auto
  qed (use assms(1) in \<open>auto simp: einv_def refs_inv_def\<close>)
  ultimately show ?thesis using assms h by (simp add: einv_def keys_inv_def profile_inv_def)
qed

lemma fold_max_base: "b \<le> fold max xs (b::int)"
proof (induction xs arbitrary: b)
  case (Cons a xs)
  from Cons[of "max a b"] show ?case by simp
qed simp

lemma fold_max: "x \<in> set xs \<Longrightarrow> x \<le> fold max xs (b::int)"
proof (induction xs arbitrary: b)
  case (Cons a xs)
  then show ?case using fold_max_base[of "max a b" xs] by auto
qed simp

lemma revision_create_kept:
  assumes "create_revision env pid db = Inr (db', r)" "einv db" "in_id env \<notin> rev_id ` set (e_revisions db)"
  shows "history_kept db db' \<and> einv db'"
proof -
  let ?n = "fold max (map rev_revision_number (profile_revisions db pid)) 0 + 1"
  from assms(1) obtain p where p: "lock_profile db pid = Some p" "r = revision_snapshot env p ?n"
    and db': "db' = db\<lparr>e_revisions := e_revisions db @ [r]\<rparr>"
    by (auto simp: create_revision_def Let_def split: option.splits)
  have mem: "p \<in> set (e_profiles db)" "prof_id p = pid" using lock_profile_Some[OF p(1)] by auto
  then have row: "authorization_profile_row_ok p" using assms(2) by (auto simp: einv_def profile_inv_def)
  have n: "rev_revision_number x < ?n" if "x \<in> set (e_revisions db)" "rev_authorization_profile_id x = pid" for x
    using that fold_max[of "rev_revision_number x" "map rev_revision_number (profile_revisions db pid)" 0]
    by (auto simp: profile_revisions_def)
  have "authorization_revision_row_ok r"
    using row fold_max_base[of 0 "map rev_revision_number (profile_revisions db pid)"] p(2)
    by (simp add: authorization_revision_row_ok_def authorization_profile_row_ok_def revision_snapshot_def)
  moreover have "(rev_authorization_profile_id r, rev_revision_number r)
      \<notin> (\<lambda>r. (rev_authorization_profile_id r, rev_revision_number r)) ` set (e_revisions db)"
    using n p(2) mem(2) by (force simp: revision_snapshot_def)
  ultimately have "revision_inv (e_revisions db @ [r])"
    using assms(2) p(2)
    by (auto simp: einv_def revision_inv_def one_active_per_profile_def revision_snapshot_def)
  then show ?thesis
    unfolding db' using assms(2,3) p(2) mem
    by (intro einv_revisions) (auto simp: einv_def keys_inv_def profile_inv_def revision_snapshot_def intro: revision_moves_refl)
qed

lemma row_ok_state:
  "authorization_revision_row_ok r \<Longrightarrow> s \<in> {''draft'', ''active'', ''superseded'', ''revoked''}
   \<Longrightarrow> authorization_revision_row_ok (r\<lparr>rev_lifecycle_state := s\<rparr>)"
  by (simp add: authorization_revision_row_ok_def cong: option.case_cong)

text \<open>A transition maps every revision to one that it may move to.\<close>

lemma einv_map_revisions:
  assumes "einv db" "\<And>r. r \<in> set (e_revisions db) \<Longrightarrow> revision_moves r (f r)"
    and "\<And>r r'. r \<in> set (e_revisions db) \<Longrightarrow> r' \<in> set (e_revisions db) \<Longrightarrow>
      rev_lifecycle_state (f r) = ''active'' \<Longrightarrow> rev_lifecycle_state (f r') = ''active'' \<Longrightarrow>
      rev_authorization_profile_id r = rev_authorization_profile_id r' \<Longrightarrow> rev_id r = rev_id r'"
    and "\<And>r. r \<in> set (e_revisions db) \<Longrightarrow> rev_lifecycle_state (f r) \<in> {''draft'', ''active'', ''superseded'', ''revoked''}"
  shows "history_kept db (db\<lparr>e_revisions := map f (e_revisions db)\<rparr>) \<and> einv (db\<lparr>e_revisions := map f (e_revisions db)\<rparr>)"
proof -
  let ?rs = "e_revisions db"
  have ids: "map rev_id (map f ?rs) = map rev_id ?rs"
    "map (\<lambda>r. (rev_authorization_profile_id r, rev_revision_number r)) (map f ?rs)
      = map (\<lambda>r. (rev_authorization_profile_id r, rev_revision_number r)) ?rs"
    using revision_moves_facts[OF assms(2)] by simp_all
  have d: "distinct (map rev_id (map f ?rs))" using assms(1) unfolding ids by (simp add: einv_def keys_inv_def)
  have "one_active_per_profile (map f ?rs)"
    unfolding one_active_iff[OF d]
  proof (intro ballI impI, elim conjE)
    fix x y assume xy: "x \<in> set (map f ?rs)" "y \<in> set (map f ?rs)"
      and a: "rev_lifecycle_state x = ''active''" "rev_lifecycle_state y = ''active''"
        "rev_authorization_profile_id x = rev_authorization_profile_id y"
    from xy obtain r r' where r: "r \<in> set ?rs" "x = f r" "r' \<in> set ?rs" "y = f r'" by auto
    show "rev_id x = rev_id y"
      using assms(3)[OF r(1,3)] a r revision_moves_facts[OF assms(2)[OF r(1)]] revision_moves_facts[OF assms(2)[OF r(3)]]
      by simp
  qed
  moreover have "authorization_revision_row_ok (f r)" if mem: "r \<in> set ?rs" for r
  proof -
    have "authorization_revision_row_ok r" using assms(1) mem by (auto simp: einv_def revision_inv_def list_all_iff)
    moreover obtain s where "f r = r\<lparr>rev_lifecycle_state := s\<rparr>" using assms(2)[OF mem] by (auto simp: revision_moves_def)
    ultimately show ?thesis using row_ok_state[of r s] assms(4)[OF mem] by simp
  qed
  ultimately have "revision_inv (map f ?rs)"
    unfolding revision_inv_def ids(2) using assms(1) by (simp add: einv_def revision_inv_def list_all_iff)
  then show ?thesis
    using assms(1,2) d revision_moves_facts(2)[OF assms(2)]
    by (intro einv_revisions) (auto simp: einv_def profile_inv_def)
qed

lemma revision_unique:
  "einv db \<Longrightarrow> r \<in> set (e_revisions db) \<Longrightarrow> r' \<in> set (e_revisions db) \<Longrightarrow> rev_id r = rev_id r' \<Longrightarrow> r = r'"
  by (auto simp: einv_def keys_inv_def distinct_map dest: inj_onD)

lemma transition_state:
  "rev_lifecycle_state (activate_in pid rid r) \<in> {rev_lifecycle_state r, ''active'', ''superseded''}"
  "rev_lifecycle_state (revoke_in pid rid r) \<in> {rev_lifecycle_state r, ''revoked''}"
  by (simp_all add: activate_in_def revoke_in_def)

lemma transition_ok:
  assumes "transition_revision pid rid destination db = Inr (db', r)"
  obtains sel f where "sel \<in> set (e_revisions db)" "rev_id sel = rid" "rev_authorization_profile_id sel = pid"
    "db' = db\<lparr>e_revisions := map (f pid rid) (e_revisions db)\<rparr>" "r = f pid rid sel"
    "f = activate_in \<and> destination = ''active'' \<and> rev_lifecycle_state sel = ''draft''
     \<or> f = revoke_in \<and> destination = ''revoked'' \<and> rev_lifecycle_state sel \<in> {''draft'', ''active''}"
proof -
  let ?find = "find (\<lambda>r. rev_id r = rid) (sort_key rev_id (profile_revisions db pid))"
  from assms obtain sel where sel: "?find = Some sel"
    by (auto simp: transition_revision_def split: option.splits)
  then have "sel \<in> set (e_revisions db)" "rev_id sel = rid" "rev_authorization_profile_id sel = pid"
    using find_Some_in[OF sel] by (auto simp: profile_revisions_def)
  then show thesis
    using assms sel that[of sel activate_in] that[of sel revoke_in]
    by (auto simp: transition_revision_def split: option.splits if_splits)
qed

lemma revision_transition_kept:
  assumes "transition_revision pid rid destination db = Inr (db', r)" "einv db"
  shows "history_kept db db' \<and> einv db'"
proof -
  from assms(1) obtain sel f where sel: "sel \<in> set (e_revisions db)" "rev_id sel = rid" "rev_authorization_profile_id sel = pid"
    and db': "db' = db\<lparr>e_revisions := map (f pid rid) (e_revisions db)\<rparr>"
    and f: "f = activate_in \<and> destination = ''active'' \<and> rev_lifecycle_state sel = ''draft''
     \<or> f = revoke_in \<and> destination = ''revoked'' \<and> rev_lifecycle_state sel \<in> {''draft'', ''active''}"
    by (rule transition_ok)
  have eq: "x = sel" if "x \<in> set (e_revisions db)" "rev_id x = rid" for x
    using revision_unique[OF assms(2) that(1) sel(1)] that sel by simp
  have st: "rev_lifecycle_state x \<in> {''draft'', ''active'', ''superseded'', ''revoked''}" if "x \<in> set (e_revisions db)" for x
    using assms(2) that by (auto simp: einv_def revision_inv_def list_all_iff authorization_revision_row_ok_def)
  have d: "distinct (map rev_id (e_revisions db))" using assms(2) by (simp add: einv_def keys_inv_def)
  have one: "rev_id x = rev_id y"
    if "x \<in> set (e_revisions db)" "y \<in> set (e_revisions db)" "rev_lifecycle_state x = ''active''"
      "rev_lifecycle_state y = ''active''" "rev_authorization_profile_id x = rev_authorization_profile_id y" for x y
  proof -
    have "one_active_per_profile (e_revisions db)" using assms(2) by (simp add: einv_def revision_inv_def)
    then show ?thesis using that unfolding one_active_iff[OF d] by blast
  qed
  show ?thesis
    unfolding db'
  proof (rule einv_map_revisions[OF assms(2)])
    fix x assume x: "x \<in> set (e_revisions db)"
    show "revision_moves x (f pid rid x)"
      using f eq[OF x] by (auto simp: activate_in_def revoke_in_def lifecycle_le_def intro!: revision_moves_set)
    show "rev_lifecycle_state (f pid rid x) \<in> {''draft'', ''active'', ''superseded'', ''revoked''}"
      using f st[OF x] transition_state[of pid rid x] by auto
    fix y assume y: "y \<in> set (e_revisions db)"
      and a: "rev_lifecycle_state (f pid rid x) = ''active''" "rev_lifecycle_state (f pid rid y) = ''active''"
      "rev_authorization_profile_id x = rev_authorization_profile_id y"
    then show "rev_id x = rev_id y"
      using f one[OF x y] by (auto simp: activate_in_def revoke_in_def split: if_splits)
  qed
qed

subsection \<open>Rules and evaluations keep the invariant\<close>

lemma lock_draft_not_nondraft:
  assumes "lock_draft_revision db pid rid = Inr r" "einv db"
  shows "\<not> nondraft db rid"
proof -
  have "r \<in> set (e_revisions db)" "rev_id r = rid" "rev_lifecycle_state r = ''draft''"
    using assms(1) select_revision_Some by (auto simp: lock_draft_revision_def split: option.splits if_splits)
  then show ?thesis using revision_unique[OF assms(2)] by (auto simp: nondraft_def)
qed

lemma einv_rules:
  assumes "einv db" "distinct (map ahr_id rules)"
    and "\<And>rid. nondraft db rid \<Longrightarrow>
      filter (\<lambda>r. ahr_authorization_revision_id r = rid) rules = revision_rules db rid"
  shows "history_kept db (db\<lparr>e_rules := rules\<rparr>) \<and> einv (db\<lparr>e_rules := rules\<rparr>)"
proof -
  have "\<exists>r' \<in> set (e_revisions db). revision_moves r r'" if "r \<in> set (e_revisions db)" for r
    using that by (intro bexI[of _ r]) simp_all
  then have h: "history_kept db (db\<lparr>e_rules := rules\<rparr>)"
    unfolding history_kept_def using assms(3) by (simp add: revision_rules_def validation_addresses_def validation_hops_def)
  moreover have "rows_inv (db\<lparr>e_rules := rules\<rparr>)" using assms(1) by (intro rows_inv_grow[OF h]) (auto simp: einv_def)
  ultimately show ?thesis using assms by (simp add: einv_def keys_inv_def profile_inv_def refs_inv_def)
qed

lemma rule_create_kept:
  assumes "create_asset_hostname_rule idna env pid rid kind pattern db = Inr (db', rule)" "einv db"
    and "in_id env \<notin> ahr_id ` set (e_rules db)"
  shows "history_kept db db' \<and> einv db'"
proof -
  from assms(1) obtain r where r: "lock_draft_revision db pid rid = Inr r"
    and rule: "ahr_id rule = in_id env" "ahr_authorization_revision_id rule = rid"
    and db': "db' = db\<lparr>e_rules := e_rules db @ [rule]\<rparr>"
    by (auto simp: create_asset_hostname_rule_def Let_def split: if_splits)
  have "\<not> nondraft db rid" by (rule lock_draft_not_nondraft[OF r assms(2)])
  then show ?thesis
    unfolding db' using assms(2,3) rule
    by (intro einv_rules) (auto simp: einv_def keys_inv_def revision_rules_def)
qed

lemma rule_delete_kept:
  assumes "delete_asset_hostname_rule pid rid rule_id db = Inr (db', u)" "einv db"
  shows "history_kept db db' \<and> einv db'"
proof -
  from assms(1) obtain r rule where r: "lock_draft_revision db pid rid = Inr r"
    and f: "find (\<lambda>r. ahr_id r = rule_id \<and> ahr_authorization_revision_id r = rid) (e_rules db) = Some rule"
    and db': "db' = db\<lparr>e_rules := filter (\<lambda>r. ahr_id r \<noteq> rule_id) (e_rules db)\<rparr>"
    by (auto simp: delete_asset_hostname_rule_def split: option.splits if_splits)
  note rule = find_Some_in[OF f]
  have uniq: "x = rule" if "x \<in> set (e_rules db)" "ahr_id x = rule_id" for x
    using that rule assms(2) by (auto simp: einv_def keys_inv_def distinct_map dest: inj_onD)
  have "\<not> nondraft db rid" by (rule lock_draft_not_nondraft[OF r assms(2)])
  then have "filter (\<lambda>r. ahr_authorization_revision_id r = rid') (filter (\<lambda>r. ahr_id r \<noteq> rule_id) (e_rules db)) = revision_rules db rid'"
    if "nondraft db rid'" for rid'
    using that uniq rule by (auto simp: revision_rules_def intro!: filter_cong)
  then show ?thesis
    unfolding db' using assms(2) by (intro einv_rules) (auto simp: einv_def keys_inv_def distinct_map_filter)
qed

text \<open>Rows are appended to the tables of evaluations, validations and decisions, and children to new validations.\<close>

lemma history_append:
  assumes "e_revisions db' = e_revisions db" "e_rules db' = e_rules db" "e_targets db' = e_targets db"
    and "e_evaluations db' = e_evaluations db @ es" "e_validations db' = e_validations db @ vs"
    and "e_decisions db' = e_decisions db @ ds" "e_addresses db' = e_addresses db @ as" "e_hops db' = e_hops db @ hs"
    and "\<And>a v. a \<in> set as \<Longrightarrow> v \<in> set (e_validations db) \<Longrightarrow> adr_dns_validation_id a \<noteq> acv_id v"
    and "\<And>a v. a \<in> set hs \<Longrightarrow> v \<in> set (e_validations db) \<Longrightarrow> hop_dns_validation_id a \<noteq> acv_id v"
  shows "history_kept db db'"
proof -
  have "\<exists>r' \<in> set (e_revisions db'). revision_moves r r'" if "r \<in> set (e_revisions db)" for r
    using that assms(1) by (intro bexI[of _ r]) simp_all
  moreover have "validation_addresses db' (acv_id v) = validation_addresses db (acv_id v)
      \<and> validation_hops db' (acv_id v) = validation_hops db (acv_id v)" if "v \<in> set (e_validations db)" for v
    using that assms by (auto simp: validation_addresses_def validation_hops_def filter_empty_conv)
  ultimately show ?thesis
    unfolding history_kept_def using assms by (simp add: revision_rules_def)
qed

lemma nondraft_active:
  "select_revision db pid rid = Some r \<Longrightarrow> rev_lifecycle_state r = ''active'' \<Longrightarrow> nondraft db rid"
  using select_revision_Some[of db pid rid r] by (auto simp: nondraft_def)

lemma reports_sorted [simp]: "reports_rule rid kind h (sort_key f rules) i \<longleftrightarrow> reports_rule rid kind h rules i"
  by (cases i) (simp_all add: reports_rule_def)

lemma evaluation_created:
  assumes "create_asset_candidate_evaluation idna env pid rid hostname db = Inr (db', e)"
  shows "db' = db\<lparr>e_evaluations := e_evaluations db @ [e]\<rparr>" "ace_id e = in_id env" "evaluation_ok db e"
proof -
  from assms obtain r where r: "select_revision db pid rid = Some r" "rev_lifecycle_state r = ''active''"
    by (auto simp: create_asset_candidate_evaluation_def split: option.splits if_splits)
  let ?rules = "sort_key ahr_id (revision_rules db rid)"
  let ?d = "match_asset_candidate idna rid hostname ?rules"
  have e: "e = \<lparr>ace_id = in_id env, ace_authorization_revision_id = rid,
       ace_normalized_hostname = the (acr_normalized_hostname ?d), ace_decision_code = acr_code ?d,
       ace_matched_include_rule_id = acr_matched_include_rule_id ?d,
       ace_matched_exclude_rule_id = acr_matched_exclude_rule_id ?d,
       ace_source_type = ''operator_supplied'', ace_created_at = in_now env\<rparr>"
    and db': "db' = db\<lparr>e_evaluations := e_evaluations db @ [e]\<rparr>"
    and code: "acr_code ?d \<noteq> ''asset_candidate_invalid''"
    using assms by (auto simp: create_asset_candidate_evaluation_def Let_def split: option.splits if_splits)
  then obtain h where h: "normalize_candidate_hostname idna hostname = Inr h"
    using match_invalid[of idna hostname] by (cases "normalize_candidate_hostname idna hostname") auto
  have "dns_name h" using h normalize_dns_name by (simp add: normalize_candidate_hostname_def)
  then show "evaluation_ok db e"
    using match_valid[OF h, of rid ?rules] nondraft_active[OF r]
    unfolding evaluation_ok_def e by (simp add: list_ex_iff)
  show "db' = db\<lparr>e_evaluations := e_evaluations db @ [e]\<rparr>" "ace_id e = in_id env" using db' e by auto
qed

lemma evaluation_kept:
  assumes "create_asset_candidate_evaluation idna env pid rid hostname db = Inr (db', e)" "einv db"
    and "in_id env \<notin> ace_id ` set (e_evaluations db)"
  shows "history_kept db db' \<and> einv db'"
proof -
  note c = evaluation_created[OF assms(1)]
  have h: "history_kept db db'" by (rule history_append[of _ _ "[e]" "[]" "[]" "[]" "[]"]) (simp_all add: c(1))
  have "rows_inv db'"
    using assms(2) evaluation_ok_kept[OF h c(3)] by (intro rows_inv_grow[OF h]) (auto simp: c(1) einv_def)
  then show ?thesis
    using h assms(2,3) c(2) by (simp add: c(1) einv_def keys_inv_def profile_inv_def refs_inv_def)
qed

subsection \<open>DNS validations keep the invariant\<close>

lemma map_enumerate_zip:
  "length as = length bs \<Longrightarrow> map (\<lambda>x. f (fst (snd x))) (enumerate k (zip as bs)) = map f as"
  "length as = length bs \<Longrightarrow> map (\<lambda>x. g (snd (snd x))) (enumerate k (zip as bs)) = map g bs"
  by (induction as bs arbitrary: k rule: list_induct2) auto

lemma address_rows_columns:
  assumes "length (dnsd_resolved_addresses d) = length (dnsd_address_categories d)"
  shows "map adr_address (address_rows env d) = dnsd_resolved_addresses d"
    "map adr_category (address_rows env d) = map category_value (dnsd_address_categories d)"
    "\<And>a. a \<in> set (address_rows env d) \<Longrightarrow> adr_dns_validation_id a = in_id env"
  using map_enumerate_zip(1)[OF assms, of id 1] map_enumerate_zip(2)[OF assms, of category_value 1]
  by (auto simp: address_rows_def comp_def case_prod_beta)

lemma hop_rows_id: "a \<in> set (hop_rows env d) \<Longrightarrow> hop_dns_validation_id a = in_id env"
  by (auto simp: hop_rows_def)

lemma decided_addresses_ok:
  assumes "dns_decision_ok idna rsv h d"
  shows "addresses_ok (dnsd_code d) (address_rows env d)"
proof -
  from assms obtain ips where ips: "dnsd_resolved_addresses d = map compressed ips"
    "dnsd_address_categories d = map classify_address ips"
    and v: "dnsd_code d \<in> set verdict_codes \<Longrightarrow> dnsd_code d = dns_code (map classify_address ips)
        \<and> (\<exists>ips'. dns_resolves idna rsv h (dnsd_cname_chain d) ips' \<and> set ips' = set ips)"
    by (auto simp: dns_decision_ok_def split: if_splits)
  have ne: "ips \<noteq> []" if "dnsd_code d \<in> set verdict_codes" using v[OF that] by (auto simp: dns_resolves_def)
  show ?thesis
    unfolding addresses_ok_def
  proof (intro exI[of _ ips] conjI impI)
    show "map adr_address (address_rows env d) = map compressed ips"
      "map adr_category (address_rows env d) = map (category_value \<circ> classify_address) ips"
      using address_rows_columns(1,2)[of d env] ips by simp_all
  next
    assume c: "dnsd_code d = ''asset_candidate_dns_private_local_only''"
    then have vc: "dnsd_code d \<in> set verdict_codes" by (simp add: verdict_codes_def)
    show "ips \<noteq> []" "list_all local_address ips"
      using ne[OF vc] v[OF vc] c dns_code_local[of ips] by simp_all
  next
    assume c: "dnsd_code d = ''asset_candidate_dns_public_only''"
    then have vc: "dnsd_code d \<in> set verdict_codes" by (simp add: verdict_codes_def)
    show "ips \<noteq> []" "list_all (\<lambda>ip. classify_address ip = PUBLIC) ips"
      using ne[OF vc] v[OF vc] c dns_code_public[of ips] by simp_all
  qed
qed

lemma load_exact_ok:
  assumes "load_exact db pid rid eid = Inr (r, e)"
  shows "r \<in> set (e_revisions db)" "rev_id r = rid" "rev_authorization_profile_id r = pid" "rev_lifecycle_state r = ''active''"
    "e \<in> set (e_evaluations db)" "ace_id e = eid" "ace_authorization_revision_id e = rid"
    "ace_decision_code e = ''asset_candidate_included''"
proof -
  from assms have "select_revision db pid rid = Some r" "select_evaluation db rid eid = Some e"
    "rev_lifecycle_state r = ''active''" "ace_decision_code e = ''asset_candidate_included''"
    by (auto simp: load_exact_def split: option.splits if_splits)
  then show "r \<in> set (e_revisions db)" "rev_id r = rid" "rev_authorization_profile_id r = pid" "rev_lifecycle_state r = ''active''"
    "e \<in> set (e_evaluations db)" "ace_id e = eid" "ace_authorization_revision_id e = rid"
    "ace_decision_code e = ''asset_candidate_included''"
    using select_revision_Some find_Some_in by (fastforce simp: select_evaluation_def)+
qed

lemma final_revalidation_ok:
  assumes "final_revalidation env pid rid eid captured d db = Inr (db', v)"
  obtains r e where "load_exact db pid rid eid = Inr (r, e)" "ace_normalized_hostname e = captured"
    "dnsd_normalized_hostname d = Some captured" "v = validation_row env rid eid captured d"
    "db' = db\<lparr>e_validations := e_validations db @ [v], e_hops := e_hops db @ hop_rows env d,
        e_addresses := e_addresses db @ address_rows env d\<rparr>"
  using assms by (auto simp: final_revalidation_def Let_def split: option.splits if_splits)

lemma classified_name:
  assumes "classify_asset_candidate_dns idna rsv captured = Some d" "dnsd_normalized_hostname d = Some captured"
  shows "normalize_candidate_hostname idna captured = Inr captured \<and> dns_decision_ok idna rsv captured d"
proof (cases "normalize_candidate_hostname idna captured")
  case (Inl x)
  then show ?thesis using assms by (auto simp: classify_asset_candidate_dns_def dns_decision_def)
next
  case (Inr h)
  then obtain d' where "classify_asset_candidate_dns idna rsv captured = Some d'" "dns_decision_ok idna rsv h d'"
    by (rule classify_returns)
  moreover from this have "h = captured" using assms unfolding dns_decision_ok_def by auto
  ultimately show ?thesis using assms(1) Inr by simp
qed

lemma validation_kept:
  assumes "final_revalidation env pid rid eid captured d db = Inr (db', v)"
    and "classify_asset_candidate_dns idna rsv captured = Some d" "einv db" "in_id env \<notin> acv_id ` set (e_validations db)"
  shows "history_kept db db' \<and> einv db'"
proof -
  from assms(1) obtain r e where le: "load_exact db pid rid eid = Inr (r, e)" and host: "ace_normalized_hostname e = captured"
    "dnsd_normalized_hostname d = Some captured" and v: "v = validation_row env rid eid captured d"
    and db': "db' = db\<lparr>e_validations := e_validations db @ [v], e_hops := e_hops db @ hop_rows env d,
        e_addresses := e_addresses db @ address_rows env d\<rparr>"
    by (rule final_revalidation_ok)
  have norm: "normalize_candidate_hostname idna captured = Inr captured"
    and ok: "dns_decision_ok idna rsv captured d" using classified_name[OF assms(2) host(2)] by auto
  then have "dns_name captured" using normalize_dns_name by (simp add: normalize_candidate_hostname_def)
  then have ip: "ip_address_of captured = None"
    using norm normalize_dns_fixed[of captured idna] by (simp add: normalize_candidate_hostname_def)
  have len: "length (dnsd_resolved_addresses d) = length (dnsd_address_categories d)"
    using ok by (auto simp: dns_decision_ok_def)
  note hops = hop_rows_id[of _ env d]
  note adr = address_rows_columns(3)[OF len]
  have id: "acv_id v = in_id env" by (simp add: v validation_row_def)
  have h: "history_kept db db'"
    by (rule history_append[of _ _ "[]" "[v]" "[]" "address_rows env d" "hop_rows env d"])
      (use adr hops assms(4) in \<open>auto simp: db' image_iff\<close>)
  have "\<forall>a \<in> set (e_addresses db). adr_dns_validation_id a \<in> acv_id ` set (e_validations db)"
    using assms(3) by (simp add: einv_def refs_inv_def)
  then have "filter (\<lambda>a. adr_dns_validation_id a = in_id env) (e_addresses db) = []"
    using assms(4) by (intro filter_False) metis
  moreover have "filter (\<lambda>a. adr_dns_validation_id a = in_id env) (address_rows env d) = address_rows env d"
    using adr by (auto simp: filter_id_conv)
  ultimately have "validation_addresses db' (acv_id v) = address_rows env d"
    by (simp add: validation_addresses_def db' id)
  then have "validation_ok db' v"
    unfolding validation_ok_def using load_exact_ok[OF le] host ip decided_addresses_ok[OF ok, of env]
    by (intro conjI bexI[of _ e]) (simp_all add: v validation_row_def db')
  then have "rows_inv db'" using assms(3) by (intro rows_inv_grow[OF h]) (auto simp: db' einv_def)
  moreover have "refs_inv db'"
    unfolding refs_inv_def
  proof (intro conjI)
    show "\<forall>a \<in> set (e_addresses db'). adr_dns_validation_id a \<in> acv_id ` set (e_validations db')"
      "\<forall>a \<in> set (e_hops db'). hop_dns_validation_id a \<in> acv_id ` set (e_validations db')"
      using assms(3) adr hops id by (auto simp: db' einv_def refs_inv_def)
    show "\<forall>t \<in> set (e_targets db'). \<forall>rid. tgt_authorization_revision_id t = Some rid \<longrightarrow>
          (\<exists>r \<in> set (e_revisions db'). rev_id r = rid
             \<and> tgt_authorization_profile_id t = Some (rev_authorization_profile_id r))"
      using assms(3) by (simp add: db' einv_def refs_inv_def)
  qed
  ultimately show ?thesis
    using h assms(3,4) id by (simp add: db' einv_def keys_inv_def profile_inv_def)
qed

subsection \<open>Decisions and targets keep the invariant\<close>

lemma select_evaluation_Some:
  "select_evaluation db rid eid = Some e \<Longrightarrow> e \<in> set (e_evaluations db) \<and> ace_id e = eid \<and> ace_authorization_revision_id e = rid"
  unfolding select_evaluation_def by (drule find_Some_in) simp

lemma select_validation_Some:
  "select_validation db rid eid vid = Some v \<Longrightarrow> v \<in> set (e_validations db) \<and> acv_id v = vid
     \<and> acv_asset_candidate_evaluation_id v = eid \<and> acv_authorization_revision_id v = rid"
  unfolding select_validation_def by (drule find_Some_in) simp

lemma select_decision_Some:
  "select_decision db rid vid did = Some d \<Longrightarrow> d \<in> set (e_decisions db) \<and> aed_id d = did
     \<and> aed_asset_candidate_dns_validation_id d = vid \<and> aed_authorization_revision_id d = rid"
  unfolding select_decision_def by (drule find_Some_in) simp

lemmas select_facts = select_revision_Some select_evaluation_Some select_validation_Some select_decision_Some

lemma decision_created:
  assumes "create_asset_enrollment_decision uni_word env pid rid eid vid decided reason note db = Inr (db', d)"
  shows "db' = db\<lparr>e_decisions := e_decisions db @ [d]\<rparr>" "aed_id d = in_id env" "decision_ok db d"
proof -
  from assms obtain e v note' where lv: "load_exact_dns_validation db pid rid eid vid = Inr (e, v)"
    and d: "d = \<lparr>aed_id = in_id env, aed_asset_candidate_dns_validation_id = vid,
           aed_authorization_revision_id = rid, aed_decision = decided,
           aed_normalized_hostname = acv_normalized_hostname v,
           aed_reason_code = reason, aed_note = note', aed_created_at = in_now env\<rparr>"
    and db': "db' = db\<lparr>e_decisions := e_decisions db @ [d]\<rparr>"
    by (auto simp: create_asset_enrollment_decision_def Let_def split: if_splits)
  have "select_validation db rid eid vid = Some v"
    using lv by (auto simp: load_exact_dns_validation_def split: option.splits if_splits)
  then show "decision_ok db d"
    using select_validation_Some[of db rid eid vid v] d by (auto simp: decision_ok_def)
  show "db' = db\<lparr>e_decisions := e_decisions db @ [d]\<rparr>" "aed_id d = in_id env" using d db' by auto
qed

lemma decision_kept:
  assumes "create_asset_enrollment_decision uni_word env pid rid eid vid decided reason note db = Inr (db', d)" "einv db"
    and "in_id env \<notin> aed_id ` set (e_decisions db)"
  shows "history_kept db db' \<and> einv db'"
proof -
  note c = decision_created[OF assms(1)]
  have h: "history_kept db db'" by (rule history_append[of _ _ "[]" "[]" "[d]" "[]" "[]"]) (simp_all add: c(1))
  have "rows_inv db'"
    using assms(2) decision_ok_kept[OF h c(3)] by (intro rows_inv_grow[OF h]) (auto simp: c(1) einv_def)
  then show ?thesis
    using h assms(2,3) c(2) by (simp add: c(1) einv_def keys_inv_def profile_inv_def refs_inv_def)
qed

text \<open>Only targets change; enrolled ones stay, and new enrolled ones have their provenance.\<close>

lemma einv_targets:
  assumes "einv db" "distinct (map tgt_id ts)" "\<And>t. t \<in> set (e_targets db) \<Longrightarrow> enrolled t \<Longrightarrow> t \<in> set ts"
    and "\<And>t. t \<in> set ts \<Longrightarrow> enrolled t \<Longrightarrow> t \<in> set (e_targets db) \<or> target_ok db t"
    and "\<And>t rid. t \<in> set ts \<Longrightarrow> tgt_authorization_revision_id t = Some rid \<Longrightarrow>
      \<exists>r \<in> set (e_revisions db). rev_id r = rid \<and> tgt_authorization_profile_id t = Some (rev_authorization_profile_id r)"
    and "enrolled_inv ts"
  shows "history_kept db (db\<lparr>e_targets := ts\<rparr>) \<and> einv (db\<lparr>e_targets := ts\<rparr>)"
proof -
  have h: "history_kept db (db\<lparr>e_targets := ts\<rparr>)" using assms(3) by (intro history_outer) simp_all
  have "rows_inv (db\<lparr>e_targets := ts\<rparr>)"
    using assms(1,4) target_ok_kept[OF h] by (intro rows_inv_grow[OF h]) (auto simp: einv_def)
  then show ?thesis
    using h assms(1,2,5,6) by (simp add: einv_def keys_inv_def profile_inv_def refs_inv_def)
qed

lemma bound_revision:
  "einv db \<Longrightarrow> t \<in> set (e_targets db) \<Longrightarrow> tgt_authorization_revision_id t = Some rid \<Longrightarrow>
   \<exists>r \<in> set (e_revisions db). rev_id r = rid \<and> tgt_authorization_profile_id t = Some (rev_authorization_profile_id r)"
  by (simp add: einv_def refs_inv_def)

lemma target_create_kept:
  assumes "create_target env payload db = Inr (db', t)" "einv db" "in_id env \<notin> tgt_id ` set (e_targets db)"
  shows "history_kept db db' \<and> einv db'"
proof -
  have t: "db' = db\<lparr>e_targets := e_targets db @ [t]\<rparr>" "tgt_id t = in_id env" "\<not> enrolled t" "tgt_authorization_revision_id t = None"
    using assms(1) by (auto simp: create_target_def Let_def enrolled_def split: if_splits)
  show ?thesis
    unfolding t(1) using assms(2,3) t bound_revision[OF assms(2)]
    by (intro einv_targets) (auto simp: einv_def keys_inv_def enrolled_inv_def)
qed

text \<open>An update of a target that is not enrollment-bound.\<close>

lemma set_target_kept:
  assumes "select_unbound_target db tid = Inr t0" "einv db"
    and f: "\<And>t. tgt_id (f t) = tgt_id t" "\<And>t. tgt_asset_enrollment_decision_id (f t) = tgt_asset_enrollment_decision_id t"
    and "\<And>rid. tgt_authorization_revision_id (f t0) = Some rid \<Longrightarrow>
      \<exists>r \<in> set (e_revisions db). rev_id r = rid \<and> tgt_authorization_profile_id (f t0) = Some (rev_authorization_profile_id r)"
  shows "history_kept db (set_target tid f db) \<and> einv (set_target tid f db)"
proof -
  let ?g = "\<lambda>t. if tgt_id t = tid then f t else t"
  have t0: "t0 \<in> set (e_targets db)" "tgt_id t0 = tid" "\<not> enrolled t0"
    using assms(1) find_Some_in[of _ "e_targets db" t0]
    by (auto simp: select_unbound_target_def enrolled_def split: option.splits if_splits)
  have uniq: "t = t0" if "t \<in> set (e_targets db)" "tgt_id t = tid" for t
    using that t0 assms(2) by (auto simp: einv_def keys_inv_def distinct_map dest: inj_onD)
  have enr: "enrolled (?g t) \<longleftrightarrow> enrolled t" for t using f(2) by (simp add: enrolled_def)
  have same: "?g t = t" if "t \<in> set (e_targets db)" "enrolled t" for t using that uniq t0(3) by auto
  have "filter enrolled (map ?g (e_targets db)) = map ?g (filter enrolled (e_targets db))"
    using enr by (simp add: filter_map comp_def)
  also have "\<dots> = filter enrolled (e_targets db)" using same by (intro map_idI) auto
  finally have fe: "filter enrolled (map ?g (e_targets db)) = filter enrolled (e_targets db)" .
  have ids: "map tgt_id (map ?g (e_targets db)) = map tgt_id (e_targets db)" using f(1) by simp
  show ?thesis
    unfolding set_target_def
  proof (rule einv_targets[OF assms(2)])
    show "distinct (map tgt_id (map ?g (e_targets db)))" unfolding ids using assms(2) by (simp add: einv_def keys_inv_def)
    show "enrolled_inv (map ?g (e_targets db))" unfolding enrolled_inv_def fe using assms(2) by (simp add: einv_def enrolled_inv_def)
    show "t \<in> set (map ?g (e_targets db))" if "t \<in> set (e_targets db)" "enrolled t" for t
      using imageI[OF that(1), of ?g] unfolding same[OF that] by simp
    fix t assume t: "t \<in> set (map ?g (e_targets db))"
    then obtain u where u: "u \<in> set (e_targets db)" "t = ?g u" by auto
    show "t \<in> set (e_targets db) \<or> target_ok db t" if "enrolled t" using that u enr[of u] same[of u] by auto
    fix rid assume "tgt_authorization_revision_id t = Some rid"
    then show "\<exists>r \<in> set (e_revisions db). rev_id r = rid \<and> tgt_authorization_profile_id t = Some (rev_authorization_profile_id r)"
      using u uniq[of u] assms(5)[of rid] bound_revision[OF assms(2), of u rid] by (cases "tgt_id u = tid") simp_all
  qed
qed

lemma target_mode_kept:
  assumes "update_target_network_mode tid mode db = Inr (db', t)" "einv db"
  shows "history_kept db db' \<and> einv db'"
proof -
  from assms(1) obtain t0 where t0: "select_unbound_target db tid = Inr t0"
    and db': "db' = set_target tid (\<lambda>t. t\<lparr>tgt_network_mode := mode\<rparr>) db"
    by (auto simp: update_target_network_mode_def)
  have "t0 \<in> set (e_targets db)" using t0 find_Some_in[of _ "e_targets db" t0]
    by (auto simp: select_unbound_target_def split: option.splits if_splits)
  then show ?thesis unfolding db' using bound_revision[OF assms(2)] by (intro set_target_kept[OF t0 assms(2)]) simp_all
qed

lemma target_profile_kept:
  assumes "update_target_authorization_profile tid pid db = Inr (db', t)" "einv db"
  shows "history_kept db db' \<and> einv db'"
proof -
  from assms(1) obtain t0 where t0: "select_unbound_target db tid = Inr t0"
    and keep: "tgt_authorization_revision_id t0 = None \<or> pid = tgt_authorization_profile_id t0"
    and db': "db' = set_target tid (\<lambda>t. t\<lparr>tgt_authorization_profile_id := pid\<rparr>) db"
    by (auto simp: update_target_authorization_profile_def split: if_splits)
  have "t0 \<in> set (e_targets db)" using t0 find_Some_in[of _ "e_targets db" t0]
    by (auto simp: select_unbound_target_def split: option.splits if_splits)
  then show ?thesis
    unfolding db' using bound_revision[OF assms(2)] keep by (intro set_target_kept[OF t0 assms(2)]) auto
qed

lemma target_revision_kept:
  assumes "update_target_authorization_revision tid rid db = Inr (db', t)" "einv db"
  shows "history_kept db db' \<and> einv db'"
proof -
  from assms(1) obtain t0 where t0: "select_unbound_target db tid = Inr t0"
    and db': "db' = set_target tid (\<lambda>t. t\<lparr>tgt_authorization_revision_id := rid\<rparr>) db"
    and r: "(case rid of None \<Rightarrow> Inr () | Some i \<Rightarrow> check_bindable_revision db t0 i) = Inr ()"
    by (auto simp: update_target_authorization_revision_def)
  have "\<exists>r \<in> set (e_revisions db). rev_id r = i \<and> tgt_authorization_profile_id t0 = Some (rev_authorization_profile_id r)"
    if "rid = Some i" for i
    using r that find_Some_in[of "\<lambda>r. rev_id r = i" "e_revisions db"]
    by (auto simp: check_bindable_revision_def split: option.splits if_splits)
  then show ?thesis unfolding db' by (intro set_target_kept[OF t0 assms(2)]) simp_all
qed

lemma place_target_cases:
  assumes "place_target env pid rid q d db = Inr (db', t)"
  obtains "db' = db" | "db' = db\<lparr>e_targets := e_targets db @ [t]\<rparr>"
    "t = enrolled_target env pid rid (aed_id d) q (canonical_enrollment_origin (trq_scheme q) (aed_normalized_hostname d) (trq_port q))"
    "\<And>u. u \<in> set (e_targets db) \<Longrightarrow> tgt_asset_enrollment_decision_id u \<noteq> Some (aed_id d) \<and> tgt_base_url u \<noteq> tgt_base_url t"
proof -
  let ?url = "canonical_enrollment_origin (trq_scheme q) (aed_normalized_hostname d) (trq_port q)"
  show thesis
  proof (cases "find (\<lambda>t. tgt_asset_enrollment_decision_id t = Some (aed_id d)) (e_targets db)")
    case None
    then have t: "db' = db\<lparr>e_targets := e_targets db @ [t]\<rparr>" "t = enrolled_target env pid rid (aed_id d) q ?url"
      and free: "\<not> list_ex (\<lambda>t. tgt_base_url t \<in> set (equivalent_origin_representations (trq_scheme q)
              (aed_normalized_hostname d) (trq_port q) ?url)) (e_targets db)"
      using assms by (auto simp: place_target_def Let_def split: if_splits)
    have "tgt_base_url u \<noteq> tgt_base_url t" if "u \<in> set (e_targets db)" for u
      using that free t(2) by (auto simp: list_ex_iff equivalent_origin_representations_def enrolled_target_def)
    then show thesis using None t that(2) by (auto simp: find_None_all)
  next
    case (Some u)
    then have "db' = db" using assms by (auto simp: place_target_def Let_def split: if_splits)
    then show thesis by (rule that(1))
  qed
qed

lemma enrollment_ok:
  assumes "create_target_from_approved_enrollment env pid rid eid vid did q db = Inr (db', t)"
  obtains r e v d where "configuration_ok q" "select_revision db pid rid = Some r" "rev_lifecycle_state r = ''active''"
    "select_evaluation db rid eid = Some e" "select_validation db rid eid vid = Some v" "select_decision db rid vid did = Some d"
    "aed_decision d = ''approved''" "aed_normalized_hostname d = acv_normalized_hostname v"
    "map_of DNS_NETWORK_MODES (acv_decision_code v) = Some (trq_network_mode q)" "place_target env pid rid q d db = Inr (db', t)"
  using assms by (auto simp: create_target_from_approved_enrollment_def split: if_splits option.splits)

lemma enroll_kept:
  assumes "create_target_from_approved_enrollment env pid rid eid vid did q db = Inr (db', t)" "einv db"
    and "in_id env \<notin> tgt_id ` set (e_targets db)"
  shows "history_kept db db' \<and> einv db'"
proof -
  from assms(1) obtain r e v d where c: "configuration_ok q" and sel: "select_revision db pid rid = Some r"
    "select_evaluation db rid eid = Some e" "select_validation db rid eid vid = Some v" "select_decision db rid vid did = Some d"
    and d: "aed_decision d = ''approved''" "aed_normalized_hostname d = acv_normalized_hostname v"
    "map_of DNS_NETWORK_MODES (acv_decision_code v) = Some (trq_network_mode q)"
    and pl: "place_target env pid rid q d db = Inr (db', t)"
    by (rule enrollment_ok)
  from pl show ?thesis
  proof (cases rule: place_target_cases)
    case 1
    then show ?thesis using assms(2) by simp
  next
    case 2
    note rows = select_revision_Some[OF sel(1)] select_validation_Some[OF sel(3)] select_decision_Some[OF sel(4)]
    have ok: "target_ok db t"
      unfolding target_ok_def
      using rows d c
      by (intro bexI[of _ d] bexI[of _ v] bexI[of _ r] exI[of _ "trq_scheme q"] exI[of _ "trq_port q"] conjI)
        (simp_all add: 2(2) enrolled_target_def configuration_ok_def port_ok_def)
    have new: "tgt_asset_enrollment_decision_id t = Some (aed_id d)" "tgt_id t = in_id env"
      "tgt_authorization_revision_id t = Some rid" "tgt_authorization_profile_id t = Some pid"
      by (simp_all add: 2(2) enrolled_target_def)
    have "tgt_asset_enrollment_decision_id t \<notin> set (map tgt_asset_enrollment_decision_id (filter enrolled (e_targets db)))"
      "tgt_base_url t \<notin> set (map tgt_base_url (filter enrolled (e_targets db)))"
      using new(1) 2(3) by (metis (no_types, lifting) filter_is_subset image_iff set_map subsetD)+
    then have "enrolled_inv (e_targets db @ [t])"
      using assms(2) unfolding enrolled_inv_def einv_def by simp
    moreover have "distinct (map tgt_id (e_targets db @ [t]))"
      using assms(2,3) new(2) by (simp add: einv_def keys_inv_def)
    ultimately show ?thesis
      unfolding 2(1) using ok new rows bound_revision[OF assms(2)] by (intro einv_targets[OF assms(2)]) auto
  qed
qed

subsection \<open>All steps\<close>

lemma estep_kept: "estep idna uni_word db db' \<Longrightarrow> einv db \<Longrightarrow> history_kept db db' \<and> einv db'"
  by (induction rule: estep.induct)
    (erule profile_create_kept profile_update_kept profile_delete_kept revision_create_kept revision_transition_kept
      rule_create_kept rule_delete_kept evaluation_kept validation_kept decision_kept enroll_kept target_create_kept
      target_mode_kept target_profile_kept target_revision_kept, assumption+)+

lemma einv_empty: "einv empty_db"
  by (simp add: einv_def empty_db_def keys_inv_def profile_inv_def revision_inv_def one_active_per_profile_def
      rows_inv_def refs_inv_def enrolled_inv_def)

lemma esteps_kept: "esteps idna uni_word db db' \<Longrightarrow> einv db \<Longrightarrow> history_kept db db' \<and> einv db'"
  unfolding esteps_def
proof (induction rule: rtranclp_induct)
  case (step b c)
  then show ?case using estep_kept[OF step(2)] history_trans by blast
qed simp

lemma ereach_inv: "ereach idna uni_word db \<Longrightarrow> einv db"
  using esteps_kept einv_empty by (auto simp: ereach_def)

subsection \<open>The origin of an enrolled target\<close>

text \<open>The text after the slashes of an origin.\<close>

definition origin_netloc :: "string \<Rightarrow> string \<Rightarrow> int option \<Rightarrow> string" where
  "origin_netloc schm h port =
     h @ (case port of None \<Rightarrow> [] | Some p \<Rightarrow> if p = default_port schm then [] else '':'' @ show_int p)"

lemma origin_netloc_ord:
  assumes "dns_name h" "port_ok port" "x \<in> set (origin_netloc schm h port)"
  shows "ord x \<in> {45, 46} \<union> {48..58} \<union> {97..122}"
proof -
  have "ord x \<in> {48..57}" if "x \<in> set (show_nat n)" for n
    using that show_nat_digits[of n] by (auto simp: list_all_iff is_digit_def)
  then show ?thesis
    using assms dns_name_ord[OF assms(1), of x]
    by (fastforce simp: origin_netloc_def show_int_def port_ok_def ord_def[of "CHR '':''"] split: option.splits if_splits)
qed

lemma origin_netloc_avoids:
  assumes "dns_name h" "port_ok port" "ord c \<notin> {45, 46} \<union> {48..58} \<union> {97..122}"
  shows "c \<notin> set (origin_netloc schm h port)"
  using origin_netloc_ord[OF assms(1,2)] assms(3) by blast

lemma origin_split:
  assumes "dns_name h" "port_ok port" "schm \<in> {''http'', ''https''}"
  shows "urlsplit (canonical_enrollment_origin schm h port)
    = Some \<lparr>scheme = schm, netloc = origin_netloc schm h port, path = [], query = [], fragment = []\<rparr>"
proof -
  let ?n = "origin_netloc schm h port"
  let ?u = "schm @ CHR '':'' # CHR ''/'' # CHR ''/'' # ?n"
  note av = origin_netloc_avoids[OF assms(1,2), of _ schm]
  have u: "canonical_enrollment_origin schm h port = ?u"
    by (simp add: canonical_enrollment_origin_def origin_netloc_def)
  have "ord x > 32" if "x \<in> set ?u" for x
    using that assms(3) origin_netloc_ord[OF assms(1,2), of x schm] by (auto simp: ord_def)
  then have clean: "url_clean ?u = ?u"
    using assms(3) unfolding url_clean_def by (intro trans[OF filter_True]) (fastforce simp: ord_def)+
  have sch: "split_scheme ?u = (schm, CHR ''/'' # CHR ''/'' # ?n)"
    using assms(3) py_partition_append[of "CHR '':''" schm "CHR ''/'' # CHR ''/'' # ?n"]
    by (auto simp: split_scheme_def scheme_char_def is_lower_def ord_def py_lower_def lower_char_def is_upper_def)
  have nl: "split_netloc ?n = (?n, [])"
    using av[of "CHR ''/''"] av[of "CHR ''?''"] av[of "CHR ''#''"]
    by (auto simp: split_netloc_def takeWhile_eq_all_conv dropWhile_eq_Nil_conv ord_def)
  have "netloc_ok ?n" using av[of "CHR ''[''"] av[of "CHR '']''"] by (simp add: netloc_ok_def Let_def ord_def)
  then show ?thesis unfolding u urlsplit_def by (simp add: clean sch nl Let_def)
qed

lemma origin_hostinfo:
  assumes "dns_name h" "port_ok port" "schm \<in> {''http'', ''https''}"
  defines "u \<equiv> \<lparr>scheme = schm, netloc = origin_netloc schm h port, path = [], query = [], fragment = []\<rparr>"
  shows "userinfo u = None" "url_hostname u = Some h"
    "url_port u = Inr (if port = Some (default_port schm) then None else map_option nat port)"
proof -
  let ?n = "origin_netloc schm h port"
  note av = origin_netloc_avoids[OF assms(1,2), of _ schm]
  have rp: "py_rpartition (CHR ''@'') ?n = ([], False, ?n)"
    using py_partition_none[of "CHR ''@''" "rev ?n"] av[of "CHR ''@''"] by (simp add: py_rpartition_def ord_def)
  have br: "py_partition (CHR ''['') ?n = (?n, False, [])"
    using py_partition_none[of "CHR ''[''" ?n] av[of "CHR ''[''"] by (simp add: ord_def)
  have colon: "CHR '':'' \<notin> set h" using dns_name_avoids[OF assms(1), of "CHR '':''"] by (simp add: ord_def)
  have hi: "hostinfo u = (h, case port of None \<Rightarrow> [] | Some p \<Rightarrow> if p = default_port schm then [] else show_nat (nat p))"
    using assms(2) rp br py_partition_none[OF colon] py_partition_append[OF colon]
    by (auto simp: hostinfo_def u_def origin_netloc_def port_ok_def show_int_def split: option.splits)
  show "userinfo u = None" using rp by (simp add: userinfo_def u_def)
  have "CHR ''%'' \<notin> set h" using dns_name_avoids[OF assms(1), of "CHR ''%''"] by (simp add: ord_def)
  then show "url_hostname u = Some h"
    using dns_name_last[OF assms(1)] dns_name_lower[OF assms(1)] py_partition_none[of "CHR ''%''" h]
    by (auto simp: url_hostname_def hi split: list.splits)
  show "url_port u = Inr (if port = Some (default_port schm) then None else map_option nat port)"
    using assms(2) by (auto simp: url_port_def hi port_ok_def show_nat_not_Nil split: option.splits)
qed

lemma origin_parses:
  assumes "dns_name h" "ip_address_of h = None" "port_ok port" "schm \<in> {''http'', ''https''}"
  shows "parse_canonical_destination idna (canonical_enrollment_origin schm h port)
    = Inr \<lparr>dest_scheme = schm, dest_hostname = h,
           dest_port = nat (case port of None \<Rightarrow> default_port schm | Some p \<Rightarrow> p),
           dest_is_ip_literal = False, dest_ip_address = None\<rparr>"
proof -
  let ?o = "canonical_enrollment_origin schm h port"
  note av = origin_netloc_avoids[OF assms(1,3), of _ schm]
  have o: "?o = schm @ ''://'' @ origin_netloc schm h port"
    by (simp add: canonical_enrollment_origin_def origin_netloc_def)
  have "ord x > 32 \<and> ord x \<noteq> 92" if "x \<in> set ?o" for x
    using that assms(4) origin_netloc_ord[OF assms(1,3), of x schm] unfolding o by (auto simp: ord_def)
  then have "CHR 0x5C \<notin> set ?o" "\<not> list_ex is_space ?o"
    by (fastforce simp: ord_def list_ex_iff is_space_def)+
  moreover have "?o \<noteq> []" using assms(4) o by auto
  moreover have "py_rstrip_char (CHR ''.'') h = h"
    using dns_name_last[OF assms(1)] by (cases h rule: rev_cases) (auto simp: py_rstrip_char_def)
  moreover have "CHR ''%'' \<notin> set h" using dns_name_avoids[OF assms(1), of "CHR ''%''"] by (simp add: ord_def)
  moreover have "py_lower schm = schm" using assms(4) by (auto simp: py_lower_def lower_char_def is_upper_def ord_def)
  ultimately show ?thesis
    using origin_split[OF assms(1,3,4)] origin_hostinfo[OF assms(1,3,4)] assms dns_name_last[OF assms(1)]
      dns_name_lower[OF assms(1)] dns_name_encode[OF assms(1), of idna]
    by (auto simp: parse_canonical_destination_def Let_def port_ok_def default_port_def dns_name_def split: option.splits)
qed

subsection \<open>A validation is stored completely\<close>

definition resolver_unscoped :: "asset_candidate_dns_resolver \<Rightarrow> bool" where
  "resolver_unscoped rsv \<longleftrightarrow>
     (\<forall>h vs v ip. resolve_addresses rsv h = Some (RIterable vs) \<and> v \<in> set vs \<and> resolver_address v = Some ip
        \<longrightarrow> unscoped ip)"

lemma category_value_listed: "category_value c \<in> set DNS_ADDRESS_CATEGORIES"
  by (cases c) (simp_all add: DNS_ADDRESS_CATEGORIES_def)

lemma child_rows_ok:
  assumes "dns_decision_ok idna rsv h d" "resolver_unscoped rsv"
  shows "list_all cname_hop_row_ok (hop_rows env d)" "list_all dns_address_row_ok (address_rows env d)"
proof -
  have "dns_name c" if "c \<in> set (dnsd_cname_chain d)" for c
    using assms(1) that cname_path_names by (auto simp: dns_decision_ok_def)
  moreover have "length (dnsd_cname_chain d) \<le> 8" using assms(1) by (simp add: dns_decision_ok_def MAX_CNAME_HOPS_def)
  ultimately show "list_all cname_hop_row_ok (hop_rows env d)"
    by (auto simp: hop_rows_def cname_hop_row_ok_def list_all_iff in_set_enumerate_eq dns_name_def)
  from assms(1) obtain ips where ips: "dnsd_resolved_addresses d = map compressed ips"
    "dnsd_address_categories d = map classify_address ips" "length ips \<le> 16"
    and v: "ips = [] \<or> (\<exists>chain ips'. dns_resolves idna rsv h chain ips' \<and> set ips' = set ips)"
    by (auto simp: dns_decision_ok_def MAX_RESOLVED_ADDRESSES_def split: if_splits)
  have "unscoped ip" if ip: "ip \<in> set ips" for ip
  proof -
    from v ip obtain vs ips' t where "resolve_addresses rsv t = Some (RIterable vs)" "map resolver_address vs = map Some ips'" "ip \<in> set ips'"
      by (auto simp: dns_resolves_def)
    moreover from this(2,3) obtain x where "x \<in> set vs" "resolver_address x = Some ip"
      by (metis (no_types, lifting) image_eqI image_iff list.set_map)
    ultimately show ?thesis using assms(2) unfolding resolver_unscoped_def by blast
  qed
  then have "length (compressed ip) \<le> 45" if "ip \<in> set ips" for ip using that length_compressed by blast
  then show "list_all dns_address_row_ok (address_rows env d)"
    using ips category_value_listed
    by (auto simp: address_rows_def dns_address_row_ok_def list_all_iff in_set_enumerate_eq)
qed

lemma final_revalidation_storable:
  assumes "classify_asset_candidate_dns idna rsv captured = Some d" "resolver_unscoped rsv"
  shows "final_revalidation env pid rid eid captured d db \<noteq> Inl AssetCandidateDNSValidationIntegrityError"
proof
  assume "final_revalidation env pid rid eid captured d db = Inl AssetCandidateDNSValidationIntegrityError"
  then have n: "dnsd_normalized_hostname d = Some captured"
    and bad: "\<not> list_all cname_hop_row_ok (hop_rows env d) \<or> \<not> list_all dns_address_row_ok (address_rows env d)"
    by (auto simp: final_revalidation_def load_exact_def res_bind_eq_Inl Let_def split: option.splits if_splits)
  show False using bad child_rows_ok[OF conjunct2[OF classified_name[OF assms(1) n]] assms(2), of env] by blast
qed

lemma stored_children:
  assumes "final_revalidation env pid rid eid captured d db = Inr (db', v)"
    and "classify_asset_candidate_dns idna rsv captured = Some d" "einv db" "in_id env \<notin> acv_id ` set (e_validations db)"
  shows "validation_hops db' (acv_id v) = hop_rows env d" "map hop_hostname (hop_rows env d) = dnsd_cname_chain d"
    "validation_addresses db' (acv_id v) = address_rows env d" "map adr_address (address_rows env d) = dnsd_resolved_addresses d"
proof -
  from assms(1) obtain r e where n: "dnsd_normalized_hostname d = Some captured" and v: "v = validation_row env rid eid captured d"
    and db': "db' = db\<lparr>e_validations := e_validations db @ [v], e_hops := e_hops db @ hop_rows env d,
        e_addresses := e_addresses db @ address_rows env d\<rparr>"
    by (rule final_revalidation_ok)
  have len: "length (dnsd_resolved_addresses d) = length (dnsd_address_categories d)"
    using classified_name[OF assms(2) n] by (auto simp: dns_decision_ok_def)
  have refs: "\<forall>a \<in> set (e_addresses db). adr_dns_validation_id a \<in> acv_id ` set (e_validations db)"
    "\<forall>a \<in> set (e_hops db). hop_dns_validation_id a \<in> acv_id ` set (e_validations db)"
    using assms(3) by (simp_all add: einv_def refs_inv_def)
  have "filter (\<lambda>a. adr_dns_validation_id a = in_id env) (e_addresses db) = []"
    "filter (\<lambda>a. hop_dns_validation_id a = in_id env) (e_hops db) = []"
    using refs assms(4) by (intro filter_False; metis)+
  moreover have "filter (\<lambda>a. adr_dns_validation_id a = in_id env) (address_rows env d) = address_rows env d"
    "filter (\<lambda>a. hop_dns_validation_id a = in_id env) (hop_rows env d) = hop_rows env d"
    using address_rows_columns(3)[OF len] hop_rows_id by (auto simp: filter_id_conv)
  ultimately show "validation_hops db' (acv_id v) = hop_rows env d" "validation_addresses db' (acv_id v) = address_rows env d"
    by (simp_all add: validation_hops_def validation_addresses_def db' v validation_row_def)
  show "map hop_hostname (hop_rows env d) = dnsd_cname_chain d"
    by (simp add: hop_rows_def comp_def case_prod_beta)
  show "map adr_address (address_rows env d) = dnsd_resolved_addresses d"
    by (rule address_rows_columns(1)[OF len])
qed

lemma classify_some: "\<exists>d. classify_asset_candidate_dns idna rsv v = Some d"
proof (cases "normalize_candidate_hostname idna v")
  case (Inr h)
  then show ?thesis by (rule classify_returns) blast
qed (simp add: classify_asset_candidate_dns_def)

lemma included_evaluation:
  assumes "einv db" "e \<in> set (e_evaluations db)" "ace_decision_code e = ''asset_candidate_included''"
  shows "dns_name (ace_normalized_hostname e)" "nondraft db (ace_authorization_revision_id e)"
    "list_ex (rule_covers (ace_authorization_revision_id e) ''include'' (ace_normalized_hostname e)) (e_rules db)"
    "\<not> list_ex (rule_covers (ace_authorization_revision_id e) ''exclude'' (ace_normalized_hostname e)) (e_rules db)"
proof -
  let ?rid = "ace_authorization_revision_id e"
  have rs: "list_ex (rule_covers ?rid kind x) (revision_rules db ?rid) \<longleftrightarrow> list_ex (rule_covers ?rid kind x) (e_rules db)" for kind x
    by (auto simp: list_ex_iff revision_rules_def rule_covers_def)
  have "evaluation_ok db e" using assms by (simp add: einv_def rows_inv_def)
  then show "dns_name (ace_normalized_hostname e)" "nondraft db ?rid"
    "list_ex (rule_covers ?rid ''include'' (ace_normalized_hostname e)) (e_rules db)"
    "\<not> list_ex (rule_covers ?rid ''exclude'' (ace_normalized_hostname e)) (e_rules db)"
    using assms(3) unfolding evaluation_ok_def Let_def rs by (auto split: if_splits)
qed

lemma mode_addresses:
  assumes "addresses_ok code rows" "map_of DNS_NETWORK_MODES code = Some mode"
  obtains ips where "map adr_address rows = map compressed ips" "ips \<noteq> []"
    "mode = PRIVATE_LOCAL \<and> list_all local_address ips
      \<or> mode = EXTERNAL_PUBLIC_AUTHORIZED \<and> list_all (\<lambda>ip. classify_address ip = PUBLIC) ips"
  using assms
  by (auto simp: addresses_ok_def DNS_NETWORK_MODES_def PRIVATE_LOCAL_def EXTERNAL_PUBLIC_AUTHORIZED_def split: if_splits)

lemma dns_validation_phases:
  assumes "ereach idna uni_word db" "esteps idna uni_word db (others db)"
    and "in_id env \<notin> acv_id ` set (e_validations (others db))" "resolver_unscoped rsv"
  shows "\<exists>db' res. create_asset_candidate_dns_validation idna rsv env others pid rid eid db = Some (db', res)
    \<and> esteps idna uni_word db db'
    \<and> (case res of
         Inl er \<Rightarrow> (db' = db \<or> db' = others db) \<and> er \<noteq> AssetCandidateDNSValidationIntegrityError
       | Inr p \<Rightarrow> e_validations db' = e_validations (others db) @ [pdv_validation p]
          \<and> validation_hops db' (acv_id (pdv_validation p)) = pdv_cname_hops p
          \<and> validation_addresses db' (acv_id (pdv_validation p)) = pdv_addresses p
          \<and> (\<exists>r e d. load_exact (others db) pid rid eid = Inr (r, e)
              \<and> classify_asset_candidate_dns idna rsv (ace_normalized_hostname e) = Some d
              \<and> acv_decision_code (pdv_validation p) = dnsd_code d
              \<and> map hop_hostname (pdv_cname_hops p) = dnsd_cname_chain d
              \<and> map adr_address (pdv_addresses p) = dnsd_resolved_addresses d))"
proof (cases "load_exact db pid rid eid")
  case (Inl er)
  moreover from this have "er \<noteq> AssetCandidateDNSValidationIntegrityError"
    by (auto simp: load_exact_def split: option.splits if_splits)
  ultimately show ?thesis by (auto simp: create_asset_candidate_dns_validation_def esteps_def)
next
  case (Inr p)
  obtain r0 e0 where p: "p = (r0, e0)" by (cases p)
  have inv: "einv (others db)" using esteps_kept[OF assms(2) ereach_inv[OF assms(1)]] by simp
  let ?c = "ace_normalized_hostname e0"
  obtain d where d: "classify_asset_candidate_dns idna rsv ?c = Some d" using classify_some by blast
  note op = create_asset_candidate_dns_validation_def[of idna rsv env others pid rid eid db, unfolded Inr p]
  show ?thesis
  proof (cases "final_revalidation env pid rid eid ?c d (others db)")
    case (Inl er)
    then show ?thesis using op d assms(2) final_revalidation_storable[OF d assms(4), of env pid rid eid "others db"] by auto
  next
    case fin: (Inr q)
    obtain db' v where q: "q = (db', v)" by (cases q)
    note fin = fin[unfolded q]
    from fin obtain r e where e: "load_exact (others db) pid rid eid = Inr (r, e)" "ace_normalized_hostname e = ?c"
      "v = validation_row env rid eid ?c d"
      and db': "db' = (others db)\<lparr>e_validations := e_validations (others db) @ [v], e_hops := e_hops (others db) @ hop_rows env d,
        e_addresses := e_addresses (others db) @ address_rows env d\<rparr>"
      by (rule final_revalidation_ok)
    have "esteps idna uni_word db db'"
      using assms(2) estep.dns_validate[OF fin d assms(3), of uni_word] unfolding esteps_def by (rule rtranclp.rtrancl_into_rtrancl)
    then show ?thesis
      using op d fin e stored_children[OF fin d inv assms(3)] by (auto simp: db' validation_row_def)
  qed
qed

subsection \<open>Properties\<close>

text \<open>
  C29. Every target that is bound to an enrollment decision, in every state that any interleaving of the
  enrollment, profile, revision, rule and target operations can reach, has a complete provenance that is still true of
  the tables: the decision exists and approved it; the decision's DNS validation and the candidate's
  evaluation belong to the revision and profile that the target names; the hostname is a DNS name and no address literal,
  an include rule of the revision covers it and no exclude rule does; the addresses that were
  stored are all loopback or private for a private target and all public for an external one; and the base URL
  is the origin of this hostname, which the destination policy parses back to it.
\<close>

theorem enrolled_target_provenance:
  assumes "ereach idna uni_word db" "t \<in> set (e_targets db)" "tgt_asset_enrollment_decision_id t = Some did"
  shows "\<exists>r e v d ips h schm port.
      r \<in> set (e_revisions db) \<and> e \<in> set (e_evaluations db) \<and> v \<in> set (e_validations db) \<and> d \<in> set (e_decisions db)
      \<and> aed_id d = did \<and> aed_decision d = ''approved'' \<and> aed_asset_candidate_dns_validation_id d = acv_id v
      \<and> acv_asset_candidate_evaluation_id v = ace_id e \<and> ace_decision_code e = ''asset_candidate_included''
      \<and> ace_authorization_revision_id e = rev_id r \<and> acv_authorization_revision_id v = rev_id r
      \<and> aed_authorization_revision_id d = rev_id r
      \<and> tgt_authorization_revision_id t = Some (rev_id r)
      \<and> tgt_authorization_profile_id t = Some (rev_authorization_profile_id r)
      \<and> rev_lifecycle_state r \<noteq> ''draft''
      \<and> ace_normalized_hostname e = h \<and> acv_normalized_hostname v = h \<and> aed_normalized_hostname d = h
      \<and> dns_name h \<and> ip_address_of h = None
      \<and> list_ex (rule_covers (rev_id r) ''include'' h) (e_rules db)
      \<and> \<not> list_ex (rule_covers (rev_id r) ''exclude'' h) (e_rules db)
      \<and> map adr_address (validation_addresses db (acv_id v)) = map compressed ips \<and> ips \<noteq> []
      \<and> (tgt_network_mode t = PRIVATE_LOCAL \<and> list_all local_address ips
         \<or> tgt_network_mode t = EXTERNAL_PUBLIC_AUTHORIZED \<and> list_all (\<lambda>ip. classify_address ip = PUBLIC) ips)
      \<and> tgt_base_url t = canonical_enrollment_origin schm h port
      \<and> parse_canonical_destination idna (tgt_base_url t)
        = Inr \<lparr>dest_scheme = schm, dest_hostname = h,
               dest_port = nat (case port of None \<Rightarrow> default_port schm | Some p \<Rightarrow> p),
               dest_is_ip_literal = False, dest_ip_address = None\<rparr>"
proof -
  have inv: "einv db" by (rule ereach_inv[OF assms(1)])
  then have "target_ok db t" using assms(2,3) by (simp add: einv_def rows_inv_def enrolled_def)
  then obtain d v r schm port where t: "d \<in> set (e_decisions db)" "v \<in> set (e_validations db)" "r \<in> set (e_revisions db)"
      "tgt_asset_enrollment_decision_id t = Some (aed_id d)" "aed_decision d = ''approved''"
      "acv_id v = aed_asset_candidate_dns_validation_id d"
      "acv_authorization_revision_id v = rev_id r" "acv_normalized_hostname v = aed_normalized_hostname d"
      "rev_id r = aed_authorization_revision_id d"
      "tgt_authorization_revision_id t = Some (rev_id r)"
      "tgt_authorization_profile_id t = Some (rev_authorization_profile_id r)"
      "schm \<in> {''http'', ''https''}" "port_ok port"
      "tgt_base_url t = canonical_enrollment_origin schm (aed_normalized_hostname d) port"
      "map_of DNS_NETWORK_MODES (acv_decision_code v) = Some (tgt_network_mode t)"
    by (rule target_okE)
  from inv t(2) obtain e where e: "e \<in> set (e_evaluations db)" "ace_id e = acv_asset_candidate_evaluation_id v"
      "ace_authorization_revision_id e = acv_authorization_revision_id v" "ace_decision_code e = ''asset_candidate_included''"
      "ace_normalized_hostname e = acv_normalized_hostname v"
    and ip: "ip_address_of (acv_normalized_hostname v) = None"
    and adr: "addresses_ok (acv_decision_code v) (validation_addresses db (acv_id v))"
    by (auto simp: einv_def rows_inv_def validation_ok_def)
  note inc = included_evaluation[OF inv e(1,4)]
  have "rev_lifecycle_state r \<noteq> ''draft''"
    using inc(2) e(3) t(7) revision_unique[OF inv _ t(3)] by (auto simp: nondraft_def)
  moreover obtain ips where "map adr_address (validation_addresses db (acv_id v)) = map compressed ips" "ips \<noteq> []"
    "tgt_network_mode t = PRIVATE_LOCAL \<and> list_all local_address ips
      \<or> tgt_network_mode t = EXTERNAL_PUBLIC_AUTHORIZED \<and> list_all (\<lambda>ip. classify_address ip = PUBLIC) ips"
    by (rule mode_addresses[OF adr t(15)])
  ultimately show ?thesis
    using t e inc ip assms(3) origin_parses[of "ace_normalized_hostname e" port schm idna]
    by (intro exI[of _ r] exI[of _ e] exI[of _ v] exI[of _ d] exI[of _ ips] exI[of _ "ace_normalized_hostname e"] exI[of _ schm] exI[of _ port])
      simp
qed

text \<open>
  C30. From every reachable state, whatever the sessions do, the history of an authorization stays: a revision keeps its
  identity, its number and its snapshot, and its state only moves from draft to active or revoked and from active to
  superseded or revoked; the hostname rules of a revision that has left the draft state never change; evaluations,
  DNS validations with their hops and addresses, and decisions are append-only; enrolled targets never change. At every
  moment a profile has at most one active revision and no two revisions with the same number, so
  that the constraints of the table are never violated.
\<close>

theorem authorization_history:
  assumes "ereach idna uni_word db" "esteps idna uni_word db db'"
  shows "history_kept db db' \<and> revision_inv (e_revisions db')"
  using esteps_kept[OF assms(2) ereach_inv[OF assms(1)]] by (simp add: einv_def)


subsection \<open>A run\<close>

definition lab_env :: "row_id \<Rightarrow> insert_env" where
  "lab_env n = \<lparr>in_id = n, in_child_id = int, in_now = 1000\<rparr>"

definition lab_values :: profile_values where
  "lab_values = \<lparr>prof_name = '' Lab '', prof_program_name = ''Program'', prof_program_url = None,
     prof_authorization_type = ''bug_bounty'', prof_authorization_reference = None, prof_valid_from = None,
     prof_valid_until = None, prof_automation_allowed = True, prof_max_requests_per_second = PyFloat 2,
     prof_allow_get = True, prof_allow_post = False, prof_allow_patch = False, prof_allow_put = False,
     prof_allow_delete = False, prof_require_human_execution_approval = True, prof_notes = None\<rparr>"

definition lab_request :: target_request where
  "lab_request = \<lparr>trq_name = ''Lab'', trq_environment = ''development'', trq_scheme = ''https'', trq_port = Some 8443,
     trq_network_mode = ''private_local''\<rparr>"

definition txn_db :: "'e + enrollment_db \<times> 'a \<Rightarrow> enrollment_db" where
  "txn_db r = fst (projr r)"

definition lab_db1 :: enrollment_db where
  "lab_db1 = txn_db (create_authorization_profile (lab_env 1) lab_values empty_db)"

definition lab_db2 :: enrollment_db where
  "lab_db2 = txn_db (create_revision (lab_env 5) 1 lab_db1)"

definition lab_db3 :: enrollment_db where
  "lab_db3 = txn_db (create_asset_hostname_rule lab_idna (lab_env 9) 1 5 ''include'' ''*.Example.com'' lab_db2)"

definition lab_db4 :: enrollment_db where
  "lab_db4 = txn_db (transition_revision 1 5 ''active'' lab_db3)"

definition lab_db5 :: enrollment_db where
  "lab_db5 = txn_db (create_asset_candidate_evaluation lab_idna (lab_env 3) 1 5 ''WWW.example.com'' lab_db4)"

definition lab_decision :: asset_candidate_dns_decision where
  "lab_decision = the (classify_asset_candidate_dns lab_idna lab_dns ''www.example.com'')"

definition lab_db6 :: enrollment_db where
  "lab_db6 = txn_db (final_revalidation (lab_env 4) 1 5 3 ''www.example.com'' lab_decision lab_db5)"

definition lab_db7 :: enrollment_db where
  "lab_db7 = txn_db (create_asset_enrollment_decision (\<lambda>_. True) (lab_env 6) 1 5 3 4 ''approved''
     (Some ''scope_confirmed'') (Some ''checked with the owner'') lab_db6)"

definition lab_db8 :: enrollment_db where
  "lab_db8 = txn_db (create_target_from_approved_enrollment (lab_env 8) 1 5 3 4 6 lab_request lab_db7)"

lemma txn_ok: "is_ok r \<Longrightarrow> r = Inr (txn_db r, snd (projr r))"
  by (cases r) (auto simp: txn_db_def)

lemma lab_reached:
  "ereach lab_idna (\<lambda>_. True) lab_db4" "esteps lab_idna (\<lambda>_. True) lab_db4 lab_db8" "ereach lab_idna (\<lambda>_. True) lab_db5"
proof -
  let ?step = "estep lab_idna (\<lambda>_. True)"
  have s1: "?step empty_db lab_db1"
    unfolding lab_db1_def by (rule estep.profile_create[OF txn_ok]) code_simp+
  have s2: "?step lab_db1 lab_db2"
    unfolding lab_db2_def by (rule estep.revision_create[OF txn_ok]) code_simp+
  have s3: "?step lab_db2 lab_db3"
    unfolding lab_db3_def by (rule estep.rule_create[OF txn_ok]) code_simp+
  have s4: "?step lab_db3 lab_db4"
    unfolding lab_db4_def by (rule estep.revision_transition[OF txn_ok]) code_simp
  have s5: "?step lab_db4 lab_db5"
    unfolding lab_db5_def by (rule estep.candidate_evaluate[OF txn_ok]) code_simp+
  have d: "classify_asset_candidate_dns lab_idna lab_dns ''www.example.com'' = Some lab_decision"
    using classify_some[of lab_idna lab_dns "''www.example.com''"] by (auto simp: lab_decision_def)
  have s6: "?step lab_db5 lab_db6"
    unfolding lab_db6_def by (rule estep.dns_validate[OF txn_ok d]) code_simp+
  have s7: "?step lab_db6 lab_db7"
    unfolding lab_db7_def by (rule estep.enrollment_decide[OF txn_ok]) code_simp+
  have s8: "?step lab_db7 lab_db8"
    unfolding lab_db8_def by (rule estep.target_enroll[OF txn_ok]) code_simp+
  show "ereach lab_idna (\<lambda>_. True) lab_db4"
    unfolding ereach_def esteps_def using s1 s2 s3 s4 by (meson rtranclp.rtrancl_into_rtrancl rtranclp.rtrancl_refl)
  then show "ereach lab_idna (\<lambda>_. True) lab_db5"
    unfolding ereach_def esteps_def using s5 by (rule rtranclp.rtrancl_into_rtrancl)
  show "esteps lab_idna (\<lambda>_. True) lab_db4 lab_db8"
    unfolding esteps_def using s5 s6 s7 s8 by (meson rtranclp.rtrancl_into_rtrancl rtranclp.rtrancl_refl)
qed

theorem enrolled_target_provenance_witness:
  "\<exists>t d h ips. t \<in> set (e_targets lab_db8) \<and> tgt_asset_enrollment_decision_id t = Some 6
     \<and> d \<in> set (e_decisions lab_db8) \<and> aed_decision d = ''approved'' \<and> aed_normalized_hostname d = h
     \<and> list_ex (rule_covers 5 ''include'' h) (e_rules lab_db8) \<and> ips \<noteq> [] \<and> list_all local_address ips"
proof -
  let ?t = "hd (e_targets lab_db8)"
  have c: "e_targets lab_db8 \<noteq> [] \<and> tgt_asset_enrollment_decision_id ?t = Some 6
      \<and> tgt_authorization_revision_id ?t = Some 5 \<and> tgt_network_mode ?t = ''private_local''" by code_simp
  then have t: "?t \<in> set (e_targets lab_db8)" "tgt_asset_enrollment_decision_id ?t = Some 6" by simp_all
  have "ereach lab_idna (\<lambda>_. True) lab_db8"
    using lab_reached(1,2) unfolding ereach_def esteps_def by (rule rtranclp_trans)
  from enrolled_target_provenance[OF this t] c obtain d h ips where "d \<in> set (e_decisions lab_db8)" "aed_decision d = ''approved''"
    "aed_normalized_hostname d = h" "list_ex (rule_covers 5 ''include'' h) (e_rules lab_db8)" "ips \<noteq> []" "list_all local_address ips"
    by (auto simp: EXTERNAL_PUBLIC_AUTHORIZED_def)
  with t show ?thesis by blast
qed

theorem authorization_history_witness:
  "history_kept lab_db4 lab_db8 \<and> revision_inv (e_revisions lab_db8)
   \<and> map rev_lifecycle_state (e_revisions lab_db8) = [''active'']"
proof -
  have "map rev_lifecycle_state (e_revisions lab_db8) = [''active'']" by code_simp
  then show ?thesis using authorization_history[OF lab_reached(1,2)] by blast
qed

lemma lab_dns_unscoped: "resolver_unscoped lab_dns"
proof -
  have "case ip_address_of ''10.0.0.7'' of None \<Rightarrow> False | Some ip \<Rightarrow> unscoped ip"
    "case ip_address_of ''::1'' of None \<Rightarrow> False | Some ip \<Rightarrow> unscoped ip" by code_simp+
  then show ?thesis by (auto simp: resolver_unscoped_def lab_dns_def split: if_splits option.splits)
qed


end
