(* ===== verification/Enrollment_Routes.thy ===== *)
theory Enrollment_Routes
  imports Enrollment_Safety
begin

text \<open>
  The routes of \<open>src/backend/app/api/routes/authorization_profiles.py\<close> over the services of
  \<open>Enrollment\<close>, with the schemas of their request bodies: which status and detail a request gets for
  which exception, and the reading routes with their pages.

  A route maps the tables to new tables and a response. \<open>Http\<close> is a response with its body, \<open>HttpError\<close> an
  \<open>HTTPException\<close>, \<open>Invalid\<close> a body or query that the schema rejects (status 422), and \<open>Uncaught\<close> an
  exception that no handler of the route catches (status 500). \<open>db.rollback()\<close> and the end of a failed session
  leave the tables unchanged.
\<close>

subsection \<open>Responses\<close>

datatype 'a response = Http nat 'a | HttpError nat string | Invalid | Uncaught

type_synonym 'a route = "enrollment_db \<Rightarrow> enrollment_db \<times> 'a response"

definition ok_status :: nat where
  "ok_status = 200"

definition created_status :: nat where
  "created_status = 201"

text \<open>A service call inside \<open>try\<close>: \<open>f\<close> are the \<open>except\<close> clauses.\<close>

definition handled :: "nat \<Rightarrow> ('e \<Rightarrow> 'b response) \<Rightarrow> ('a \<Rightarrow> 'b) \<Rightarrow> ('e, 'a) txn \<Rightarrow> 'b route" where
  "handled code f g t db = (case t db of Inl e \<Rightarrow> (db, f e) | Inr (db', x) \<Rightarrow> (db', Http code (g x)))"

text \<open>A reading route.\<close>

definition reading :: "(enrollment_db \<Rightarrow> 'a response) \<Rightarrow> 'a route" where
  "reading f db = (db, f db)"

fun response_bind :: "'a response \<Rightarrow> ('a \<Rightarrow> 'b response) \<Rightarrow> 'b response" where
  "response_bind (Http _ x) f = f x"
| "response_bind (HttpError n s) f = HttpError n s"
| "response_bind Invalid f = Invalid"
| "response_bind Uncaught f = Uncaught"

text \<open>\<open>raise HTTPException(status_code=404, detail=...)\<close> when a row is missing.\<close>

definition or_404 :: "string \<Rightarrow> 'a option \<Rightarrow> 'a response" where
  "or_404 detail x = (case x of None \<Rightarrow> HttpError 404 detail | Some v \<Rightarrow> Http ok_status v)"

subsection \<open>Profiles and revisions\<close>

definition get_profile_or_404 :: "row_id \<Rightarrow> enrollment_db \<Rightarrow> authorization_profile response" where
  "get_profile_or_404 profile_id db =
     or_404 ''AuthorizationProfile not found.'' (find (\<lambda>p. prof_id p = profile_id) (e_profiles db))"

definition list_authorization_profiles :: "authorization_profile list route" where
  "list_authorization_profiles = reading (\<lambda>db. Http ok_status (sort_key prof_id (e_profiles db)))"

definition get_authorization_profile :: "row_id \<Rightarrow> authorization_profile route" where
  "get_authorization_profile profile_id = reading (get_profile_or_404 profile_id)"

text \<open>The \<open>IntegrityError\<close> of a concurrent creation with the same number is not a value of the model of the service.\<close>

fun revision_creation_error :: "revision_error \<Rightarrow> 'a response" where
  "revision_creation_error RevisionNotFoundError = HttpError 404 ''AuthorizationProfile not found.''"
| "revision_creation_error InvalidRevisionTransitionError = Uncaught"

definition create_authorization_revision :: "insert_env \<Rightarrow> row_id \<Rightarrow> authorization_revision route" where
  "create_authorization_revision env profile_id =
     handled created_status revision_creation_error id (create_revision env profile_id)"

definition list_authorization_revisions :: "row_id \<Rightarrow> authorization_revision list route" where
  "list_authorization_revisions profile_id =
     reading (\<lambda>db. response_bind (get_profile_or_404 profile_id db)
       (\<lambda>_. Http ok_status (sort_key rev_revision_number (profile_revisions db profile_id))))"

definition revision_or_404 :: "row_id \<Rightarrow> row_id \<Rightarrow> enrollment_db \<Rightarrow> authorization_revision response" where
  "revision_or_404 profile_id revision_id db =
     or_404 ''AuthorizationRevision not found.'' (select_revision db profile_id revision_id)"

definition get_authorization_revision :: "row_id \<Rightarrow> row_id \<Rightarrow> authorization_revision route" where
  "get_authorization_revision profile_id revision_id = reading (revision_or_404 profile_id revision_id)"

fun transition_error :: "revision_error \<Rightarrow> 'a response" where
  "transition_error RevisionNotFoundError = HttpError 404 ''AuthorizationRevision not found.''"
| "transition_error InvalidRevisionTransitionError = HttpError 409 ''Invalid revision lifecycle transition.''"

definition apply_revision_transition :: "row_id \<Rightarrow> row_id \<Rightarrow> string \<Rightarrow> authorization_revision route" where
  "apply_revision_transition profile_id revision_id destination =
     handled ok_status transition_error id (transition_revision profile_id revision_id destination)"

definition activate_authorization_revision :: "row_id \<Rightarrow> row_id \<Rightarrow> authorization_revision route" where
  "activate_authorization_revision profile_id revision_id =
     apply_revision_transition profile_id revision_id ''active''"

definition revoke_authorization_revision :: "row_id \<Rightarrow> row_id \<Rightarrow> authorization_revision route" where
  "revoke_authorization_revision profile_id revision_id =
     apply_revision_transition profile_id revision_id ''revoked''"

subsection \<open>Hostname rules\<close>

fun asset_rule_error :: "hostname_rule_error \<Rightarrow> 'a response" where
  "asset_rule_error AssetHostnameRuleNotFoundError = HttpError 404 ''Asset hostname rule not found.''"
| "asset_rule_error AssetHostnameRuleImmutableError =
     HttpError 409 ''Asset hostname rules are immutable for this revision.''"
| "asset_rule_error _ = HttpError 422 ''Asset hostname rule is invalid.''"

definition asset_hostname_rule_create_ok :: "string \<Rightarrow> string \<Rightarrow> bool" where
  "asset_hostname_rule_create_ok rule_type hostname_pattern \<longleftrightarrow>
     rule_type \<in> {''include'', ''exclude''} \<and> 1 \<le> py_len hostname_pattern \<and> py_len hostname_pattern \<le> 255"

definition create_revision_asset_hostname_rule ::
  "idna_codec \<Rightarrow> insert_env \<Rightarrow> row_id \<Rightarrow> row_id \<Rightarrow> string \<Rightarrow> string \<Rightarrow> asset_hostname_rule route" where
  "create_revision_asset_hostname_rule idna env profile_id revision_id rule_type hostname_pattern db =
     (if \<not> asset_hostname_rule_create_ok rule_type hostname_pattern then (db, Invalid)
      else handled created_status
        (\<lambda>e. case e of
           AssetHostnameRuleIntegrityError \<Rightarrow> HttpError 409 ''Asset hostname rule already exists.''
         | _ \<Rightarrow> asset_rule_error e)
        id (create_asset_hostname_rule idna env profile_id revision_id rule_type hostname_pattern) db)"

definition list_revision_asset_hostname_rules :: "row_id \<Rightarrow> row_id \<Rightarrow> asset_hostname_rule list route" where
  "list_revision_asset_hostname_rules profile_id revision_id =
     reading (\<lambda>db. response_bind (revision_or_404 profile_id revision_id db)
       (\<lambda>_. Http ok_status (sort_key ahr_id (revision_rules db revision_id))))"

text \<open>Neither an \<open>IntegrityError\<close> nor a validation error is caught here.\<close>

definition delete_revision_asset_hostname_rule :: "row_id \<Rightarrow> row_id \<Rightarrow> row_id \<Rightarrow> unit route" where
  "delete_revision_asset_hostname_rule profile_id revision_id rule_id =
     handled 204
       (\<lambda>e. if e \<in> {AssetHostnameRuleNotFoundError, AssetHostnameRuleImmutableError} then asset_rule_error e
            else Uncaught)
       id (delete_asset_hostname_rule profile_id revision_id rule_id)"

subsection \<open>Pages\<close>

text \<open>\<open>.where(id > after_id).order_by(id).limit(limit)\<close>, with the bounds of the query parameters.\<close>

definition MAX_PAGE_SIZE :: int where
  "MAX_PAGE_SIZE = 100"

definition page :: "('a \<Rightarrow> row_id) \<Rightarrow> row_id \<Rightarrow> int \<Rightarrow> 'a list \<Rightarrow> 'a list" where
  "page key after_id limit rows = take (nat limit) (sort_key key (filter (\<lambda>r. key r > after_id) rows))"

definition page_query_ok :: "row_id \<Rightarrow> int \<Rightarrow> bool" where
  "page_query_ok after_id limit \<longleftrightarrow> after_id \<ge> 0 \<and> 1 \<le> limit \<and> limit \<le> MAX_PAGE_SIZE"

subsection \<open>Candidate evaluations\<close>

fun evaluation_route_error :: "evaluation_error \<Rightarrow> 'a response" where
  "evaluation_route_error AssetCandidateEvaluationNotFoundError = HttpError 404 ''AuthorizationRevision not found.''"
| "evaluation_route_error AssetCandidateEvaluationInactiveError =
     HttpError 409 ''Asset candidates require an active authorization revision.''"
| "evaluation_route_error AssetCandidateEvaluationInvalidError =
     HttpError 422 ''Asset candidate hostname is invalid.''"

definition create_revision_asset_candidate_evaluation ::
  "idna_codec \<Rightarrow> insert_env \<Rightarrow> row_id \<Rightarrow> row_id \<Rightarrow> string \<Rightarrow> asset_candidate_evaluation route" where
  "create_revision_asset_candidate_evaluation idna env profile_id revision_id hostname db =
     (if \<not> (1 \<le> py_len hostname \<and> py_len hostname \<le> 255) then (db, Invalid)
      else handled created_status evaluation_route_error id
        (create_asset_candidate_evaluation idna env profile_id revision_id hostname) db)"

definition list_revision_asset_candidate_evaluations ::
  "row_id \<Rightarrow> row_id \<Rightarrow> row_id \<Rightarrow> int \<Rightarrow> asset_candidate_evaluation list route" where
  "list_revision_asset_candidate_evaluations profile_id revision_id after_id limit =
     reading (\<lambda>db.
       if \<not> page_query_ok after_id limit then Invalid
       else response_bind (revision_or_404 profile_id revision_id db)
         (\<lambda>_. Http ok_status (page ace_id after_id limit
            (filter (\<lambda>e. ace_authorization_revision_id e = revision_id) (e_evaluations db)))))"

definition get_revision_asset_candidate_evaluation ::
  "row_id \<Rightarrow> row_id \<Rightarrow> row_id \<Rightarrow> asset_candidate_evaluation route" where
  "get_revision_asset_candidate_evaluation profile_id revision_id evaluation_id =
     reading (\<lambda>db. response_bind (revision_or_404 profile_id revision_id db)
       (\<lambda>_. or_404 ''Asset candidate evaluation not found.'' (select_evaluation db revision_id evaluation_id)))"

subsection \<open>DNS validations\<close>

definition dns_evaluation_or_404 ::
  "row_id \<Rightarrow> row_id \<Rightarrow> row_id \<Rightarrow> enrollment_db \<Rightarrow> asset_candidate_evaluation response" where
  "dns_evaluation_or_404 profile_id revision_id evaluation_id db =
     or_404 ''Asset candidate evaluation not found.''
       (case (select_revision db profile_id revision_id, select_evaluation db revision_id evaluation_id) of
          (Some _, Some evaluation) \<Rightarrow> Some evaluation
        | _ \<Rightarrow> None)"

record asset_candidate_dns_validation_read =
  avr_validation :: asset_candidate_dns_validation
  avr_cname_chain :: "(nat \<times> string) list"
  avr_addresses :: "(nat \<times> string \<times> string) list"

definition dns_validation_response ::
  "persisted_asset_candidate_dns_validation \<Rightarrow> asset_candidate_dns_validation_read" where
  "dns_validation_response persisted =
     \<lparr>avr_validation = pdv_validation persisted,
      avr_cname_chain = map (\<lambda>hop. (hop_ordinal hop, hop_hostname hop)) (pdv_cname_hops persisted),
      avr_addresses = map (\<lambda>a. (adr_ordinal a, adr_address a, adr_category a)) (pdv_addresses persisted)\<rparr>"

fun validation_route_error :: "validation_error \<Rightarrow> 'a response" where
  "validation_route_error AssetCandidateDNSValidationNotFoundError =
     HttpError 404 ''Asset candidate evaluation not found.''"
| "validation_route_error AssetCandidateDNSValidationInactiveError =
     HttpError 409 ''DNS validation requires an active authorization revision.''"
| "validation_route_error AssetCandidateDNSValidationIneligibleError =
     HttpError 409 ''DNS validation requires an included asset candidate.''"
| "validation_route_error AssetCandidateDNSValidationIntegrityError = Uncaught"

text \<open>The result is an option because the service follows CNAME records in a loop.\<close>

definition create_revision_asset_candidate_dns_validation ::
  "idna_codec \<Rightarrow> asset_candidate_dns_resolver \<Rightarrow> insert_env \<Rightarrow> (enrollment_db \<Rightarrow> enrollment_db)
   \<Rightarrow> row_id \<Rightarrow> row_id \<Rightarrow> row_id \<Rightarrow> enrollment_db
   \<Rightarrow> (enrollment_db \<times> asset_candidate_dns_validation_read response) option" where
  "create_revision_asset_candidate_dns_validation idna rsv env others profile_id revision_id evaluation_id db =
     map_option (\<lambda>(db', res). (db', case res of
         Inl e \<Rightarrow> validation_route_error e
       | Inr persisted \<Rightarrow> Http created_status (dns_validation_response persisted)))
       (create_asset_candidate_dns_validation idna rsv env others profile_id revision_id evaluation_id db)"

definition list_revision_asset_candidate_dns_validations ::
  "row_id \<Rightarrow> row_id \<Rightarrow> row_id \<Rightarrow> row_id \<Rightarrow> int \<Rightarrow> asset_candidate_dns_validation list route" where
  "list_revision_asset_candidate_dns_validations profile_id revision_id evaluation_id after_id limit =
     reading (\<lambda>db.
       if \<not> page_query_ok after_id limit then Invalid
       else response_bind (dns_evaluation_or_404 profile_id revision_id evaluation_id db)
         (\<lambda>_. Http ok_status (page acv_id after_id limit
            (filter (\<lambda>v. acv_asset_candidate_evaluation_id v = evaluation_id
                         \<and> acv_authorization_revision_id v = revision_id) (e_validations db)))))"

definition stored_validation :: "enrollment_db \<Rightarrow> asset_candidate_dns_validation \<Rightarrow> persisted_asset_candidate_dns_validation" where
  "stored_validation db validation =
     \<lparr>pdv_validation = validation,
      pdv_cname_hops = sort_key hop_ordinal (filter (\<lambda>r. hop_dns_validation_id r = acv_id validation) (e_hops db)),
      pdv_addresses = sort_key adr_ordinal (filter (\<lambda>r. adr_dns_validation_id r = acv_id validation) (e_addresses db))\<rparr>"

definition get_revision_asset_candidate_dns_validation ::
  "row_id \<Rightarrow> row_id \<Rightarrow> row_id \<Rightarrow> row_id \<Rightarrow> asset_candidate_dns_validation_read route" where
  "get_revision_asset_candidate_dns_validation profile_id revision_id evaluation_id validation_id =
     reading (\<lambda>db. response_bind (dns_evaluation_or_404 profile_id revision_id evaluation_id db)
       (\<lambda>_. response_bind (or_404 ''DNS validation not found.''
               (select_validation db revision_id evaluation_id validation_id))
       (\<lambda>validation. Http ok_status (dns_validation_response (stored_validation db validation)))))"

subsection \<open>Enrollment decisions and targets\<close>

definition enrollment_validation_or_404 ::
  "row_id \<Rightarrow> row_id \<Rightarrow> row_id \<Rightarrow> row_id \<Rightarrow> enrollment_db \<Rightarrow> asset_candidate_dns_validation response" where
  "enrollment_validation_or_404 profile_id revision_id evaluation_id validation_id db =
     or_404 ''DNS validation not found.''
       (case load_exact_dns_validation db profile_id revision_id evaluation_id validation_id of
          Inl _ \<Rightarrow> None | Inr (_, validation) \<Rightarrow> Some validation)"

definition asset_enrollment_decision_create_ok ::
  "(string \<Rightarrow> bool) \<Rightarrow> string \<Rightarrow> string option \<Rightarrow> string option \<Rightarrow> bool" where
  "asset_enrollment_decision_create_ok uni_word decision reason_code note \<longleftrightarrow>
     decision \<in> {''approved'', ''rejected''}
     \<and> (case reason_code of None \<Rightarrow> True | Some c \<Rightarrow> c \<in> set ENROLLMENT_REASON_CODES)
     \<and> (case note of None \<Rightarrow> True
        | Some n \<Rightarrow> 1 \<le> py_len n \<and> py_len n \<le> 500 \<and> is_ok (validate_non_secret_enrollment_note uni_word n))"

text \<open>Authentication material in a note and violated constraints are not caught: the schema comes first.\<close>

fun decision_route_error :: "decision_error \<Rightarrow> 'a response" where
  "decision_route_error AssetEnrollmentDecisionNotFoundError = HttpError 404 ''DNS validation not found.''"
| "decision_route_error AssetEnrollmentDecisionProvenanceError =
     HttpError 409 ''DNS validation provenance is inconsistent.''"
| "decision_route_error _ = Uncaught"

definition create_revision_asset_enrollment_decision ::
  "(string \<Rightarrow> bool) \<Rightarrow> insert_env \<Rightarrow> row_id \<Rightarrow> row_id \<Rightarrow> row_id \<Rightarrow> row_id \<Rightarrow> string \<Rightarrow> string option
   \<Rightarrow> string option \<Rightarrow> asset_enrollment_decision route" where
  "create_revision_asset_enrollment_decision uni_word env profile_id revision_id evaluation_id validation_id
     decision reason_code note db =
     (if \<not> asset_enrollment_decision_create_ok uni_word decision reason_code note then (db, Invalid)
      else handled created_status decision_route_error id
        (create_asset_enrollment_decision uni_word env profile_id revision_id evaluation_id validation_id
           decision reason_code note) db)"

definition list_revision_asset_enrollment_decisions ::
  "row_id \<Rightarrow> row_id \<Rightarrow> row_id \<Rightarrow> row_id \<Rightarrow> row_id \<Rightarrow> int \<Rightarrow> asset_enrollment_decision list route" where
  "list_revision_asset_enrollment_decisions profile_id revision_id evaluation_id validation_id after_id limit =
     reading (\<lambda>db.
       if \<not> page_query_ok after_id limit then Invalid
       else response_bind (enrollment_validation_or_404 profile_id revision_id evaluation_id validation_id db)
         (\<lambda>_. Http ok_status (page aed_id after_id limit
            (filter (\<lambda>d. aed_asset_candidate_dns_validation_id d = validation_id
                         \<and> aed_authorization_revision_id d = revision_id) (e_decisions db)))))"

definition get_revision_asset_enrollment_decision ::
  "row_id \<Rightarrow> row_id \<Rightarrow> row_id \<Rightarrow> row_id \<Rightarrow> row_id \<Rightarrow> asset_enrollment_decision route" where
  "get_revision_asset_enrollment_decision profile_id revision_id evaluation_id validation_id decision_id =
     reading (\<lambda>db. response_bind (enrollment_validation_or_404 profile_id revision_id evaluation_id validation_id db)
       (\<lambda>_. or_404 ''Enrollment decision not found.'' (select_decision db revision_id validation_id decision_id)))"

fun target_route_error :: "enrollment_target_error \<Rightarrow> 'a response" where
  "target_route_error ApprovedEnrollmentTargetNotFoundError = HttpError 404 ''asset_enrollment_provenance_not_found''"
| "target_route_error ApprovedEnrollmentTargetInactiveRevisionError = HttpError 409 ''asset_enrollment_revision_inactive''"
| "target_route_error ApprovedEnrollmentTargetRejectedError = HttpError 409 ''asset_enrollment_decision_not_approved''"
| "target_route_error ApprovedEnrollmentTargetProvenanceError = HttpError 409 ''asset_enrollment_provenance_inconsistent''"
| "target_route_error ApprovedEnrollmentTargetDNSOutcomeError = HttpError 409 ''asset_enrollment_dns_outcome_ineligible''"
| "target_route_error ApprovedEnrollmentTargetNetworkModeError = HttpError 409 ''asset_enrollment_network_mode_mismatch''"
| "target_route_error ApprovedEnrollmentTargetConfigurationError =
     HttpError 409 ''asset_enrollment_target_configuration_invalid''"
| "target_route_error ApprovedEnrollmentTargetConflictError = HttpError 409 ''asset_enrollment_target_conflict''"

text \<open>The bounds of \<open>ApprovedEnrollmentTargetCreate\<close> are those that the service checks again.\<close>

definition create_target_from_revision_asset_enrollment_decision ::
  "insert_env \<Rightarrow> row_id \<Rightarrow> row_id \<Rightarrow> row_id \<Rightarrow> row_id \<Rightarrow> row_id \<Rightarrow> target_request \<Rightarrow> target route" where
  "create_target_from_revision_asset_enrollment_decision env profile_id revision_id evaluation_id validation_id
     decision_id payload db =
     (if \<not> configuration_ok payload then (db, Invalid)
      else handled created_status target_route_error id
        (create_target_from_approved_enrollment env profile_id revision_id evaluation_id validation_id
           decision_id payload) db)"

subsection \<open>Requests\<close>

text \<open>The writing routes as one function from a request to the tables and the status of the response.\<close>

datatype enrollment_request =
  CreateRevision row_id
| ActivateRevision row_id row_id
| RevokeRevision row_id row_id
| CreateRule row_id row_id string string
| DeleteRule row_id row_id row_id
| EvaluateCandidate row_id row_id string
| ValidateDNS row_id row_id row_id
| Decide row_id row_id row_id row_id string "string option" "string option"
| EnrollTarget row_id row_id row_id row_id row_id target_request

fun status_of :: "'a response \<Rightarrow> nat" where
  "status_of (Http n _) = n"
| "status_of (HttpError n _) = n"
| "status_of Invalid = 422"
| "status_of Uncaught = 500"

definition answered :: "enrollment_db \<times> 'a response \<Rightarrow> (enrollment_db \<times> nat) option" where
  "answered r = Some (fst r, status_of (snd r))"

fun served ::
  "idna_codec \<Rightarrow> (string \<Rightarrow> bool) \<Rightarrow> asset_candidate_dns_resolver \<Rightarrow> insert_env
   \<Rightarrow> (enrollment_db \<Rightarrow> enrollment_db) \<Rightarrow> enrollment_request \<Rightarrow> enrollment_db \<Rightarrow> (enrollment_db \<times> nat) option" where
  "served idna uni_word rsv env others (CreateRevision pid) db = answered (create_authorization_revision env pid db)"
| "served idna uni_word rsv env others (ActivateRevision pid rid) db =
     answered (activate_authorization_revision pid rid db)"
| "served idna uni_word rsv env others (RevokeRevision pid rid) db = answered (revoke_authorization_revision pid rid db)"
| "served idna uni_word rsv env others (CreateRule pid rid kind pat) db =
     answered (create_revision_asset_hostname_rule idna env pid rid kind pat db)"
| "served idna uni_word rsv env others (DeleteRule pid rid rule_id) db =
     answered (delete_revision_asset_hostname_rule pid rid rule_id db)"
| "served idna uni_word rsv env others (EvaluateCandidate pid rid hostname) db =
     answered (create_revision_asset_candidate_evaluation idna env pid rid hostname db)"
| "served idna uni_word rsv env others (ValidateDNS pid rid eid) db =
     Option.bind (create_revision_asset_candidate_dns_validation idna rsv env others pid rid eid db) answered"
| "served idna uni_word rsv env others (Decide pid rid eid vid decision reason note) db =
     answered (create_revision_asset_enrollment_decision uni_word env pid rid eid vid decision reason note db)"
| "served idna uni_word rsv env others (EnrollTarget pid rid eid vid did q) db =
     answered (create_target_from_revision_asset_enrollment_decision env pid rid eid vid did q db)"

text \<open>The identifiers that the sequences of the tables give next are not in use.\<close>

definition fresh_id :: "row_id \<Rightarrow> enrollment_db \<Rightarrow> bool" where
  "fresh_id i db \<longleftrightarrow>
     i \<notin> rev_id ` set (e_revisions db) \<and> i \<notin> ahr_id ` set (e_rules db) \<and> i \<notin> ace_id ` set (e_evaluations db)
     \<and> i \<notin> acv_id ` set (e_validations db) \<and> i \<notin> aed_id ` set (e_decisions db) \<and> i \<notin> tgt_id ` set (e_targets db)"

definition answer_ok :: "idna_codec \<Rightarrow> (string \<Rightarrow> bool) \<Rightarrow> enrollment_db \<Rightarrow> enrollment_db \<times> 'a response \<Rightarrow> bool" where
  "answer_ok idna uni_word db r \<longleftrightarrow>
     (case r of (db', Http n _) \<Rightarrow> n \<in> {200, 201, 204} \<and> esteps idna uni_word db db'
      | (db', HttpError n _) \<Rightarrow> n \<in> {404, 409, 422} \<and> db' = db
      | (db', Invalid) \<Rightarrow> db' = db
      | (db', Uncaught) \<Rightarrow> False)"

lemma esteps_one: "estep idna uni_word db db' \<Longrightarrow> esteps idna uni_word db db'"
  by (simp add: esteps_def)

lemma esteps_refl [simp]: "esteps idna uni_word db db"
  by (simp add: esteps_def)

text \<open>A service call is answered if its errors are mapped and its success is a step.\<close>

lemma handled_answered:
  assumes "code \<in> {200, 201, 204}"
    and "\<And>db' x. t db = Inr (db', x) \<Longrightarrow> estep idna uni_word db db'"
    and "\<And>e. t db = Inl e \<Longrightarrow> (\<exists>s. f e = HttpError 404 s) \<or> (\<exists>s. f e = HttpError 409 s) \<or> (\<exists>s. f e = HttpError 422 s)"
  shows "answer_ok idna uni_word db (handled code f g t db)"
  using assms by (fastforce simp: answer_ok_def handled_def esteps_one split: sum.splits)

lemma transition_error_cases [simp]:
  "(\<exists>s. transition_error e = HttpError 404 s) \<or> (\<exists>s. transition_error e = HttpError 409 s)
   \<or> (\<exists>s. transition_error e = HttpError 422 s)"
  by (cases e) auto

lemma evaluation_error_cases [simp]:
  "(\<exists>s. evaluation_route_error e = HttpError 404 s) \<or> (\<exists>s. evaluation_route_error e = HttpError 409 s)
   \<or> (\<exists>s. evaluation_route_error e = HttpError 422 s)"
  by (cases e) auto

lemma target_error_cases [simp]:
  "(\<exists>s. target_route_error e = HttpError 404 s) \<or> (\<exists>s. target_route_error e = HttpError 409 s)
   \<or> (\<exists>s. target_route_error e = HttpError 422 s)"
  by (cases e) auto

lemma answer_ok_same [simp]:
  "answer_ok idna uni_word db (db, Invalid)"
  by (simp add: answer_ok_def)

text \<open>No evaluation refers to the rules of a draft: the foreign key never prevents their deletion.\<close>

lemma draft_rule_unreferenced:
  assumes "einv db" "lock_draft_revision db pid rid = Inr r"
    and "rule \<in> set (e_rules db)" "ahr_authorization_revision_id rule = rid"
  shows "\<not> rule_referenced db (ahr_id rule)"
proof
  assume "rule_referenced db (ahr_id rule)"
  then obtain e where e: "e \<in> set (e_evaluations db)"
    "ace_matched_include_rule_id e = Some (ahr_id rule) \<or> ace_matched_exclude_rule_id e = Some (ahr_id rule)"
    by (auto simp: rule_referenced_def list_ex_iff)
  then have ok: "evaluation_ok db e" using assms(1) by (simp add: einv_def rows_inv_def)
  then obtain kind where "reports_rule (ace_authorization_revision_id e) kind (ace_normalized_hostname e)
      (revision_rules db (ace_authorization_revision_id e)) (Some (ahr_id rule))"
    using e(2) unfolding evaluation_ok_def Let_def by metis
  then obtain rule' where "rule' \<in> set (e_rules db)" "ahr_id rule' = ahr_id rule"
    "ahr_authorization_revision_id rule' = ace_authorization_revision_id e"
    by (auto simp: reports_rule_def revision_rules_def split: option.splits)
  then have "rule' = rule" using assms(1,3) by (auto simp: einv_def keys_inv_def distinct_map dest: inj_onD)
  then have "nondraft db rid" using ok \<open>ahr_authorization_revision_id rule' = _\<close> assms(4)
    by (simp add: evaluation_ok_def Let_def)
  then show False using lock_draft_not_nondraft[OF assms(2)] assms(1) by (auto simp: einv_def)
qed

lemma delete_rule_answered:
  assumes "einv db"
  shows "answer_ok idna uni_word db (delete_revision_asset_hostname_rule pid rid rule_id db)"
  unfolding delete_revision_asset_hostname_rule_def
proof (rule handled_answered)
  fix e assume "delete_asset_hostname_rule pid rid rule_id db = Inl e"
  moreover have "\<not> rule_referenced db rule_id"
    if "lock_draft_revision db pid rid = Inr r"
      "find (\<lambda>r. ahr_id r = rule_id \<and> ahr_authorization_revision_id r = rid) (e_rules db) = Some rule" for r rule
    using draft_rule_unreferenced[OF assms that(1)] that(2) by (auto simp: find_Some_iff)
  ultimately have "e \<in> {AssetHostnameRuleNotFoundError, AssetHostnameRuleImmutableError}"
    by (auto simp: delete_asset_hostname_rule_def res_bind_eq_Inl lock_draft_revision_def split: option.splits if_splits)
  then show "(\<exists>s. (if e \<in> {AssetHostnameRuleNotFoundError, AssetHostnameRuleImmutableError} then asset_rule_error e
      else Uncaught) = HttpError 404 s)
    \<or> (\<exists>s. (if e \<in> {AssetHostnameRuleNotFoundError, AssetHostnameRuleImmutableError} then asset_rule_error e
      else Uncaught) = HttpError 409 s)
    \<or> (\<exists>s. (if e \<in> {AssetHostnameRuleNotFoundError, AssetHostnameRuleImmutableError} then asset_rule_error e
      else Uncaught) = HttpError 422 s)" by auto
qed (auto intro: estep.rule_delete)

lemma create_rule_answered:
  assumes "in_id env \<notin> ahr_id ` set (e_rules db)"
  shows "answer_ok idna uni_word db (create_revision_asset_hostname_rule idna env pid rid kind pat db)"
proof -
  have "answer_ok idna uni_word db (handled created_status (\<lambda>e. case e of
      AssetHostnameRuleIntegrityError \<Rightarrow> HttpError 409 ''Asset hostname rule already exists.'' | _ \<Rightarrow> asset_rule_error e)
      id (create_asset_hostname_rule idna env pid rid kind pat) db)"
    using estep.rule_create[OF _ assms, of idna pid rid kind pat _ _ uni_word]
    by (intro handled_answered) (auto simp: created_status_def split: hostname_rule_error.splits)
  then show ?thesis by (simp add: create_revision_asset_hostname_rule_def)
qed

lemma create_revision_answered:
  assumes "in_id env \<notin> rev_id ` set (e_revisions db)"
  shows "answer_ok idna uni_word db (create_authorization_revision env pid db)"
  unfolding create_authorization_revision_def
  using estep.revision_create[OF _ assms, of pid _ _ idna uni_word]
  by (intro handled_answered) (auto simp: created_status_def create_revision_def Let_def split: option.splits)

lemma transition_answered: "answer_ok idna uni_word db (apply_revision_transition pid rid destination db)"
  unfolding apply_revision_transition_def
  by (intro handled_answered) (auto simp: ok_status_def intro: estep.revision_transition)

lemma evaluate_answered:
  assumes "in_id env \<notin> ace_id ` set (e_evaluations db)"
  shows "answer_ok idna uni_word db (create_revision_asset_candidate_evaluation idna env pid rid hostname db)"
proof -
  have "answer_ok idna uni_word db (handled created_status evaluation_route_error id
      (create_asset_candidate_evaluation idna env pid rid hostname) db)"
    using estep.candidate_evaluate[OF _ assms, of idna pid rid hostname _ _ uni_word]
    by (intro handled_answered) (auto simp: created_status_def)
  then show ?thesis by (simp add: create_revision_asset_candidate_evaluation_def)
qed

text \<open>The schema of a decision admits only what the service and the table accept.\<close>

lemma decision_schema:
  assumes "asset_enrollment_decision_create_ok uni_word decision reason note"
    and "create_asset_enrollment_decision uni_word env pid rid eid vid decision reason note db = Inl e"
  shows "e \<in> {AssetEnrollmentDecisionNotFoundError, AssetEnrollmentDecisionProvenanceError}"
  using assms
  by (auto simp: asset_enrollment_decision_create_ok_def create_asset_enrollment_decision_def res_bind_eq_Inl
      asset_enrollment_decision_row_ok_def load_exact_dns_validation_def validate_non_secret_enrollment_note_def
      res_map_def Let_def split: option.splits if_splits)

lemma decide_answered:
  assumes "in_id env \<notin> aed_id ` set (e_decisions db)"
  shows "answer_ok idna uni_word db (create_revision_asset_enrollment_decision uni_word env pid rid eid vid decision reason n db)"
proof (cases "asset_enrollment_decision_create_ok uni_word decision reason n")
  case True
  have "answer_ok idna uni_word db (handled created_status decision_route_error id
      (create_asset_enrollment_decision uni_word env pid rid eid vid decision reason n) db)"
    using estep.enrollment_decide[OF _ assms, of uni_word pid rid eid vid decision reason n _ _ idna] decision_schema[OF True]
    by (intro handled_answered) (force simp: created_status_def)+
  then show ?thesis using True by (simp add: create_revision_asset_enrollment_decision_def)
qed (simp add: create_revision_asset_enrollment_decision_def)

lemma enroll_answered:
  assumes "in_id env \<notin> tgt_id ` set (e_targets db)"
  shows "answer_ok idna uni_word db (create_target_from_revision_asset_enrollment_decision env pid rid eid vid did q db)"
proof -
  have "answer_ok idna uni_word db (handled created_status target_route_error id
      (create_target_from_approved_enrollment env pid rid eid vid did q) db)"
    using estep.target_enroll[OF _ assms, of pid rid eid vid did q _ _ idna uni_word]
    by (intro handled_answered) (auto simp: created_status_def)
  then show ?thesis by (simp add: create_target_from_revision_asset_enrollment_decision_def)
qed

definition statuses_ok :: "idna_codec \<Rightarrow> (string \<Rightarrow> bool) \<Rightarrow> (enrollment_db \<Rightarrow> enrollment_db) \<Rightarrow> enrollment_request
    \<Rightarrow> enrollment_db \<Rightarrow> enrollment_db \<Rightarrow> nat \<Rightarrow> bool" where
  "statuses_ok idna uni_word others q db db' s \<longleftrightarrow>
     esteps idna uni_word db db' \<and> s \<in> {200, 201, 204, 404, 409, 422}
     \<and> (s \<ge> 400 \<longrightarrow> db' = db \<or> (\<exists>pid rid eid. q = ValidateDNS pid rid eid) \<and> db' = others db)"

lemma answered_statuses:
  assumes "answer_ok idna uni_word db r"
  shows "\<exists>db' s. answered r = Some (db', s) \<and> statuses_ok idna uni_word others q db db' s"
  using assms by (cases r; cases "snd r") (auto simp: answer_ok_def answered_def statuses_ok_def)

lemma dns_answered:
  assumes "ereach idna uni_word db" "esteps idna uni_word db (others db)"
    and "in_id env \<notin> acv_id ` set (e_validations (others db))" "resolver_unscoped rsv"
  shows "\<exists>db' s. served idna uni_word rsv env others (ValidateDNS pid rid eid) db = Some (db', s)
    \<and> statuses_ok idna uni_word others (ValidateDNS pid rid eid) db db' s"
proof -
  from dns_validation_phases[where others = others, OF assms, of pid rid eid] obtain db' res where
    r: "create_asset_candidate_dns_validation idna rsv env others pid rid eid db = Some (db', res)"
      "esteps idna uni_word db db'"
      "\<And>er. res = Inl er \<Longrightarrow> (db' = db \<or> db' = others db) \<and> er \<noteq> AssetCandidateDNSValidationIntegrityError"
    by (elim exE conjE) (fastforce split: sum.splits)
  show ?thesis
  proof (cases res)
    case (Inl er)
    then show ?thesis using r(1,2) r(3)[OF Inl]
      by (cases er) (auto simp: create_revision_asset_candidate_dns_validation_def answered_def statuses_ok_def)
  next
    case (Inr p)
    then show ?thesis using r(1,2)
      by (simp add: create_revision_asset_candidate_dns_validation_def answered_def statuses_ok_def created_status_def)
  qed
qed

subsection \<open>Reading back\<close>

lemma find_by_key:
  assumes "x \<in> set xs" "distinct (map k xs)" "P x" "\<And>y. P y \<Longrightarrow> k y = k x"
  shows "find P xs = Some x"
proof -
  have "find P xs \<noteq> None" using assms(1,3) by (auto simp: find_None_iff)
  then obtain y where y: "find P xs = Some y" by blast
  then have "y \<in> set xs" "P y" by (auto simp: find_Some_iff)
  then have "y = x" using assms(1,2,4) by (auto simp: distinct_map dest: inj_onD)
  with y show ?thesis by simp
qed

lemma revision_readable:
  assumes "select_revision db pid rid = Some r" "history_kept db db'"
  shows "\<exists>r'. select_revision db' pid rid = Some r'"
proof -
  obtain r' where "r' \<in> set (e_revisions db')" "revision_moves r r'"
    using assms select_revision_Some[OF assms(1)] by (auto simp: history_kept_def)
  then have "\<exists>x \<in> set (e_revisions db'). rev_id x = rid \<and> rev_authorization_profile_id x = pid"
    using revision_moves_facts[of r r'] select_revision_Some[OF assms(1)] by auto
  then show ?thesis by (cases "select_revision db' pid rid") (auto simp: select_revision_def find_None_iff)
qed

lemma evaluation_readable:
  assumes "e \<in> set (e_evaluations db)" "history_kept db db'" "einv db'"
  shows "select_evaluation db' (ace_authorization_revision_id e) (ace_id e) = Some e"
  unfolding select_evaluation_def
  using assms set_mono_prefix by (intro find_by_key[where k = ace_id]) (auto simp: history_kept_def einv_def keys_inv_def)

lemma validation_readable:
  assumes "v \<in> set (e_validations db)" "history_kept db db'" "einv db'"
  shows "select_validation db' (acv_authorization_revision_id v) (acv_asset_candidate_evaluation_id v) (acv_id v) = Some v"
  unfolding select_validation_def
  using assms set_mono_prefix by (intro find_by_key[where k = acv_id]) (auto simp: history_kept_def einv_def keys_inv_def)

lemma decision_readable:
  assumes "d \<in> set (e_decisions db)" "history_kept db db'" "einv db'"
  shows "select_decision db' (aed_authorization_revision_id d) (aed_asset_candidate_dns_validation_id d) (aed_id d) = Some d"
  unfolding select_decision_def
  using assms set_mono_prefix by (intro find_by_key[where k = aed_id]) (auto simp: history_kept_def einv_def keys_inv_def)

lemma handled_Http:
  assumes "handled code f id t db = (db', Http n x)" "\<And>e m y. f e \<noteq> Http m y"
  shows "t db = Inr (db', x)"
proof (cases "t db")
  case (Inl e)
  then show ?thesis using assms by (simp add: handled_def)
qed (use assms(1) in \<open>auto simp: handled_def\<close>)

lemma evaluation_read_back:
  assumes "einv db" "in_id env \<notin> ace_id ` set (e_evaluations db)"
    and "create_revision_asset_candidate_evaluation idna env pid rid hostname db = (db1, Http n e)"
    and "esteps idna uni_word db1 db2"
  shows "get_revision_asset_candidate_evaluation pid rid (ace_id e) db2 = (db2, Http 200 e)"
proof -
  have h: "evaluation_route_error er \<noteq> Http m y" for er m and y :: asset_candidate_evaluation by (cases er) auto
  have c: "create_asset_candidate_evaluation idna env pid rid hostname db = Inr (db1, e)"
    using assms(3) by (auto simp: create_revision_asset_candidate_evaluation_def intro: handled_Http[OF _ h] split: if_splits)
  from c obtain r where r: "select_revision db pid rid = Some r" and e: "ace_authorization_revision_id e = rid"
    by (auto simp: create_asset_candidate_evaluation_def Let_def split: option.splits if_splits)
  have k: "history_kept db db1" "einv db1" "history_kept db1 db2" "einv db2"
    using evaluation_kept[OF c assms(1,2)] esteps_kept[OF assms(4)] by auto
  have "e \<in> set (e_evaluations db1)" by (simp add: evaluation_created(1)[OF c])
  then show ?thesis
    using evaluation_readable[OF _ k(3,4)] revision_readable[OF r history_trans[OF k(1,3)]] e
    by (auto simp: get_revision_asset_candidate_evaluation_def reading_def revision_or_404_def or_404_def ok_status_def)
qed

lemma decision_read_back:
  assumes "einv db" "in_id env \<notin> aed_id ` set (e_decisions db)"
    and "create_revision_asset_enrollment_decision uni_word env pid rid eid vid decision reason n db = (db1, Http k d)"
    and "esteps idna uni_word db1 db2"
  shows "get_revision_asset_enrollment_decision pid rid eid vid (aed_id d) db2 = (db2, Http 200 d)"
proof -
  have h: "decision_route_error er \<noteq> Http m y" for er m and y :: asset_enrollment_decision by (cases er) auto
  have c: "create_asset_enrollment_decision uni_word env pid rid eid vid decision reason n db = Inr (db1, d)"
    using assms(3) by (auto simp: create_revision_asset_enrollment_decision_def intro: handled_Http[OF _ h] split: if_splits)
  from c obtain e v where lv: "load_exact_dns_validation db pid rid eid vid = Inr (e, v)"
    and d: "aed_asset_candidate_dns_validation_id d = vid" "aed_authorization_revision_id d = rid"
    by (auto simp: create_asset_enrollment_decision_def Let_def split: if_splits)
  from lv obtain r where r: "select_revision db pid rid = Some r" "select_evaluation db rid eid = Some e"
    "select_validation db rid eid vid = Some v" "acv_normalized_hostname v = ace_normalized_hostname e"
    by (auto simp: load_exact_dns_validation_def split: option.splits if_splits)
  have k: "history_kept db db1" "einv db1" "history_kept db1 db2" "einv db2"
    using decision_kept[OF c assms(1,2)] esteps_kept[OF assms(4)] by auto
  note h = history_trans[OF k(1,3)]
  have "select_evaluation db2 rid eid = Some e" "select_validation db2 rid eid vid = Some v"
    using evaluation_readable[OF _ h k(4), of e] validation_readable[OF _ h k(4), of v] select_facts(2,3) r(2,3) by metis+
  moreover have "select_decision db2 rid vid (aed_id d) = Some d"
    using decision_readable[OF _ k(3,4), of d] decision_created(1)[OF c] d by simp
  ultimately show ?thesis
    using revision_readable[OF r(1) h] r(4)
    by (auto simp: get_revision_asset_enrollment_decision_def reading_def enrollment_validation_or_404_def or_404_def
        load_exact_dns_validation_def ok_status_def)
qed

lemma ordinals_sorted:
  "sorted (map hop_ordinal (hop_rows env d))" "sorted (map adr_ordinal (address_rows env d))"
proof -
  have "map hop_ordinal (hop_rows env d) = map fst (enumerate 1 (dnsd_cname_chain d))"
    "map adr_ordinal (address_rows env d) = map fst (enumerate 1 (zip (dnsd_resolved_addresses d) (dnsd_address_categories d)))"
    by (simp_all add: hop_rows_def address_rows_def comp_def case_prod_beta del: map_fst_enumerate)
  then show "sorted (map hop_ordinal (hop_rows env d))" "sorted (map adr_ordinal (address_rows env d))"
    using sorted_upt by (simp_all del: upt_Suc)
qed

lemma dns_read_back:
  assumes "einv db" "esteps idna uni_word db (others db)" "in_id env \<notin> acv_id ` set (e_validations (others db))"
    and "create_revision_asset_candidate_dns_validation idna rsv env others pid rid eid db = Some (db1, Http n r)"
    and "esteps idna uni_word db1 db2"
  shows "get_revision_asset_candidate_dns_validation pid rid eid (acv_id (avr_validation r)) db2 = (db2, Http 200 r)"
proof -
  have h: "validation_route_error er \<noteq> Http m y" for er m and y :: asset_candidate_dns_validation_read by (cases er) auto
  from assms(4) obtain p where p: "create_asset_candidate_dns_validation idna rsv env others pid rid eid db = Some (db1, Inr p)"
    and r: "r = dns_validation_response p"
    unfolding create_revision_asset_candidate_dns_validation_def map_option_eq_Some
    by (elim exE conjE) (auto simp: h split: sum.splits)
  from p obtain captured d v where d: "classify_asset_candidate_dns idna rsv captured = Some d"
    and f: "final_revalidation env pid rid eid captured d (others db) = Inr (db1, v)"
    and pv: "p = \<lparr>pdv_validation = v, pdv_cname_hops = hop_rows env d, pdv_addresses = address_rows env d\<rparr>"
    by (auto simp: create_asset_candidate_dns_validation_def split: sum.splits)
  have inv: "einv (others db)" using esteps_kept[OF assms(2,1)] by simp
  from f obtain rev e where e: "load_exact (others db) pid rid eid = Inr (rev, e)" "v = validation_row env rid eid captured d"
    and v1: "v \<in> set (e_validations db1)" by (rule final_revalidation_ok) simp
  have k: "history_kept (others db) db1" "einv db1" "history_kept db1 db2" "einv db2"
    using validation_kept[OF f d inv assms(3)] esteps_kept[OF assms(5)] by auto
  note h = history_trans[OF k(1,3)]
  have sel: "select_revision (others db) pid rid = Some rev" "select_evaluation (others db) rid eid = Some e"
    using e(1) by (auto simp: load_exact_def split: option.splits if_splits)
  have "select_evaluation db2 rid eid = Some e"
    using evaluation_readable[OF _ h k(4), of e] select_facts(2)[OF sel(2)] by metis
  moreover have "select_validation db2 rid eid (acv_id v) = Some v"
    using validation_readable[OF v1 k(3,4)] by (simp add: e(2) validation_row_def)
  moreover have "stored_validation db2 v = p"
  proof -
    have "validation_hops db2 (acv_id v) = hop_rows env d" "validation_addresses db2 (acv_id v) = address_rows env d"
      using k(3) v1 stored_children(1,3)[OF f d inv assms(3)] by (auto simp: history_kept_def)
    then show ?thesis
      by (simp add: stored_validation_def pv validation_hops_def validation_addresses_def sort_key_id_if_sorted ordinals_sorted)
  qed
  ultimately show ?thesis
    using revision_readable[OF sel(1) h] unfolding r
    by (auto simp: get_revision_asset_candidate_dns_validation_def reading_def dns_evaluation_or_404_def or_404_def
        ok_status_def dns_validation_response_def pv)
qed

subsection \<open>Pages are complete\<close>

text \<open>A client that asks for pages until one is empty, each after the last identifier it has seen.\<close>

fun traverse :: "nat \<Rightarrow> (row_id \<Rightarrow> 'a list response) \<Rightarrow> ('a \<Rightarrow> row_id) \<Rightarrow> row_id \<Rightarrow> 'a list option" where
  "traverse 0 ask key after_id = None"
| "traverse (Suc n) ask key after_id =
     (case ask after_id of
        Http _ rows \<Rightarrow>
          if rows = [] then Some []
          else map_option ((@) rows) (traverse n ask key (key (last rows)))
      | _ \<Rightarrow> None)"

lemma after_page:
  fixes k :: "'a \<Rightarrow> int"
  assumes "sorted (map k xs)" "distinct (map k xs)" "take n xs \<noteq> []"
  shows "filter (\<lambda>r. k r > k (last (take n xs))) xs = drop n xs"
proof -
  let ?b = "k (last (take n xs))"
  have s: "sorted (map k (take n xs) @ map k (drop n xs))" "distinct (map k (take n xs) @ map k (drop n xs))"
    using assms(1,2) by (metis append_take_drop_id map_append)+
  have "sorted (map k (butlast (take n xs)) @ [?b])"
    using s(1) assms(3) by (metis append_butlast_last_id list.simps(8,9) map_append sorted_append)
  then have "\<forall>r \<in> set (butlast (take n xs) @ [last (take n xs)]). k r \<le> ?b" by (auto simp: sorted_append)
  then have le: "\<forall>r \<in> set (take n xs). k r \<le> ?b" using append_butlast_last_id[OF assms(3)] by metis
  have "last (take n xs) \<in> set (take n xs)" using assms(3) by (rule last_in_set)
  then have "?b \<le> k r \<and> ?b \<noteq> k r" if "r \<in> set (drop n xs)" for r
    using s that unfolding sorted_append distinct_append set_map by blast
  then have "\<forall>r \<in> set (drop n xs). ?b < k r" by (simp add: order.strict_iff_order)
  then have "filter (\<lambda>r. k r > ?b) (take n xs @ drop n xs) = drop n xs"
    using le by (auto simp: filter_empty_conv filter_id_conv not_less simp del: append_take_drop_id)
  then show ?thesis by simp
qed

lemma pages_complete:
  assumes "distinct (map key rows)" "1 \<le> limit" "length (filter (\<lambda>r. key r > after_id) rows) < fuel"
    and "\<And>a. a \<ge> after_id \<Longrightarrow> \<exists>n. ask a = Http n (page key a limit rows)"
  shows "traverse fuel ask key after_id = Some (sort_key key (filter (\<lambda>r. key r > after_id) rows))"
  using assms(3,4)
proof (induction fuel arbitrary: after_id)
  case (Suc fuel)
  let ?xs = "sort_key key (filter (\<lambda>r. key r > after_id) rows)"
  obtain m where ask: "ask after_id = Http m (take (nat limit) ?xs)" using Suc.prems(2)[of after_id] by (auto simp: page_def)
  show ?case
  proof (cases "take (nat limit) ?xs = []")
    case True
    then have "?xs = []" using assms(2) by (metis nat_0_iff not_one_le_zero take_eq_Nil order.trans zero_le_one)
    then show ?thesis using ask by simp
  next
    case False
    let ?b = "key (last (take (nat limit) ?xs))"
    have "last (take (nat limit) ?xs) \<in> set ?xs" using False last_in_set in_set_takeD by metis
    then have b: "?b > after_id" by simp
    have "distinct (map key (filter (\<lambda>r. key r > after_id) rows))" using assms(1) by (simp add: distinct_map_filter)
    then have d: "distinct (map key ?xs)" by (simp add: distinct_map)
    have "filter (\<lambda>r. key r > ?b) ?xs = sort_key key (filter (\<lambda>r. key r > ?b) rows)"
      using b by (auto simp: filter_sort intro!: arg_cong[where f = "sort_key key"] filter_cong)
    then have rest: "sort_key key (filter (\<lambda>r. key r > ?b) rows) = drop (nat limit) ?xs"
      using after_page[OF sorted_sort_key d False] by simp
    then have "length (filter (\<lambda>r. key r > ?b) rows) < length (filter (\<lambda>r. key r > after_id) rows)"
      using assms(2) False by (metis (no_types, lifting) diff_less length_drop length_sort take_eq_Nil length_greater_0_conv not_gr_zero)
    then have "traverse fuel ask key ?b = Some (drop (nat limit) ?xs)"
      using Suc.IH[of ?b] Suc.prems b rest by (simp add: less_Suc_eq_le)
    then show ?thesis using ask False append_take_drop_id[of "nat limit" ?xs] by simp
  qed
qed simp

text \<open>For the evaluations of a revision; identifiers are positive.\<close>

lemma evaluations_listed_once:
  assumes "einv db" "select_revision db pid rid = Some r" "1 \<le> limit" "limit \<le> MAX_PAGE_SIZE"
    and "\<forall>e \<in> set (e_evaluations db). ace_id e > 0"
  shows "traverse (Suc (length (e_evaluations db)))
      (\<lambda>a. snd (list_revision_asset_candidate_evaluations pid rid a limit db)) ace_id 0
    = Some (sort_key ace_id (filter (\<lambda>e. ace_authorization_revision_id e = rid) (e_evaluations db)))"
proof -
  let ?rows = "filter (\<lambda>e. ace_authorization_revision_id e = rid) (e_evaluations db)"
  have d: "distinct (map ace_id ?rows)" using assms(1) by (simp add: einv_def keys_inv_def distinct_map_filter)
  have f: "filter (\<lambda>e. ace_id e > 0) ?rows = ?rows" using assms(5) by (auto intro: filter_cong)
  have "length (filter (\<lambda>e. ace_id e > 0) ?rows) < Suc (length (e_evaluations db))" by (simp add: f le_imp_less_Suc)
  from pages_complete[OF d assms(3) this, of "\<lambda>a. snd (list_revision_asset_candidate_evaluations pid rid a limit db)"]
  show ?thesis
    using assms(2,3,4) f
    by (auto simp: list_revision_asset_candidate_evaluations_def reading_def page_query_ok_def revision_or_404_def or_404_def)
qed

subsection \<open>Properties\<close>


text \<open>
  C33. The evidence of an enrollment can be read back forever: what the creating route answered for a candidate evaluation,
  a DNS validation with its CNAME chain and addresses, or an enrollment decision is what the reading route
  answers for its identifier after any further operations, including the revocation of the revision.
\<close>

theorem enrollment_evidence_readable:
  assumes "ereach idna uni_word db" "esteps idna uni_word db (others db)"
    and "fresh_id (in_id env) db" "fresh_id (in_id env) (others db)" "esteps idna uni_word made later"
  shows "(create_revision_asset_candidate_evaluation idna env pid rid hostname db = (made, Http n e)
      \<longrightarrow> get_revision_asset_candidate_evaluation pid rid (ace_id e) later = (later, Http 200 e))
    \<and> (create_revision_asset_candidate_dns_validation idna rsv env others pid rid eid db = Some (made, Http n r)
      \<longrightarrow> get_revision_asset_candidate_dns_validation pid rid eid (acv_id (avr_validation r)) later = (later, Http 200 r))
    \<and> (create_revision_asset_enrollment_decision uni_word env pid rid eid vid decision reason nt db = (made, Http n d)
      \<longrightarrow> get_revision_asset_enrollment_decision pid rid eid vid (aed_id d) later = (later, Http 200 d))"
proof -
  note inv = ereach_inv[OF assms(1)]
  have "in_id env \<notin> ace_id ` set (e_evaluations db)" "in_id env \<notin> aed_id ` set (e_decisions db)"
    "in_id env \<notin> acv_id ` set (e_validations (others db))" using assms(3,4) by (simp_all add: fresh_id_def)
  then show ?thesis
    using evaluation_read_back[OF inv _ _ assms(5), of env pid rid hostname n e]
      decision_read_back[OF inv _ _ assms(5), of env pid rid eid vid decision reason nt n d]
      dns_read_back[where others = others, OF inv assms(2) _ _ assms(5), of env rsv pid rid eid n r] by auto
qed

lemma lab_fresh: "fresh_id 7 lab_db4" "fresh_id 7 lab_db5"
  by code_simp+


theorem enrollment_evidence_readable_witness:
  "\<exists>db1 e. create_revision_asset_candidate_evaluation lab_idna (lab_env 7) 1 5 ''WWW.example.com'' lab_db4 = (db1, Http 201 e)
     \<and> get_revision_asset_candidate_evaluation 1 5 (ace_id e) db1 = (db1, Http 200 e)"
proof -
  let ?r = "create_revision_asset_candidate_evaluation lab_idna (lab_env 7) 1 5 ''WWW.example.com'' lab_db4"
  have "case snd ?r of Http n _ \<Rightarrow> n = 201 | _ \<Rightarrow> False" by code_simp
  then obtain db1 e where r: "?r = (db1, Http 201 e)" by (cases ?r; cases "snd ?r") auto
  have f: "fresh_id (in_id (lab_env 7)) lab_db4" using lab_fresh(1) by (simp add: lab_env_def)
  have "get_revision_asset_candidate_evaluation 1 5 (ace_id e) db1 = (db1, Http 200 e)"
    using enrollment_evidence_readable[where others = "\<lambda>db. db" and later = db1, OF lab_reached(1) _ f, of db1] f r by auto
  with r show ?thesis by blast
qed

end
