(* ===== verification/Openapi.thy ===== *)
theory Openapi
  imports Http_Executor Credentials Json_Loads Execution_Plan
begin

text \<open>
  The OpenAPI scanner (\<open>src/backend/app/scanners/openapi.py\<close>): the checks before a document is fetched,
  its decoding, the bounds on its structure, and the endpoints that are read from it. The callbacks of the
  caller are functions on a state of the caller's choice, as in \<open>Http_Executor\<close>. The decompressor of \<open>zlib\<close>,
  SHA-256 and the conversion of floats are parameters.
\<close>

subsection \<open>Constants and errors\<close>

definition SUPPORTED_METHODS :: "string list" where
  "SUPPORTED_METHODS = [''get'', ''post'', ''patch'', ''delete'']"

definition MAX_OPENAPI_RESPONSE_BYTES :: int where
  "MAX_OPENAPI_RESPONSE_BYTES = 1000000"

definition MAX_OPENAPI_DECOMPRESSED_BYTES :: nat where
  "MAX_OPENAPI_DECOMPRESSED_BYTES = 1000000"

definition MAX_OPENAPI_NESTING_DEPTH :: nat where
  "MAX_OPENAPI_NESTING_DEPTH = 32"

definition MAX_OPENAPI_STRUCTURE_NODES :: nat where
  "MAX_OPENAPI_STRUCTURE_NODES = 20000"

definition MAX_OPENAPI_PATHS :: nat where
  "MAX_OPENAPI_PATHS = 2000"

definition MAX_OPENAPI_ENDPOINTS :: nat where
  "MAX_OPENAPI_ENDPOINTS = 4000"

definition MAX_OPENAPI_PARAMETERS_PER_ENDPOINT :: nat where
  "MAX_OPENAPI_PARAMETERS_PER_ENDPOINT = 128"

definition MAX_OPENAPI_PATH_LENGTH :: nat where
  "MAX_OPENAPI_PATH_LENGTH = 500"

definition MAX_OPENAPI_OPERATION_ID_LENGTH :: nat where
  "MAX_OPENAPI_OPERATION_ID_LENGTH = 255"

text \<open>
  \<open>SchemaValueError\<close> is the \<open>ValueError\<close> of the parser, which \<open>scan\<close> turns into a scan error;
  \<open>ScanUnexpected\<close> an exception that passes through.
\<close>

datatype openapi_error =
  OpenAPIScanError string
| OpenAPIParseError string
| OpenAPIAuditError string
| OpenAPIExecutionBlocked string string
| OpenAPIPolicyDenied policy_decision
| SchemaValueError string
| ScanUnexpected string

record parsed_endpoint =
  pe_path :: string
  pe_method :: string
  pe_operation_id :: "string option"
  pe_requires_auth :: bool
  pe_parameters :: "json list"
  pe_request_body :: "json option"
  pe_security :: "json list option"

record openapi_scan_result =
  os_source_url :: string
  os_document_sha256 :: string
  os_document_size_bytes :: nat
  os_content_encoding :: string
  os_decoded_document_sha256 :: string
  os_decoded_document_size_bytes :: nat
  os_endpoints :: "parsed_endpoint list"
  os_credential_binding_id :: "row_id option"

subsection \<open>Parameters and security\<close>

text \<open>The key under which a parameter replaces an earlier one: its name and location.\<close>

fun parameter_key :: "json \<Rightarrow> (string \<times> string) option" where
  "parameter_key (JObj p) =
     (case (map_of p ''name'', map_of p ''in'') of (Some (JStr n), Some (JStr l)) \<Rightarrow> Some (n, l) | _ \<Rightarrow> None)"
| "parameter_key _ = None"

fun is_obj :: "json \<Rightarrow> bool" where
  "is_obj (JObj _) = True"
| "is_obj _ = False"

fun merge_step ::
  "json list \<times> ((string \<times> string) \<rightharpoonup> nat) \<Rightarrow> json \<Rightarrow> json list \<times> ((string \<times> string) \<rightharpoonup> nat)" where
  "merge_step (merged, positions) parameter =
     (if \<not> is_obj parameter then (merged, positions)
      else (case parameter_key parameter of
        None \<Rightarrow> (merged @ [parameter], positions)
      | Some key \<Rightarrow>
         (case positions key of
            Some i \<Rightarrow> (merged[i := parameter], positions)
          | None \<Rightarrow> (merged @ [parameter], positions(key \<mapsto> length merged)))))"

definition merge_parameters :: "json list \<Rightarrow> json list \<Rightarrow> json list" where
  "merge_parameters path_parameters operation_parameters =
     fst (foldl merge_step ([], Map.empty) (path_parameters @ operation_parameters))"

definition security_requires_auth :: "json list option \<Rightarrow> bool" where
  "security_requires_auth security =
     (case security of None \<Rightarrow> False | Some s \<Rightarrow> s \<noteq> [] \<and> \<not> list_ex (\<lambda>r. r = JObj []) s)"

subsection \<open>The structure of a document\<close>

text \<open>
  The loop over \<open>pending\<close>, whose head is the end of the Python list. Its measure is the number of
  values that are still inside pending ones.
\<close>

fun json_nodes :: "json \<Rightarrow> nat" where
  "json_nodes (JArr xs) = Suc (sum_list (map json_nodes xs))"
| "json_nodes (JObj kvs) = Suc (sum_list (map (\<lambda>p. json_nodes (snd p)) kvs))"
| "json_nodes v = 1"

lemma json_nodes_pos: "0 < json_nodes v"
  by (cases v) auto

fun json_children :: "json \<Rightarrow> json list" where
  "json_children (JArr xs) = xs"
| "json_children (JObj kvs) = map snd kvs"
| "json_children v = []"

fun has_ref :: "json \<Rightarrow> bool" where
  "has_ref (JObj kvs) = (''$ref'' \<in> fst ` set kvs)"
| "has_ref v = False"

lemma json_nodes_children: "json_nodes v = Suc (sum_list (map json_nodes (json_children v)))"
  by (cases v) (auto simp: comp_def)

function validate_pending :: "nat \<Rightarrow> (json \<times> nat) list \<Rightarrow> openapi_error + unit" where
  "validate_pending nodes_seen [] = Inr ()"
| "validate_pending nodes_seen ((value, depth) # pending) =
     (if depth > MAX_OPENAPI_NESTING_DEPTH then Inl (OpenAPIParseError ''openapi_document_too_deep'')
      else if Suc nodes_seen > MAX_OPENAPI_STRUCTURE_NODES then
        Inl (OpenAPIParseError ''openapi_document_too_complex'')
      else if has_ref value then Inl (OpenAPIParseError ''openapi_references_not_supported'')
      else validate_pending (Suc nodes_seen)
             (rev (map (\<lambda>item. (item, Suc depth)) (json_children value)) @ pending))"
  by pat_completeness auto
termination
proof (relation "measure (\<lambda>(_, pending). sum_list (map (json_nodes \<circ> fst) pending))", goal_cases)
  case (2 nodes_seen "value" depth pending)
  then show ?case by (simp add: json_nodes_children[of "value"] rev_map[symmetric] comp_def sum_list_rev)
qed simp

declare validate_pending.simps(2) [simp del]

definition validate_openapi_structure :: "json \<Rightarrow> openapi_error + unit" where
  "validate_openapi_structure document = validate_pending 0 [(document, 1)]"

subsection \<open>Decoding\<close>

text \<open>
  \<open>zlib.decompressobj\<close>: \<open>z_decompress\<close> gives the output, the unconsumed tail and the next state, or raises
  \<open>zlib.error\<close> (\<open>None\<close>); the number is \<open>max_length\<close>.
\<close>

record 'z zlib_decoder =
  z_init :: 'z
  z_decompress :: "'z \<Rightarrow> string \<Rightarrow> nat \<Rightarrow> (string \<times> string \<times> 'z) option"
  z_eof :: "'z \<Rightarrow> bool"
  z_unused_data :: "'z \<Rightarrow> string"
  z_flush :: "'z \<Rightarrow> nat \<Rightarrow> string option"

definition body_too_large :: "openapi_error" where
  "body_too_large = OpenAPIParseError ''openapi_decompressed_body_too_large''"

definition body_invalid :: "openapi_error" where
  "body_invalid = OpenAPIParseError ''openapi_compressed_body_invalid''"

text \<open>The inner loop over a chunk; \<open>None\<close> is a loop that does not end.\<close>

partial_function (option) inflate_chunk ::
  "'z zlib_decoder \<Rightarrow> string \<Rightarrow> string \<Rightarrow> string \<Rightarrow> 'z \<Rightarrow> (openapi_error + string \<times> 'z) option" where
  "inflate_chunk zl chunk pending decoded z =
     (if chunk = [] then Some (Inr (decoded, z))
      else (case z_decompress zl z chunk (MAX_OPENAPI_DECOMPRESSED_BYTES - length decoded + 1) of
        None \<Rightarrow> Some (Inl body_invalid)
      | Some (out, tail, z') \<Rightarrow>
          if length (decoded @ out) > MAX_OPENAPI_DECOMPRESSED_BYTES then Some (Inl body_too_large)
          else if z_eof zl z' then
            (if z_unused_data zl z' \<noteq> [] \<or> tail \<noteq> [] \<or> pending \<noteq> [] then Some (Inl body_invalid)
             else Some (Inr (decoded @ out, z')))
          else inflate_chunk zl tail pending (decoded @ out) z'))"

declare inflate_chunk.simps [code]

definition chunk_size :: nat where
  "chunk_size = 64 * 1024"

function inflate_all ::
  "'z zlib_decoder \<Rightarrow> string \<Rightarrow> string \<Rightarrow> 'z \<Rightarrow> (openapi_error + string \<times> 'z) option" where
  "inflate_all zl pending decoded z =
     (if pending = [] then Some (Inr (decoded, z))
      else (case inflate_chunk zl (take chunk_size pending) (drop chunk_size pending) decoded z of
        None \<Rightarrow> None
      | Some (Inl e) \<Rightarrow> Some (Inl e)
      | Some (Inr (decoded', z')) \<Rightarrow> inflate_all zl (drop chunk_size pending) decoded' z'))"
  by auto
termination by (relation "measure (\<lambda>(zl, pending, decoded, z). length pending)") (auto simp: chunk_size_def)

declare inflate_all.simps [simp del]

definition decode_openapi_document ::
  "'z zlib_decoder \<Rightarrow> string \<Rightarrow> string option \<Rightarrow> (openapi_error + string \<times> string) option" where
  "decode_openapi_document zl wire_body content_encoding =
     (let normalized = (case content_encoding of None \<Rightarrow> ''identity'' | Some e \<Rightarrow> py_lower (py_strip e)) in
      if normalized \<notin> {''identity'', ''gzip''} then
        Some (Inl (OpenAPIParseError ''openapi_content_encoding_not_supported''))
      else if normalized = ''identity'' then
        (if length wire_body > MAX_OPENAPI_DECOMPRESSED_BYTES then Some (Inl body_too_large)
         else Some (Inr (normalized, wire_body)))
      else (case inflate_all zl wire_body [] (z_init zl) of
        None \<Rightarrow> None
      | Some (Inl e) \<Rightarrow> Some (Inl e)
      | Some (Inr (decoded, z)) \<Rightarrow>
          if \<not> z_eof zl z then Some (Inl body_invalid)
          else (case z_flush zl z (MAX_OPENAPI_DECOMPRESSED_BYTES - length decoded + 1) of
            None \<Rightarrow> Some (Inl body_invalid)
          | Some rest \<Rightarrow>
              if length (decoded @ rest) > MAX_OPENAPI_DECOMPRESSED_BYTES then Some (Inl body_too_large)
              else Some (Inr (normalized, decoded @ rest)))))"

subsection \<open>From bytes to JSON\<close>

text \<open>
  \<open>json.loads\<close> of bytes: \<open>detect_encoding\<close> of the standard library, then \<open>decode\<close> with \<open>surrogatepass\<close>.
  A decoded text is written in UTF-8, with surrogates as three bytes.
\<close>

datatype text_encoding = UTF8 | UTF8_SIG | UTF16 | UTF16_LE | UTF16_BE | UTF32 | UTF32_LE | UTF32_BE

abbreviation is_nul :: "char \<Rightarrow> bool" where
  "is_nul c \<equiv> ord c = 0"

definition detect_encoding :: "string \<Rightarrow> text_encoding" where
  "detect_encoding b =
     (let starts = (\<lambda>p. take (length p) (map ord b) = p) in
      if starts [0x00, 0x00, 0xFE, 0xFF] \<or> starts [0xFF, 0xFE, 0x00, 0x00] then UTF32
      else if starts [0xFE, 0xFF] \<or> starts [0xFF, 0xFE] then UTF16
      else if starts [0xEF, 0xBB, 0xBF] then UTF8_SIG
      else if length b \<ge> 4 then
        (if is_nul (b ! 0) then (if \<not> is_nul (b ! 1) then UTF16_BE else UTF32_BE)
         else if is_nul (b ! 1) then (if \<not> is_nul (b ! 2) \<or> \<not> is_nul (b ! 3) then UTF16_LE else UTF32_LE)
         else UTF8)
      else if length b = 2 then
        (if is_nul (b ! 0) then UTF16_BE else if is_nul (b ! 1) then UTF16_LE else UTF8)
      else UTF8)"

text \<open>Well-formed UTF-8, where \<open>surrogatepass\<close> also admits the bytes of a surrogate.\<close>

function utf8_text :: "string \<Rightarrow> bool" where
  "utf8_text [] = True"
| "utf8_text (b # r) =
     (let n = utf8_len (ord b) in
      n \<noteq> 0 \<and> n - 1 \<le> length r \<and> list_all (\<lambda>c. utf8_cont (ord c)) (take (n - 1) r)
      \<and> (n = 1 \<or> utf8_second (ord b) (ord (hd r)) \<or> ord b = 0xED)
      \<and> utf8_text (drop (n - 1) r))"
  by pat_completeness auto
termination by (relation "measure length") auto

fun code_units16 :: "(nat \<Rightarrow> nat \<Rightarrow> nat) \<Rightarrow> string \<Rightarrow> nat list option" where
  "code_units16 f [] = Some []"
| "code_units16 f [a] = None"
| "code_units16 f (a # b # r) = map_option ((#) (f (ord a) (ord b))) (code_units16 f r)"

fun utf16_text :: "nat list \<Rightarrow> string" where
  "utf16_text (u # v # r) =
     (if 0xD800 \<le> u \<and> u \<le> 0xDBFF \<and> 0xDC00 \<le> v \<and> v \<le> 0xDFFF
      then utf8_encode (0x10000 + (u - 0xD800) * 1024 + (v - 0xDC00)) @ utf16_text r
      else utf8_encode u @ utf16_text (v # r))"
| "utf16_text [u] = utf8_encode u"
| "utf16_text [] = []"

fun utf32_text :: "(nat \<Rightarrow> nat \<Rightarrow> nat \<Rightarrow> nat \<Rightarrow> nat) \<Rightarrow> string \<Rightarrow> string option" where
  "utf32_text f [] = Some []"
| "utf32_text f (a # b # c # d # r) =
     (let n = f (ord a) (ord b) (ord c) (ord d) in
      if n > 0x10FFFF then None else map_option ((@) (utf8_encode n)) (utf32_text f r))"
| "utf32_text f _ = None"

definition le16 :: "nat \<Rightarrow> nat \<Rightarrow> nat" where
  "le16 a b = a + 256 * b"

definition be16 :: "nat \<Rightarrow> nat \<Rightarrow> nat" where
  "be16 a b = 256 * a + b"

definition le32 :: "nat \<Rightarrow> nat \<Rightarrow> nat \<Rightarrow> nat \<Rightarrow> nat" where
  "le32 a b c d = le16 a b + 65536 * le16 c d"

definition be32 :: "nat \<Rightarrow> nat \<Rightarrow> nat \<Rightarrow> nat \<Rightarrow> nat" where
  "be32 a b c d = 65536 * be16 a b + be16 c d"

fun decode_text :: "text_encoding \<Rightarrow> string \<Rightarrow> string option" where
  "decode_text UTF8 b = (if utf8_text b then Some b else None)"
| "decode_text UTF8_SIG b = (if utf8_text (drop 3 b) then Some (drop 3 b) else None)"
| "decode_text UTF16 b =
     map_option utf16_text (code_units16 (if ord (hd b) = 0xFF then le16 else be16) (drop 2 b))"
| "decode_text UTF16_LE b = map_option utf16_text (code_units16 le16 b)"
| "decode_text UTF16_BE b = map_option utf16_text (code_units16 be16 b)"
| "decode_text UTF32 b = utf32_text (if ord (hd b) = 0xFF then le32 else be32) (drop 4 b)"
| "decode_text UTF32_LE b = utf32_text le32 b"
| "decode_text UTF32_BE b = utf32_text be32 b"

text \<open>\<open>None\<close> is a \<open>ValueError\<close>: not decodable, not JSON, or an integer that is too long.\<close>

definition json_loads_bytes :: "(string \<Rightarrow> string) \<Rightarrow> string \<Rightarrow> json option" where
  "json_loads_bytes flt b =
     (case decode_text (detect_encoding b) b of
        None \<Rightarrow> None
      | Some s \<Rightarrow> (case json_loads flt s of Inl _ \<Rightarrow> None | Inr v \<Rightarrow> Some v))"

subsection \<open>Endpoints\<close>

fun list_or_empty :: "json option \<Rightarrow> json list" where
  "list_or_empty (Some (JArr xs)) = xs"
| "list_or_empty _ = []"

fun as_list :: "json option \<Rightarrow> json list option" where
  "as_list (Some (JArr xs)) = Some xs"
| "as_list _ = None"

text \<open>The endpoint of an operation, \<open>None\<close> for what is not a JSON object.\<close>

definition operation_of :: "(string \<times> json) list \<Rightarrow> string \<Rightarrow> (string \<times> json) list option" where
  "operation_of path_item mth = (case map_of path_item mth of Some (JObj operation) \<Rightarrow> Some operation | _ \<Rightarrow> None)"

definition operation_security :: "json option \<Rightarrow> (string \<times> json) list \<Rightarrow> json list option" where
  "operation_security root_security operation =
     as_list (case map_of operation ''security'' of Some v \<Rightarrow> Some v | None \<Rightarrow> root_security)"

definition operation_parameters :: "(string \<times> json) list \<Rightarrow> (string \<times> json) list \<Rightarrow> json list" where
  "operation_parameters path_item operation =
     merge_parameters (list_or_empty (map_of path_item ''parameters'')) (list_or_empty (map_of operation ''parameters''))"

definition operation_id_of :: "(string \<times> json) list \<Rightarrow> string option" where
  "operation_id_of operation = (case map_of operation ''operationId'' of Some (JStr s) \<Rightarrow> Some s | _ \<Rightarrow> None)"

definition endpoint_of ::
  "json option \<Rightarrow> string \<Rightarrow> (string \<times> json) list \<Rightarrow> string \<Rightarrow> (string \<times> json) list \<Rightarrow> parsed_endpoint" where
  "endpoint_of root_security pth path_item mth operation =
     \<lparr>pe_path = pth, pe_method = py_upper mth, pe_operation_id = operation_id_of operation,
      pe_requires_auth = security_requires_auth (operation_security root_security operation),
      pe_parameters = operation_parameters path_item operation,
      pe_request_body = (case map_of operation ''requestBody'' of Some (JObj b) \<Rightarrow> Some (JObj b) | _ \<Rightarrow> None),
      pe_security = operation_security root_security operation\<rparr>"

definition opt_longer :: "nat \<Rightarrow> string option \<Rightarrow> bool" where
  "opt_longer n v \<longleftrightarrow> (case v of None \<Rightarrow> False | Some s \<Rightarrow> py_len s > n)"

text \<open>The loop over the methods of a pth item.\<close>

fun parse_methods ::
  "json option \<Rightarrow> string \<Rightarrow> (string \<times> json) list \<Rightarrow> string list \<Rightarrow> parsed_endpoint list
   \<Rightarrow> openapi_error + parsed_endpoint list" where
  "parse_methods root_security pth path_item [] eps = Inr eps"
| "parse_methods root_security pth path_item (mth # methods) eps =
     (case operation_of path_item mth of
        None \<Rightarrow> parse_methods root_security pth path_item methods eps
      | Some operation \<Rightarrow>
          if length eps \<ge> MAX_OPENAPI_ENDPOINTS then Inl (OpenAPIParseError ''openapi_too_many_endpoints'')
          else if length (operation_parameters path_item operation) > MAX_OPENAPI_PARAMETERS_PER_ENDPOINT then
            Inl (OpenAPIParseError ''openapi_too_many_parameters'')
          else if opt_longer MAX_OPENAPI_OPERATION_ID_LENGTH (operation_id_of operation) then
            Inl (OpenAPIParseError ''openapi_operation_id_too_long'')
          else parse_methods root_security pth path_item methods
                 (eps @ [endpoint_of root_security pth path_item mth operation]))"

fun parse_paths ::
  "json option \<Rightarrow> (string \<times> json) list \<Rightarrow> parsed_endpoint list \<Rightarrow> openapi_error + parsed_endpoint list" where
  "parse_paths root_security [] eps = Inr eps"
| "parse_paths root_security ((pth, path_item) # paths) eps =
     (if py_len pth > MAX_OPENAPI_PATH_LENGTH then Inl (OpenAPIParseError ''openapi_path_too_long'')
      else (case path_item of
        JObj item \<Rightarrow>
          res_bind (parse_methods root_security pth item SUPPORTED_METHODS eps)
            (parse_paths root_security paths)
      | _ \<Rightarrow> parse_paths root_security paths eps))"

text \<open>\<open>schema.get("security")\<close> is null or absent, or a list.\<close>

definition root_security_ok :: "(string \<times> json) list \<Rightarrow> bool" where
  "root_security_ok schema \<longleftrightarrow>
     (case map_of schema ''security'' of None \<Rightarrow> True | Some JNull \<Rightarrow> True | Some (JArr _) \<Rightarrow> True | _ \<Rightarrow> False)"

definition parse_openapi_schema :: "(string \<times> json) list \<Rightarrow> openapi_error + parsed_endpoint list" where
  "parse_openapi_schema schema =
     (case map_of schema ''paths'' of
        Some (JObj paths) \<Rightarrow>
          if length paths > MAX_OPENAPI_PATHS then Inl (OpenAPIParseError ''openapi_too_many_paths'')
          else if \<not> root_security_ok schema then Inl (SchemaValueError ''OpenAPI root security must be a list'')
          else parse_paths (map_of schema ''security'') paths []
      | _ \<Rightarrow> Inl (SchemaValueError (''OpenAPI schema does not contain a valid '' @ [CHR 0x27] @ ''paths'' @ [CHR 0x27] @ '' object'')))"

subsection \<open>Fetching\<close>

record ('s, 'z) scan_env =
  oe_hosts :: "string list"
  oe_clock :: "'s \<Rightarrow> datetime"
  oe_wait :: "string \<Rightarrow> pynum \<Rightarrow> 's \<Rightarrow> 's \<times> rate_outcome"
  oe_refresh :: "('s \<Rightarrow> 's \<times> (string + execution_authorization)) option"
  oe_observer :: "(policy_decision \<Rightarrow> 's \<Rightarrow> 's \<times> bool) option"
  oe_refresh_credential :: "('s \<Rightarrow> 's \<times> authentication_context option) option"
  oe_gateway :: "row_id \<Rightarrow> string \<Rightarrow> string \<Rightarrow> string \<Rightarrow> (string \<times> string) list \<Rightarrow> int
                 \<Rightarrow> 's \<Rightarrow> 's \<times> (coded_error + gateway_result)"
  oe_sha256 :: "string \<Rightarrow> string"
  oe_zlib :: "'z zlib_decoder"
  oe_float :: "string \<Rightarrow> string"

definition credential_unavailable :: openapi_error where
  "credential_unavailable =
     OpenAPIExecutionBlocked ''openapi_credential_unavailable'' ''The selected OpenAPI credential is unavailable.''"

text \<open>The observer returned (\<open>True\<close>) or raised.\<close>

definition openapi_observe ::
  "('s, 'z) scan_env \<Rightarrow> policy_decision \<Rightarrow> 's \<Rightarrow> 's \<times> (openapi_error + unit)" where
  "openapi_observe env decision s =
     (case oe_observer env of
        None \<Rightarrow> (s, Inl (OpenAPIAuditError ''Required safety audit observer is unavailable.''))
      | Some observer \<Rightarrow>
         (case observer decision s of
            (s', True) \<Rightarrow> (s', Inr ())
          | (s', False) \<Rightarrow> (s', Inl (OpenAPIAuditError ''Required safety audit record could not be persisted.''))))"

definition document_headers :: "authentication_context option \<Rightarrow> openapi_error + (string \<times> string) list" where
  "document_headers context =
     (let headers = [(''Accept'', ''application/json''), (''Accept-Encoding'', ''gzip'')] in
      case context of
        None \<Rightarrow> Inr headers
      | Some c \<Rightarrow> (case apply_authentication_context (Some headers) c of
                    Inl _ \<Rightarrow> Inl credential_unavailable | Inr h \<Rightarrow> Inr h))"

text \<open>What \<open>_fetch_schema\<close> does with a response. \<open>None\<close>: the decompression does not end.\<close>

definition read_document ::
  "('s, 'z) scan_env \<Rightarrow> gateway_result
   \<Rightarrow> (openapi_error + string \<times> nat \<times> string \<times> string \<times> nat \<times> (string \<times> json) list) option" where
  "read_document env response =
     (if gw_status_code response \<ge> 400 then
        Some (Inl (OpenAPIScanError ''OpenAPI retrieval returned an error status''))
      else (case decode_openapi_document (oe_zlib env) (gw_body response) (gw_content_encoding response) of
        None \<Rightarrow> None
      | Some (Inl e) \<Rightarrow> Some (Inl e)
      | Some (Inr (encoding, decoded)) \<Rightarrow>
         (case json_loads_bytes (oe_float env) decoded of
            None \<Rightarrow> Some (Inl (OpenAPIScanError ''OpenAPI response is not valid JSON''))
          | Some data \<Rightarrow>
             (case validate_openapi_structure data of
                Inl e \<Rightarrow> Some (Inl e)
              | Inr _ \<Rightarrow>
                 (case data of
                    JObj schema \<Rightarrow>
                      Some (Inr (oe_sha256 env (gw_body response), length (gw_body response), encoding,
                                 oe_sha256 env decoded, length decoded, schema))
                  | _ \<Rightarrow> Some (Inl (OpenAPIScanError ''OpenAPI root must be a JSON object'')))))))"

definition fetch_schema ::
  "('s, 'z) scan_env \<Rightarrow> target \<Rightarrow> string \<Rightarrow> authentication_context option \<Rightarrow> 's
   \<Rightarrow> ('s \<times> (openapi_error + string \<times> nat \<times> string \<times> string \<times> nat \<times> (string \<times> json) list)) option" where
  "fetch_schema env t url context s =
     (case document_headers context of
        Inl e \<Rightarrow> Some (s, Inl e)
      | Inr headers \<Rightarrow>
         (case oe_gateway env (tgt_id t) (tgt_network_mode t) ''GET'' url headers MAX_OPENAPI_RESPONSE_BYTES s of
            (s', Inl e) \<Rightarrow> Some (s', Inl (OpenAPIScanError (err_code e @ '': '' @ err_reason e)))
          | (s', Inr response) \<Rightarrow> map_option (Pair s') (read_document env response)))"

subsection \<open>Scanning\<close>

text \<open>The first evaluation and the rate limiter; the result is the revision that was selected.\<close>

definition openapi_select ::
  "('s, 'z) scan_env \<Rightarrow> target \<Rightarrow> authorization_revision option \<Rightarrow> scope list \<Rightarrow> string \<Rightarrow> 's
   \<Rightarrow> 's \<times> (openapi_error + row_id option)" where
  "openapi_select env t revision scopes url s =
     (case evaluate (oe_hosts env) t revision scopes url ''GET'' None (oe_clock env s) of
        Inl _ \<Rightarrow> (s, Inl (ScanUnexpected ''evaluation_time must be timezone-aware''))
      | Inr decision \<Rightarrow>
         if \<not> allowed decision then
           (case openapi_observe env decision s of
              (s', Inl e) \<Rightarrow> (s', Inl e) | (s', Inr _) \<Rightarrow> (s', Inl (OpenAPIPolicyDenied decision)))
         else if oe_refresh env = None then
           (s, Inl (OpenAPIExecutionBlocked ''authorization_refresh_missing''
              ''Persisted authorization refresh is required before OpenAPI fetch.''))
         else (case revision of
           None \<Rightarrow> (s, Inl (ScanUnexpected ''AttributeError''))
         | Some rv \<Rightarrow>
            (case oe_wait env (''target:'' @ show_int (tgt_id t)) (rev_max_requests_per_second rv) s of
               (s', RateGranted) \<Rightarrow> (s', Inr (authorization_revision_id decision))
             | (s', RateConfigurationError) \<Rightarrow>
                 (s', Inl (OpenAPIExecutionBlocked ''invalid_authorization_rate_limit''
                    ''AuthorizationRevision request rate limit must be finite and greater than zero.''))
             | (s', RateCoordinationError) \<Rightarrow>
                 (s', Inl (OpenAPIExecutionBlocked ''shared_rate_coordination_failed''
                    ''Shared request rate coordination failed.'')))))"

text \<open>The second evaluation, on what was refreshed after the wait, and the network mode.\<close>

definition openapi_reauthorize ::
  "('s, 'z) scan_env \<Rightarrow> row_id option \<Rightarrow> string \<Rightarrow> 's \<Rightarrow> 's \<times> (openapi_error + target)" where
  "openapi_reauthorize env selected_revision_id url s =
     (case oe_refresh env of
        None \<Rightarrow> (s, Inl (ScanUnexpected ''TypeError''))
      | Some refresh_authorization \<Rightarrow>
     (case refresh_authorization s of
        (s1, Inl e) \<Rightarrow> (s1, Inl (ScanUnexpected e))
      | (s1, Inr (t, revision, scopes)) \<Rightarrow>
        if tgt_authorization_revision_id t \<noteq> selected_revision_id
           \<or> revision = None \<or> map_option rev_id revision \<noteq> selected_revision_id then
          (s1, Inl (OpenAPIExecutionBlocked ''authorization_revision_changed''
             ''Target authorization revision changed before fetch.''))
        else (case evaluate (oe_hosts env) t revision scopes url ''GET'' None (oe_clock env s1) of
          Inl _ \<Rightarrow> (s1, Inl (ScanUnexpected ''evaluation_time must be timezone-aware''))
        | Inr decision \<Rightarrow>
           (case openapi_observe env decision s1 of
              (s2, Inl e) \<Rightarrow> (s2, Inl e)
            | (s2, Inr _) \<Rightarrow>
               if \<not> allowed decision then (s2, Inl (OpenAPIPolicyDenied decision))
               else if tgt_network_mode t \<noteq> PRIVATE_LOCAL then
                 (s2, Inl (OpenAPIExecutionBlocked ''external_network_mode_not_ready''
                    (''External/public-authorized OpenAPI retrieval is not ''
                     @ ''available until the remaining release gates exist.'')))
               else (s2, Inr t)))))"

definition openapi_credential ::
  "('s, 'z) scan_env \<Rightarrow> row_id option \<Rightarrow> 's \<Rightarrow> 's \<times> (openapi_error + authentication_context option)" where
  "openapi_credential env credential_binding_id s =
     (if credential_binding_id = None then (s, Inr None)
      else (case oe_refresh_credential env of
        None \<Rightarrow> (s, Inl credential_unavailable)
      | Some refresh \<Rightarrow>
         (case refresh s of
            (s', None) \<Rightarrow> (s', Inl credential_unavailable) | (s', Some c) \<Rightarrow> (s', Inr (Some c)))))"

text \<open>Everything of \<open>scan\<close> before the document is fetched.\<close>

definition scan_gate ::
  "('s, 'z) scan_env \<Rightarrow> target \<Rightarrow> authorization_revision option \<Rightarrow> scope list \<Rightarrow> string \<Rightarrow> row_id option \<Rightarrow> 's
   \<Rightarrow> 's \<times> (openapi_error + target \<times> authentication_context option)" where
  "scan_gate env t revision scopes url credential_binding_id s =
     (case openapi_select env t revision scopes url s of
        (s1, Inl e) \<Rightarrow> (s1, Inl e)
      | (s1, Inr selected_revision_id) \<Rightarrow>
     (case openapi_reauthorize env selected_revision_id url s1 of
        (s2, Inl e) \<Rightarrow> (s2, Inl e)
      | (s2, Inr t') \<Rightarrow>
     (case openapi_credential env credential_binding_id s2 of
        (s3, Inl e) \<Rightarrow> (s3, Inl e) | (s3, Inr context) \<Rightarrow> (s3, Inr (t', context)))))"

definition scan_result ::
  "string \<Rightarrow> row_id option \<Rightarrow> string \<times> nat \<times> string \<times> string \<times> nat \<times> (string \<times> json) list
   \<Rightarrow> openapi_error + openapi_scan_result" where
  "scan_result url credential_binding_id doc =
     (case doc of (sha, doc_size, encoding, decoded_sha, decoded_size, schema) \<Rightarrow>
       (case parse_openapi_schema schema of
          Inl (SchemaValueError _) \<Rightarrow> Inl (OpenAPIScanError ''OpenAPI schema structure is invalid'')
        | Inl e \<Rightarrow> Inl e
        | Inr eps \<Rightarrow>
           Inr \<lparr>os_source_url = url, os_document_sha256 = sha, os_document_size_bytes = doc_size,
                os_content_encoding = encoding, os_decoded_document_sha256 = decoded_sha,
                os_decoded_document_size_bytes = decoded_size, os_endpoints = eps,
                os_credential_binding_id = credential_binding_id\<rparr>))"

definition openapi_scan ::
  "('s, 'z) scan_env \<Rightarrow> target \<Rightarrow> authorization_revision option \<Rightarrow> scope list \<Rightarrow> string \<Rightarrow> row_id option \<Rightarrow> 's
   \<Rightarrow> ('s \<times> (openapi_error + openapi_scan_result)) option" where
  "openapi_scan env t revision scopes url credential_binding_id s =
     (case scan_gate env t revision scopes url credential_binding_id s of
        (s1, Inl e) \<Rightarrow> Some (s1, Inl e)
      | (s1, Inr (t', context)) \<Rightarrow>
         map_option (\<lambda>(s2, r). (s2, res_bind r (scan_result url credential_binding_id)))
           (fetch_schema env t' url context s1))"

subsection \<open>The structure check\<close>

fun json_depth :: "json \<Rightarrow> nat" where
  "json_depth (JArr xs) = Suc (foldr max (map json_depth xs) 0)"
| "json_depth (JObj kvs) = Suc (foldr max (map (\<lambda>p. json_depth (snd p)) kvs) 0)"
| "json_depth v = 1"

fun ref_free :: "json \<Rightarrow> bool" where
  "ref_free (JArr xs) \<longleftrightarrow> list_all ref_free xs"
| "ref_free (JObj kvs) \<longleftrightarrow> ''$ref'' \<notin> fst ` set kvs \<and> list_all (\<lambda>p. ref_free (snd p)) kvs"
| "ref_free v \<longleftrightarrow> True"

lemma foldr_max_le: "foldr max ns 0 \<le> (k :: nat) \<longleftrightarrow> (\<forall>n \<in> set ns. n \<le> k)"
  by (induction ns) auto

lemma json_depth_le: "json_depth v \<le> Suc k \<longleftrightarrow> (\<forall>c \<in> set (json_children v). json_depth c \<le> k)"
  by (cases v) (auto simp: foldr_max_le)

lemma json_depth_pos: "1 \<le> json_depth v"
  by (cases v) auto

lemma ref_free_children: "ref_free v \<longleftrightarrow> \<not> has_ref v \<and> (\<forall>c \<in> set (json_children v). ref_free c)"
  by (cases v) (auto simp: list_all_iff)

lemma json_depth_shift:
  "d + json_depth v \<le> Suc m \<longleftrightarrow> d \<le> m \<and> (\<forall>c \<in> set (json_children v). Suc d + json_depth c \<le> Suc m)"
proof (cases "d \<le> m")
  case True
  then have "d + json_depth v \<le> Suc m \<longleftrightarrow> json_depth v \<le> Suc (m - d)" by linarith
  also have "\<dots> \<longleftrightarrow> (\<forall>c \<in> set (json_children v). json_depth c \<le> m - d)" by (rule json_depth_le)
  also have "\<dots> \<longleftrightarrow> (\<forall>c \<in> set (json_children v). Suc d + json_depth c \<le> Suc m)" using True by auto
  finally show ?thesis using True by simp
next
  case False
  then show ?thesis using json_depth_pos[of v] by linarith
qed

lemma validate_pending_exact:
  "validate_pending n ps = Inr ()
   \<longleftrightarrow> (\<forall>(v, d) \<in> set ps. d + json_depth v \<le> Suc MAX_OPENAPI_NESTING_DEPTH \<and> ref_free v)
     \<and> (ps = [] \<or> n + sum_list (map (json_nodes \<circ> fst) ps) \<le> MAX_OPENAPI_STRUCTURE_NODES)"
proof (induction n ps rule: validate_pending.induct)
  case (2 n v d ps)
  let ?cs = "rev (map (\<lambda>item. (item, Suc d)) (json_children v))"
  have nodes: "Suc n + sum_list (map (json_nodes \<circ> fst) (?cs @ ps)) = n + sum_list (map (json_nodes \<circ> fst) ((v, d) # ps))"
    by (simp add: json_nodes_children[of v] rev_map[symmetric] comp_def sum_list_rev)
  have few: "Suc n \<le> MAX_OPENAPI_STRUCTURE_NODES" if "n + sum_list (map (json_nodes \<circ> fst) ((v, d) # ps)) \<le> MAX_OPENAPI_STRUCTURE_NODES"
    using that json_nodes_pos[of v] by simp
  show ?case
  proof (cases "d \<le> MAX_OPENAPI_NESTING_DEPTH \<and> Suc n \<le> MAX_OPENAPI_STRUCTURE_NODES \<and> \<not> has_ref v")
    case True
    then have "validate_pending n ((v, d) # ps) = validate_pending (Suc n) (?cs @ ps)"
      by (simp add: validate_pending.simps(2) not_less)
    also have "\<dots> = Inr () \<longleftrightarrow> (\<forall>(v, d) \<in> set (?cs @ ps). d + json_depth v \<le> Suc MAX_OPENAPI_NESTING_DEPTH \<and> ref_free v)
        \<and> (?cs @ ps = [] \<or> Suc n + sum_list (map (json_nodes \<circ> fst) (?cs @ ps)) \<le> MAX_OPENAPI_STRUCTURE_NODES)"
      using True by (intro 2) (simp_all add: not_less)
    also have "?cs @ ps = [] \<or> Suc n + sum_list (map (json_nodes \<circ> fst) (?cs @ ps)) \<le> MAX_OPENAPI_STRUCTURE_NODES
        \<longleftrightarrow> n + sum_list (map (json_nodes \<circ> fst) ((v, d) # ps)) \<le> MAX_OPENAPI_STRUCTURE_NODES"
    proof (cases "?cs @ ps = []")
      case empty: True
      then have "json_nodes v = 1" "ps = []" using json_nodes_children[of v] by simp_all
      then show ?thesis using True empty by simp
    qed (simp only: nodes simp_thms)
    also have "(\<forall>(v, d) \<in> set (?cs @ ps). d + json_depth v \<le> Suc MAX_OPENAPI_NESTING_DEPTH \<and> ref_free v)
        \<longleftrightarrow> (\<forall>c \<in> set (json_children v). Suc d + json_depth c \<le> Suc MAX_OPENAPI_NESTING_DEPTH)
          \<and> (\<forall>c \<in> set (json_children v). ref_free c)
          \<and> (\<forall>(v, d) \<in> set ps. d + json_depth v \<le> Suc MAX_OPENAPI_NESTING_DEPTH \<and> ref_free v)"
      by (simp add: ball_Un ball_conj_distrib)
    finally show ?thesis
      unfolding list.set ball_simps prod.case json_depth_shift[of d v MAX_OPENAPI_NESTING_DEPTH] ref_free_children[of v]
      using True by blast
  next
    case False
    then have "validate_pending n ((v, d) # ps) \<noteq> Inr ()" by (auto simp: validate_pending.simps(2))
    moreover have "\<not> (d + json_depth v \<le> Suc MAX_OPENAPI_NESTING_DEPTH \<and> ref_free v
        \<and> n + sum_list (map (json_nodes \<circ> fst) ((v, d) # ps)) \<le> MAX_OPENAPI_STRUCTURE_NODES)"
      using False few json_depth_pos[of v] ref_free_children[of v] by linarith
    ultimately show ?thesis unfolding list.set ball_simps prod.case by blast
  qed
qed simp

lemma validate_structure_exact:
  "validate_openapi_structure v = Inr ()
   \<longleftrightarrow> json_depth v \<le> MAX_OPENAPI_NESTING_DEPTH \<and> json_nodes v \<le> MAX_OPENAPI_STRUCTURE_NODES \<and> ref_free v"
  by (auto simp: validate_openapi_structure_def validate_pending_exact)

subsection \<open>Decompression is bounded and ends\<close>

text \<open>
  What \<open>zlib\<close> documents of \<open>unconsumed_tail\<close>: input is left over only because the output has reached
  \<open>max_length\<close>.
\<close>

definition tail_only_at_limit :: "'z zlib_decoder \<Rightarrow> bool" where
  "tail_only_at_limit zl \<longleftrightarrow>
     (\<forall>z c n out tail z'. z_decompress zl z c n = Some (out, tail, z') \<and> tail \<noteq> [] \<longrightarrow> length out = n)"

lemma inflate_chunk_ends:
  assumes "tail_only_at_limit zl" "length decoded \<le> MAX_OPENAPI_DECOMPRESSED_BYTES"
  shows "\<exists>r. inflate_chunk zl chunk pending decoded z = Some r
    \<and> (case r of Inl _ \<Rightarrow> True | Inr (d, _) \<Rightarrow> length d \<le> MAX_OPENAPI_DECOMPRESSED_BYTES)"
proof (cases "chunk = []")
  case True
  then show ?thesis using assms(2) by (simp add: inflate_chunk.simps)
next
  case False
  show ?thesis
  proof (cases "z_decompress zl z chunk (MAX_OPENAPI_DECOMPRESSED_BYTES - length decoded + 1)")
    case None
    then show ?thesis using False by (simp add: inflate_chunk.simps)
  next
    case (Some p)
    obtain out tail z' where p: "p = (out, tail, z')" by (cases p)
    show ?thesis
    proof (cases "length (decoded @ out) > MAX_OPENAPI_DECOMPRESSED_BYTES")
      case True
      then show ?thesis using False Some p by (subst inflate_chunk.simps) simp
    next
      case small: False
      then have "tail = []"
        using assms Some p unfolding tail_only_at_limit_def by fastforce
      then show ?thesis using False Some p small
        by (subst inflate_chunk.simps) (simp add: inflate_chunk.simps[of zl "[]"])
    qed
  qed
qed

lemma inflate_all_ends:
  assumes "tail_only_at_limit zl" "length decoded \<le> MAX_OPENAPI_DECOMPRESSED_BYTES"
  shows "\<exists>r. inflate_all zl pending decoded z = Some r
    \<and> (case r of Inl _ \<Rightarrow> True | Inr (d, _) \<Rightarrow> length d \<le> MAX_OPENAPI_DECOMPRESSED_BYTES)"
  using assms
proof (induction zl pending decoded z rule: inflate_all.induct)
  case (1 zl pending decoded z)
  show ?case
  proof (cases "pending = []")
    case True
    then show ?thesis using 1(3) by (simp add: inflate_all.simps)
  next
    case False
    obtain r where r: "inflate_chunk zl (take chunk_size pending) (drop chunk_size pending) decoded z = Some r"
      "case r of Inl _ \<Rightarrow> True | Inr (d, _) \<Rightarrow> length d \<le> MAX_OPENAPI_DECOMPRESSED_BYTES"
      using inflate_chunk_ends[OF 1(2,3)] by blast
    show ?thesis
    proof (cases r)
      case (Inr p)
      then show ?thesis using 1(1)[OF False r(1) Inr, of "fst p" "snd p"] 1(2) r False
        by (subst inflate_all.simps) (auto split: prod.splits)
    qed (use r False in \<open>simp add: inflate_all.simps\<close>)
  qed
qed

lemma decode_document_ok:
  assumes "decode_openapi_document zl body enc = Some (Inr (encoding, decoded))"
  shows "encoding \<in> {''identity'', ''gzip''} \<and> length decoded \<le> MAX_OPENAPI_DECOMPRESSED_BYTES
    \<and> (encoding = ''identity'' \<longrightarrow> decoded = body)"
  using assms by (auto simp: decode_openapi_document_def Let_def split: if_splits option.splits sum.splits)

lemma decode_document_ends:
  assumes "tail_only_at_limit zl"
  shows "\<exists>r. decode_openapi_document zl body enc = Some r"
proof -
  obtain r where "inflate_all zl body [] (z_init zl) = Some r"
    using inflate_all_ends[OF assms, of "[]" body "z_init zl"] by auto
  then show ?thesis
    by (cases r) (auto simp: decode_openapi_document_def Let_def split: option.splits)
qed

subsection \<open>Merged parameters\<close>

text \<open>
  The merged list has the first occurrence of every key, in order, each with the value of the last
  occurrence; parameters without a key are all kept.
\<close>

definition latest :: "json list \<Rightarrow> json \<Rightarrow> json" where
  "latest ps p = (if parameter_key p = None then p else last (filter (\<lambda>q. parameter_key q = parameter_key p) ps))"

fun first_keys :: "(string \<times> string) set \<Rightarrow> json list \<Rightarrow> json list" where
  "first_keys seen [] = []"
| "first_keys seen (p # ps) =
     (case parameter_key p of
        None \<Rightarrow> p # first_keys seen ps
      | Some k \<Rightarrow> if k \<in> seen then first_keys seen ps else p # first_keys (insert k seen) ps)"

definition merged_parameters :: "json list \<Rightarrow> json list" where
  "merged_parameters ps = map (latest (filter is_obj ps)) (first_keys {} (filter is_obj ps))"

definition keys_of :: "json list \<Rightarrow> (string \<times> string) set" where
  "keys_of ps = {k. \<exists>p \<in> set ps. parameter_key p = Some k}"

lemma keys_of_simps [simp]:
  "keys_of [] = {}" "keys_of (p # ps) = (case parameter_key p of None \<Rightarrow> keys_of ps | Some k \<Rightarrow> insert k (keys_of ps))"
  "keys_of (ps @ qs) = keys_of ps \<union> keys_of qs"
  by (auto simp: keys_of_def split: option.splits)

lemma first_keys_snoc:
  "first_keys seen (ps @ [p]) = first_keys seen ps
     @ (case parameter_key p of None \<Rightarrow> [p] | Some k \<Rightarrow> if k \<in> seen \<union> keys_of ps then [] else [p])"
proof (induction ps arbitrary: seen)
  case (Cons q ps)
  then show ?case by (auto split: option.splits)
qed (simp split: option.splits)

lemma first_keys_in: "p \<in> set (first_keys seen ps) \<Longrightarrow> p \<in> set ps"
  by (induction seen ps rule: first_keys.induct) (auto split: option.splits if_splits)

lemma keys_first: "keys_of (first_keys seen ps) = keys_of ps - seen"
  by (induction seen ps rule: first_keys.induct) (auto split: option.splits)

lemma latest_snoc:
  "latest (ps @ [p]) q = (if parameter_key q \<noteq> None \<and> parameter_key p = parameter_key q then p else latest ps q)"
  by (auto simp: latest_def)

lemma latest_key:
  assumes "q \<in> set ps"
  shows "parameter_key (latest ps q) = parameter_key q"
proof (cases "parameter_key q")
  case (Some k)
  have "filter (\<lambda>r. parameter_key r = parameter_key q) ps \<noteq> []" using assms by (auto simp: filter_empty_conv)
  then have "last (filter (\<lambda>r. parameter_key r = parameter_key q) ps) \<in> set (filter (\<lambda>r. parameter_key r = parameter_key q) ps)"
    by (rule last_in_set)
  then show ?thesis using Some by (simp add: latest_def)
qed (simp add: latest_def)

text \<open>The loop invariant: positions are those of the keys in the merged list.\<close>

definition positions_ok :: "json list \<Rightarrow> ((string \<times> string) \<rightharpoonup> nat) \<Rightarrow> bool" where
  "positions_ok merged positions \<longleftrightarrow>
     (\<forall>k i. positions k = Some i \<longleftrightarrow> i < length merged \<and> parameter_key (merged ! i) = Some k)"

lemma positions_okD:
  "positions_ok merged positions \<Longrightarrow> positions k = Some i \<longleftrightarrow> i < length merged \<and> parameter_key (merged ! i) = Some k"
  unfolding positions_ok_def by blast

lemma positions_ok_keys:
  assumes "positions_ok merged positions"
  shows "positions k = None \<longleftrightarrow> k \<notin> keys_of merged"
proof -
  have "k \<in> keys_of merged \<longleftrightarrow> (\<exists>i. i < length merged \<and> parameter_key (merged ! i) = Some k)"
    unfolding keys_of_def mem_Collect_eq by (metis in_set_conv_nth)
  also have "\<dots> \<longleftrightarrow> (\<exists>i. positions k = Some i)" by (simp only: positions_okD[OF assms])
  finally show ?thesis by simp
qed

lemma merge_replace:
  assumes "positions_ok (map (latest xs) fk) positions" "set fk \<subseteq> set xs"
    and "parameter_key p = Some k" "positions k = Some i"
  shows "(map (latest xs) fk)[i := p] = map (latest (xs @ [p])) fk" "positions_ok ((map (latest xs) fk)[i := p]) positions"
proof -
  let ?m = "map (latest xs) fk"
  note pos = positions_okD[OF assms(1)]
  have i: "i < length ?m" "parameter_key (?m ! i) = Some k" using assms(4) pos by blast+
  have key: "parameter_key (?m ! j) = parameter_key (fk ! j)" if "j < length fk" for j
    using latest_key[OF subsetD[OF assms(2) nth_mem[OF that]]] that by simp
  have other: "parameter_key (fk ! j) \<noteq> Some k" if "j < length fk" "j \<noteq> i" for j
    using that assms(4) key pos[of k j] by (metis length_map option.inject)
  show "?m[i := p] = map (latest (xs @ [p])) fk"
    using i key other assms(3)
    by (intro nth_equalityI) (auto simp: latest_snoc nth_list_update simp del: split_paired_All split_paired_Ex not_None_eq)
  show "positions_ok (?m[i := p]) positions"
    unfolding positions_ok_def pos using assms(3) i by (metis length_list_update nth_list_update)
qed

lemma merge_append:
  assumes "positions_ok merged positions" "parameter_key p = Some k" "positions k = None"
  shows "positions_ok (merged @ [p]) (positions(k \<mapsto> length merged))"
proof -
  have "k \<notin> keys_of merged" using assms(1,3) positions_ok_keys by blast
  then have k: "parameter_key (merged ! i) \<noteq> Some k" if "i < length merged" for i
    using that by (metis (mono_tags, lifting) keys_of_def mem_Collect_eq nth_mem)
  show ?thesis
    unfolding positions_ok_def
  proof (intro allI)
    fix k' i
    show "(positions(k \<mapsto> length merged)) k' = Some i
        \<longleftrightarrow> i < length (merged @ [p]) \<and> parameter_key ((merged @ [p]) ! i) = Some k'"
      using assms(2) k positions_okD[OF assms(1), of k' i] by (cases "i < length merged") (auto simp: nth_append)
  qed
qed

lemma merge_keyless:
  assumes "positions_ok merged positions" "parameter_key p = None"
  shows "positions_ok (merged @ [p]) positions"
  unfolding positions_ok_def positions_okD[OF assms(1)]
  using assms(2) by (metis append_eq_conv_conj length_append_singleton less_SucE less_SucI nth_append nth_append_length option.distinct(1))

lemma merge_loop:
  "fst (foldl merge_step ([], Map.empty) ps) = merged_parameters ps
   \<and> positions_ok (fst (foldl merge_step ([], Map.empty) ps)) (snd (foldl merge_step ([], Map.empty) ps))"
proof (induction ps rule: rev_induct)
  case Nil
  then show ?case by (simp add: merged_parameters_def positions_ok_def)
next
  case (snoc p ps)
  obtain m positions where st: "foldl merge_step ([], Map.empty) ps = (m, positions)" by (cases "foldl merge_step ([], Map.empty) ps")
  let ?xs = "filter is_obj ps" and ?fk = "first_keys {} (filter is_obj ps)"
  from snoc st have m: "m = map (latest ?xs) ?fk" and ok: "positions_ok m positions" by (auto simp: merged_parameters_def)
  have sub: "set ?fk \<subseteq> set ?xs" using first_keys_in by blast
  have fkeys: "keys_of ?fk = keys_of ?xs" by (simp add: keys_first)
  have mkeys: "keys_of m = keys_of ?xs"
  proof -
    have "parameter_key ` set m = parameter_key ` set ?fk"
      unfolding m set_map image_image using sub latest_key[of _ ?xs] by (intro image_cong) auto
    then have "keys_of m = keys_of ?fk" unfolding keys_of_def by (metis (no_types, lifting) image_iff)
    then show ?thesis using fkeys by simp
  qed
  have same: "map (latest (?xs @ [p])) ?fk = m" if "parameter_key p = None \<or> (\<exists>k. parameter_key p = Some k \<and> k \<notin> keys_of ?xs)"
    using that fkeys unfolding m by (auto simp: latest_snoc keys_of_def)
  show ?case
  proof (cases "is_obj p")
    case obj: True
    show ?thesis
    proof (cases "parameter_key p")
      case None
      then show ?thesis using obj st same merge_keyless[OF ok None]
        by (simp add: merged_parameters_def first_keys_snoc latest_snoc latest_def)
    next
      case (Some k)
      show ?thesis
      proof (cases "positions k")
        case None
        then have new: "k \<notin> keys_of ?xs" using positions_ok_keys[OF ok] mkeys by simp
        then show ?thesis using obj st same Some None merge_append[OF ok Some None]
          by (simp add: merged_parameters_def first_keys_snoc latest_snoc fun_upd_def)
      next
        case old: (Some i)
        then have "k \<in> keys_of ?xs" using positions_ok_keys[OF ok, of k] mkeys by auto
        then show ?thesis using obj st Some old merge_replace[OF ok[unfolded m] sub Some old] unfolding m
          by (simp add: merged_parameters_def first_keys_snoc)
      qed
    qed
  next
    case False
    then show ?thesis using ok st m by (simp add: merged_parameters_def)
  qed
qed

lemma merge_parameters_exact: "merge_parameters ps qs = merged_parameters (ps @ qs)"
  using merge_loop[of "ps @ qs"] by (simp add: merge_parameters_def)

subsection \<open>Parsed endpoints\<close>

definition path_endpoints :: "json option \<Rightarrow> string \<times> json \<Rightarrow> parsed_endpoint list" where
  "path_endpoints root_security entry =
     (case entry of
        (pth, JObj item) \<Rightarrow>
          concat (map (\<lambda>mth. case operation_of item mth of
              None \<Rightarrow> [] | Some operation \<Rightarrow> [endpoint_of root_security pth item mth operation]) SUPPORTED_METHODS)
      | _ \<Rightarrow> [])"

definition endpoint_bounds :: "parsed_endpoint \<Rightarrow> bool" where
  "endpoint_bounds e \<longleftrightarrow>
     length (pe_parameters e) \<le> MAX_OPENAPI_PARAMETERS_PER_ENDPOINT
     \<and> \<not> opt_longer MAX_OPENAPI_OPERATION_ID_LENGTH (pe_operation_id e)"

lemma parse_methods_exact:
  assumes "length eps \<le> MAX_OPENAPI_ENDPOINTS"
  shows "parse_methods rs pth item methods eps = Inr out
    \<longleftrightarrow> out = eps @ concat (map (\<lambda>mth. case operation_of item mth of
          None \<Rightarrow> [] | Some operation \<Rightarrow> [endpoint_of rs pth item mth operation]) methods)
      \<and> length out \<le> MAX_OPENAPI_ENDPOINTS \<and> list_all endpoint_bounds (drop (length eps) out)"
  using assms
proof (induction rs pth item methods eps rule: parse_methods.induct)
  case (2 rs pth item mth methods eps)
  show ?case
  proof (cases "operation_of item mth")
    case (Some operation)
    let ?e = "endpoint_of rs pth item mth operation"
    let ?rest = "concat (map (\<lambda>mth. case operation_of item mth of
          None \<Rightarrow> [] | Some operation \<Rightarrow> [endpoint_of rs pth item mth operation]) methods)"
    show ?thesis
    proof (cases "length eps < MAX_OPENAPI_ENDPOINTS \<and> endpoint_bounds ?e")
      case True
      then have "parse_methods rs pth item (mth # methods) eps = parse_methods rs pth item methods (eps @ [?e])"
        using Some by (simp add: endpoint_bounds_def endpoint_of_def not_le)
      also have "\<dots> = Inr out \<longleftrightarrow> out = (eps @ [?e]) @ ?rest \<and> length out \<le> MAX_OPENAPI_ENDPOINTS
          \<and> list_all endpoint_bounds (drop (length (eps @ [?e])) out)"
        using True Some by (intro 2(2)) (auto simp: endpoint_bounds_def endpoint_of_def)
      also have "\<dots> \<longleftrightarrow> out = eps @ ?e # ?rest \<and> length out \<le> MAX_OPENAPI_ENDPOINTS
          \<and> list_all endpoint_bounds (drop (length eps) out)" using True by auto
      finally show ?thesis using Some by simp
    next
      case False
      then have "parse_methods rs pth item (mth # methods) eps \<noteq> Inr out"
        using Some by (auto simp: endpoint_bounds_def endpoint_of_def)
      then show ?thesis using False Some by auto
    qed
  qed (use 2 in simp)
qed auto

lemma parse_paths_exact:
  assumes "length eps \<le> MAX_OPENAPI_ENDPOINTS"
  shows "parse_paths rs paths eps = Inr out
    \<longleftrightarrow> out = eps @ concat (map (path_endpoints rs) paths) \<and> length out \<le> MAX_OPENAPI_ENDPOINTS
      \<and> list_all (\<lambda>(pth, _). py_len pth \<le> MAX_OPENAPI_PATH_LENGTH) paths
      \<and> list_all endpoint_bounds (drop (length eps) out)"
  using assms
proof (induction paths arbitrary: eps)
  case (Cons entry paths)
  obtain pth path_item where entry: "entry = (pth, path_item)" by (cases entry)
  show ?case
  proof (cases "py_len pth > MAX_OPENAPI_PATH_LENGTH")
    case False
    show ?thesis
    proof (cases "\<exists>item. path_item = JObj item")
      case True
      then obtain item where item: "path_item = JObj item" by blast
      let ?new = "path_endpoints rs (pth, path_item)"
      show ?thesis
      proof (cases "parse_methods rs pth item SUPPORTED_METHODS eps")
        case (Inl e)
        then have "\<not> (length (eps @ ?new) \<le> MAX_OPENAPI_ENDPOINTS \<and> list_all endpoint_bounds ?new)"
          using parse_methods_exact[OF Cons.prems, of rs pth item SUPPORTED_METHODS "eps @ ?new"]
          by (auto simp: path_endpoints_def item)
        then show ?thesis using False item Inl entry by auto
      next
        case (Inr eps')
        then have e: "eps' = eps @ ?new" "length eps' \<le> MAX_OPENAPI_ENDPOINTS" "list_all endpoint_bounds ?new"
          using parse_methods_exact[OF Cons.prems, of rs pth item SUPPORTED_METHODS eps'] by (auto simp: path_endpoints_def item)
        have "parse_paths rs ((pth, path_item) # paths) eps = parse_paths rs paths eps'"
          using False item Inr by simp
        then show ?thesis using Cons.IH[OF e(2)] e False entry by auto
      qed
    next
      case no: False
      then have "parse_paths rs ((pth, path_item) # paths) eps = parse_paths rs paths eps"
        "path_endpoints rs (pth, path_item) = []"
        using False by (auto simp: path_endpoints_def split: json.splits)
      then show ?thesis using Cons.IH[OF Cons.prems] False entry by simp
    qed
  qed (simp add: entry)
qed auto

subsection \<open>The scan\<close>

lemma openapi_select_ok:
  assumes "openapi_select env t revision scopes url s = (s', Inr selected)"
  shows "selected = map_option rev_id revision"
    and "request_authorized (oe_hosts env) t revision scopes url ''GET'' (oe_clock env s)"
proof -
  obtain d where d: "evaluate (oe_hosts env) t revision scopes url ''GET'' None (oe_clock env s) = Inr d" "allowed d"
    and sel: "selected = authorization_revision_id d"
    using assms by (auto simp: openapi_select_def split: sum.splits if_splits prod.splits option.splits rate_outcome.splits)
  show "selected = map_option rev_id revision" using decision_revision_id[OF d(1)] sel by simp
  show "request_authorized (oe_hosts env) t revision scopes url ''GET'' (oe_clock env s)"
    using evaluate_denied[of "oe_hosts env" t revision scopes url "''GET''" "oe_clock env s"] d
      evaluate_now[of "oe_hosts env" t revision scopes url "''GET''" "oe_clock env s" "oe_clock env s"] by metis
qed

lemma openapi_reauthorize_ok:
  assumes "openapi_reauthorize env selected url s = (s', Inr t)"
  obtains refresh s1 revision scopes d ob where "oe_refresh env = Some refresh" "refresh s = (s1, Inr (t, revision, scopes))"
    "revision \<noteq> None" "map_option rev_id revision = selected" "tgt_authorization_revision_id t = selected"
    "request_authorized (oe_hosts env) t revision scopes url ''GET'' (oe_clock env s1)"
    "oe_observer env = Some ob" "ob d s1 = (s', True)" "allowed d" "tgt_network_mode t = PRIVATE_LOCAL"
proof -
  from assms obtain refresh s1 t1 revision scopes where r: "oe_refresh env = Some refresh" "refresh s = (s1, Inr (t1, revision, scopes))"
    by (auto simp: openapi_reauthorize_def split: option.splits prod.splits sum.splits)
  from assms r have same: "revision \<noteq> None" "map_option rev_id revision = selected" "tgt_authorization_revision_id t1 = selected"
    by (auto simp: openapi_reauthorize_def split: if_splits)
  from assms r same obtain d where d: "evaluate (oe_hosts env) t1 revision scopes url ''GET'' None (oe_clock env s1) = Inr d"
    by (auto simp: openapi_reauthorize_def split: sum.splits if_splits)
  from assms r same d have rest: "openapi_observe env d s1 = (s', Inr ())" "allowed d" "tgt_network_mode t1 = PRIVATE_LOCAL" "t = t1"
    by (auto simp: openapi_reauthorize_def split: if_splits prod.splits sum.splits)
  have "request_authorized (oe_hosts env) t1 revision scopes url ''GET'' (oe_clock env s1)"
    using evaluate_denied[of "oe_hosts env" t1 revision scopes url "''GET''" "oe_clock env s1"] d rest(2)
      evaluate_now[of "oe_hosts env" t1 revision scopes url "''GET''" "oe_clock env s1" "oe_clock env s1"] by metis
  moreover obtain ob where "oe_observer env = Some ob" "ob d s1 = (s', True)"
    using rest(1) by (auto simp: openapi_observe_def split: option.splits prod.splits bool.splits)
  ultimately show thesis using that r same rest by blast
qed


lemma read_document_ok:
  assumes "read_document env response = Some (Inr (sha, n, encoding, dsha, dn, schema))"
  obtains decoded where "gw_status_code response < 400"
    "decode_openapi_document (oe_zlib env) (gw_body response) (gw_content_encoding response) = Some (Inr (encoding, decoded))"
    "sha = oe_sha256 env (gw_body response)" "n = length (gw_body response)" "dsha = oe_sha256 env decoded" "dn = length decoded"
    "json_loads_bytes (oe_float env) decoded = Some (JObj schema)" "validate_openapi_structure (JObj schema) = Inr ()"
  using assms
  by (auto simp: read_document_def split: if_splits option.splits sum.splits prod.splits json.splits)

lemma read_document_ends:
  assumes "tail_only_at_limit (oe_zlib env)"
  shows "\<exists>r. read_document env response = Some r"
  using decode_document_ends[OF assms, of "gw_body response" "gw_content_encoding response"]
  by (auto simp: read_document_def split: option.splits sum.splits json.splits)

lemma fetch_schema_ends:
  assumes "tail_only_at_limit (oe_zlib env)"
  shows "\<exists>s' r. fetch_schema env t url ctx s = Some (s', r)"
  using read_document_ends[OF assms]
  by (fastforce simp: fetch_schema_def split: sum.splits prod.splits)

lemma fetch_schema_ok:
  assumes "fetch_schema env t url ctx s = Some (s', Inr (sha, n, encoding, dsha, dn, schema))"
  shows "\<exists>headers response decoded.
      oe_gateway env (tgt_id t) (tgt_network_mode t) ''GET'' url headers MAX_OPENAPI_RESPONSE_BYTES s = (s', Inr response)
      \<and> gw_status_code response < 400
      \<and> sha = oe_sha256 env (gw_body response) \<and> n = length (gw_body response)
      \<and> dsha = oe_sha256 env decoded \<and> dn = length decoded
      \<and> encoding \<in> {''identity'', ''gzip''} \<and> length decoded \<le> MAX_OPENAPI_DECOMPRESSED_BYTES
      \<and> (encoding = ''identity'' \<longrightarrow> decoded = gw_body response)
      \<and> json_loads_bytes (oe_float env) decoded = Some (JObj schema)
      \<and> json_depth (JObj schema) \<le> MAX_OPENAPI_NESTING_DEPTH \<and> json_nodes (JObj schema) \<le> MAX_OPENAPI_STRUCTURE_NODES
      \<and> ref_free (JObj schema)"
proof -
  obtain headers response where g: "oe_gateway env (tgt_id t) (tgt_network_mode t) ''GET'' url headers
      MAX_OPENAPI_RESPONSE_BYTES s = (s', Inr response)"
    "read_document env response = Some (Inr (sha, n, encoding, dsha, dn, schema))"
    using assms by (auto simp: fetch_schema_def split: sum.splits prod.splits)
  from g(2) obtain decoded where d: "gw_status_code response < 400"
    "decode_openapi_document (oe_zlib env) (gw_body response) (gw_content_encoding response) = Some (Inr (encoding, decoded))"
    "sha = oe_sha256 env (gw_body response)" "n = length (gw_body response)" "dsha = oe_sha256 env decoded" "dn = length decoded"
    "json_loads_bytes (oe_float env) decoded = Some (JObj schema)" "validate_openapi_structure (JObj schema) = Inr ()"
    by (rule read_document_ok)
  then show ?thesis using g(1) decode_document_ok[OF d(2)] validate_structure_exact[of "JObj schema"]
    by (intro exI[of _ headers] exI[of _ response] exI[of _ decoded]) simp
qed

lemma gate_private:
  assumes "scan_gate env t revision scopes url credential s = (s', Inr (t', ctx))"
  shows "tgt_network_mode t' = PRIVATE_LOCAL"
proof -
  from assms obtain sa sel sb where "openapi_reauthorize env sel url sa = (sb, Inr t')"
    by (auto simp: scan_gate_def split: prod.splits sum.splits)
  then show ?thesis by (rule openapi_reauthorize_ok)
qed



subsection \<open>A document\<close>

definition lab_document :: json where
  "lab_document = JObj [(''paths'', JObj [(''/items/{id}'', JObj [
     (''parameters'', JArr [JObj [(''name'', JStr ''id''), (''in'', JStr ''path'')]]),
     (''get'', JObj [(''operationId'', JStr ''item''), (''security'', JArr [JObj [(''bearer'', JArr [])]]),
       (''parameters'', JArr [JObj [(''in'', JStr ''path''), (''name'', JStr ''id''), (''required'', JBool True)]])])])])]"

text \<open>A decoder that copies its input up to the limit.\<close>

definition lab_zlib :: "bool zlib_decoder" where
  "lab_zlib = \<lparr>z_init = False, z_decompress = (\<lambda>_ c n. Some (take n c, drop n c, True)), z_eof = id,
     z_unused_data = (\<lambda>_. []), z_flush = (\<lambda>_ _. Some [])\<rparr>"

definition lab_scan :: "(nat, bool) scan_env" where
  "lab_scan = \<lparr>oe_hosts = [''lab.test''], oe_clock = int, oe_wait = (\<lambda>_ _ s. (s + 1, RateGranted)),
     oe_refresh = Some (\<lambda>s. (s, load_execution_authorization lab_store 1)),
     oe_observer = Some (\<lambda>_ s. (s + 1, True)), oe_refresh_credential = None,
     oe_gateway = (\<lambda>_ _ _ _ _ _ s. (s + 1, Inr \<lparr>gw_status_code = 200, gw_body = json_text lab_document,
       gw_destination = \<lparr>dest_scheme = ''http'', dest_hostname = ''lab.test'', dest_port = 80,
          dest_is_ip_literal = False, dest_ip_address = None\<rparr>,
       gw_selected_ip = ''127.0.0.1'', gw_peer_ip = ''127.0.0.1'', gw_content_encoding = None, gw_content_type = None\<rparr>)),
     oe_sha256 = rev, oe_zlib = lab_zlib, oe_float = id\<rparr>"

lemma lab_zlib_tail: "tail_only_at_limit (oe_zlib lab_scan)"
  by (simp add: tail_only_at_limit_def lab_scan_def lab_zlib_def)



end
