(* ===== verification/Openapi_Import.thy ===== *)
theory Openapi_Import
  imports Openapi Safety_Audit "HOL-Library.AList"
begin

text \<open>
  The import of an OpenAPI document (\<open>src/backend/app/api/routes/openapi.py\<close>) with the credential that may be used
  for it (\<open>services/openapi_credentials.py\<close>): the scan over fresh sessions, and the transaction that stores
  the endpoints and the record of the import.

  The table of endpoints is \<open>im_endpoints\<close>; other sessions act inside the rate limiter and the
  gateway, which are functions on the whole state. What PostgreSQL makes of a value in a \<open>JSONB\<close> column is
  the parameter \<open>imp_jsonb\<close>: \<open>None\<close> when it refuses the value (NaN, infinities and NUL characters),
  otherwise the value that is read back. \<open>imp_text\<close> says which texts the database encodes (no NUL character, no
  lone surrogate).
\<close>

subsection \<open>Tables\<close>

record openapi_import_record =
  oir_id :: row_id
  oir_target_id :: row_id
  oir_credential_binding_id :: "row_id option"
  oir_source_url :: string
  oir_document_sha256 :: string
  oir_document_size_bytes :: nat
  oir_content_encoding :: string
  oir_decoded_document_sha256 :: string
  oir_decoded_document_size_bytes :: nat
  oir_discovered_endpoint_count :: nat
  oir_fetched_at :: datetime

definition sha256_hex :: "string \<Rightarrow> bool" where
  "sha256_hex s \<longleftrightarrow> length s = 64 \<and> list_all (\<lambda>c. c \<in> set ''0123456789abcdef'') s"

definition openapi_import_record_row_ok :: "openapi_import_record \<Rightarrow> bool" where
  "openapi_import_record_row_ok r \<longleftrightarrow>
     sha256_hex (oir_document_sha256 r) \<and> oir_document_size_bytes r \<le> 1000000
     \<and> oir_content_encoding r \<in> {''identity'', ''gzip''}
     \<and> sha256_hex (oir_decoded_document_sha256 r) \<and> oir_decoded_document_size_bytes r \<le> 1000000
     \<and> py_len (oir_source_url r) \<le> 2048"

record import_db =
  im_store :: store
  im_endpoints :: "endpoint list"
  im_records :: "openapi_import_record list"
  im_audit :: "safety_decision_record list"

record 'z import_env =
  imp_scan :: "(import_db, 'z) scan_env"
  imp_bearer :: bearer_env
  imp_jsonb :: "json \<Rightarrow> json option"
  imp_text :: "string \<Rightarrow> bool"
  imp_float_int :: "string \<Rightarrow> int option"
  imp_endpoint_id :: "nat \<Rightarrow> row_id"
  imp_record_id :: row_id
  imp_now :: datetime
  imp_audit_commits :: "import_db \<Rightarrow> bool"

subsection \<open>Equality of Python values\<close>

text \<open>
  Numbers are compared by value, \<open>True\<close> being 1: \<open>float_int\<close> is the integer that a float equals. Objects are
  compared regardless of the order of their keys.
\<close>

fun number_value :: "(string \<Rightarrow> int option) \<Rightarrow> json \<Rightarrow> (int + string) option" where
  "number_value fi (JBool b) = Some (Inl (if b then 1 else 0))"
| "number_value fi (JInt i) = Some (Inl i)"
| "number_value fi (JFloat r) = Some (case fi r of Some i \<Rightarrow> Inl i | None \<Rightarrow> Inr r)"
| "number_value fi (JNonFinite r) = (if r = ''nan'' then None else Some (Inr r))"
| "number_value fi _ = None"

lemma size_member: "(k, x) \<in> set kvs \<Longrightarrow> size x \<le> size_list (size_prod (\<lambda>_. 0) size) kvs"
  by (induction kvs) auto

function json_eq :: "(string \<Rightarrow> int option) \<Rightarrow> json \<Rightarrow> json \<Rightarrow> bool" where
  "json_eq fi v w =
     (case (v, w) of
        (JArr xs, JArr ys) \<Rightarrow> list_all2 (json_eq fi) xs ys
      | (JObj kvs, JObj kws) \<Rightarrow>
          length kvs = length kws
          \<and> list_all (\<lambda>(k, x). case map_of kws k of None \<Rightarrow> False | Some y \<Rightarrow> json_eq fi x y) kvs
      | (JStr s, JStr t) \<Rightarrow> s = t
      | (JNull, JNull) \<Rightarrow> True
      | _ \<Rightarrow> number_value fi v \<noteq> None \<and> number_value fi v = number_value fi w)"
  by auto
termination
proof (relation "measure (\<lambda>(fi, v, w). size v)", goal_cases)
  case (2 fi v w xs x y)
  then show ?case by (auto simp: less_Suc_eq_le intro: order.trans[OF _ size_list_estimation'] )
next
  case (3 fi v w kvs kws p k x y)
  then show ?case
    by (auto simp: less_Suc_eq_le intro: size_member)
qed simp

declare json_eq.simps [simp del]

fun opt_eq :: "('a \<Rightarrow> 'a \<Rightarrow> bool) \<Rightarrow> 'a option \<Rightarrow> 'a option \<Rightarrow> bool" where
  "opt_eq eq None None = True"
| "opt_eq eq (Some x) (Some y) = eq x y"
| "opt_eq eq _ _ = False"

definition endpoint_changed :: "(string \<Rightarrow> int option) \<Rightarrow> endpoint \<Rightarrow> parsed_endpoint \<Rightarrow> bool" where
  "endpoint_changed fi e p \<longleftrightarrow>
     ep_operation_id e \<noteq> pe_operation_id p
     \<or> ep_requires_auth e \<noteq> pe_requires_auth p
     \<or> \<not> list_all2 (json_eq fi) (ep_parameters e) (pe_parameters p)
     \<or> \<not> opt_eq (json_eq fi) (ep_request_body e) (pe_request_body p)
     \<or> \<not> opt_eq (list_all2 (json_eq fi)) (ep_security e) (pe_security p)"

subsection \<open>The credential of an import\<close>

text \<open>\<open>None\<close> is the sanitised \<open>OpenAPICredentialError\<close>.\<close>

definition openapi_credential_refresh ::
  "bearer_env \<Rightarrow> store \<Rightarrow> row_id \<Rightarrow> row_id \<Rightarrow> authentication_context option" where
  "openapi_credential_refresh env db target_id credential_binding_id =
     (case binding_row db credential_binding_id of
        None \<Rightarrow> None
      | Some binding \<Rightarrow>
     (case identities db (cb_test_identity_id binding) of
        None \<Rightarrow> None
      | Some identity \<Rightarrow>
        if \<not> cb_is_active binding \<or> cb_auth_type binding \<noteq> ''bearer'' \<or> cb_source_type binding \<noteq> ''stored_secret''
           \<or> \<not> ident_is_active identity \<or> ident_auth_type identity \<noteq> cb_auth_type binding
           \<or> ident_target_id identity \<noteq> target_id then None
        else (case resolve_binding env db identity credential_binding_id of
          Inl _ \<Rightarrow> None
        | Inr token \<Rightarrow>
           (case build_authentication_context identity (Some token) of Inl _ \<Rightarrow> None | Inr c \<Rightarrow> Some c))))"

subsection \<open>Storing the endpoints\<close>

definition store_list :: "'z import_env \<Rightarrow> json list \<Rightarrow> json list option" where
  "store_list env vs = (case imp_jsonb env (JArr vs) of Some (JArr ws) \<Rightarrow> Some ws | _ \<Rightarrow> None)"

definition store_opt :: "('a \<Rightarrow> 'a option) \<Rightarrow> 'a option \<Rightarrow> 'a option option" where
  "store_opt f v = (case v of None \<Rightarrow> Some None | Some x \<Rightarrow> map_option Some (f x))"

definition text_column :: "'z import_env \<Rightarrow> nat \<Rightarrow> string \<Rightarrow> bool" where
  "text_column env width s \<longleftrightarrow> imp_text env s \<and> py_len s \<le> width"

text \<open>The columns of a parsed endpoint, \<open>None\<close> when the database refuses one.\<close>

definition stored_columns ::
  "'z import_env \<Rightarrow> parsed_endpoint \<Rightarrow> (json list \<times> json option \<times> json list option) option" where
  "stored_columns env p =
     (if \<not> text_column env 500 (pe_path p) \<or> \<not> text_column env 10 (pe_method p)
         \<or> \<not> (case pe_operation_id p of None \<Rightarrow> True | Some i \<Rightarrow> text_column env 255 i) then None
      else case (store_list env (pe_parameters p), store_opt (imp_jsonb env) (pe_request_body p),
            store_opt (store_list env) (pe_security p)) of
        (Some ps, Some b, Some s) \<Rightarrow> Some (ps, b, s)
      | _ \<Rightarrow> None)"

definition endpoint_at :: "row_id \<Rightarrow> parsed_endpoint \<Rightarrow> endpoint \<Rightarrow> bool" where
  "endpoint_at target_id p e \<longleftrightarrow>
     ep_target_id e = target_id \<and> ep_path e = pe_path p \<and> ep_method e = pe_method p"

record import_counts =
  ic_created :: nat
  ic_updated :: nat
  ic_unchanged :: nat

text \<open>
  The assignment to the attributes of a loaded row: the \<open>UPDATE\<close> leaves out a column whose new value equals the
  loaded one.
\<close>

definition assign_endpoint ::
  "'z import_env \<Rightarrow> parsed_endpoint \<Rightarrow> json list \<times> json option \<times> json list option \<Rightarrow> endpoint \<Rightarrow> endpoint" where
  "assign_endpoint env p cols e =
     (let fi = imp_float_int env in
      e\<lparr>ep_operation_id := pe_operation_id p, ep_requires_auth := pe_requires_auth p,
        ep_parameters := (if list_all2 (json_eq fi) (ep_parameters e) (pe_parameters p) then ep_parameters e
                          else fst cols),
        ep_request_body := (if opt_eq (json_eq fi) (ep_request_body e) (pe_request_body p) then ep_request_body e
                            else fst (snd cols)),
        ep_security := (if opt_eq (list_all2 (json_eq fi)) (ep_security e) (pe_security p) then ep_security e
                        else snd (snd cols)),
        ep_updated_at := imp_now env\<rparr>)"

text \<open>One turn of the loop; the number of the turn selects a fresh identifier.\<close>

definition import_endpoint ::
  "'z import_env \<Rightarrow> row_id \<Rightarrow> nat \<Rightarrow> parsed_endpoint \<Rightarrow> endpoint list \<times> import_counts
   \<Rightarrow> (endpoint list \<times> import_counts) option" where
  "import_endpoint env target_id turn p st =
     (case st of (rows, counts) \<Rightarrow>
     (case stored_columns env p of
        None \<Rightarrow> None
      | Some (ps, b, sec) \<Rightarrow>
     (case find (endpoint_at target_id p) rows of
        None \<Rightarrow>
          Some (rows @ [\<lparr>ep_id = imp_endpoint_id env turn, ep_target_id = target_id, ep_path = pe_path p,
                         ep_method = pe_method p, ep_operation_id = pe_operation_id p,
                         ep_requires_auth = pe_requires_auth p, ep_parameters = ps, ep_request_body = b,
                         ep_security = sec, ep_created_at = imp_now env, ep_updated_at = imp_now env\<rparr>],
                counts\<lparr>ic_created := Suc (ic_created counts)\<rparr>)
      | Some endpoint \<Rightarrow>
          if \<not> endpoint_changed (imp_float_int env) endpoint p then
            Some (rows, counts\<lparr>ic_unchanged := Suc (ic_unchanged counts)\<rparr>)
          else
            Some (map (\<lambda>e. if endpoint_at target_id p e then assign_endpoint env p (ps, b, sec) e else e) rows,
                  counts\<lparr>ic_updated := Suc (ic_updated counts)\<rparr>))))"

fun import_endpoints ::
  "'z import_env \<Rightarrow> row_id \<Rightarrow> nat \<Rightarrow> parsed_endpoint list \<Rightarrow> endpoint list \<times> import_counts
   \<Rightarrow> (endpoint list \<times> import_counts) option" where
  "import_endpoints env target_id turn [] st = Some st"
| "import_endpoints env target_id turn (p # ps) st =
     (case import_endpoint env target_id turn p st of
        None \<Rightarrow> None
      | Some st' \<Rightarrow> import_endpoints env target_id (Suc turn) ps st')"

definition import_record :: "'z import_env \<Rightarrow> row_id \<Rightarrow> openapi_scan_result \<Rightarrow> openapi_import_record" where
  "import_record env target_id r =
     \<lparr>oir_id = imp_record_id env, oir_target_id = target_id,
      oir_credential_binding_id = os_credential_binding_id r, oir_source_url = os_source_url r,
      oir_document_sha256 = os_document_sha256 r, oir_document_size_bytes = os_document_size_bytes r,
      oir_content_encoding = os_content_encoding r,
      oir_decoded_document_sha256 = os_decoded_document_sha256 r,
      oir_decoded_document_size_bytes = os_decoded_document_size_bytes r,
      oir_discovered_endpoint_count = length (os_endpoints r), oir_fetched_at = imp_now env\<rparr>"

definition import_references :: "import_db \<Rightarrow> row_id \<Rightarrow> row_id option \<Rightarrow> bool" where
  "import_references db target_id credential_binding_id \<longleftrightarrow>
     targets (im_store db) target_id \<noteq> None
     \<and> (case credential_binding_id of None \<Rightarrow> True | Some i \<Rightarrow> binding_row (im_store db) i \<noteq> None)"

text \<open>
  The transaction after the scan; \<open>None\<close> is an exception (a refused column or record, or a foreign key that no longer
  exists), after which it is rolled back.
\<close>

definition persist_import ::
  "'z import_env \<Rightarrow> row_id \<Rightarrow> openapi_scan_result \<Rightarrow> import_db \<Rightarrow> (import_db \<times> import_counts) option" where
  "persist_import env target_id r db =
     (case import_endpoints env target_id 0 (os_endpoints r)
             (im_endpoints db, \<lparr>ic_created = 0, ic_updated = 0, ic_unchanged = 0\<rparr>) of
        None \<Rightarrow> None
      | Some (rows, counts) \<Rightarrow>
          if openapi_import_record_row_ok (import_record env target_id r) \<and> imp_text env (os_source_url r)
             \<and> import_references db target_id (os_credential_binding_id r) then
            Some (db\<lparr>im_endpoints := rows, im_records := im_records db @ [import_record env target_id r]\<rparr>, counts)
          else None)"

subsection \<open>The route\<close>

record openapi_import_request =
  irq_target_id :: row_id
  irq_source_url :: string
  irq_credential_binding_id :: "row_id option"

record openapi_import_response =
  irs_target_id :: row_id
  irs_source_url :: string
  irs_import_record_id :: row_id
  irs_document_sha256 :: string
  irs_content_encoding :: string
  irs_decoded_document_sha256 :: string
  irs_discovered :: nat
  irs_counts :: import_counts

text \<open>A response, or the status of an \<open>HTTPException\<close> with its detail; 500 is an exception that is not caught.\<close>

type_synonym import_answer = "(nat \<times> string) + openapi_import_response"

fun scan_status :: "openapi_error \<Rightarrow> nat \<times> string" where
  "scan_status (OpenAPIPolicyDenied d) = (403, code d)"
| "scan_status (OpenAPIExecutionBlocked cd _) = (403, cd)"
| "scan_status (OpenAPIScanError m) = (502, m)"
| "scan_status (OpenAPIParseError m) = (502, m)"
| "scan_status (OpenAPIAuditError m) = (502, m)"
| "scan_status (SchemaValueError m) = (500, m)"
| "scan_status (ScanUnexpected m) = (500, m)"

definition import_request_ok :: "openapi_import_request \<Rightarrow> bool" where
  "import_request_ok q \<longleftrightarrow> 1 \<le> py_len (irq_source_url q) \<and> py_len (irq_source_url q) \<le> 2048"

text \<open>The callbacks that the route passes to the scanner, each in a session of its own.\<close>

definition route_scan_env ::
  "'z import_env \<Rightarrow> row_id \<Rightarrow> row_id option \<Rightarrow> (import_db, 'z) scan_env" where
  "route_scan_env env target_id credential_binding_id =
     (imp_scan env)
       \<lparr>oe_refresh := Some (\<lambda>db. (db, load_execution_authorization (im_store db) target_id)),
        oe_observer := Some (\<lambda>decision db.
          case append_policy_decision ''openapi_import'' target_id decision None None None (im_audit db) of
            Inl _ \<Rightarrow> (db, False)
          | Inr audit \<Rightarrow>
              if imp_audit_commits env db then (db\<lparr>im_audit := audit\<rparr>, True) else (db, False)),
        oe_refresh_credential :=
          map_option (\<lambda>i db. (db, openapi_credential_refresh (imp_bearer env) (im_store db) target_id i))
            credential_binding_id\<rparr>"

definition import_openapi ::
  "'z import_env \<Rightarrow> openapi_import_request \<Rightarrow> import_db \<Rightarrow> (import_db \<times> import_answer) option" where
  "import_openapi env payload db =
     (if \<not> import_request_ok payload then Some (db, Inl (422, ''source_url''))
      else (case targets (im_store db) (irq_target_id payload) of
        None \<Rightarrow> Some (db, Inl (404, ''Target not found.''))
      | Some t \<Rightarrow>
         (case openapi_scan (route_scan_env env (tgt_id t) (irq_credential_binding_id payload)) t
                 (case tgt_authorization_revision_id t of None \<Rightarrow> None | Some rid \<Rightarrow> revisions (im_store db) rid)
                 (filter scope_is_active (scopes_of (im_store db) (tgt_id t)))
                 (irq_source_url payload) (irq_credential_binding_id payload) db of
            None \<Rightarrow> None
          | Some (db1, Inl e) \<Rightarrow> Some (db1, Inl (scan_status e))
          | Some (db1, Inr r) \<Rightarrow>
             (case persist_import env (tgt_id t) r db1 of
                None \<Rightarrow> Some (db1, Inl (500, ''persistence''))
              | Some (db2, counts) \<Rightarrow>
                  Some (db2, Inr
                    \<lparr>irs_target_id = tgt_id t, irs_source_url = os_source_url r,
                     irs_import_record_id = imp_record_id env,
                     irs_document_sha256 = os_document_sha256 r, irs_content_encoding = os_content_encoding r,
                     irs_decoded_document_sha256 = os_decoded_document_sha256 r,
                     irs_discovered = length (os_endpoints r), irs_counts = counts\<rparr>)))))"

text \<open>\<open>order_by\<close> sorts texts by the collation of the database, given by its keys.\<close>

definition list_target_endpoints :: "(string \<Rightarrow> string) \<Rightarrow> row_id \<Rightarrow> import_db \<Rightarrow> endpoint list option" where
  "list_target_endpoints collation target_id db =
     (case targets (im_store db) target_id of
        None \<Rightarrow> None
      | Some _ \<Rightarrow>
          Some (sort_key (collation \<circ> ep_path) (sort_key (collation \<circ> ep_method)
            (filter (\<lambda>e. ep_target_id e = target_id) (im_endpoints db)))))"

subsection \<open>Keys of a document are unique\<close>

fun keys_unique :: "json \<Rightarrow> bool" where
  "keys_unique (JArr xs) \<longleftrightarrow> list_all keys_unique xs"
| "keys_unique (JObj kvs) \<longleftrightarrow> distinct (map fst kvs) \<and> list_all (\<lambda>p. keys_unique (snd p)) kvs"
| "keys_unique v \<longleftrightarrow> True"

lemma update_keys_unique:
  assumes "distinct (map fst kvs)" "list_all (\<lambda>p. keys_unique (snd p)) kvs" "keys_unique v"
  shows "distinct (map fst (AList.update k v kvs))" "list_all (\<lambda>p. keys_unique (snd p)) (AList.update k v kvs)"
proof -
  show "distinct (map fst (AList.update k v kvs))" using assms(1) by (rule distinct_update)
  show "list_all (\<lambda>p. keys_unique (snd p)) (AList.update k v kvs)"
    using assms(2,3) by (induction kvs) auto
qed

lemma scan_atom_keys: "scan_atom flt s = Inr (v, r) \<Longrightarrow> keys_unique v"
  by (auto simp: scan_atom_def scan_number_def float_value_def Let_def split: if_splits option.splits)

lemma scan_keys_unique:
  "(scan_value flt n s = Inr (v, r) \<longrightarrow> keys_unique v)
   \<and> (distinct (map fst kvs) \<longrightarrow> list_all (\<lambda>p. keys_unique (snd p)) kvs \<longrightarrow> scan_members flt n kvs s = Inr (v, r) \<longrightarrow> keys_unique v)
   \<and> (list_all keys_unique xs \<longrightarrow> scan_elements flt n xs s = Inr (v, r) \<longrightarrow> keys_unique v)"
proof (induction n arbitrary: s v r kvs xs)
  case (Suc n)
  note IH = Suc.IH[THEN conjunct1, rule_format] Suc.IH[THEN conjunct2, THEN conjunct1, rule_format]
    Suc.IH[THEN conjunct2, THEN conjunct2, rule_format]
  have "keys_unique v" if "scan_value flt (Suc n) s = Inr (v, r)"
    using that IH(2)[of "[]"] IH(3)[of "[]"] scan_atom_keys
    by (auto split: option.splits if_splits)
  moreover have "keys_unique v" if h: "scan_elements flt (Suc n) xs s = Inr (v, r)" "list_all keys_unique xs"
  proof -
    from h(1) obtain w where w: "keys_unique w"
      and c: "v = JArr (xs @ [w]) \<or> (\<exists>r4. scan_elements flt n (xs @ [w]) r4 = Inr (v, r))"
      by (auto split: option.splits sum.splits dest!: IH(1)) blast
    show ?thesis using c h(2) w IH(3)[of "xs @ [w]"] by auto
  qed
  moreover have "keys_unique v"
    if h: "scan_members flt (Suc n) kvs s = Inr (v, r)" "distinct (map fst kvs)" "list_all (\<lambda>p. keys_unique (snd p)) kvs"
  proof -
    from h(1) obtain k w where w: "keys_unique w"
      and c: "v = JObj (AList.update k w kvs) \<or> (\<exists>r4. scan_members flt n (AList.update k w kvs) r4 = Inr (v, r))"
      by (auto split: option.splits sum.splits dest!: IH(1)) blast+
    show ?thesis using c update_keys_unique[OF h(2,3) w, of k] IH(2) by auto
  qed
  ultimately show ?case by blast
qed simp

lemma loaded_keys_unique: "json_loads_bytes flt b = Some v \<Longrightarrow> keys_unique v"
  using scan_keys_unique[THEN conjunct1, rule_format]
  by (auto simp: json_loads_bytes_def json_loads_def simp del: scan_value.simps split: option.splits sum.splits if_splits)

definition parsed_key :: "parsed_endpoint \<Rightarrow> string \<times> string" where
  "parsed_key p = (pe_path p, pe_method p)"

lemma parsed_key_endpoint [simp]: "parsed_key (endpoint_of rs pth item m operation) = (pth, py_upper m)"
  by (simp add: parsed_key_def endpoint_of_def)

lemma methods_distinct: "distinct (map py_upper SUPPORTED_METHODS)"
  by code_simp

lemma path_endpoints_keys:
  "distinct (map parsed_key (path_endpoints root_security e))"
  "k \<in> set (map parsed_key (path_endpoints root_security e)) \<Longrightarrow> fst k = fst e"
proof -
  obtain pth v where e: "e = (pth, v)" by (cases e)
  show "k \<in> set (map parsed_key (path_endpoints root_security e)) \<Longrightarrow> fst k = fst e"
    by (auto simp: e path_endpoints_def split: json.splits option.splits)
  have "distinct (map parsed_key (concat (map (\<lambda>mth. case operation_of item mth of
      None \<Rightarrow> [] | Some operation \<Rightarrow> [endpoint_of root_security pth item mth operation]) ms)))"
    if "distinct (map py_upper ms)" for item ms
    using that
  proof (induction ms)
    case (Cons m ms)
    then show ?case
      by (auto split: option.splits)
  qed simp
  then show "distinct (map parsed_key (path_endpoints root_security e))"
    using methods_distinct by (auto simp: e path_endpoints_def split: json.splits)
qed

lemma parsed_keys_distinct:
  assumes "parse_openapi_schema schema = Inr eps" "keys_unique (JObj schema)"
  shows "distinct (map parsed_key eps)"
proof -
  from assms(1) obtain paths where p: "map_of schema ''paths'' = Some (JObj paths)"
    and eps: "eps = concat (map (path_endpoints (map_of schema ''security'')) paths)"
    by (auto simp: parse_openapi_schema_def parse_paths_exact split: option.splits json.splits if_splits)
  from map_of_SomeD[OF p] assms(2) have "keys_unique (JObj paths)" by (fastforce simp: list_all_iff)
  then have "distinct (map fst paths)" by simp
  then have "distinct (map parsed_key (concat (map (path_endpoints rs) paths)))" for rs
  proof (induction paths)
    case (Cons e paths)
    have "fst e \<notin> fst ` set paths" using Cons.prems by simp
    moreover have "fst k \<in> fst ` set paths" if "k \<in> set (map parsed_key (concat (map (path_endpoints rs) paths)))" for k
    proof -
      from that obtain e' where "e' \<in> set paths" "k \<in> set (map parsed_key (path_endpoints rs e'))" by auto
      then show ?thesis using path_endpoints_keys(2) by (metis image_eqI)
    qed
    ultimately have "set (map parsed_key (path_endpoints rs e)) \<inter> set (map parsed_key (concat (map (path_endpoints rs) paths))) = {}"
      using path_endpoints_keys(2)[of _ rs e] by (metis disjoint_iff)
    then show ?case using Cons path_endpoints_keys(1) by simp
  qed simp
  then show ?thesis using eps by simp
qed

subsection \<open>Rows of the import\<close>

definition endpoint_key :: "endpoint \<Rightarrow> row_id \<times> string \<times> string" where
  "endpoint_key e = (ep_target_id e, ep_path e, ep_method e)"

definition rows_unique :: "endpoint list \<Rightarrow> bool" where
  "rows_unique rows \<longleftrightarrow> distinct (map endpoint_key rows)"

text \<open>What is read back from the columns of an endpoint equals what was stored.\<close>

definition columns_faithful :: "'z import_env \<Rightarrow> parsed_endpoint \<Rightarrow> bool" where
  "columns_faithful env p \<longleftrightarrow>
     list_all (\<lambda>v. case imp_jsonb env v of None \<Rightarrow> True | Some w \<Rightarrow> json_eq (imp_float_int env) w v)
       (JArr (pe_parameters p) # (case pe_request_body p of None \<Rightarrow> [] | Some b \<Rightarrow> [b])
        @ (case pe_security p of None \<Rightarrow> [] | Some vs \<Rightarrow> [JArr vs]))"

definition imported :: "'z import_env \<Rightarrow> row_id \<Rightarrow> endpoint list \<Rightarrow> parsed_endpoint \<Rightarrow> bool" where
  "imported env target_id rows p \<longleftrightarrow>
     list_ex (\<lambda>e. endpoint_at target_id p e \<and> \<not> endpoint_changed (imp_float_int env) e p) rows"

lemma json_eq_arrays [simp]: "json_eq fi (JArr xs) (JArr ys) \<longleftrightarrow> list_all2 (json_eq fi) xs ys"
  by (simp add: json_eq.simps[of fi "JArr xs"])

lemma endpoint_at_key: "endpoint_at target_id p e \<longleftrightarrow> endpoint_key e = (target_id, parsed_key p)"
  by (auto simp: endpoint_at_def endpoint_key_def parsed_key_def)

lemma rows_unique_at:
  assumes "rows_unique rows" "e \<in> set rows" "e' \<in> set rows" "endpoint_at t p e" "endpoint_at t p e'"
  shows "e = e'"
  using assms by (metis endpoint_at_key rows_unique_def distinct_map inj_onD)

lemma store_list_faithful:
  assumes "store_list env vs = Some ws" "case imp_jsonb env (JArr vs) of None \<Rightarrow> True | Some w \<Rightarrow> json_eq fi w (JArr vs)"
  shows "list_all2 (json_eq fi) ws vs"
  using assms by (auto simp: store_list_def split: option.splits json.splits)

lemma stored_columns_faithful:
  assumes "stored_columns env p = Some (ps, b, sec)" "columns_faithful env p"
  shows "list_all2 (json_eq (imp_float_int env)) ps (pe_parameters p)"
    "opt_eq (json_eq (imp_float_int env)) b (pe_request_body p)"
    "opt_eq (list_all2 (json_eq (imp_float_int env))) sec (pe_security p)"
proof -
  from assms(1) have c: "store_list env (pe_parameters p) = Some ps" "store_opt (imp_jsonb env) (pe_request_body p) = Some b"
    "store_opt (store_list env) (pe_security p) = Some sec"
    by (auto simp: stored_columns_def split: if_splits option.splits)
  show "list_all2 (json_eq (imp_float_int env)) ps (pe_parameters p)"
    using store_list_faithful[OF c(1)] assms(2) by (simp add: columns_faithful_def)
  show "opt_eq (json_eq (imp_float_int env)) b (pe_request_body p)"
    using c(2) assms(2) by (auto simp: columns_faithful_def store_opt_def split: option.splits)
  show "opt_eq (list_all2 (json_eq (imp_float_int env))) sec (pe_security p)"
    using c(3) assms(2) store_list_faithful[of env]
    by (cases "pe_security p") (auto simp: columns_faithful_def store_opt_def)
qed

lemma assign_endpoint_key [simp]: "endpoint_key (assign_endpoint env p cols e) = endpoint_key e"
  by (simp add: endpoint_key_def assign_endpoint_def Let_def)

lemma assign_endpoint_unchanged:
  assumes "stored_columns env p = Some cols" "columns_faithful env p"
  shows "\<not> endpoint_changed (imp_float_int env) (assign_endpoint env p cols e) p"
  using stored_columns_faithful[of env p "fst cols" "fst (snd cols)" "snd (snd cols)"] assms
  by (simp add: endpoint_changed_def assign_endpoint_def Let_def)

lemma find_at:
  assumes "find P rows = Some e"
  shows "e \<in> set rows \<and> P e"
  using assms by (auto simp: find_Some_iff)

lemma import_endpoint_step:
  assumes "import_endpoint env t n p (rows, c) = Some (rows', c')" "rows_unique rows" "columns_faithful env p"
  shows "rows_unique rows'" "imported env t rows' p"
    "\<not> endpoint_at t p e \<Longrightarrow> e \<in> set rows' \<longleftrightarrow> e \<in> set rows"
proof -
  from assms(1) obtain cols where cols: "stored_columns env p = Some cols"
    by (auto simp: import_endpoint_def split: option.splits)
  have "rows_unique rows' \<and> imported env t rows' p \<and> (\<not> endpoint_at t p e \<longrightarrow> (e \<in> set rows' \<longleftrightarrow> e \<in> set rows))"
  proof (cases "find (endpoint_at t p) rows")
    case None
    then have no: "\<And>e. e \<in> set rows \<Longrightarrow> \<not> endpoint_at t p e" by (auto simp: find_None_iff)
    from assms(1) None obtain e' where e': "rows' = rows @ [e']" "endpoint_at t p e'"
      "ep_operation_id e' = pe_operation_id p" "ep_requires_auth e' = pe_requires_auth p"
      "(ep_parameters e', ep_request_body e', ep_security e') = cols"
      by (auto simp: import_endpoint_def endpoint_at_def cols split: prod.splits)
    then have "\<not> endpoint_changed (imp_float_int env) e' p"
      using stored_columns_faithful[OF cols[folded e'(5)] assms(3)] by (simp add: endpoint_changed_def)
    moreover have "rows_unique rows'"
      using assms(2) no e'(1,2) by (auto simp: rows_unique_def endpoint_at_key) blast
    ultimately show ?thesis using e'(1,2) by (auto simp: imported_def)
  next
    case (Some e0)
    note at = find_at[OF Some]
    show ?thesis
    proof (cases "endpoint_changed (imp_float_int env) e0 p")
      case False
      then show ?thesis using assms(1,2) at Some by (auto simp: import_endpoint_def cols imported_def list_ex_iff split: prod.splits)
    next
      case True
      then have r: "rows' = map (\<lambda>e. if endpoint_at t p e then assign_endpoint env p cols e else e) rows"
        using assms(1) Some by (auto simp: import_endpoint_def cols split: prod.splits)
      have k: "map endpoint_key rows' = map endpoint_key rows" by (simp add: r)
      have "assign_endpoint env p cols e0 \<in> set rows'" using at by (force simp: r)
      then have "imported env t rows' p"
        using at assign_endpoint_unchanged[OF cols assms(3), of e0]
        by (auto simp: imported_def list_ex_iff endpoint_at_key intro: bexI[of _ "assign_endpoint env p cols e0"])
      moreover have "\<not> endpoint_at t p e \<longrightarrow> (e \<in> set rows' \<longleftrightarrow> e \<in> set rows)"
        by (auto simp: r endpoint_at_key image_iff)
      ultimately show ?thesis using assms(2) k by (simp add: rows_unique_def)
    qed
  qed
  then show "rows_unique rows'" "imported env t rows' p" "\<not> endpoint_at t p e \<Longrightarrow> e \<in> set rows' \<longleftrightarrow> e \<in> set rows"
    by auto
qed

lemma import_endpoints_exact:
  assumes "import_endpoints env t n ps (rows, c) = Some (rows', c')" "rows_unique rows"
    "\<forall>p \<in> set ps. columns_faithful env p" "distinct (map parsed_key ps)"
  shows "rows_unique rows' \<and> (\<forall>p \<in> set ps. imported env t rows' p)
    \<and> (\<forall>e. (\<forall>p \<in> set ps. \<not> endpoint_at t p e) \<longrightarrow> (e \<in> set rows' \<longleftrightarrow> e \<in> set rows))"
  using assms
proof (induction ps arbitrary: n rows c)
  case (Cons p ps)
  then obtain rows1 c1 where s: "import_endpoint env t n p (rows, c) = Some (rows1, c1)"
    and l: "import_endpoints env t (Suc n) ps (rows1, c1) = Some (rows', c')"
    by (auto split: option.splits)
  have f: "columns_faithful env p" using Cons.prems(3) by simp
  note step = import_endpoint_step[OF s Cons.prems(2) f]
  have IH: "rows_unique rows' \<and> (\<forall>p \<in> set ps. imported env t rows' p)
    \<and> (\<forall>e. (\<forall>p \<in> set ps. \<not> endpoint_at t p e) \<longrightarrow> (e \<in> set rows' \<longleftrightarrow> e \<in> set rows1))"
    using Cons.IH[OF l step(1)] Cons.prems(3,4) by simp
  have "\<not> endpoint_at t q e" if "endpoint_at t p e" "q \<in> set ps" for q e
    using that Cons.prems(4) by (auto simp: endpoint_at_key)
  then have "imported env t rows' p" using step(2) IH unfolding imported_def list_ex_iff by blast
  then show ?case using IH step(3) by simp
qed simp

lemma import_endpoint_counts:
  assumes "import_endpoint env t n p (rows, c) = Some (rows', c')"
  shows "ic_created c' + ic_updated c' + ic_unchanged c' = Suc (ic_created c + ic_updated c + ic_unchanged c)"
  using assms by (auto simp: import_endpoint_def split: option.splits if_splits)

lemma import_endpoints_counts:
  assumes "import_endpoints env t n ps (rows, c) = Some (rows', c')"
  shows "ic_created c' + ic_updated c' + ic_unchanged c' = ic_created c + ic_updated c + ic_unchanged c + length ps"
  using assms
proof (induction ps arbitrary: n rows c)
  case (Cons p ps)
  then obtain rows1 c1 where s: "import_endpoint env t n p (rows, c) = Some (rows1, c1)"
    and l: "import_endpoints env t (Suc n) ps (rows1, c1) = Some (rows', c')"
    by (auto split: option.splits)
  show ?case using Cons.IH[OF l] import_endpoint_counts[OF s] by simp
qed simp

lemma import_endpoints_columns:
  assumes "import_endpoints env t n ps st = Some st'" "p \<in> set ps"
  shows "stored_columns env p \<noteq> None"
  using assms
  by (induction ps arbitrary: n st) (auto simp: import_endpoint_def split: option.splits prod.splits if_splits)

text \<open>Importing what is there already changes nothing.\<close>

lemma import_endpoints_again:
  assumes "rows_unique rows" "\<forall>p \<in> set ps. imported env t rows p \<and> stored_columns env p \<noteq> None"
  shows "import_endpoints env t n ps (rows, c) = Some (rows, c\<lparr>ic_unchanged := ic_unchanged c + length ps\<rparr>)"
  using assms(2)
proof (induction ps arbitrary: n c)
  case (Cons p ps)
  obtain cols where cols: "stored_columns env p = Some cols" using Cons.prems by auto
  obtain e where e: "e \<in> set rows" "endpoint_at t p e" "\<not> endpoint_changed (imp_float_int env) e p"
    using Cons.prems by (auto simp: imported_def list_ex_iff)
  have "find (endpoint_at t p) rows \<noteq> None" using e by (auto simp: find_None_iff)
  then obtain e0 where e0: "find (endpoint_at t p) rows = Some e0" by auto
  have "e0 = e" using rows_unique_at[OF assms(1) _ e(1) _ e(2)] find_at[OF e0] by blast
  then have "import_endpoint env t n p (rows, c) = Some (rows, c\<lparr>ic_unchanged := Suc (ic_unchanged c)\<rparr>)"
    using e0 e(3) cols by (cases cols) (simp add: import_endpoint_def)
  then show ?case using Cons.IH[of "Suc n"] Cons.prems by simp
qed simp

lemma scanned_keys_distinct:
  assumes "openapi_scan env t revision scopes url credential s = Some (s', Inr r)"
  shows "distinct (map parsed_key (os_endpoints r))"
proof -
  from assms obtain s1 t' ctx rd where f': "fetch_schema env t' url ctx s1 = Some (s', rd)"
    and rd: "res_bind rd (scan_result url credential) = Inr r"
    by (auto simp: openapi_scan_def split: prod.splits sum.splits option.splits)
  from rd obtain doc where f: "fetch_schema env t' url ctx s1 = Some (s', Inr doc)"
    and d: "scan_result url credential doc = Inr r" using f' by (cases rd) auto
  obtain sha n encoding dsha dn schema where doc: "doc = (sha, n, encoding, dsha, dn, schema)" by (cases doc)
  from fetch_schema_ok[OF f[unfolded doc]] loaded_keys_unique have "keys_unique (JObj schema)" by blast
  moreover have "parse_openapi_schema schema = Inr (os_endpoints r)"
    using d doc by (auto simp: scan_result_def split: sum.splits openapi_error.splits)
  ultimately show ?thesis by (rule parsed_keys_distinct[rotated])
qed

lemma persist_import_ok:
  assumes "persist_import env t r db = Some (db', c)"
  obtains rows where "import_endpoints env t 0 (os_endpoints r) (im_endpoints db, \<lparr>ic_created = 0, ic_updated = 0, ic_unchanged = 0\<rparr>)
      = Some (rows, c)"
    "db' = db\<lparr>im_endpoints := rows, im_records := im_records db @ [import_record env t r]\<rparr>"
    "openapi_import_record_row_ok (import_record env t r)" "imp_text env (os_source_url r)"
    "import_references db t (os_credential_binding_id r)"
  using assms by (auto simp: persist_import_def split: option.splits if_splits)

text \<open>The same database at a later time, with other fresh identifiers.\<close>

definition later_env :: "'z import_env \<Rightarrow> datetime \<Rightarrow> (nat \<Rightarrow> row_id) \<Rightarrow> row_id \<Rightarrow> 'z import_env" where
  "later_env env now ids i = env\<lparr>imp_now := now, imp_endpoint_id := ids, imp_record_id := i\<rparr>"

lemma later_env_same [simp]:
  "store_list (later_env env now ids i) = store_list env"
  "stored_columns (later_env env now ids i) = stored_columns env"
  "imported (later_env env now ids i) = imported env"
  "imp_text (later_env env now ids i) = imp_text env"
proof -
  show s: "store_list (later_env env now ids i) = store_list env" by (simp add: fun_eq_iff store_list_def later_env_def)
  have t: "text_column (later_env env now ids i) = text_column env" by (simp add: fun_eq_iff text_column_def later_env_def)
  have j: "imp_jsonb (later_env env now ids i) = imp_jsonb env" by (simp add: later_env_def)
  show "stored_columns (later_env env now ids i) = stored_columns env"
    by (intro ext) (simp only: stored_columns_def s t j)
qed (simp_all add: fun_eq_iff imported_def later_env_def)

lemma later_record_ok [simp]:
  "openapi_import_record_row_ok (import_record (later_env env now ids i) t r)
   = openapi_import_record_row_ok (import_record env t r)"
  by (simp add: openapi_import_record_row_ok_def import_record_def)

lemma persist_import_exact:
  assumes "persist_import env t r db = Some (db', c)" "rows_unique (im_endpoints db)"
    "list_all (columns_faithful env) (os_endpoints r)" "distinct (map parsed_key (os_endpoints r))"
  shows "rows_unique (im_endpoints db')" "list_all (imported env t (im_endpoints db')) (os_endpoints r)"
    "\<not> list_ex (\<lambda>p. endpoint_at t p e) (os_endpoints r) \<Longrightarrow> e \<in> set (im_endpoints db') \<longleftrightarrow> e \<in> set (im_endpoints db)"
    "\<exists>db2. persist_import (later_env env now ids i) t r db'
        = Some (db2, \<lparr>ic_created = 0, ic_updated = 0, ic_unchanged = length (os_endpoints r)\<rparr>)
      \<and> im_endpoints db2 = im_endpoints db'"
proof -
  from assms(1) obtain rows where p: "import_endpoints env t 0 (os_endpoints r)
      (im_endpoints db, \<lparr>ic_created = 0, ic_updated = 0, ic_unchanged = 0\<rparr>) = Some (rows, c)"
    and db': "db' = db\<lparr>im_endpoints := rows, im_records := im_records db @ [import_record env t r]\<rparr>"
    and ok: "openapi_import_record_row_ok (import_record env t r)" "imp_text env (os_source_url r)"
      "import_references db t (os_credential_binding_id r)"
    by (rule persist_import_ok)
  note e = import_endpoints_exact[OF p assms(2) _ assms(4)]
  have f: "\<forall>p \<in> set (os_endpoints r). columns_faithful env p" using assms(3) by (simp add: list_all_iff)
  show u: "rows_unique (im_endpoints db')" and im: "list_all (imported env t (im_endpoints db')) (os_endpoints r)"
    and "\<not> list_ex (\<lambda>p. endpoint_at t p e) (os_endpoints r) \<Longrightarrow> e \<in> set (im_endpoints db') \<longleftrightarrow> e \<in> set (im_endpoints db)"
    using e[OF f] by (auto simp: db' list_all_iff list_ex_iff)
  have "\<forall>p \<in> set (os_endpoints r). imported (later_env env now ids i) t rows p
      \<and> stored_columns (later_env env now ids i) p \<noteq> None"
    using im import_endpoints_columns[OF p] by (auto simp: list_all_iff db')
  from import_endpoints_again[OF _ this] u ok
  show "\<exists>db2. persist_import (later_env env now ids i) t r db'
        = Some (db2, \<lparr>ic_created = 0, ic_updated = 0, ic_unchanged = length (os_endpoints r)\<rparr>)
      \<and> im_endpoints db2 = im_endpoints db'"
    by (simp add: persist_import_def db' import_references_def split: option.splits)
qed

lemma import_openapi_ok:
  assumes "import_openapi env q db = Some (db', Inr resp)"
  obtains t db1 r c where "targets (im_store db) (irq_target_id q) = Some t" "import_request_ok q"
    "openapi_scan (route_scan_env env (tgt_id t) (irq_credential_binding_id q)) t
       (Option.bind (tgt_authorization_revision_id t) (revisions (im_store db)))
       (filter scope_is_active (scopes_of (im_store db) (tgt_id t)))
       (irq_source_url q) (irq_credential_binding_id q) db = Some (db1, Inr r)"
    "persist_import env (tgt_id t) r db1 = Some (db', c)"
    "irs_counts resp = c" "irs_discovered resp = length (os_endpoints r)" "irs_document_sha256 resp = os_document_sha256 r"
proof -
  have b: "(case x of None \<Rightarrow> None | Some i \<Rightarrow> f i) = Option.bind x f" for x :: "row_id option" and f :: "row_id \<Rightarrow> authorization_revision option"
    by (cases x) auto
  from assms that show thesis
    by (auto simp: import_openapi_def b split: if_splits option.splits prod.splits sum.splits)
qed


definition lab_import :: "bool import_env" where
  "lab_import = \<lparr>imp_scan =
       \<lparr>oe_hosts = [''lab.test''], oe_clock = (\<lambda>_. 5), oe_wait = (\<lambda>_ _ s. (s, RateGranted)),
        oe_refresh = None, oe_observer = None, oe_refresh_credential = None,
        oe_gateway = (\<lambda>_ _ _ _ _ _ s. (s, Inr \<lparr>gw_status_code = 200, gw_body = json_text lab_document,
          gw_destination = \<lparr>dest_scheme = ''http'', dest_hostname = ''lab.test'', dest_port = 80,
             dest_is_ip_literal = False, dest_ip_address = None\<rparr>,
          gw_selected_ip = ''127.0.0.1'', gw_peer_ip = ''127.0.0.1'', gw_content_encoding = None, gw_content_type = None\<rparr>)),
        oe_sha256 = (\<lambda>_. replicate 64 (CHR ''a'')), oe_zlib = lab_zlib, oe_float = id\<rparr>,
     imp_bearer = undefined, imp_jsonb = Some, imp_text = (\<lambda>s. CHR 0x00 \<notin> set s), imp_float_int = (\<lambda>_. None),
     imp_endpoint_id = (\<lambda>n. 100 + int n), imp_record_id = 7, imp_now = 5, imp_audit_commits = (\<lambda>_. True)\<rparr>"

definition lab_import_db :: import_db where
  "lab_import_db = \<lparr>im_store = lab_store, im_endpoints = [], im_records = [], im_audit = []\<rparr>"


end
