(* ===== verification/Test_Execution.thy ===== *)
theory Test_Execution
  imports Plan_Execution Bola
begin

text \<open>
  The direct execution of a test case (\<open>TestExecutionService\<close> of \<open>services/test_execution.py\<close>), the routes
  around test runs (\<open>api/routes/test_runs.py\<close>) and the route that generates test cases
  (\<open>api/routes/test_cases.py\<close>).

  As in the execution of plans, a run is a computation on the \<open>world\<close>: before each access to the
  database the other sessions may do anything (\<open>x_others\<close>). The reads of a transaction form one
  access; the conditional update, the callbacks of the executor and the last transaction are accesses of their
  own. A commit may fail, or succeed with its outcome lost (\<open>x_persist\<close>).
\<close>

subsection \<open>Errors and the loaded test case\<close>

datatype test_execution_error =
  TestExecutionError string
| TestExecutionNotFoundError string
| TestExecutionBlocked string string
| TestExecutionRaised string

record test_request =
  tq_case_id :: row_id
  tq_observed_status :: string
  tq_endpoint :: endpoint
  tq_actor :: test_identity
  tq_resource :: resource
  tq_target :: target
  tq_revision :: "authorization_revision option"
  tq_scopes :: "scope list"
  tq_url :: string

text \<open>Everything of \<open>execute\<close> before the credentials are resolved.\<close>

definition select_test_case :: "store \<Rightarrow> row_id \<Rightarrow> test_execution_error + test_request" where
  "select_test_case db test_case_id =
     (case test_cases db test_case_id of
        None \<Rightarrow> Inl (TestExecutionNotFoundError ''TestCase not found.'')
      | Some tc \<Rightarrow>
        if tc_status tc = ''running'' then Inl (TestExecutionError ''TestCase is already running.'')
        else if new_case db (Some tc) then Inl (TestExecutionError ''intent_w2_execution_closed'')
        else (case endpoints db (tc_endpoint_id tc) of
          None \<Rightarrow> Inl (TestExecutionNotFoundError ''Endpoint not found.'')
        | Some endpoint \<Rightarrow>
        (case identities db (tc_actor_identity_id tc) of
          None \<Rightarrow> Inl (TestExecutionNotFoundError ''Actor identity not found.'')
        | Some actor \<Rightarrow>
        (case resources db (tc_resource_id tc) of
          None \<Rightarrow> Inl (TestExecutionNotFoundError ''Resource not found.'')
        | Some resource \<Rightarrow>
        (case targets db (ep_target_id endpoint) of
          None \<Rightarrow> Inl (TestExecutionNotFoundError ''Target not found.'')
        | Some t \<Rightarrow>
          (let revision = (case tgt_authorization_revision_id t of None \<Rightarrow> None | Some i \<Rightarrow> revisions db i) in
           if (case revision of None \<Rightarrow> False | Some rv \<Rightarrow> rev_require_human_execution_approval rv) then
             Inl (TestExecutionBlocked ''plan_bound_execution_required''
               ''Human approval requires execution through an exact approved ExecutionPlan.'')
           else if ident_target_id actor \<noteq> tgt_id t then
             Inl (TestExecutionError ''Actor belongs to a different target.'')
           else if res_target_id resource \<noteq> tgt_id t then
             Inl (TestExecutionError ''Resource belongs to a different target.'')
           else (case build_test_case_url t endpoint resource of
              Inl msg \<Rightarrow> Inl (TestExecutionError msg)
            | Inr url \<Rightarrow>
                Inr \<lparr>tq_case_id = test_case_id, tq_observed_status = tc_status tc, tq_endpoint = endpoint,
                     tq_actor = actor, tq_resource = resource, tq_target = t, tq_revision = revision,
                     tq_scopes = filter scope_is_active (scopes_of db (tgt_id t)), tq_url = url\<rparr>)))))))"

fun bearer_message :: "bearer_error \<Rightarrow> string" where
  "bearer_message (BearerCredential m) = m"
| "bearer_message (BearerIdentityNotFound m) = m"
| "bearer_message (BearerIdentityType m) = m"

definition test_case_headers :: "bearer_env \<Rightarrow> store \<Rightarrow> test_identity \<Rightarrow> string + (string \<times> string) list" where
  "test_case_headers env db actor =
     res_bind
       (if ident_auth_type actor = ''bearer'' then
          (case bearer_resolve env db actor of
             Inl e \<Rightarrow> Inl (bearer_message e) | Inr token \<Rightarrow> Inr (Some token))
        else Inr None)
       (\<lambda>bearer_token. res_bind (build_authentication_context actor bearer_token) (\<lambda>auth_context.
          apply_authentication_context (Some [(''Accept'', ''application/json'')]) auth_context))"

subsection \<open>Writing\<close>

text \<open>A transaction with its fate: the new state, and whether the worker saw the commit.\<close>

definition committed :: "exec_env \<Rightarrow> nat \<Rightarrow> shared option \<Rightarrow> shared \<Rightarrow> shared \<times> bool" where
  "committed env n written s =
     (case written of
        None \<Rightarrow> (s, False)
      | Some s' \<Rightarrow>
         (case x_persist env n of
            AttemptOk \<Rightarrow> (s', True) | RolledBack \<Rightarrow> (s, False) | CommitLost \<Rightarrow> (s', False)))"

text \<open>
  The flush of \<open>test_case.status = st\<close> on a row that was loaded with the status \<open>loaded\<close>: no statement when they are
  equal; \<open>None\<close> when the row is gone.
\<close>

definition flush_status :: "row_id \<Rightarrow> string \<Rightarrow> string \<Rightarrow> store \<Rightarrow> store option" where
  "flush_status i loaded st db =
     (if st = loaded then Some db
      else if test_cases db i = None then None
      else Some (set_case_status i st db))"

definition prepare_test_case ::
  "exec_env \<Rightarrow> row_id \<Rightarrow> world \<Rightarrow> world \<times> (test_execution_error + test_request \<times> (string \<times> string) list)" where
  "prepare_test_case env test_case_id w =
     (case interact env (\<lambda>n s. (s,
         if x_fails env n then Inl (TestExecutionRaised ''DBAPIError'')
         else res_map (\<lambda>rq. (rq, test_case_headers (x_bearer env) (sh_store s) (tq_actor rq)))
                (select_test_case (sh_store s) test_case_id))) w of
        (w1, Inl e) \<Rightarrow> (w1, Inl e)
      | (w1, Inr (rq, Inr headers)) \<Rightarrow> (w1, Inr (rq, headers))
      | (w1, Inr (rq, Inl msg)) \<Rightarrow>
         (case interact env (\<lambda>n s. committed env n
                (map_option (\<lambda>db. s\<lparr>sh_store := db\<rparr>)
                   (flush_status test_case_id (tq_observed_status rq) ''blocked'' (sh_store s))) s) w1 of
            (w2, True) \<Rightarrow> (w2, Inl (TestExecutionError msg))
          | (w2, False) \<Rightarrow> (w2, Inl (TestExecutionRaised ''commit''))))"

text \<open>\<open>UPDATE ... WHERE status = observed_status ... RETURNING\<close>, and the commit.\<close>

definition acquire_txn ::
  "exec_env \<Rightarrow> test_request \<Rightarrow> nat \<Rightarrow> shared \<Rightarrow> shared \<times> (test_execution_error + unit)" where
  "acquire_txn env rq n s =
     (if map_option tc_status (test_cases (sh_store s) (tq_case_id rq)) \<noteq> Some (tq_observed_status rq) then
        (s, Inl (TestExecutionError ''TestCase execution state changed.''))
      else (case committed env n (Some (s\<lparr>sh_store := set_case_status (tq_case_id rq) ''running'' (sh_store s)\<rparr>)) s of
          (s', True) \<Rightarrow> (s', Inr ())
        | (s', False) \<Rightarrow> (s', Inl (TestExecutionRaised ''commit''))))"

subsection \<open>The executor\<close>

definition test_observer ::
  "exec_env \<Rightarrow> test_request \<Rightarrow> policy_decision \<Rightarrow> world \<Rightarrow> world \<times> observe_outcome" where
  "test_observer env rq decision =
     interact env (\<lambda>n s.
       if x_fails env n then (s, ObserverRaised)
       else (case append_policy_decision ''test_execution'' (tgt_id (tq_target rq)) decision (Some (tq_case_id rq))
                None None (sh_audit s) of
          Inl _ \<Rightarrow> (s, ObserverRaised)
        | Inr audit \<Rightarrow> (s\<lparr>sh_audit := audit\<rparr>, Observed)))"

definition test_refresh ::
  "exec_env \<Rightarrow> test_request \<Rightarrow> world \<Rightarrow> world \<times> (execution_error + execution_authorization)" where
  "test_refresh env rq =
     interact env (\<lambda>n s. (s,
       case load_execution_authorization (sh_store s) (tgt_id (tq_target rq)) of
         Inl msg \<Rightarrow> Inl (Unexpected msg) | Inr auth \<Rightarrow> Inr auth))"

text \<open>The gateway of the platform; time passes while it works.\<close>

definition test_gateway ::
  "exec_env \<Rightarrow> row_id \<Rightarrow> string \<Rightarrow> string \<Rightarrow> string \<Rightarrow> (string \<times> string) list \<Rightarrow> int
   \<Rightarrow> world \<Rightarrow> world \<times> (coded_error + gateway_result)" where
  "test_gateway env target_id mode mth url headers max_bytes w =
     (case gateway_request (x_gateway env (w_tick w)) target_id mode url headers max_bytes True of
        (r, tr) \<Rightarrow> (w\<lparr>w_connections := w_connections w @ tr, w_tick := w_tick w + 1\<rparr>, r))"

definition test_executor :: "exec_env \<Rightarrow> test_request \<Rightarrow> world executor_env" where
  "test_executor env rq =
     \<lparr>xe_hosts = x_hosts env, xe_clock = (\<lambda>w. x_clock env (w_tick w)), xe_wait = wait_rate env,
      xe_refresh = Some (test_refresh env rq), xe_observer = Some (test_observer env rq),
      xe_before_network = None, xe_gateway = test_gateway env\<rparr>"

subsection \<open>The result\<close>

definition test_request_data :: "test_request \<Rightarrow> (string \<times> string) list \<Rightarrow> json" where
  "test_request_data rq headers =
     JObj [(''method'', JStr (ep_method (tq_endpoint rq))), (''url'', JStr (tq_url rq)),
           (''headers'', JObj (map (\<lambda>(n, v). (n, JStr v)) (redact_headers headers))),
           (''actor_identity_id'', JInt (ident_id (tq_actor rq))),
           (''resource_id'', JInt (res_id (tq_resource rq)))]"

text \<open>PostgreSQL has no NUL character in a text.\<close>

definition pg_text :: "string option \<Rightarrow> bool" where
  "pg_text v \<longleftrightarrow> (case v of None \<Rightarrow> True | Some s \<Rightarrow> CHR 0x00 \<notin> set s)"

definition test_run_of ::
  "test_request \<Rightarrow> (string \<times> string) list \<Rightarrow> authorization_revision \<Rightarrow> run_result \<Rightarrow> row_id \<Rightarrow> datetime \<Rightarrow> test_run" where
  "test_run_of rq headers rv r rid now =
     \<lparr>run_id = rid, run_test_case_id = tq_case_id rq, run_request_data = test_request_data rq headers,
      run_response_status = rr_status r, run_response_body = rr_body r, run_duration_ms = rr_duration r,
      run_error_message = rr_error r, run_executed_at = now, run_authorization_revision_id = Some (rev_id rv),
      run_execution_plan_id = None\<rparr>"

text \<open>
  The rows of a result: the run, its audit record and the status of the test case; \<open>None\<close> is an exception of a
  statement (a text that cannot be stored, a row that is gone).
\<close>

definition write_test_run ::
  "exec_env \<Rightarrow> test_request \<Rightarrow> (string \<times> string) list \<Rightarrow> authorization_revision \<Rightarrow> run_result \<Rightarrow> nat \<Rightarrow> shared
   \<Rightarrow> shared option" where
  "write_test_run env rq headers rv r n s =
     (let rid = x_run_id env n; ok = (rr_outcome r = ''succeeded'') in
      if \<not> pg_text (rr_body r) \<or> \<not> pg_text (rr_error r) \<or> test_cases (sh_store s) (tq_case_id rq) = None
         \<or> revisions (sh_store s) (rev_id rv) = None then None
      else (case append_execution_outcome (rr_outcome r) (tgt_id (tq_target rq)) (Some (rev_id rv)) (tq_case_id rq)
                None None (Some rid)
                (Some (if ok then ''http_execution_succeeded'' else ''http_execution_failed''))
                (Some (if ok then ''HTTP execution completed.'' else ''HTTP execution failed.'')) (sh_audit s) of
          Inl _ \<Rightarrow> None
        | Inr audit \<Rightarrow>
            Some (s\<lparr>sh_runs := (sh_runs s)(rid := Some (test_run_of rq headers rv r rid (x_clock env n))),
                    sh_audit := audit,
                    sh_store := set_case_status (tq_case_id rq) (if ok then ''completed'' else ''failed'') (sh_store s)\<rparr>)))"

definition record_run ::
  "exec_env \<Rightarrow> test_request \<Rightarrow> (string \<times> string) list \<Rightarrow> run_result \<Rightarrow> world
   \<Rightarrow> world \<times> (test_execution_error + row_id)" where
  "record_run env rq headers r w =
     (case tq_revision rq of
        None \<Rightarrow> (w, Inl (TestExecutionRaised ''AttributeError''))
      | Some rv \<Rightarrow>
         (case interact env (\<lambda>n s. committed env n (write_test_run env rq headers rv r n s) s) w of
            (w', True) \<Rightarrow> (w', Inr (x_run_id env (w_tick w)))
          | (w', False) \<Rightarrow> (w', Inl (TestExecutionRaised ''commit''))))"

definition write_blocked ::
  "test_request \<Rightarrow> string \<Rightarrow> string \<Rightarrow> shared \<Rightarrow> shared option" where
  "write_blocked rq cd rsn s =
     (case (flush_status (tq_case_id rq) ''running'' ''blocked'' (sh_store s),
            append_execution_outcome ''blocked'' (tgt_id (tq_target rq)) (map_option rev_id (tq_revision rq))
              (tq_case_id rq) None None None (Some cd) (Some rsn) (sh_audit s)) of
        (Some db, Inr audit) \<Rightarrow> Some (s\<lparr>sh_store := db, sh_audit := audit\<rparr>)
      | _ \<Rightarrow> None)"

definition record_blocked_case ::
  "exec_env \<Rightarrow> test_request \<Rightarrow> string \<Rightarrow> string \<Rightarrow> world \<Rightarrow> world \<times> (test_execution_error + row_id)" where
  "record_blocked_case env rq cd rsn w =
     (case interact env (\<lambda>n s. committed env n (write_blocked rq cd rsn s) s) w of
        (w', True) \<Rightarrow> (w', Inl (TestExecutionBlocked cd rsn))
      | (w', False) \<Rightarrow> (w', Inl (TestExecutionRaised ''commit'')))"

text \<open>The outcome of the executor: the two \<open>except\<close> clauses and the success.\<close>

definition record_outcome ::
  "exec_env \<Rightarrow> test_request \<Rightarrow> (string \<times> string) list \<Rightarrow> world \<times> (execution_error + http_execution_result)
   \<Rightarrow> world \<times> (test_execution_error + row_id)" where
  "record_outcome env rq headers res =
     (case res of
        (w, Inl (Blocked cd rsn)) \<Rightarrow> record_blocked_case env rq cd rsn w
      | (w, Inl (HttpExecution msg)) \<Rightarrow>
          record_run env rq headers \<lparr>rr_outcome = ''failed'', rr_status = None, rr_body = None, rr_duration = None,
             rr_error = Some msg\<rparr> w
      | (w, Inl (Unexpected msg)) \<Rightarrow> (w, Inl (TestExecutionRaised msg))
      | (w, Inr result) \<Rightarrow>
          record_run env rq headers \<lparr>rr_outcome = ''succeeded'', rr_status = Some (hx_status_code result),
             rr_body = Some (decode_response_body (hx_body result)), rr_duration = Some (x_duration env (w_tick w)),
             rr_error = None\<rparr> w)"

definition execute_case :: "exec_env \<Rightarrow> row_id \<Rightarrow> world \<Rightarrow> world \<times> (test_execution_error + row_id)" where
  "execute_case env test_case_id w =
     (case prepare_test_case env test_case_id w of
        (w1, Inl e) \<Rightarrow> (w1, Inl e)
      | (w1, Inr (rq, headers)) \<Rightarrow>
     (case interact env (acquire_txn env rq) w1 of
        (w2, Inl e) \<Rightarrow> (w2, Inl e)
      | (w2, Inr _) \<Rightarrow>
        record_outcome env rq headers
          (http_execute (test_executor env rq) (tq_target rq) (tq_revision rq) (tq_scopes rq)
             (ep_method (tq_endpoint rq)) (tq_url rq) headers w2)))"

subsection \<open>Routes\<close>

text \<open>The status and detail of an \<open>HTTPException\<close>; 500 is an exception that is not caught.\<close>

fun test_error_status :: "test_execution_error \<Rightarrow> nat \<times> string" where
  "test_error_status (TestExecutionBlocked cd _) = (403, cd)"
| "test_error_status (TestExecutionNotFoundError m) = (404, m)"
| "test_error_status (TestExecutionError m) = (409, m)"
| "test_error_status (TestExecutionRaised m) = (500, m)"

definition execute_test_case ::
  "string \<Rightarrow> exec_env \<Rightarrow> row_id \<Rightarrow> world \<Rightarrow> world \<times> (nat \<times> string + row_id)" where
  "execute_test_case execution_topology env test_case_id w =
     (if execution_topology = ''multi_process'' then (w, Inl (409, ''plan_bound_execution_required''))
      else (case execute_case env test_case_id w of
          (w', Inl e) \<Rightarrow> (w', Inl (test_error_status e))
        | (w', Inr run) \<Rightarrow> (w', Inr run)))"

fun plan_error_status :: "exec_error \<Rightarrow> nat \<times> string" where
  "plan_error_status (ExecutionBlocked cd _) = (403, cd)"
| "plan_error_status (PlanExecutionNotFound m) = (404, m)"
| "plan_error_status (PlanExecutionError m) = (409, m)"
| "plan_error_status (OtherError m) = (500, m)"

definition execute_execution_plan ::
  "exec_env \<Rightarrow> row_id \<Rightarrow> world \<Rightarrow> world \<times> (nat \<times> string + row_id)" where
  "execute_execution_plan env execution_plan_id w =
     (case execute_plan env execution_plan_id w of
        (w', Inl e) \<Rightarrow> (w', Inl (plan_error_status e))
      | (w', Inr run) \<Rightarrow> (w', Inr run))"

fun cancel_error_status :: "cancellation_error service_error \<Rightarrow> nat" where
  "cancel_error_status (Domain PlanNotFound) = 404"
| "cancel_error_status (Domain _) = 409"
| "cancel_error_status CoordinationError = 503"
| "cancel_error_status _ = 500"

definition cancel_execution_plan ::
  "exec_env \<Rightarrow> row_id \<Rightarrow> world \<Rightarrow> world \<times> (nat + execution_plan_cancellation)" where
  "cancel_execution_plan env execution_plan_id w =
     (case interact env (\<lambda>n. on_tables (request_cancel (x_attempts env n) (x_retries env) execution_plan_id)) w of
        (w', Inl e) \<Rightarrow> (w', Inl (cancel_error_status e))
      | (w', Inr c) \<Rightarrow> (w', Inr c))"

subsection \<open>Generation of test cases\<close>

record case_tables =
  ct_targets :: "row_id \<Rightarrow> target option"
  ct_endpoints :: "endpoint list"
  ct_identities :: "test_identity list"
  ct_resources :: "resource list"
  ct_cases :: "test_case list"

text \<open>The columns of the unique constraint.\<close>

definition case_key :: "test_case \<Rightarrow> row_id \<times> row_id \<times> row_id \<times> string" where
  "case_key c = (tc_endpoint_id c, tc_actor_identity_id c, tc_resource_id c, tc_test_type c)"

definition pending_case :: "row_id \<Rightarrow> datetime \<Rightarrow> generated_test_case \<Rightarrow> test_case" where
  "pending_case i now g =
     \<lparr>tc_id = i, tc_endpoint_id = gtc_endpoint_id g, tc_actor_identity_id = gtc_actor_identity_id g,
      tc_resource_id = gtc_resource_id g, tc_test_type = gtc_test_type g,
      tc_ownership_relation = gtc_ownership_relation g, tc_expected_statuses = gtc_expected_statuses g,
      tc_status = ''pending'', tc_created_at = now\<rparr>"

text \<open>\<open>INSERT ... ON CONFLICT DO NOTHING\<close> of many rows; the sequence gives an identifier to every row.\<close>

fun insert_cases :: "(nat \<Rightarrow> row_id) \<Rightarrow> datetime \<Rightarrow> nat \<Rightarrow> generated_test_case list \<Rightarrow> test_case list \<Rightarrow> test_case list" where
  "insert_cases ids now n [] cases = cases"
| "insert_cases ids now n (g # gs) cases =
     insert_cases ids now (Suc n) gs
       (let c = pending_case (ids n) now g in
        if list_ex (\<lambda>d. case_key d = case_key c) cases then cases else cases @ [c])"

record generate_response =
  gr_target_id :: row_id
  gr_generated :: nat
  gr_created :: nat
  gr_existing :: nat

definition generate_bola_cases ::
  "(nat \<Rightarrow> row_id) \<Rightarrow> datetime \<Rightarrow> row_id \<Rightarrow> case_tables \<Rightarrow> case_tables \<times> (nat \<times> string + generate_response)" where
  "generate_bola_cases ids now target_id db =
     (case ct_targets db target_id of
        None \<Rightarrow> (db, Inl (404, ''Target not found.''))
      | Some t \<Rightarrow>
         (case generate_bola_test_cases (filter (\<lambda>e. ep_target_id e = tgt_id t) (ct_endpoints db))
                 (filter (\<lambda>a. ident_target_id a = tgt_id t \<and> ident_is_active a) (ct_identities db))
                 (filter (\<lambda>r. res_target_id r = tgt_id t) (ct_resources db)) of
            Inl msg \<Rightarrow> (db, Inl (500, msg))
          | Inr generated \<Rightarrow>
             (let cases = insert_cases ids now 0 generated (ct_cases db);
                  created = length cases - length (ct_cases db) in
              (db\<lparr>ct_cases := cases\<rparr>,
               Inr \<lparr>gr_target_id = tgt_id t, gr_generated = length generated, gr_created = created,
                    gr_existing = length generated - created\<rparr>))))"

definition list_test_cases :: "row_id \<Rightarrow> case_tables \<Rightarrow> nat \<times> string + test_case list" where
  "list_test_cases target_id db =
     (case ct_targets db target_id of
        None \<Rightarrow> Inl (404, ''Target not found.'')
      | Some _ \<Rightarrow>
         Inr (sort_key tc_id (filter (\<lambda>c. list_ex (\<lambda>e. ep_id e = tc_endpoint_id c \<and> ep_target_id e = target_id)
            (ct_endpoints db)) (ct_cases db))))"

subsection \<open>Facts: a direct run\<close>

lemma steps_test_observer:
  "steps (\<lambda>n s.
       if x_fails env n then (s, ObserverRaised)
       else (case append_policy_decision ''test_execution'' t decision c None None (sh_audit s) of
          Inl _ \<Rightarrow> (s, ObserverRaised)
        | Inr audit \<Rightarrow> (s\<lparr>sh_audit := audit\<rparr>, Observed)))"
  by (simp add: steps_def split: sum.split)

interpretation test_gate: gate_relation "test_executor env rq" "quiet env" for env rq
  by unfold_locales (auto simp: test_executor_def wait_rate_def test_observer_def test_refresh_def
      quiet_interact[OF steps_test_observer] quiet_interact[OF steps_read] intro: quiet_trans split: sum.splits)

lemma set_case_status_plans [simp]: "plans (set_case_status i st db) = plans db"
  by (simp add: set_case_status_def)

lemma set_case_status_status:
  "test_cases db i \<noteq> None \<Longrightarrow> map_option tc_status (test_cases (set_case_status i st db) i) = Some st"
  by (auto simp: set_case_status_def)

lemma steps_committed:
  assumes "\<And>n s s'. f n s = Some s' \<Longrightarrow> sh_proto s' = sh_proto s \<and> plans (sh_store s') = plans (sh_store s)"
  shows "steps (\<lambda>n s. committed env n (f n s) s)"
  using assms by (auto simp: steps_def committed_def split: option.split attempt.split)

lemma flush_status_plans: "flush_status i l st db = Some db' \<Longrightarrow> plans db' = plans db"
  by (auto simp: flush_status_def split: if_splits)

lemma fst_seen [simp]: "fst (case x of (w, True) \<Rightarrow> (w, a) | (w, False) \<Rightarrow> (w, b)) = fst x"
  by (simp split: prod.split bool.split)

lemma quiet_prepare: "quiet env w (fst (prepare_test_case env cid w))"
proof -
  obtain w1 r where 1: "interact env (\<lambda>n s. (s,
         if x_fails env n then Inl (TestExecutionRaised ''DBAPIError'')
         else res_map (\<lambda>rq. (rq, test_case_headers (x_bearer env) (sh_store s) (tq_actor rq)))
                (select_test_case (sh_store s) cid))) w = (w1, r)" by fastforce
  have q1: "quiet env w w1" 
    by (rule subst[OF arg_cong[OF 1, of fst, unfolded fst_conv], where P = "quiet env w"]) (rule quiet_interact[OF steps_read])
  have "steps (\<lambda>n s. committed env n (map_option (\<lambda>db. s\<lparr>sh_store := db\<rparr>) (flush_status cid l st (sh_store s))) s)" for l st
    by (rule steps_committed) (auto simp: flush_status_plans)
  from quiet_trans[OF q1 quiet_interact[OF this]]
  have q2: "quiet env w (fst (interact env (\<lambda>n s. committed env n
      (map_option (\<lambda>db. s\<lparr>sh_store := db\<rparr>) (flush_status cid l st (sh_store s))) s) w1))" for l st .
  show ?thesis
  proof (cases r)
    case (Inl e)
    then show ?thesis using q1 by (simp add: prepare_test_case_def 1)
  next
    case (Inr x)
    obtain rq h where "x = (rq, h)" by (cases x)
    then show ?thesis using q1 q2 Inr by (cases h) (simp_all add: prepare_test_case_def 1)
  qed
qed

lemma quiet_acquire: "quiet env w (fst (interact env (acquire_txn env rq) w))"
  by (rule quiet_interact) (auto simp: steps_def acquire_txn_def committed_def split: attempt.split)

lemma quiet_record: "quiet env w (fst (record_run env rq headers r w))" "quiet env w (fst (record_blocked_case env rq cd rsn w))"
proof -
  have "steps (\<lambda>n s. committed env n (write_test_run env rq headers rv r n s) s)" for rv
    by (rule steps_committed) (auto simp: write_test_run_def Let_def split: if_splits sum.splits)
  from quiet_interact[OF this] show "quiet env w (fst (record_run env rq headers r w))"
    by (simp add: record_run_def split: option.split)
  have "steps (\<lambda>n s. committed env n (write_blocked rq cd rsn s) s)"
    by (rule steps_committed) (auto simp: write_blocked_def flush_status_plans split: option.splits sum.splits)
  from quiet_interact[OF this] show "quiet env w (fst (record_blocked_case env rq cd rsn w))"
    by (simp add: record_blocked_case_def)
qed

lemma quiet_outcome: "quiet env (fst res) (fst (record_outcome env rq headers res))"
  using quiet_record by (auto simp: record_outcome_def split: prod.split sum.split execution_error.split)

lemma prepare_ok:
  assumes "prepare_test_case env cid w = (w1, Inr (rq, headers))"
  shows "\<exists>db. select_test_case db cid = Inr rq \<and> test_case_headers (x_bearer env) db (tq_actor rq) = Inr headers"
  using assms
  by (auto simp: prepare_test_case_def interact_def res_map_def split: prod.splits sum.splits if_splits bool.splits)

lemma selected:
  assumes "select_test_case db cid = Inr rq"
  obtains tc where "test_cases db cid = Some tc" "tq_case_id rq = cid" "tq_observed_status rq = tc_status tc"
    "tc_status tc \<noteq> ''running''" "\<not> new_case db (Some tc)"
    "\<And>rv. tq_revision rq = Some rv \<Longrightarrow> \<not> rev_require_human_execution_approval rv"
    "ident_target_id (tq_actor rq) = tgt_id (tq_target rq)" "res_target_id (tq_resource rq) = tgt_id (tq_target rq)"
    "build_test_case_url (tq_target rq) (tq_endpoint rq) (tq_resource rq) = Inr (tq_url rq)"
  using assms by (auto simp: select_test_case_def Let_def split: option.splits if_splits sum.splits)

text \<open>An acquisition is exclusive: the case was not running and is now.\<close>

lemma acquired:
  assumes "acquire_txn env rq n s = (s', Inr ())"
  shows "map_option tc_status (test_cases (sh_store s) (tq_case_id rq)) = Some (tq_observed_status rq)"
    "map_option tc_status (test_cases (sh_store s') (tq_case_id rq)) = Some ''running''"
  using assms set_case_status_status[of "sh_store s" "tq_case_id rq" "''running''"]
  by (auto simp: acquire_txn_def committed_def split: if_splits attempt.splits)

text \<open>What is known when a direct run has reached the network.\<close>

definition test_send_authorized :: "exec_env \<Rightarrow> test_request \<Rightarrow> bool" where
  "test_send_authorized env rq \<longleftrightarrow>
     (\<exists>db t rv scopes now. load_execution_authorization db (tgt_id (tq_target rq)) = Inr (t, Some rv, scopes)
        \<and> Some (rev_id rv) = map_option rev_id (tq_revision rq)
        \<and> request_authorized (x_hosts env) t (Some rv) scopes (tq_url rq) ''GET'' now
        \<and> tgt_network_mode t = PRIVATE_LOCAL)"

lemma test_http_cases:
  assumes "http_execute (test_executor env rq) t (tq_revision rq) scopes mth (tq_url rq) hs w = (w', r)"
  obtains (stopped) "quiet env w w'" "\<exists>e. r = Inl e \<and> (\<forall>m. e \<noteq> HttpExecution m)"
  | (sent) w1 n tid where "quiet env w w1" "test_send_authorized env rq"
      "w' = w1\<lparr>w_connections := w_connections w1 @
         snd (gateway_request (x_gateway env n) tid PRIVATE_LOCAL (tq_url rq) hs MAX_RESPONSE_BYTES True),
         w_tick := w_tick w1 + 1\<rparr>" "\<forall>e. r = Inl e \<longrightarrow> (\<exists>m. e = HttpExecution m)"
proof -
  obtain w1 r1 where g: "execute_gate (test_executor env rq) t (tq_revision rq) scopes mth (tq_url rq) w = (w1, r1)"
    by fastforce
  note gr = test_gate.gate_R[of env w rq t "tq_revision rq" scopes mth "tq_url rq", unfolded g fst_conv snd_conv]
  show thesis
  proof (cases r1)
    case (Inl e)
    then show ?thesis using stopped gr assms g by (auto simp: http_execute_def)
  next
    case (Inr t')
    from gate_ok[OF g[unfolded Inr]] obtain s2 s3 rv' sc' where
      mth: "py_upper (py_strip mth) = ''GET''" "tgt_network_mode t' = PRIVATE_LOCAL"
      and rf: "test_refresh env rq s2 = (s3, Inr (t', rv', sc'))"
      and rv: "map_option rev_id rv' = map_option rev_id (tq_revision rq)" "rv' \<noteq> None"
      and au: "request_authorized (x_hosts env) t' rv' sc' (tq_url rq) ''GET'' (x_clock env (w_tick s3))"
      by (auto simp: gate_passed_def test_executor_def)
    obtain rv1 where rv1: "rv' = Some rv1" using rv(2) by blast
    from rf have "load_execution_authorization (sh_store (x_others env (w_tick s2) (w_shared s2))) (tgt_id (tq_target rq))
        = Inr (t', rv', sc')"
      by (auto simp: test_refresh_def interact_def split: sum.splits)
    then have "test_send_authorized env rq"
      unfolding test_send_authorized_def rv1 using rv(1) rv1 au mth(2) by (metis option.simps(9))
    moreover obtain g tr where gw: "gateway_request (x_gateway env (w_tick w1)) (tgt_id t') PRIVATE_LOCAL (tq_url rq) hs
        MAX_RESPONSE_BYTES True = (g, tr)" by fastforce
    ultimately show ?thesis
      using sent[of w1 "w_tick w1" "tgt_id t'"] gr assms g Inr mth
      by (cases g) (auto simp: http_execute_def test_executor_def test_gateway_def)
  qed
qed

lemma quietD:
  assumes "rely env" "quiet env w w'"
  shows "pstep\<^sup>*\<^sup>* (proto w) (proto w')" "w_connections w' = w_connections w"
  using assms by (simp_all add: quiet_def reaches_def)

lemma execute_case_cases:
  assumes "execute_case env cid w = (w', r)"
  obtains (unprepared) e where "prepare_test_case env cid w = (w', Inl e)" "r = Inl e"
  | (refused) w1 rq headers e where "prepare_test_case env cid w = (w1, Inr (rq, headers))"
      "interact env (acquire_txn env rq) w1 = (w', Inl e)" "r = Inl e"
  | (ran) w1 rq headers w2 w3 r3 where "prepare_test_case env cid w = (w1, Inr (rq, headers))"
      "interact env (acquire_txn env rq) w1 = (w2, Inr ())"
      "http_execute (test_executor env rq) (tq_target rq) (tq_revision rq) (tq_scopes rq)
         (ep_method (tq_endpoint rq)) (tq_url rq) headers w2 = (w3, r3)"
      "record_outcome env rq headers (w3, r3) = (w', r)"
proof -
  obtain w1 r1 where p: "prepare_test_case env cid w = (w1, r1)" by fastforce
  show thesis
  proof (cases r1)
    case (Inl e)
    then show thesis using unprepared assms p by (simp add: execute_case_def)
  next
    case (Inr x)
    obtain rq headers where x: "x = (rq, headers)" by (cases x)
    obtain w2 r2 where a: "interact env (acquire_txn env rq) w1 = (w2, r2)" by fastforce
    obtain w3 r3 where h: "http_execute (test_executor env rq) (tq_target rq) (tq_revision rq) (tq_scopes rq)
          (ep_method (tq_endpoint rq)) (tq_url rq) headers w2 = (w3, r3)" by fastforce
    show thesis
      using assms p Inr x a h refused[of w1 rq headers] ran[of w1 rq headers w2 w3 r3] by (cases r2) (simp_all add: execute_case_def)
  qed
qed


lemma committed_seen: "committed env n x s = (s', True) \<Longrightarrow> x = Some s'"
  by (auto simp: committed_def split: option.splits attempt.splits)

lemma interact_seen:
  assumes "interact env (\<lambda>n s. committed env n (f n s) s) w = (w', True)"
  shows "\<exists>s. f (w_tick w) s = Some (w_shared w')"
  using assms by (auto simp: interact_def split: prod.splits dest!: committed_seen)

lemma write_test_run_ok:
  assumes "write_test_run env rq headers rv r n s = Some s'"
  shows "sh_runs s' (x_run_id env n) = Some (test_run_of rq headers rv r (x_run_id env n) (x_clock env n))"
    "map_option tc_status (test_cases (sh_store s') (tq_case_id rq))
       = Some (if rr_outcome r = ''succeeded'' then ''completed'' else ''failed'')"
    "\<exists>rec. sh_audit s' = sh_audit s @ [rec] \<and> safety_decision_record_row_ok rec \<and> sdr_outcome rec = rr_outcome r
       \<and> sdr_test_run_id rec = Some (x_run_id env n)"
proof -
  from assms obtain audit where a: "append_execution_outcome (rr_outcome r) (tgt_id (tq_target rq)) (Some (rev_id rv)) (tq_case_id rq)
      None None (Some (x_run_id env n))
      (Some (if rr_outcome r = ''succeeded'' then ''http_execution_succeeded'' else ''http_execution_failed''))
      (Some (if rr_outcome r = ''succeeded'' then ''HTTP execution completed.'' else ''HTTP execution failed.'')) (sh_audit s)
      = Inr audit" and c: "test_cases (sh_store s) (tq_case_id rq) \<noteq> None"
    and s': "s' = s\<lparr>sh_runs := (sh_runs s)(x_run_id env n := Some (test_run_of rq headers rv r (x_run_id env n) (x_clock env n))),
      sh_audit := audit, sh_store := set_case_status (tq_case_id rq)
        (if rr_outcome r = ''succeeded'' then ''completed'' else ''failed'') (sh_store s)\<rparr>"
    by (auto simp: write_test_run_def Let_def split: if_splits sum.splits)
  show "sh_runs s' (x_run_id env n) = Some (test_run_of rq headers rv r (x_run_id env n) (x_clock env n))"
    "map_option tc_status (test_cases (sh_store s') (tq_case_id rq))
       = Some (if rr_outcome r = ''succeeded'' then ''completed'' else ''failed'')"
    using set_case_status_status[OF c] by (simp_all add: s')
  show "\<exists>rec. sh_audit s' = sh_audit s @ [rec] \<and> safety_decision_record_row_ok rec \<and> sdr_outcome rec = rr_outcome r
       \<and> sdr_test_run_id rec = Some (x_run_id env n)"
    using append_execution_outcome_ok[OF a] by (auto simp: s')
qed

lemma record_run_ok:
  assumes "record_run env rq headers r w = (w', Inr rid)"
  obtains rv now rec audit where "tq_revision rq = Some rv"
    "sh_runs (w_shared w') rid = Some (test_run_of rq headers rv r rid now)"
    "map_option tc_status (test_cases (sh_store (w_shared w')) (tq_case_id rq))
       = Some (if rr_outcome r = ''succeeded'' then ''completed'' else ''failed'')"
    "sh_audit (w_shared w') = audit @ [rec]" "safety_decision_record_row_ok rec" "sdr_outcome rec = rr_outcome r"
    "sdr_test_run_id rec = Some rid"
proof -
  from assms obtain rv where rv: "tq_revision rq = Some rv" and rid: "rid = x_run_id env (w_tick w)"
    and i: "interact env (\<lambda>n s. committed env n (write_test_run env rq headers rv r n s) s) w = (w', True)"
    by (auto simp: record_run_def split: option.splits prod.splits bool.splits)
  from interact_seen[OF i] obtain s where "write_test_run env rq headers rv r (w_tick w) s = Some (w_shared w')" by blast
  note ok = write_test_run_ok[OF this, folded rid]
  from ok(3) obtain rec where "sh_audit (w_shared w') = sh_audit s @ [rec]" "safety_decision_record_row_ok rec"
    "sdr_outcome rec = rr_outcome r" "sdr_test_run_id rec = Some rid" by blast
  then show thesis using that rv ok(1,2) by blast
qed

lemma record_run_error: "snd (record_run env rq headers r w) \<noteq> Inl (TestExecutionBlocked cd rsn)"
  by (simp add: record_run_def split: option.split prod.split bool.split)

lemma record_blocked_ok:
  assumes "record_blocked_case env rq cd rsn w = (w', r)"
  shows "\<exists>e. r = Inl e \<and> (\<forall>cd' rsn'. e = TestExecutionBlocked cd' rsn' \<longrightarrow> cd' = cd
      \<and> map_option tc_status (test_cases (sh_store (w_shared w')) (tq_case_id rq)) = Some ''blocked''
      \<and> sh_audit (w_shared w') \<noteq> [] \<and> sdr_outcome (last (sh_audit (w_shared w'))) = ''blocked''
      \<and> sdr_code (last (sh_audit (w_shared w'))) = Some cd)"
proof -
  obtain w1 seen where i: "interact env (\<lambda>n s. committed env n (write_blocked rq cd rsn s) s) w = (w1, seen)" by fastforce
  show ?thesis
  proof (cases seen)
    case True
    then have i': "interact env (\<lambda>n s. committed env n (write_blocked rq cd rsn s) s) w = (w1, True)" using i by simp
    from interact_seen[OF i'] obtain s where w: "write_blocked rq cd rsn s = Some (w_shared w1)" by blast
    then obtain db audit where f: "flush_status (tq_case_id rq) ''running'' ''blocked'' (sh_store s) = Some db"
      and a: "append_execution_outcome ''blocked'' (tgt_id (tq_target rq)) (map_option rev_id (tq_revision rq))
              (tq_case_id rq) None None None (Some cd) (Some rsn) (sh_audit s) = Inr audit"
      and s: "w_shared w1 = s\<lparr>sh_store := db, sh_audit := audit\<rparr>"
      by (auto simp: write_blocked_def split: option.splits sum.splits)
    from append_execution_outcome_ok[OF a] obtain rec where "audit = sh_audit s @ [rec]" "sdr_outcome rec = ''blocked''"
      "sdr_code rec = Some cd" by blast
    moreover have "map_option tc_status (test_cases db (tq_case_id rq)) = Some ''blocked''"
      using f set_case_status_status by (auto simp: flush_status_def split: if_splits)
    ultimately show ?thesis using assms i True s by (auto simp: record_blocked_case_def)
  qed (use assms i in \<open>auto simp: record_blocked_case_def\<close>)
qed

lemma prepare_blocked:
  assumes "prepare_test_case env cid w = (w', Inl (TestExecutionBlocked cd rsn))"
  shows "cd = ''plan_bound_execution_required''"
proof -
  have "cd = ''plan_bound_execution_required''" if "select_test_case db cid = Inl (TestExecutionBlocked cd rsn)" for db
    using that by (auto simp: select_test_case_def Let_def split: option.splits if_splits sum.splits)
  then show ?thesis using assms
    by (auto simp: prepare_test_case_def interact_def res_map_def split: prod.splits sum.splits if_splits bool.splits)
qed

lemma acquire_not_blocked: "snd (interact env (acquire_txn env rq) w) \<noteq> Inl (TestExecutionBlocked cd rsn)"
  by (simp add: acquire_txn_def split: prod.split bool.split)

text \<open>The two results that are recorded as runs: exactly one of status and error is given.\<close>

definition run_result_ok :: "run_result \<Rightarrow> bool" where
  "run_result_ok r \<longleftrightarrow> (rr_outcome r = ''succeeded'' \<and> rr_status r \<noteq> None \<and> rr_error r = None)
     \<or> (rr_outcome r = ''failed'' \<and> rr_status r = None \<and> rr_error r \<noteq> None)"

lemma record_outcome_cases:
  assumes "record_outcome env rq headers (w, res) = (w', r)"
  obtains (run) rr where "record_run env rq headers rr w = (w', r)" "run_result_ok rr"
  | (blocked) cd rsn where "record_blocked_case env rq cd rsn w = (w', r)"
  | (raised) m where "r = Inl (TestExecutionRaised m)"
  using assms by (fastforce simp: record_outcome_def run_result_ok_def split: sum.splits execution_error.splits)


subsection \<open>Facts: generation\<close>

definition generated_key :: "generated_test_case \<Rightarrow> row_id \<times> row_id \<times> row_id \<times> string" where
  "generated_key g = (gtc_endpoint_id g, gtc_actor_identity_id g, gtc_resource_id g, gtc_test_type g)"

lemma pending_case_key [simp]: "case_key (pending_case i now g) = generated_key g"
  by (simp add: case_key_def pending_case_def generated_key_def)

lemma insert_cases_exact:
  "\<exists>new. insert_cases ids now n gs cases = cases @ new \<and> length new \<le> length gs
     \<and> (\<forall>c \<in> set new. \<exists>g \<in> set gs. c = pending_case (tc_id c) now g)
     \<and> (distinct (map case_key cases) \<longrightarrow> distinct (map case_key (cases @ new)))
     \<and> case_key ` set (cases @ new) = case_key ` set cases \<union> generated_key ` set gs"
proof (induction gs arbitrary: n cases)
  case (Cons g gs)
  let ?c = "pending_case (ids n) now g"
  show ?case
  proof (cases "list_ex (\<lambda>d. case_key d = case_key ?c) cases")
    case True
    then have "generated_key g \<in> case_key ` set cases" by (simp add: list_ex_iff) (metis image_eqI)
    then show ?thesis using Cons.IH[of "Suc n" cases] True
      by (simp add: Let_def insert_absorb) (fastforce simp: le_SucI)
  next
    case False
    from Cons.IH[of "Suc n" "cases @ [?c]"] obtain new where
      new: "insert_cases ids now (Suc n) gs (cases @ [?c]) = (cases @ [?c]) @ new" "length new \<le> length gs"
        "\<forall>c \<in> set new. \<exists>g \<in> set gs. c = pending_case (tc_id c) now g"
        "distinct (map case_key (cases @ [?c])) \<longrightarrow> distinct (map case_key ((cases @ [?c]) @ new))"
        "case_key ` set ((cases @ [?c]) @ new) = case_key ` set (cases @ [?c]) \<union> generated_key ` set gs" by blast
    have fresh: "generated_key g \<notin> case_key ` set cases" using False by (auto simp: list_ex_iff)
    have id: "tc_id ?c = ids n" by (simp add: pending_case_def)
    show ?thesis
      by (rule exI[of _ "?c # new"]) (use new fresh False id in \<open>auto simp: Let_def\<close>)
  qed
qed simp

lemma insert_cases_again:
  assumes "generated_key ` set gs \<subseteq> case_key ` set cases"
  shows "insert_cases ids now n gs cases = cases"
  using assms by (induction gs arbitrary: n) (auto simp: list_ex_iff Let_def)

text \<open>The triples of a target for which a case is due.\<close>

definition case_due :: "case_tables \<Rightarrow> target \<Rightarrow> endpoint \<Rightarrow> test_identity \<Rightarrow> resource \<Rightarrow> bool" where
  "case_due db t ep a r \<longleftrightarrow>
     ep \<in> set (ct_endpoints db) \<and> ep_target_id ep = tgt_id t \<and> a \<in> set (ct_identities db) \<and> r \<in> set (ct_resources db)
     \<and> bola_applies ep a r"

text \<open>
  C24. Generating the test cases of a target never fails and is idempotent: the cases that are there stay as they are, in
  front of the new ones; after the request there is a case for every endpoint, active actor and resource for
  which one is due, with the test type of the actor's relation to the resource; every new case is pending, due, and
  has the relation and expected statuses that belong to it; no two cases share a key if none did before; the counts
  add up; and generating again creates nothing.
\<close>

theorem generation_idempotent:
  assumes "ct_targets db tid = Some t"
  shows "\<exists>new r db'. generate_bola_cases ids now tid db = (db', Inr r) \<and> db' = db\<lparr>ct_cases := ct_cases db @ new\<rparr>
    \<and> gr_created r = length new \<and> gr_generated r = gr_created r + gr_existing r
    \<and> (distinct (map case_key (ct_cases db)) \<longrightarrow> distinct (map case_key (ct_cases db')))
    \<and> (\<forall>ep a rs. case_due db t ep a rs \<longrightarrow>
         generated_key (generated_case ep a rs (relation_of a rs)) \<in> case_key ` set (ct_cases db'))
    \<and> (\<forall>c \<in> set new. tc_status c = ''pending'' \<and> (\<exists>ep a rs. case_due db t ep a rs
         \<and> c = pending_case (tc_id c) now (generated_case ep a rs (relation_of a rs))))
    \<and> (\<forall>ids' now'. generate_bola_cases ids' now' tid db'
         = (db', Inr (r\<lparr>gr_created := 0, gr_existing := gr_generated r\<rparr>)))"
proof -
  let ?e = "filter (\<lambda>e. ep_target_id e = tgt_id t) (ct_endpoints db)"
  let ?a = "filter (\<lambda>a. ident_target_id a = tgt_id t \<and> ident_is_active a) (ct_identities db)"
  let ?r = "filter (\<lambda>r. res_target_id r = tgt_id t) (ct_resources db)"
  obtain cs where cs: "generate_bola_test_cases ?e ?a ?r = Inr cs"
    and set_cs: "set cs = {generated_case ep a r (relation_of a r) | ep a r. ep \<in> set ?e \<and> a \<in> set ?a \<and> r \<in> set ?r
        \<and> bola_applies ep a r}" using generated_set[of ?e ?a ?r] by blast
  have app: "ep \<in> set ?e \<and> a \<in> set ?a \<and> r \<in> set ?r \<and> bola_applies ep a r \<longleftrightarrow> case_due db t ep a r" for ep a r
    by (auto simp: case_due_def bola_applies_def)
  have due: "g \<in> set cs \<longleftrightarrow> (\<exists>ep a rs. case_due db t ep a rs \<and> g = generated_case ep a rs (relation_of a rs))" for g
    unfolding set_cs mem_Collect_eq using app by blast
  from insert_cases_exact[of ids now 0 cs "ct_cases db"] obtain new where
    new: "insert_cases ids now 0 cs (ct_cases db) = ct_cases db @ new" "length new \<le> length cs"
      "\<forall>c \<in> set new. \<exists>g \<in> set cs. c = pending_case (tc_id c) now g"
      "distinct (map case_key (ct_cases db)) \<longrightarrow> distinct (map case_key (ct_cases db @ new))"
      "case_key ` set (ct_cases db @ new) = case_key ` set (ct_cases db) \<union> generated_key ` set cs" by blast
  let ?db = "db\<lparr>ct_cases := ct_cases db @ new\<rparr>"
  let ?resp = "\<lparr>gr_target_id = tgt_id t, gr_generated = length cs, gr_created = length new, gr_existing = length cs - length new\<rparr>"
  have first: "generate_bola_cases ids now tid db = (?db, Inr ?resp)"
    using assms cs new(1) by (simp add: generate_bola_cases_def Let_def)
  have 2: "generate_bola_cases ids' now' tid ?db = (?db, Inr (?resp\<lparr>gr_created := 0, gr_existing := length cs\<rparr>))" for ids' now'
    using assms cs insert_cases_again[of cs "ct_cases db @ new" ids' now' 0] new(5)
    by (simp add: generate_bola_cases_def Let_def)
  have 3: "tc_status c = ''pending'' \<and> (\<exists>ep a rs. case_due db t ep a rs
         \<and> c = pending_case (tc_id c) now (generated_case ep a rs (relation_of a rs)))" if "c \<in> set new" for c
  proof -
    from new(3) that obtain g where g: "g \<in> set cs" "c = pending_case (tc_id c) now g" by blast
    have "tc_status (pending_case i now g) = ''pending''" for i by (simp add: pending_case_def)
    with g(2) have "tc_status c = ''pending''" by metis
    then show ?thesis using g due by metis
  qed
  have 4: "generated_key (generated_case ep a rs (relation_of a rs)) \<in> case_key ` set (ct_cases ?db)"
    if "case_due db t ep a rs" for ep a rs
  proof -
    have "generated_case ep a rs (relation_of a rs) \<in> set cs" using that due by blast
    then show ?thesis using new(5) by (simp add: image_Un)
  qed
  show ?thesis
  proof (intro exI[of _ new] exI[of _ ?resp] exI[of _ ?db] conjI allI impI ballI, goal_cases)
    case 1
    show ?case by (rule first)
  next
    case (9 ids' now')
    show ?case using 2[of ids' now'] by simp
  qed (use new(2,4) 3 4 in simp_all)
qed

subsection \<open>A platform\<close>

definition direct_store :: store where
  "direct_store = planning_store\<lparr>revisions := (\<lambda>i. map_option (\<lambda>rv. rv\<lparr>rev_require_human_execution_approval := False\<rparr>)
     (revisions planning_store i))\<rparr>"

definition direct_world :: world where
  "direct_world = lab_world\<lparr>w_shared := (w_shared lab_world)\<lparr>sh_store := direct_store\<rparr>\<rparr>"

lemma direct_run:
  "case execute_case lab_exec 11 direct_world of (w', r) \<Rightarrow> r = Inr 90 \<and> length (w_connections w') = 1"
  by code_simp


definition lab_case_tables :: case_tables where
  "lab_case_tables = \<lparr>ct_targets = targets lab_store, ct_endpoints = [lab_endpoint],
     ct_identities = [the (identities lab_store 3)], ct_resources = [lab_resource], ct_cases = []\<rparr>"

theorem generation_idempotent_witness:
  "\<exists>db' r. generate_bola_cases int 0 1 lab_case_tables = (db', Inr r) \<and> length (ct_cases db') = 1
     \<and> generate_bola_cases int 9 1 db' = (db', Inr (r\<lparr>gr_created := 0, gr_existing := gr_generated r\<rparr>))"
proof -
  have t: "ct_targets lab_case_tables 1 = Some (the (targets lab_store 1))" by code_simp
  have n: "length (ct_cases (fst (generate_bola_cases int 0 1 lab_case_tables))) = 1" by code_simp
  from generation_idempotent[OF t, of int 0] show ?thesis using n by (elim exE conjE) (metis fst_conv)
qed

text \<open>
  A response body with a NUL character cannot be stored: the run fails after the request was sent, and the test case
  stays running, so that it can never be executed again.
\<close>

definition nul_exec :: exec_env where
  "nul_exec = lab_exec\<lparr>x_gateway := (\<lambda>_. lab_env\<lparr>env_exchange :=
     Responded \<lparr>resp_status = 200, resp_headers = [], resp_chunks = [[CHR 0x00]]\<rparr>\<rparr>)\<rparr>"

lemma nul_body_strands_case:
  "case execute_case nul_exec 11 direct_world of (w', r) \<Rightarrow>
     r = Inl (TestExecutionRaised ''commit'') \<and> length (w_connections w') = 1
     \<and> snd (execute_case lab_exec 11 w') = Inl (TestExecutionError ''TestCase is already running.'')"
  by code_simp

text \<open>
  A run whose credential is unavailable writes its status without looking at the row again: when another run
  has acquired the test case in between, its status becomes blocked while that run is still on the way.
\<close>

lemma blocked_overwrites_running:
  assumes "select_test_case (sh_store s0) cid = Inr rq" "test_case_headers (x_bearer env) (sh_store s0) (tq_actor rq) = Inl msg"
    and "s0 = x_others env (w_tick w) (w_shared w)" "\<not> x_fails env (w_tick w)"
    and "s1 = x_others env (w_tick w + 1) s0" "x_persist env (w_tick w + 1) = AttemptOk"
    and "map_option tc_status (test_cases (sh_store s1) cid) = Some ''running''" "tq_observed_status rq \<noteq> ''blocked''"
  shows "\<exists>w'. execute_case env cid w = (w', Inl (TestExecutionError msg))
    \<and> map_option tc_status (test_cases (sh_store (w_shared w')) cid) = Some ''blocked''"
  using assms set_case_status_status[of "sh_store s1" cid "''blocked''"]
  by (auto simp: execute_case_def prepare_test_case_def interact_def committed_def flush_status_def)

end
