(* ===== verification/Spec2Isabelle.thy ===== *)
theory Spec2Isabelle
  imports Network_Control Rate_Limit Plan_Execution Finding_Analysis Bola_Matrix Enrollment_Routes Openapi_Import Test_Execution
begin

text \<open>
  A verification development of the AI API Security Testing Platform, the Python backend under
  \<open>src/backend/app\<close> that tests APIs for broken object level authorization (BOLA).

  \<^bold>\<open>The program.\<close> An operator registers authorization profiles, whose revisions are drafted, activated and
  superseded, and enrolls assets: a candidate hostname is matched against the rules of a revision, validated by DNS,
  decided on by a human, and becomes a target. Targets have scopes, test identities
  with credentials, resources, and endpoints that are imported from OpenAPI documents. Test cases are generated from these and planned: an
  execution plan freezes one GET request, its actor, its authorization and a digest over all of it, and may
  need a human decision on exactly this digest. A worker that executes a plan claims it in PostgreSQL
  with a lease and a fencing generation, checks integrity, approval, authorization and cancellation, marks
  the start of the network phase once, passes the policy engine twice, a rate limiter and a
  bound on concurrent requests, and sends the request through a gateway that connects only to addresses its
  destination policy accepts. In a single process, a test case that needs no approval may also be
  executed directly. The response is stored; the analyzer compares it with that of the owner.

  \<^bold>\<open>The theories, and the code they translate.\<close>

  \<^item> \<open>Api_Prelude\<close>: results as sums, named collections and generic lemmas.
    \<open>PyText\<close>, \<open>PyIp\<close>, \<open>PyUrl\<close>, \<open>PyBase64\<close>, \<open>Json_Loads\<close>: the parts of Python's standard library that the code uses
    (\<open>str\<close>, \<open>ipaddress\<close>, \<open>urllib.parse\<close>, \<open>base64\<close>, \<open>json.loads\<close>). \<open>Db_Models\<close>: the rows of \<open>db/models\<close>.
  \<^item> \<open>Scope_Policy\<close> (\<open>policies/scope_policy.py\<close>): the engine allows exactly what a declarative
    specification authorises; accepted paths are safe; patterns match by whole segments.
  \<^item> \<open>Destination\<close>, \<open>Gateway\<close> (\<open>network_safety/destination.py\<close>, \<open>gateway.py\<close>): in private mode, whatever
    the resolver and the peer do, connections go to loopback or private addresses only.
  \<^item> \<open>Plan_Coordination\<close> (\<open>services/execution_plan_claim.py\<close>, \<open>_progress.py\<close>, \<open>_cancellation.py\<close>): the SQL
    statements and the services with their retry loops, rolled back attempts and lost commits.
    \<open>Plan_Protocol\<close>: any number of workers and cancelling clients as a step relation \<open>pstep\<close>; a plan is sent
    at most once and never after a cancellation, superseded handles stay locked out, a crash before
    the network phase is recoverable.
  \<^item> \<open>Network_Control\<close>, \<open>Rate_Limit\<close> (\<open>network_safety/controller.py\<close>, \<open>postgres_controller.py\<close>,
    \<open>executors/rate_limit.py\<close>): step relations of any number of workers; the bounds on concurrency and rate.
  \<^item> \<open>Canonical_Json\<close>, \<open>Execution_Plan\<close>, \<open>Plan_Approval\<close>, \<open>Safety_Audit\<close> (\<open>services/execution_plan.py\<close>,
    \<open>execution_plan_approval.py\<close>, \<open>safety_audit.py\<close>): canonical texts are unambiguous, so that a digest and a
    decision bind the content; what a created plan satisfies and that its rows validate.
  \<^item> \<open>Credentials\<close> (\<open>credentials/\<close>, \<open>auth/context.py\<close>): encrypted envelopes and bearer tokens.
  \<^item> \<open>Http_Executor\<close>, \<open>Plan_Execution\<close> (\<open>executors/http.py\<close>, \<open>services/plan_execution.py\<close>): a whole run of
    \<open>execute\<close> under interference is a sequence of protocol steps and opens at most one, authorised connection.
  \<^item> \<open>Bola\<close> (\<open>domain/ownership.py\<close>, \<open>generators/bola.py\<close>, \<open>services/test_case_planning.py\<close>): exactly the due test
    cases, the shape of their URLs and their plans. \<open>Bola_Analysis\<close> (\<open>analyzers/bola.py\<close>): a potential BOLA is
    reported exactly on disclosure. \<open>Finding_Analysis\<close> (\<open>services/finding_analysis.py\<close>): findings and their
    evidence are recorded completely, once, and never overwritten. \<open>Bola_Matrix\<close> (\<open>generators/bola_matrix.py\<close>,
    \<open>services/resource_access_resolution.py\<close>, \<open>bola_binding_selection.py\<close> and the two previews): what a resolution of
    assertions means, and that previews are bounded and say only what was resolved.
  \<^item> \<open>Test_Execution\<close> (\<open>services/test_execution.py\<close>, \<open>api/routes/test_runs.py\<close>, \<open>api/routes/test_cases.py\<close>): the direct
    execution of a test case reaches the network only when everything is in order, and records its
    outcome; the generation of test cases is idempotent.
  \<^item> \<open>Hostname_Rules\<close> (\<open>services/asset_hostname_rule.py\<close>, \<open>asset_candidate_dns.py\<close>): hostnames and patterns in normal form,
    which rule decides on a candidate, and the bounded following of CNAME records. \<open>Enrollment\<close>
    (\<open>services/authorization_revision.py\<close>, \<open>asset_candidate_evaluation.py\<close>, \<open>asset_candidate_dns_validation.py\<close>,
    \<open>asset_enrollment_decision.py\<close>, \<open>approved_enrollment_target.py\<close>, and the routes of targets and profiles that
    write): the operations on the enrollment tables. \<open>Enrollment_Safety\<close>: their closure as a step relation; every
    enrolled target has its whole provenance, and history is never rewritten. \<open>Enrollment_Routes\<close>
    (\<open>api/routes/authorization_profiles.py\<close>): every request is answered with an expected status, and what a creating
    route answered is what the reading route gives later.
  \<^item> \<open>Openapi\<close> (\<open>scanners/openapi.py\<close>): the fetch is authorised on fresh data, a scan always returns a result true to the
    delivered document, and the parser finds exactly the endpoints of its operations. \<open>Openapi_Import\<close>
    (\<open>api/routes/openapi.py\<close>, \<open>services/openapi_credentials.py\<close>): an import stores exactly what was found, with one row per
    path and method, and importing again changes nothing.

  \<^bold>\<open>State and effects.\<close> Tables are records of maps and lists (\<open>store\<close>, \<open>plan_db\<close>); a transaction is
  a function from tables to tables and a result, which leaves them unchanged when it rolls back. The services
  of \<open>Plan_Execution\<close> run over a \<open>world\<close> that holds the shared tables, the audit and the trace of connections,
  and other sessions may change the tables at each \<open>interact\<close>. Exceptions are \<open>Inl\<close> values of a type
  per service. Interfaces between components are locales, interpreted on the definitions of the code.

  \<^bold>\<open>Idealisations.\<close> A Python string is the list of its UTF-8 bytes; seconds as floating point
  numbers are rationals; the interpreter's stack is unbounded; the attempts of one retry loop
  in \<open>Plan_Execution\<close> are one interaction, and so are the reads of one transaction; foreign keys
  hold; sequences give fresh identifiers. Parameters stand for code outside
  the repository: SHA-256, AES-GCM, \<open>getaddrinfo\<close>, the IDNA codec, \<open>httpcore\<close> and \<open>ssl\<close>, \<open>dnspython\<close>, \<open>zlib\<close>,
  the parsing of URLs by \<open>pydantic\<close>, what PostgreSQL makes of \<open>JSONB\<close> values and its collation, the clock, and what of
  Unicode case mapping and float conversion the analyzer relies on. What a property assumes of a
  parameter is a hypothesis of its statement.

  \<^bold>\<open>Fuel.\<close> The JSON scanner alone takes fuel, twice the length of the text plus one, which is shown to be
  enough for every text.

  \<^bold>\<open>Not modelled.\<close> The other HTTP routes and schemas (they pass requests to the services), the research
  and report services, binding candidates and reviewed assertions, the AI packages \<open>ai/w2\<close> and \<open>ai/w3\<close> (process isolation and
  brokers), configuration and migrations; the branches of \<open>PlanExecutionService\<close> and of the gateway
  that serve the research dispatcher.
\<close>

text \<open>
  Canonicalising a policy context agrees with the JSON library: the context that is stored in a plan is what
  \<open>json.loads\<close> reads from the canonical text, for every context whose integers and floats the
  library can write and read back and whose objects have no repeated key.
\<close>

theorem canonical_context_roundtrip:
  assumes "canonicalize_policy_context (Some v) = Inr c" "loadable flt v"
  shows "\<exists>t. canonical_json v = Inr t \<and> json_loads flt t = Inr c"
proof -
  have "canonical_context v = Inr c"
    using assms(1) by (auto simp: canonicalize_policy_context_def Let_def split: json.splits)
  then have "canonical_json v = Inr (json_text (json_sort v))" "c = json_sort v"
    by (auto simp: canonical_context_def canonical_json_def res_bind_def split: sum.splits if_splits)
  then show ?thesis using json_loads_written[of flt "json_sort v"] loadable_sort[of flt v] assms(2) by simp
qed

theorem canonical_context_roundtrip_witness:
  "\<exists>c t. canonicalize_policy_context (Some (JObj [(''b'', JFloat ''1.5''), (''a'', JArr [JInt (-3), JNull, JStr ''x''])])) = Inr c
     \<and> json_loads id t = Inr c"
proof -
  let ?v = "JObj [(''b'', JFloat ''1.5''), (''a'', JArr [JInt (-3), JNull, JStr ''x''])]"
  have "is_ok (canonicalize_policy_context (Some ?v))" by code_simp
  then obtain c where c: "canonicalize_policy_context (Some ?v) = Inr c" by (cases "canonicalize_policy_context (Some ?v)") auto
  have "loadable id ?v" by code_simp
  from canonical_context_roundtrip[OF c this] c show ?thesis by blast
qed

end
